(* ===== verification/Prelude.thy ===== *)
theory Prelude
  imports Complex_Main "HOL-Library.Code_Target_Numeral" "HOL-Library.AList" "HOL-Library.Sublist" "HOL-Library.Word"
begin

text \<open>
  The vocabulary shared by every component of the model.

  \<^item> Python exceptions: \<open>exn\<close> carries the class and the message; \<open>isinstance\<close> follows the
    class hierarchy as far as the handlers of the repository look at it. A function that may
    raise returns \<open>'a result\<close>, with \<open>Inl\<close> for the exception.
  \<^item> Python values: \<open>pyval\<close>, with the truth test, equality, ordering and \<open>repr\<close> of the
    language. Strings are sequences of the code points 0 to 255; \<open>PFloat\<close> holds a double (a
    finite one by its exact value), \<open>PDec\<close> a \<open>Decimal\<close> by its value.
  \<^item> Dicts are association lists in insertion order (\<open>pydict\<close>), since the order of iteration
    is visible to several loops of the code.
  \<^item> Generic lemmas on results, dicts and lists that the components share.
\<close>

section \<open>Collections\<close>

named_theorems result_simps \<open>unfolding and splitting of results\<close>
named_theorems dict_simps \<open>lookups in dicts\<close>
named_theorems effect_simps \<open>the effects of an operation on each field of its state\<close>

section \<open>Exceptions and results\<close>

datatype exn_class =
    TypeError | ValueError | KeyError | AttributeError | AssertionError | RuntimeError
  | OverflowError | InvalidOperation | TimeoutError | ConnectionError | OSError
  | FileNotFoundError | YAMLError | JSONDecodeError | UnicodeDecodeError | ImportError | NotImplementedError
  | InvalidPANError | MaskingError | ValidationError | RuleConfigError | SchemaValidationError
  | MLClientError | CircuitBreakerError | KafkaException | BufferError
  | OperationalError | InterfaceError | HTTPException int | OtherException

datatype exn = Exn (exn_cls: exn_class) (exn_msg: string)

type_synonym 'a result = "exn + 'a"

text \<open>
  The proper base classes of each class below \<open>Exception\<close>. Since Python 3.11
  \<open>concurrent.futures.TimeoutError\<close> is the builtin \<open>TimeoutError\<close>, a subclass of \<open>OSError\<close>.
\<close>

fun exn_bases :: "exn_class \<Rightarrow> exn_class list" where
  "exn_bases TimeoutError = [OSError]"
| "exn_bases ConnectionError = [OSError]"
| "exn_bases FileNotFoundError = [OSError]"
| "exn_bases JSONDecodeError = [ValueError]"
| "exn_bases UnicodeDecodeError = [ValueError]"
| "exn_bases NotImplementedError = [RuntimeError]"
| "exn_bases InvalidPANError = [ValueError]"
| "exn_bases MaskingError = [RuntimeError]"
| "exn_bases ValidationError = [ValueError]"
| "exn_bases RuleConfigError = [RuntimeError]"
| "exn_bases _ = []"

definition isinstance :: "exn \<Rightarrow> exn_class \<Rightarrow> bool" where
  "isinstance e c \<longleftrightarrow> exn_cls e = c \<or> c \<in> set (exn_bases (exn_cls e))"

definition raise_exn :: "exn_class \<Rightarrow> string \<Rightarrow> 'a result" where
  "raise_exn c m = Inl (Exn c m)"

definition rbind :: "'a result \<Rightarrow> ('a \<Rightarrow> 'b result) \<Rightarrow> 'b result" where
  "rbind m f = (case m of Inl e \<Rightarrow> Inl e | Inr v \<Rightarrow> f v)"

lemma rbind_simps [simp]:
  "rbind (Inl e) f = Inl e"
  "rbind (Inr v) f = f v"
  by (simp_all add: rbind_def)

lemma rbind_eq_Inr [result_simps]: "rbind m f = Inr w \<longleftrightarrow> (\<exists>v. m = Inr v \<and> f v = Inr w)"
  by (cases m) auto

lemma rbind_eq_Inl [result_simps]:
  "rbind m f = Inl e \<longleftrightarrow> m = Inl e \<or> (\<exists>v. m = Inr v \<and> f v = Inl e)"
  by (cases m) auto

lemma raise_exn_simps [simp]: "raise_exn c m \<noteq> Inr v" "Inr v \<noteq> raise_exn c m"
  by (simp_all add: raise_exn_def)

lemma raise_exn_eq_Inl [result_simps]: "raise_exn c m = Inl e \<longleftrightarrow> e = Exn c m"
  by (auto simp: raise_exn_def)

text \<open>A loop whose body may raise: stops at the first exception.\<close>

fun rmap :: "('a \<Rightarrow> 'b result) \<Rightarrow> 'a list \<Rightarrow> 'b list result" where
  "rmap f [] = Inr []"
| "rmap f (x # xs) = rbind (f x) (\<lambda>y. rbind (rmap f xs) (\<lambda>ys. Inr (y # ys)))"

lemma rmap_Inr_iff: "rmap f xs = Inr ys \<longleftrightarrow> list_all2 (\<lambda>x y. f x = Inr y) xs ys"
  by (induction xs arbitrary: ys) (auto simp: result_simps list_all2_Cons1)

lemma rmap_length: "rmap f xs = Inr ys \<Longrightarrow> length ys = length xs"
  by (auto simp: rmap_Inr_iff dest: list_all2_lengthD)

lemma rmap_total: "(\<And>x. x \<in> set xs \<Longrightarrow> \<exists>y. f x = Inr y) \<Longrightarrow> \<exists>ys. rmap f xs = Inr ys"
proof (induction xs)
  case (Cons x xs)
  then obtain y ys where "f x = Inr y" "rmap f xs = Inr ys" by fastforce
  then show ?case by simp
qed simp

section \<open>Strings\<close>

fun show_nat :: "nat \<Rightarrow> string" where
  "show_nat n = (if n < 10 then [char_of (48 + n)] else show_nat (n div 10) @ [char_of (48 + n mod 10)])"

declare show_nat.simps [simp del]

definition show_int :: "int \<Rightarrow> string" where
  "show_int i = (if i < 0 then ''-'' @ show_nat (nat (- i)) else show_nat (nat i))"

definition code :: "char \<Rightarrow> nat" where
  "code c = of_char c"

text \<open>\<open>\d\<close> of a regular expression and the digits that \<open>int\<close> reads, on code points up to 255.\<close>

definition dec_digit :: "char \<Rightarrow> bool" where
  "dec_digit c \<longleftrightarrow> 48 \<le> code c \<and> code c \<le> 57"

definition digit_val :: "char \<Rightarrow> nat" where
  "digit_val c = code c - 48"

text \<open>\<open>str.isdigit\<close> also accepts the superscripts two, three and one.\<close>

definition isdigit_char :: "char \<Rightarrow> bool" where
  "isdigit_char c \<longleftrightarrow> dec_digit c \<or> code c \<in> {178, 179, 185}"

definition isdigit :: "string \<Rightarrow> bool" where
  "isdigit s \<longleftrightarrow> s \<noteq> [] \<and> list_all isdigit_char s"

text \<open>\<open>\s\<close> of a regular expression.\<close>

definition whitespace :: "char \<Rightarrow> bool" where
  "whitespace c \<longleftrightarrow> (9 \<le> code c \<and> code c \<le> 13) \<or> (28 \<le> code c \<and> code c \<le> 32) \<or> code c = 133 \<or> code c = 160"

definition alnum_ascii :: "char \<Rightarrow> bool" where
  "alnum_ascii c \<longleftrightarrow> dec_digit c \<or> (65 \<le> code c \<and> code c \<le> 90) \<or> (97 \<le> code c \<and> code c \<le> 122)"

definition lower_char :: "char \<Rightarrow> char" where
  "lower_char c =
     (if (65 \<le> code c \<and> code c \<le> 90) \<or> (192 \<le> code c \<and> code c \<le> 222 \<and> code c \<noteq> 215)
      then char_of (code c + 32) else c)"

definition lower_str :: "string \<Rightarrow> string" where
  "lower_str s = map lower_char s"

text \<open>\<open>s.split(c)\<close> and \<open>c.join(parts)\<close> for a one-character separator.\<close>

fun split_on :: "char \<Rightarrow> string \<Rightarrow> string list" where
  "split_on c [] = [[]]"
| "split_on c (x # xs) =
     (if x = c then [] # split_on c xs
      else (case split_on c xs of [] \<Rightarrow> [[x]] | p # ps \<Rightarrow> (x # p) # ps))"

fun join_with :: "string \<Rightarrow> string list \<Rightarrow> string" where
  "join_with sep [] = []"
| "join_with sep [p] = p"
| "join_with sep (p # q # ps) = p @ sep @ join_with sep (q # ps)"

lemma split_on_nonempty [simp]: "split_on c s \<noteq> []"
  by (induction s) (auto split: list.splits)

lemma join_split [simp]: "join_with [c] (split_on c s) = s"
proof (induction s)
  case (Cons x xs)
  then show ?case by (cases "split_on c xs" rule: list.exhaust; cases "tl (split_on c xs)") auto
qed simp

fun str_less :: "string \<Rightarrow> string \<Rightarrow> bool" where
  "str_less [] [] = False"
| "str_less [] (y # ys) = True"
| "str_less (x # xs) [] = False"
| "str_less (x # xs) (y # ys) = (code x < code y \<or> (x = y \<and> str_less xs ys))"

text \<open>\<open>repr\<close> of a string: the quotes Python chooses, its escapes, \<open>\x\<close> for what is not printable.\<close>

definition hex_digit :: "nat \<Rightarrow> char" where
  "hex_digit n = (if n < 10 then char_of (48 + n) else char_of (87 + n))"

fun show_hex :: "nat \<Rightarrow> string" where
  "show_hex n = (if n < 16 then [hex_digit n] else show_hex (n div 16) @ [hex_digit (n mod 16)])"

declare show_hex.simps [simp del]

definition repr_char :: "char \<Rightarrow> char \<Rightarrow> string" where
  "repr_char q c =
     (if c = q \<or> code c = 92 then [char_of (92::nat), c]
      else if code c = 9 then [char_of (92::nat), CHR ''t'']
      else if code c = 10 then [char_of (92::nat), CHR ''n'']
      else if code c = 13 then [char_of (92::nat), CHR ''r'']
      else if code c < 32 \<or> (127 \<le> code c \<and> code c \<le> 160) \<or> code c = 173
      then [char_of (92::nat), CHR ''x'', hex_digit (code c div 16), hex_digit (code c mod 16)]
      else [c])"

definition repr_str :: "string \<Rightarrow> string" where
  "repr_str s =
     (let q = (if char_of (39::nat) \<in> set s \<and> char_of (34::nat) \<notin> set s
               then char_of (34::nat) else char_of (39::nat))
      in [q] @ concat (map (repr_char q) s) @ [q])"

end
