(* ===== verification/Pyval.thy ===== *)
theory Pyval
  imports Prelude
begin

text \<open>
  Dynamic Python values, their truth test, equality and ordering, and dicts as association
  lists in insertion order.
\<close>

section \<open>Values\<close>

datatype pyfloat = Fin rat | PosInf | NegInf | NaN

datatype pyval =
    PNone
  | PBool bool
  | PInt int
  | PFloat pyfloat
  | PDec pyfloat
  | PStr string
  | PBytes "8 word list"
  | PList "pyval list"
  | PDict "(string \<times> pyval) list"

type_synonym pydict = "(string \<times> pyval) list"

fun truthy :: "pyval \<Rightarrow> bool" where
  "truthy PNone = False"
| "truthy (PBool b) = b"
| "truthy (PInt i) = (i \<noteq> 0)"
| "truthy (PFloat f) = (f \<noteq> Fin 0)"
| "truthy (PDec d) = (d \<noteq> Fin 0)"
| "truthy (PStr s) = (s \<noteq> [])"
| "truthy (PBytes b) = (b \<noteq> [])"
| "truthy (PList xs) = (xs \<noteq> [])"
| "truthy (PDict d) = (d \<noteq> [])"

text \<open>\<open>x or y\<close>.\<close>

definition py_or :: "pyval \<Rightarrow> pyval \<Rightarrow> pyval" where
  "py_or x y = (if truthy x then x else y)"

text \<open>What a set or the keys of a dict can hold.\<close>

fun hashable :: "pyval \<Rightarrow> bool" where
  "hashable (PList xs) = False"
| "hashable (PDict d) = False"
| "hashable _ = True"

section \<open>Dicts\<close>

definition has_key :: "('k \<times> 'v) list \<Rightarrow> 'k \<Rightarrow> bool" where
  "has_key d k \<longleftrightarrow> map_of d k \<noteq> None"

text \<open>\<open>d.get(k)\<close>, \<open>d.get(k, v)\<close>, \<open>d[k]\<close> and \<open>d[k] = v\<close>.\<close>

definition dget :: "pydict \<Rightarrow> string \<Rightarrow> pyval" where
  "dget d k = (case map_of d k of None \<Rightarrow> PNone | Some v \<Rightarrow> v)"

definition dget_or :: "pydict \<Rightarrow> string \<Rightarrow> pyval \<Rightarrow> pyval" where
  "dget_or d k v = (case map_of d k of None \<Rightarrow> v | Some w \<Rightarrow> w)"

definition dsub :: "pydict \<Rightarrow> string \<Rightarrow> pyval result" where
  "dsub d k = (case map_of d k of None \<Rightarrow> raise_exn KeyError (repr_str k) | Some v \<Rightarrow> Inr v)"

definition dset :: "('k \<times> 'v) list \<Rightarrow> 'k \<Rightarrow> 'v \<Rightarrow> ('k \<times> 'v) list" where
  "dset d k v = AList.update k v d"

lemma has_key_dset [dict_simps]: "has_key (dset d k v) k' \<longleftrightarrow> k' = k \<or> has_key d k'"
  by (simp add: has_key_def dset_def AList.update_conv')

lemma map_of_dset [dict_simps]: "map_of (dset d k v) k' = (if k' = k then Some v else map_of d k')"
  by (simp add: dset_def AList.update_conv')

lemma map_of_dset_fun: "map_of (dset d k v) = (map_of d)(k \<mapsto> v)"
  by (simp add: dset_def AList.update_conv')

lemma distinct_dset: "distinct (map fst d) \<Longrightarrow> distinct (map fst (dset d k v))"
  by (simp add: dset_def AList.distinct_update)

lemma keys_dset: "map fst (dset d k v) = (if k \<in> set (map fst d) then map fst d else map fst d @ [k])"
  by (simp add: dset_def AList.update_keys)

lemma dset_new: "k \<notin> fst ` set d \<Longrightarrow> dset d k v = d @ [(k, v)]"
  by (induction d) (auto simp: dset_def)

lemma has_key_iff: "has_key d k \<longleftrightarrow> k \<in> fst ` set d"
  unfolding has_key_def by (simp add: map_of_eq_None_iff)

lemma dget_None_iff: "\<not> has_key d k \<Longrightarrow> dget d k = PNone"
  by (simp add: has_key_def dget_def)

text \<open>Counting into a dict, as the code does with \<open>d[k] = d.get(k, 0) + 1\<close>.\<close>

definition dbump :: "('k \<times> nat) list \<Rightarrow> 'k \<Rightarrow> ('k \<times> nat) list" where
  "dbump d k = dset d k (case map_of d k of None \<Rightarrow> 1 | Some n \<Rightarrow> Suc n)"

definition dcount :: "('k \<times> nat) list \<Rightarrow> 'k \<Rightarrow> nat" where
  "dcount d k = (case map_of d k of None \<Rightarrow> 0 | Some n \<Rightarrow> n)"

lemma dcount_Nil [simp]: "dcount [] k = 0"
  by (simp add: dcount_def)

lemma dcount_dbump [dict_simps]: "dcount (dbump d k) k' = (if k' = k then Suc (dcount d k) else dcount d k')"
  by (simp add: dcount_def dbump_def dict_simps split: option.splits)

lemma dcount_fold_dbump: "dcount (fold (\<lambda>k d. dbump d k) ks d) k = dcount d k + count_list ks k"
  by (induction ks arbitrary: d) (auto simp: dict_simps)

section \<open>Numbers\<close>

fun num_of :: "pyval \<Rightarrow> pyfloat option" where
  "num_of (PBool b) = Some (Fin (if b then 1 else 0))"
| "num_of (PInt i) = Some (Fin (of_int i))"
| "num_of (PFloat f) = Some f"
| "num_of (PDec d) = Some d"
| "num_of _ = None"

fun is_dec :: "pyval \<Rightarrow> bool" where
  "is_dec (PDec d) = True"
| "is_dec _ = False"

fun fl_less :: "pyfloat \<Rightarrow> pyfloat \<Rightarrow> bool" where
  "fl_less (Fin x) (Fin y) = (x < y)"
| "fl_less (Fin x) PosInf = True"
| "fl_less NegInf (Fin y) = True"
| "fl_less NegInf PosInf = True"
| "fl_less _ _ = False"

fun fl_eq :: "pyfloat \<Rightarrow> pyfloat \<Rightarrow> bool" where
  "fl_eq NaN _ = False"
| "fl_eq x y = (x = y)"

definition fl_le :: "pyfloat \<Rightarrow> pyfloat \<Rightarrow> bool" where
  "fl_le x y \<longleftrightarrow> fl_less x y \<or> fl_eq x y"

text \<open>
  \<open>==\<close>: numbers by value across types (NaN equals nothing), containers element by element,
  values of unrelated types are different.
\<close>

fun py_eq :: "pyval \<Rightarrow> pyval \<Rightarrow> bool"
  and py_eq_list :: "pyval list \<Rightarrow> pyval list \<Rightarrow> bool"
  and py_eq_items :: "(string \<times> pyval) list \<Rightarrow> (string \<times> pyval) list \<Rightarrow> bool" where
  "py_eq PNone y = (y = PNone)"
| "py_eq (PStr s) y = (y = PStr s)"
| "py_eq (PBytes b) y = (y = PBytes b)"
| "py_eq (PList xs) y = (case y of PList ys \<Rightarrow> py_eq_list xs ys | _ \<Rightarrow> False)"
| "py_eq (PDict d) y = (case y of PDict e \<Rightarrow> length d = length e \<and> py_eq_items d e | _ \<Rightarrow> False)"
| "py_eq (PBool b) y = (case num_of y of None \<Rightarrow> False | Some f \<Rightarrow> fl_eq (Fin (if b then 1 else 0)) f)"
| "py_eq (PInt i) y = (case num_of y of None \<Rightarrow> False | Some f \<Rightarrow> fl_eq (Fin (of_int i)) f)"
| "py_eq (PFloat x) y = (case num_of y of None \<Rightarrow> False | Some f \<Rightarrow> fl_eq x f)"
| "py_eq (PDec x) y = (case num_of y of None \<Rightarrow> False | Some f \<Rightarrow> fl_eq x f)"
| "py_eq_list [] ys = (ys = [])"
| "py_eq_list (x # xs) ys = (case ys of [] \<Rightarrow> False | y # ys' \<Rightarrow> py_eq x y \<and> py_eq_list xs ys')"
| "py_eq_items [] e = True"
| "py_eq_items (kv # d) e =
     ((case map_of e (fst kv) of None \<Rightarrow> False | Some w \<Rightarrow> py_eq (snd kv) w) \<and> py_eq_items d e)"

text \<open>
  The order comparisons. Mixed numbers compare by exact value; a comparison of a \<open>Decimal\<close>
  with NaN raises \<open>InvalidOperation\<close>, one of unordered types \<open>TypeError\<close>.
\<close>

definition num_cmp :: "(pyfloat \<Rightarrow> pyfloat \<Rightarrow> bool) \<Rightarrow> pyval \<Rightarrow> pyval \<Rightarrow> bool result" where
  "num_cmp rel a b =
     (case (num_of a, num_of b) of
        (Some x, Some y) \<Rightarrow>
          (if (is_dec a \<or> is_dec b) \<and> (x = NaN \<or> y = NaN)
           then raise_exn InvalidOperation ''comparison involving NaN''
           else Inr (rel x y))
      | _ \<Rightarrow> raise_exn TypeError ''comparison not supported'')"

fun py_less :: "pyval \<Rightarrow> pyval \<Rightarrow> bool result"
  and py_less_list :: "pyval list \<Rightarrow> pyval list \<Rightarrow> bool result" where
  "py_less (PStr s) y = (case y of PStr t \<Rightarrow> Inr (str_less s t) | _ \<Rightarrow> num_cmp fl_less (PStr s) y)"
| "py_less (PBytes b) y =
     (case y of PBytes c \<Rightarrow> Inr (str_less (map (\<lambda>w. char_of (unat w)) b) (map (\<lambda>w. char_of (unat w)) c))
      | _ \<Rightarrow> num_cmp fl_less (PBytes b) y)"
| "py_less (PList xs) y = (case y of PList ys \<Rightarrow> py_less_list xs ys | _ \<Rightarrow> num_cmp fl_less (PList xs) y)"
| "py_less x y = num_cmp fl_less x y"
| "py_less_list [] ys = Inr (ys \<noteq> [])"
| "py_less_list (x # xs) ys =
     (case ys of [] \<Rightarrow> Inr False
      | y # ys' \<Rightarrow> if py_eq x y then py_less_list xs ys' else py_less x y)"

text \<open>\<open>a > b\<close>, and \<open>a >= b\<close> for the scalar values the rules compare.\<close>

definition py_gt :: "pyval \<Rightarrow> pyval \<Rightarrow> bool result" where
  "py_gt a b = py_less b a"

definition py_ge :: "pyval \<Rightarrow> pyval \<Rightarrow> bool result" where
  "py_ge a b =
     (case num_of a of
        Some x \<Rightarrow> num_cmp (\<lambda>y x. fl_le y x) b a
      | None \<Rightarrow> rbind (py_less a b) (\<lambda>lt. Inr (\<not> lt)))"

lemma num_cmp_dec [simp]: "num_cmp r (PDec (Fin a)) (PDec (Fin b)) = Inr (r (Fin a) (Fin b))"
  by (simp add: num_cmp_def)

lemma num_cmp_int [simp]: "num_cmp r (PInt a) (PInt b) = Inr (r (Fin (of_int a)) (Fin (of_int b)))"
  by (simp add: num_cmp_def)

lemma py_gt_int [simp]: "py_gt (PInt a) (PInt b) = Inr (b < a)"
  by (simp add: py_gt_def)

lemma py_gt_dec [simp]: "py_gt (PDec (Fin a)) (PDec (Fin b)) = Inr (b < a)"
  by (simp add: py_gt_def)

lemma py_ge_int [simp]: "py_ge (PInt a) (PInt b) = Inr (b \<le> a)"
  by (auto simp: py_ge_def fl_le_def)

lemma py_eq_str [simp]: "py_eq (PStr s) (PStr t) \<longleftrightarrow> s = t"
  by auto

section \<open>Keeping the first record of each key\<close>

text \<open>
  The in-buffer deduplication of the sinks is one loop over the buffer with the set of the
  keys already seen and the list of the records kept so far.
\<close>

fun keep_first :: "('a \<Rightarrow> 'k) \<Rightarrow> 'k set \<Rightarrow> 'a list \<Rightarrow> 'a list" where
  "keep_first key seen [] = []"
| "keep_first key seen (x # xs) =
     (if key x \<in> seen then keep_first key seen xs
      else x # keep_first key (insert (key x) seen) xs)"

lemma keep_first_subseq: "subseq (keep_first key seen xs) xs"
  by (induction key seen xs rule: keep_first.induct) auto

lemma keep_first_keys: "key ` set (keep_first key seen xs) = key ` set xs - seen"
  by (induction key seen xs rule: keep_first.induct) auto

lemma keep_first_distinct: "distinct (map key (keep_first key seen xs))"
proof (induction key seen xs rule: keep_first.induct)
  case (2 key seen x xs)
  then show ?case using keep_first_keys [of key "insert (key x) seen" xs] by (auto simp: image_iff)
qed simp

lemma keep_first_find:
  "k \<notin> seen \<Longrightarrow> find (\<lambda>x. key x = k) (keep_first key seen xs) = find (\<lambda>x. key x = k) xs"
  by (induction key seen xs rule: keep_first.induct) auto

lemma keep_first_length: "length (keep_first key seen xs) \<le> length xs"
  by (induction key seen xs rule: keep_first.induct) auto

lemma keep_first_Nil_iff: "keep_first key {} xs = [] \<longleftrightarrow> xs = []"
  by (cases xs) auto

lemma keep_first_hd: "xs \<noteq> [] \<Longrightarrow> hd (keep_first key {} xs) = hd xs"
  by (cases xs) auto

lemma keep_first_id: "distinct (map key xs) \<Longrightarrow> key ` set xs \<inter> seen = {} \<Longrightarrow> keep_first key seen xs = xs"
  by (induction key seen xs rule: keep_first.induct) auto

end
