(* ===== verification/Py_Float.thy ===== *)
theory Py_Float
  imports Pyval
begin

text \<open>
  Binary64 arithmetic and \<open>int.to_bytes\<close> as far as the ingestion code relies on them.

  A finite double is modelled by its exact rational value. \<open>fl x\<close> is the double nearest to
  \<open>x\<close>, ties to even, for \<open>x\<close> in the normal range: 53 significant bits. The relative error
  bound \<open>fl_error\<close> and the exactness of rounding to an integer are what the encoding of
  amounts rests on.
\<close>

section \<open>Rounding half to even\<close>

definition round_half_even :: "rat \<Rightarrow> int" where
  "round_half_even x =
     (let f = \<lfloor>x\<rfloor>; d = x - of_int f
      in if d < 1/2 then f else if 1/2 < d then f + 1 else if even f then f else f + 1)"

lemma round_half_even_error: "\<bar>of_int (round_half_even x) - x\<bar> \<le> 1/2"
proof -
  define d where "d = x - of_int \<lfloor>x\<rfloor>"
  have d: "0 \<le> d" "d < 1" unfolding d_def by linarith+
  have "of_int (round_half_even x) - x =
      (if d < 1/2 then - d else if 1/2 < d then 1 - d else if even \<lfloor>x\<rfloor> then - d else 1 - d)"
    by (simp add: round_half_even_def Let_def d_def)
  then show ?thesis using d by (auto split: if_splits)
qed

lemma round_half_even_unique:
  assumes "\<bar>x - of_int n\<bar> < 1/2" shows "round_half_even x = n"
proof -
  have "\<bar>of_int (round_half_even x) - (of_int n :: rat)\<bar> < 1"
    using assms round_half_even_error [of x] by linarith
  then have "\<bar>round_half_even x - n\<bar> < 1"
    by (metis (mono_tags, opaque_lifting) of_int_1 of_int_abs of_int_diff of_int_less_iff)
  then show ?thesis by simp
qed

section \<open>Rounding to 53 bits\<close>

text \<open>The exponent of the last place of a nonzero \<open>x\<close>: \<open>2 ^ (k + 52) \<le> \<bar>x\<bar>\<close> bounds the error.\<close>

definition pow2 :: "int \<Rightarrow> rat" where
  "pow2 k = (if 0 \<le> k then 2 ^ nat k else 1 / 2 ^ nat (- k))"

fun nat_bits :: "nat \<Rightarrow> nat" where
  "nat_bits n = (if n = 0 then 0 else Suc (nat_bits (n div 2)))"

declare nat_bits.simps [simp del]

text \<open>Evaluation counts the powers of two up to the number: comparing costs less than dividing.\<close>

function bits_from :: "nat \<Rightarrow> nat \<Rightarrow> nat" where
  "bits_from p n = (if p = 0 \<or> n < p then 0 else Suc (bits_from (2 * p) n))"
  by pat_completeness auto
termination by (relation "measure (\<lambda>(p, n). Suc n - p)") auto

declare bits_from.simps [simp del]

lemma bits_from_half: "bits_from (2 * p) n = bits_from p (n div 2)"
proof (induction p n rule: bits_from.induct)
  case (1 p n)
  show ?case
  proof (cases "p = 0 \<or> n < 2 * p")
    case True
    moreover from True have "p = 0 \<or> n div 2 < p" by auto
    ultimately show ?thesis by (simp add: bits_from.simps [of "2 * p"] bits_from.simps [of p])
  next
    case False
    then have "\<not> n div 2 < p" by auto
    with False 1 show ?thesis by (simp add: bits_from.simps [of "2 * p"] bits_from.simps [of p])
  qed
qed

lemma nat_bits_code [code]: "nat_bits n = bits_from 1 n"
proof (induction n rule: nat_bits.induct)
  case (1 n)
  then show ?case
    using bits_from_half [of 1 n] by (simp add: nat_bits.simps [of n] bits_from.simps [of "Suc 0" n])
qed

lemma nat_bits_upper: "n < 2 ^ nat_bits n"
proof (induction n rule: nat_bits.induct)
  case (1 n)
  show ?case
  proof (cases "n = 0")
    case False
    with 1 have "n div 2 < 2 ^ nat_bits (n div 2)" by simp
    with False show ?thesis by (subst nat_bits.simps) simp
  qed (simp add: nat_bits.simps)
qed

lemma nat_bits_lower: "0 < n \<Longrightarrow> 2 ^ (nat_bits n - 1) \<le> n"
proof (induction n rule: nat_bits.induct)
  case (1 n)
  show ?case
  proof (cases "n div 2 = 0")
    case True
    with 1 show ?thesis by (subst nat_bits.simps) (simp add: nat_bits.simps)
  next
    case False
    with 1 have "2 ^ (nat_bits (n div 2) - 1) \<le> n div 2" by simp
    moreover from False obtain m where m: "nat_bits (n div 2) = Suc m"
      using nat_bits.simps [of "n div 2"] by auto
    ultimately have "2 ^ nat_bits (n div 2) \<le> 2 * (n div 2)" by simp
    also have "\<dots> \<le> n" by simp
    finally have "2 ^ nat_bits (n div 2) \<le> n" .
    moreover have "nat_bits n = Suc (nat_bits (n div 2))" using 1 nat_bits.simps [of n] by simp
    ultimately show ?thesis by simp
  qed
qed

text \<open>
  \<open>ulp_exp x\<close>: the bit lengths of numerator and denominator give the binary exponent of \<open>x\<close>
  up to one, and the comparison corrects it.
\<close>

definition ulp_exp :: "rat \<Rightarrow> int" where
  "ulp_exp x =
     (let (n, d) = quotient_of \<bar>x\<bar>;
          k = int (nat_bits (nat n)) - int (nat_bits (nat d))
      in (if pow2 k \<le> \<bar>x\<bar> then k else k - 1) - 52)"

definition fl :: "rat \<Rightarrow> rat" where
  "fl x = (if x = 0 then 0
           else of_int (round_half_even (x / pow2 (ulp_exp x))) * pow2 (ulp_exp x))"

lemma pow2_pos [simp]: "0 < pow2 k"
  by (simp add: pow2_def)

lemma pow2_eq: "pow2 k = 2 powi k"
  by (simp add: pow2_def power_int_def field_simps)

lemma pow2_add: "pow2 (a + b) = pow2 a * pow2 b"
  by (simp add: pow2_eq power_int_add)

lemma pow2_nat: "pow2 (int n) = 2 ^ n"
  by (simp add: pow2_def)

lemma pow2_minus: "pow2 (- int n) = 1 / 2 ^ n"
  by (simp add: pow2_def)

lemma pow2_nonzero [simp]: "pow2 k \<noteq> 0"
  by (simp add: pow2_def)

lemma ulp_exp_lower:
  assumes "x \<noteq> 0" shows "pow2 (ulp_exp x + 52) \<le> \<bar>x\<bar>"
proof -
  obtain n d where q: "quotient_of \<bar>x\<bar> = (n, d)" by (cases "quotient_of \<bar>x\<bar>")
  have d: "0 < d" and x: "\<bar>x\<bar> = of_int n / of_int d"
    using q quotient_of_denom_pos quotient_of_div by blast+
  have n: "0 < n"
  proof -
    have "0 < (of_int n :: rat) / of_int d" using assms x by (metis zero_less_abs_iff)
    then show ?thesis using d by (simp add: zero_less_divide_iff)
  qed
  define k where "k = int (nat_bits (nat n)) - int (nat_bits (nat d))"
  have "pow2 (k - 1) \<le> \<bar>x\<bar>"
  proof -
    have dn: "nat d < 2 ^ nat_bits (nat d)" by (rule nat_bits_upper)
    have nn: "2 ^ (nat_bits (nat n) - 1) \<le> nat n" by (rule nat_bits_lower) (use n in simp)
    have pos: "0 < nat_bits (nat n)" using n by (subst nat_bits.simps) simp
    have "(of_int d :: rat) \<le> 2 ^ nat_bits (nat d)"
    proof -
      have "d = int (nat d)" using d by simp
      also have "\<dots> \<le> int (2 ^ nat_bits (nat d))" using dn by linarith
      finally show ?thesis by (metis of_int_le_iff of_int_of_nat_eq of_nat_numeral of_nat_power)
    qed
    moreover have "(2 ^ (nat_bits (nat n) - 1) :: rat) \<le> of_int n"
    proof -
      have "int (2 ^ (nat_bits (nat n) - 1)) \<le> n" using nn n by linarith
      then show ?thesis by (metis of_int_le_iff of_int_of_nat_eq of_nat_numeral of_nat_power)
    qed
    ultimately have "2 ^ (nat_bits (nat n) - 1) / 2 ^ nat_bits (nat d) \<le> \<bar>x\<bar>"
      unfolding x using d n by (intro frac_le) auto
    moreover have "pow2 (k - 1) = 2 ^ (nat_bits (nat n) - 1) / 2 ^ nat_bits (nat d)"
    proof -
      have "pow2 (k - 1) = pow2 (int (nat_bits (nat n) - 1) + - int (nat_bits (nat d)))"
        using pos by (simp add: k_def algebra_simps of_nat_diff)
      also have "\<dots> = 2 ^ (nat_bits (nat n) - 1) / 2 ^ nat_bits (nat d)"
        by (simp only: pow2_add pow2_nat pow2_minus) simp
      finally show ?thesis .
    qed
    ultimately show ?thesis by simp
  qed
  then show ?thesis by (auto simp: ulp_exp_def q Let_def k_def [symmetric])
qed

theorem fl_error: "\<bar>fl x - x\<bar> \<le> \<bar>x\<bar> / 2 ^ 53"
proof (cases "x = 0")
  case False
  let ?u = "pow2 (ulp_exp x)"
  have "\<bar>of_int (round_half_even (x / ?u)) - x / ?u\<bar> * ?u \<le> 1/2 * ?u"
    by (intro mult_right_mono round_half_even_error) (simp add: less_imp_le)
  moreover have "\<bar>of_int (round_half_even (x / ?u)) - x / ?u\<bar> * ?u = \<bar>fl x - x\<bar>"
  proof -
    have "\<bar>of_int (round_half_even (x / ?u)) - x / ?u\<bar> * ?u
        = \<bar>(of_int (round_half_even (x / ?u)) - x / ?u) * ?u\<bar>"
      by (simp add: abs_mult less_imp_le)
    also have "(of_int (round_half_even (x / ?u)) - x / ?u) * ?u = fl x - x"
      using False pow2_pos [of "ulp_exp x"] by (simp add: fl_def left_diff_distrib)
    finally show ?thesis .
  qed
  moreover have "1/2 * ?u \<le> \<bar>x\<bar> / 2 ^ 53"
  proof -
    have "?u * 2 ^ 52 \<le> \<bar>x\<bar>"
      using ulp_exp_lower [OF False] pow2_add [of "ulp_exp x" 52] pow2_nat [of 52] by simp
    then show ?thesis by (simp add: field_simps)
  qed
  ultimately show ?thesis by linarith
qed (simp add: fl_def)

text \<open>The matching upper bound, so the exponent of the last place is determined by the magnitude.\<close>

lemma ulp_exp_upper:
  assumes "x \<noteq> 0" shows "\<bar>x\<bar> < pow2 (ulp_exp x + 53)"
proof -
  obtain n d where q: "quotient_of \<bar>x\<bar> = (n, d)" by (cases "quotient_of \<bar>x\<bar>")
  have d: "0 < d" and x: "\<bar>x\<bar> = of_int n / of_int d"
    using q quotient_of_denom_pos quotient_of_div by blast+
  have n: "0 < n"
  proof -
    have "0 < (of_int n :: rat) / of_int d" using assms x by (metis zero_less_abs_iff)
    then show ?thesis using d by (simp add: zero_less_divide_iff)
  qed
  define k where "k = int (nat_bits (nat n)) - int (nat_bits (nat d))"
  have "\<bar>x\<bar> < pow2 (k + 1)"
  proof -
    have nn: "nat n < 2 ^ nat_bits (nat n)" by (rule nat_bits_upper)
    have dn: "2 ^ (nat_bits (nat d) - 1) \<le> nat d" by (rule nat_bits_lower) (use d in simp)
    have pos: "0 < nat_bits (nat d)" using d by (subst nat_bits.simps) simp
    have "(of_int n :: rat) < 2 ^ nat_bits (nat n)"
    proof -
      have "n = int (nat n)" using n by simp
      also have "\<dots> < int (2 ^ nat_bits (nat n))" using nn by linarith
      finally show ?thesis by (metis of_int_less_iff of_int_of_nat_eq of_nat_numeral of_nat_power)
    qed
    moreover have "(2 ^ (nat_bits (nat d) - 1) :: rat) \<le> of_int d"
    proof -
      have "int (2 ^ (nat_bits (nat d) - 1)) \<le> d" using dn d by linarith
      then show ?thesis by (metis of_int_le_iff of_int_of_nat_eq of_nat_numeral of_nat_power)
    qed
    ultimately have "\<bar>x\<bar> < 2 ^ nat_bits (nat n) / 2 ^ (nat_bits (nat d) - 1)"
      unfolding x using d n by (intro frac_less) auto
    moreover have "pow2 (k + 1) = 2 ^ nat_bits (nat n) / 2 ^ (nat_bits (nat d) - 1)"
    proof -
      have "pow2 (k + 1) = pow2 (int (nat_bits (nat n)) + - int (nat_bits (nat d) - 1))"
        using pos by (simp add: k_def algebra_simps of_nat_diff)
      also have "\<dots> = 2 ^ nat_bits (nat n) / 2 ^ (nat_bits (nat d) - 1)"
        by (simp only: pow2_add pow2_nat pow2_minus) simp
      finally show ?thesis .
    qed
    ultimately show ?thesis by simp
  qed
  then show ?thesis by (auto simp: ulp_exp_def q Let_def k_def [symmetric] add.commute)
qed

lemma pow2_mono: "a \<le> b \<Longrightarrow> pow2 a \<le> pow2 b"
  unfolding pow2_eq by (rule power_int_increasing) simp_all

lemma pow2_strict_mono: "a < b \<Longrightarrow> pow2 a < pow2 b"
  unfolding pow2_eq by (rule power_int_strict_increasing) simp_all

lemma pow2_less_iff: "pow2 a < pow2 b \<longleftrightarrow> a < b"
  by (meson leD leI pow2_mono pow2_strict_mono)

lemma ulp_exp_eq:
  assumes "pow2 e \<le> \<bar>x\<bar>" "\<bar>x\<bar> < pow2 (e + 1)" shows "ulp_exp x = e - 52"
proof -
  have x: "x \<noteq> 0" using assms(1) pow2_pos [of e] by (metis abs_zero leD)
  have "ulp_exp x + 52 < e + 1"
    using ulp_exp_lower [OF x] assms(2) by (simp flip: pow2_less_iff)
  moreover have "e < ulp_exp x + 53"
    using ulp_exp_upper [OF x] assms(1) by (simp flip: pow2_less_iff)
  ultimately show ?thesis by simp
qed

lemma fl_error_ulp: "x \<noteq> 0 \<Longrightarrow> \<bar>fl x - x\<bar> \<le> pow2 (ulp_exp x) / 2"
proof -
  assume x: "x \<noteq> 0"
  let ?u = "pow2 (ulp_exp x)"
  have "fl x - x = (of_int (round_half_even (x / ?u)) - x / ?u) * ?u"
    using x by (simp add: fl_def left_diff_distrib)
  then have "\<bar>fl x - x\<bar> = \<bar>of_int (round_half_even (x / ?u)) - x / ?u\<bar> * ?u"
    by (simp add: abs_mult less_imp_le)
  also have "\<dots> \<le> 1/2 * ?u" by (intro mult_right_mono round_half_even_error) (simp add: less_imp_le)
  finally show ?thesis by simp
qed

text \<open>A number close enough to an integer multiple of its last place rounds to that multiple.\<close>

lemma fl_near:
  assumes "x \<noteq> 0" "\<bar>x - of_int m * pow2 (ulp_exp x)\<bar> < pow2 (ulp_exp x) / 2"
  shows "fl x = of_int m * pow2 (ulp_exp x)"
proof -
  let ?u = "pow2 (ulp_exp x)"
  have "x / ?u - of_int m = (x - of_int m * ?u) / ?u" by (simp add: diff_divide_distrib)
  then have "\<bar>x / ?u - of_int m\<bar> = \<bar>x - of_int m * ?u\<bar> / ?u" by (simp add: abs_divide less_imp_le)
  also have "\<dots> < ?u / 2 / ?u" using assms(2) by (rule divide_strict_right_mono) simp
  finally have "\<bar>x / ?u - of_int m\<bar> < 1/2" by simp
  then show ?thesis using assms(1) round_half_even_unique by (simp add: fl_def)
qed

lemma fl_0 [simp]: "fl 0 = 0"
  by (simp add: fl_def)

lemma fl_mono_sign: "0 \<le> x \<Longrightarrow> 0 \<le> fl x"
proof -
  assume x: "0 \<le> x"
  then have "\<bar>x\<bar> / 2 ^ 53 \<le> x" by (simp add: field_simps)
  with fl_error [of x] show "0 \<le> fl x" by linarith
qed


section \<open>Evaluation over the integers\<close>

text \<open>The same functions on a numerator and a denominator, which evaluation reads once.\<close>

definition round_ratio :: "int \<Rightarrow> int \<Rightarrow> int" where
  "round_ratio n d =
     (let f = n div d; r = 2 * (n - f * d)
      in if r < d then f else if d < r then f + 1 else if even f then f else f + 1)"

lemma round_half_even_ratio: "0 < d \<Longrightarrow> round_half_even (of_int n / of_int d) = round_ratio n d"
proof -
  assume d: "0 < d"
  let ?f = "n div d"
  have f: "\<lfloor>of_int n / of_int d :: rat\<rfloor> = ?f" by (rule floor_divide_of_int_eq)
  have "(of_int n / of_int d :: rat) - of_int ?f = of_int (n - ?f * d) / of_int d"
    using d by (simp add: field_simps)
  moreover have "of_int (n - ?f * d) / of_int d < (1/2 :: rat) \<longleftrightarrow> of_int (2 * (n - ?f * d)) < (of_int d :: rat)"
    "(1/2 :: rat) < of_int (n - ?f * d) / of_int d \<longleftrightarrow> (of_int d :: rat) < of_int (2 * (n - ?f * d))"
    using d by (simp_all add: field_simps)
  ultimately show ?thesis
    unfolding round_half_even_def round_ratio_def Let_def f by (simp only: of_int_less_iff)
qed

definition ulp_ratio :: "int \<Rightarrow> int \<Rightarrow> int" where
  "ulp_ratio a d =
     (let k = int (nat_bits (nat a)) - int (nat_bits (nat d))
      in (if (if 0 \<le> k then 2 ^ nat k * d \<le> a else d \<le> a * 2 ^ nat (- k)) then k else k - 1) - 52)"

lemma pow2_le_ratio:
  assumes "0 < d"
  shows "pow2 k \<le> of_int a / of_int d \<longleftrightarrow> (if 0 \<le> k then 2 ^ nat k * d \<le> a else d \<le> a * 2 ^ nat (- k))"
proof -
  have p: "(0::rat) < of_int d" using assms by simp
  show ?thesis
  proof (cases "0 \<le> k")
    case True
    have "pow2 k \<le> of_int a / of_int d \<longleftrightarrow> 2 ^ nat k * (of_int d :: rat) \<le> of_int a"
      using p True by (simp add: pow2_def pos_le_divide_eq)
    also have "\<dots> \<longleftrightarrow> of_int (2 ^ nat k * d) \<le> (of_int a :: rat)" by simp
    finally show ?thesis using True by (simp only: of_int_le_iff if_True)
  next
    case False
    have "pow2 k \<le> of_int a / of_int d \<longleftrightarrow> (of_int d :: rat) \<le> of_int a * 2 ^ nat (- k)"
      using p False by (simp add: pow2_def field_simps)
    also have "\<dots> \<longleftrightarrow> of_int d \<le> (of_int (a * 2 ^ nat (- k)) :: rat)" by simp
    finally show ?thesis using False by (simp only: of_int_le_iff if_False)
  qed
qed

definition fl_parts :: "rat \<Rightarrow> int \<times> int" where
  "fl_parts x =
     (let (n, d) = quotient_of x; e = ulp_ratio \<bar>n\<bar> d
      in (if 0 \<le> e then round_ratio n (d * 2 ^ nat e) else round_ratio (n * 2 ^ nat (- e)) d, e))"

lemma fl_parts_eq: "fl_parts x = (round_half_even (x / pow2 (ulp_exp x)), ulp_exp x)"
proof -
  obtain n d where q: "quotient_of x = (n, d)" by (cases "quotient_of x")
  have d: "0 < d" and x: "x = of_int n / of_int d"
    using q quotient_of_denom_pos quotient_of_div by blast+
  have abs: "quotient_of \<bar>x\<bar> = (\<bar>n\<bar>, d)" by (simp add: rat_abs_code q)
  have ax: "\<bar>x\<bar> = of_int \<bar>n\<bar> / of_int d" using quotient_of_div [OF abs] .
  have e: "ulp_exp x = ulp_ratio \<bar>n\<bar> d"
    unfolding ulp_exp_def ulp_ratio_def abs prod.case Let_def unfolding ax pow2_le_ratio [OF d] ..
  let ?e = "ulp_ratio \<bar>n\<bar> d"
  have "x / pow2 ?e = (if 0 \<le> ?e then of_int n / of_int (d * 2 ^ nat ?e) else of_int (n * 2 ^ nat (- ?e)) / of_int d)"
    by (simp add: x pow2_def field_simps)
  then have "round_half_even (x / pow2 ?e) =
      (if 0 \<le> ?e then round_ratio n (d * 2 ^ nat ?e) else round_ratio (n * 2 ^ nat (- ?e)) d)"
    using d by (cases "0 \<le> ?e") (simp_all only: round_half_even_ratio if_True if_False zero_less_mult_iff zero_less_power
      zero_less_numeral simp_thms)
  then show ?thesis by (simp add: fl_parts_def q e Let_def)
qed

lemma fl_code [code]: "fl x = (if x = 0 then 0 else case fl_parts x of (m, e) \<Rightarrow> of_int m * pow2 e)"
  by (simp add: fl_def fl_parts_eq)

lemma fl_below:
  assumes "x \<noteq> 0" shows "\<bar>fl x\<bar> < pow2 (ulp_exp x + 54)"
proof -
  have "\<bar>fl x\<bar> \<le> \<bar>x\<bar> + \<bar>x\<bar> / 2 ^ 53" using fl_error [of x] by linarith
  also have "\<dots> \<le> 2 * \<bar>x\<bar>" by simp
  also have "\<dots> < 2 * pow2 (ulp_exp x + 53)" using ulp_exp_upper [OF assms] by simp
  also have "\<dots> = pow2 (1 + (ulp_exp x + 53))" unfolding pow2_add by (simp add: pow2_def)
  finally show ?thesis by (simp add: add.commute)
qed

section \<open>Integers as bytes\<close>

text \<open>
  \<open>i.to_bytes(n, 'big', signed=True)\<close> and its inverse, and the unsigned variant that
  prefixes a schema id.
\<close>

definition bit_length :: "int \<Rightarrow> nat" where
  "bit_length i = nat_bits (nat \<bar>i\<bar>)"

fun be_bytes :: "nat \<Rightarrow> int \<Rightarrow> 8 word list" where
  "be_bytes 0 v = []"
| "be_bytes (Suc n) v = be_bytes n (v div 256) @ [word_of_int v]"

definition int_to_bytes_signed :: "int \<Rightarrow> nat \<Rightarrow> 8 word list result" where
  "int_to_bytes_signed i n =
     (if - (2 ^ (8 * n)) \<le> 2 * i \<and> 2 * i < 2 ^ (8 * n) then Inr (be_bytes n i)
      else raise_exn OverflowError ''int too big to convert'')"

definition int_to_bytes_unsigned :: "int \<Rightarrow> nat \<Rightarrow> 8 word list result" where
  "int_to_bytes_unsigned i n =
     (if i < 0 then raise_exn OverflowError ''can't convert negative int to unsigned''
      else if i < 2 ^ (8 * n) then Inr (be_bytes n i)
      else raise_exn OverflowError ''int too big to convert'')"

definition be_unsigned :: "8 word list \<Rightarrow> int" where
  "be_unsigned bs = foldl (\<lambda>a b. a * 256 + uint b) 0 bs"

definition be_signed :: "8 word list \<Rightarrow> int" where
  "be_signed bs =
     (let u = be_unsigned bs in if 2 ^ (8 * length bs) \<le> 2 * u then u - 2 ^ (8 * length bs) else u)"

lemma length_be_bytes [simp]: "length (be_bytes n v) = n"
  by (induction n arbitrary: v) auto

lemma be_unsigned_snoc [simp]: "be_unsigned (bs @ [b]) = be_unsigned bs * 256 + uint b"
  by (simp add: be_unsigned_def)

lemma be_unsigned_be_bytes: "be_unsigned (be_bytes n v) = v mod 2 ^ (8 * n)"
proof (induction n arbitrary: v)
  case (Suc n)
  have "v mod (256 * 2 ^ (8 * n)) = 256 * (v div 256 mod 2 ^ (8 * n)) + v mod 256"
    by (rule zmod_zmult2_eq) simp
  with Suc show ?case by (simp add: uint_word_of_int power_add algebra_simps)
qed (simp add: be_unsigned_def)

lemma be_signed_be_bytes:
  assumes "- (2 ^ (8 * n)) \<le> 2 * v" "2 * v < 2 ^ (8 * n)"
  shows "be_signed (be_bytes n v) = v"
proof (cases "0 \<le> v")
  case True
  then show ?thesis using assms by (simp add: be_signed_def be_unsigned_be_bytes)
next
  case False
  let ?m = "2 ^ (8 * n) :: int"
  have "v mod ?m = (v + ?m) mod ?m" by simp
  also have "\<dots> = v + ?m" using False assms by (intro mod_pos_pos_trivial) linarith+
  finally show ?thesis using False assms by (simp add: be_signed_def be_unsigned_be_bytes)
qed

lemma bit_length_bound: "\<bar>i\<bar> < 2 ^ bit_length i"
proof -
  have "int (nat \<bar>i\<bar>) < int (2 ^ bit_length i)"
    unfolding bit_length_def using nat_bits_upper by (metis of_nat_less_iff)
  then show ?thesis by simp
qed

text \<open>The byte length the builder computes always suffices, so \<open>to_bytes\<close> never overflows.\<close>

lemma signed_length_suffices:
  fixes i :: int
  defines "n \<equiv> (bit_length i + 8) div 8"
  shows "- (2 ^ (8 * n)) \<le> 2 * i" "2 * i < 2 ^ (8 * n)"
proof -
  have "bit_length i + 1 \<le> 8 * n" unfolding n_def by presburger
  then have "(2::int) ^ (bit_length i + 1) \<le> 2 ^ (8 * n)" by (intro power_increasing) auto
  then have "2 * \<bar>i\<bar> < 2 ^ (8 * n)" using bit_length_bound [of i] by simp
  then show "- (2 ^ (8 * n)) \<le> 2 * i" "2 * i < 2 ^ (8 * n)" by linarith+
qed

lemma be_unsigned_roundtrip: "0 \<le> v \<Longrightarrow> v < 2 ^ (8 * n) \<Longrightarrow> be_unsigned (be_bytes n v) = v"
  by (simp add: be_unsigned_be_bytes)

end
