(* ===== verification/Py_Parse.thy ===== *)
theory Py_Parse
  imports Py_Float
begin

text \<open>
  The conversions \<open>int(x)\<close>, \<open>float(x)\<close> and \<open>str.strip\<close> of Python, which read the
  environment variables of every configuration class and the fields of a request.
\<close>

section \<open>Reading numbers from strings\<close>

definition strip :: "string \<Rightarrow> string" where
  "strip s = rev (dropWhile whitespace (rev (dropWhile whitespace s)))"

text \<open>A run of digits, in which single underscores may separate digits: value, count, rest.\<close>

fun scan_digits :: "nat \<Rightarrow> nat \<Rightarrow> string \<Rightarrow> nat \<times> nat \<times> string" where
  "scan_digits v n [] = (v, n, [])"
| "scan_digits v n (c # cs) =
     (if dec_digit c then scan_digits (v * 10 + digit_val c) (Suc n) cs
      else if c = CHR ''_'' \<and> 0 < n \<and> cs \<noteq> [] \<and> dec_digit (hd cs) then scan_digits v n cs
      else (v, n, c # cs))"

fun scan_sign :: "string \<Rightarrow> int \<times> string" where
  "scan_sign [] = (1, [])"
| "scan_sign (c # cs) =
     (if c = CHR ''-'' then (- 1, cs) else if c = CHR ''+'' then (1, cs) else (1, c # cs))"

text \<open>\<open>int(s)\<close>; more than 4300 digits are refused since Python 3.11.\<close>

definition int_of_str :: "string \<Rightarrow> int option" where
  "int_of_str s =
     (let (sg, t) = scan_sign (strip s); (v, n, r) = scan_digits 0 0 t
      in if 0 < n \<and> n \<le> 4300 \<and> r = [] then Some (sg * int v) else None)"

text \<open>The double nearest to a rational, infinite beyond the largest double.\<close>

definition double_limit :: rat where
  "double_limit = 2 ^ 1024"

lemma double_limit_code [code]:
  "double_limit = 179769313486231590772930519078902473361797697894230657273430081157732675805500963132708477322407536021120113879871393357658789768814416622492847430639474124377767893424865485276302219601246094119453082952085005768838150682342462881473913110540827237163350510684586298239947245938479716304835356329624224137216"
  by (simp add: double_limit_def)

definition to_double :: "rat \<Rightarrow> pyfloat" where
  "to_double x =
     (let y = fl x in if double_limit \<le> y then PosInf else if y \<le> - double_limit then NegInf else Fin y)"

text \<open>Only a large exponent needs the comparison with the limit.\<close>

lemma to_double_code [code]:
  "to_double x =
     (if x = 0 then Fin 0
      else case fl_parts x of (m, e) \<Rightarrow>
        let y = of_int m * pow2 e
        in if e < 900 then Fin y else if double_limit \<le> y then PosInf else if y \<le> - double_limit then NegInf else Fin y)"
proof (cases "x = 0")
  case False
  have "\<bar>fl x\<bar> < double_limit" if "ulp_exp x < 900"
  proof -
    have "\<bar>fl x\<bar> < pow2 (ulp_exp x + 54)" by (rule fl_below [OF False])
    also have "\<dots> \<le> pow2 1024" using that by (intro pow2_mono) simp
    finally show ?thesis by (simp add: pow2_def double_limit_def)
  qed
  moreover have "fl x = of_int (round_half_even (x / pow2 (ulp_exp x))) * pow2 (ulp_exp x)"
    using False by (simp add: fl_def)
  ultimately show ?thesis using False unfolding to_double_def fl_parts_eq Let_def prod.case
    by (auto simp: abs_less_iff simp del: fl_0 dest: leD)
qed (simp add: to_double_def double_limit_def)

definition pow10 :: "int \<Rightarrow> rat" where
  "pow10 k = (if 0 \<le> k then 10 ^ nat k else 1 / 10 ^ nat (- k))"

definition exponent_of :: "string \<Rightarrow> int option" where
  "exponent_of s =
     (case s of [] \<Rightarrow> Some 0
      | c # cs \<Rightarrow>
          (if c = CHR ''e'' \<or> c = CHR ''E''
           then (let (sg, t) = scan_sign cs; (v, n, r) = scan_digits 0 0 t
                 in if 0 < n \<and> r = [] then Some (sg * int v) else None)
           else None))"

text \<open>The number a literal denotes, exactly; \<open>float\<close> rounds it, \<open>Decimal\<close> does not.\<close>

definition parse_number :: "string \<Rightarrow> pyfloat option" where
  "parse_number s =
     (let (sg, t) = scan_sign (strip s); l = lower_str t
      in if l = ''inf'' \<or> l = ''infinity'' then Some (if sg = 1 then PosInf else NegInf)
         else if l = ''nan'' then Some NaN
         else (let (v, n, r) = scan_digits 0 0 t;
                   (w, m, q) = (case r of [] \<Rightarrow> (v, 0, r)
                                | c # cs \<Rightarrow>
                                    (if c = CHR ''.''
                                     then (let (w, m, q) = scan_digits 0 0 cs in (v * 10 ^ m + w, m, q))
                                     else (v, 0, r)))
               in if n = 0 \<and> m = 0 then None
                  else (case exponent_of q of None \<Rightarrow> None
                        | Some e \<Rightarrow> Some (Fin (of_int sg * of_nat w * pow10 (e - int m))))))"

definition float_of_str :: "string \<Rightarrow> pyfloat option" where
  "float_of_str s = map_option (\<lambda>f. case f of Fin x \<Rightarrow> to_double x | _ \<Rightarrow> f) (parse_number s)"

section \<open>\<open>float(x)\<close> and \<open>int(x)\<close>\<close>

fun py_float :: "pyval \<Rightarrow> pyfloat result" where
  "py_float (PFloat f) = Inr f"
| "py_float (PInt i) =
     (case to_double (of_int i) of Fin x \<Rightarrow> Inr (Fin x)
      | _ \<Rightarrow> raise_exn OverflowError ''int too large to convert to float'')"
| "py_float (PBool b) = Inr (Fin (if b then 1 else 0))"
| "py_float (PDec d) = Inr (case d of Fin x \<Rightarrow> to_double x | _ \<Rightarrow> d)"
| "py_float (PStr s) =
     (case float_of_str s of Some f \<Rightarrow> Inr f
      | None \<Rightarrow> raise_exn ValueError (''could not convert string to float: '' @ repr_str s))"
| "py_float _ = raise_exn TypeError ''float() argument must be a string or a real number''"

definition truncate_rat :: "rat \<Rightarrow> int" where
  "truncate_rat x = (if 0 \<le> x then \<lfloor>x\<rfloor> else \<lceil>x\<rceil>)"

fun py_int :: "pyval \<Rightarrow> int result" where
  "py_int (PInt i) = Inr i"
| "py_int (PBool b) = Inr (if b then 1 else 0)"
| "py_int (PFloat f) =
     (case f of Fin x \<Rightarrow> Inr (truncate_rat x)
      | NaN \<Rightarrow> raise_exn ValueError ''cannot convert float NaN to integer''
      | _ \<Rightarrow> raise_exn OverflowError ''cannot convert float infinity to integer'')"
| "py_int (PDec f) =
     (case f of Fin x \<Rightarrow> Inr (truncate_rat x)
      | NaN \<Rightarrow> raise_exn ValueError ''cannot convert NaN to integer''
      | _ \<Rightarrow> raise_exn OverflowError ''cannot convert Infinity to integer'')"
| "py_int (PStr s) =
     (case int_of_str s of Some i \<Rightarrow> Inr i
      | None \<Rightarrow> raise_exn ValueError (''invalid literal for int() with base 10: '' @ repr_str s))"
| "py_int _ = raise_exn TypeError ''int() argument must be a string or a real number''"

section \<open>\<open>Decimal(str(x))\<close>\<close>

text \<open>
  \<open>str\<close> of a finite double is the shortest decimal that rounds to it, the nearest one where
  several are shortest. With \<open>n\<close> significant digits the candidates are the two neighbours of
  the value; 17 digits always suffice.
\<close>

definition dec_exp :: "rat \<Rightarrow> int" where
  "dec_exp x = (if 1 \<le> x then int (length (show_nat (nat \<lfloor>x\<rfloor>))) - 1
                else - int (length (show_nat (nat (\<lceil>1 / x\<rceil> - 1)))))"

definition digits_candidates :: "rat \<Rightarrow> nat \<Rightarrow> rat list" where
  "digits_candidates x n =
     (let u = pow10 (dec_exp x - int n + 1); lo = of_int \<lfloor>x / u\<rfloor> * u
      in filter (\<lambda>y. fl y = x) (if x - lo \<le> lo + u - x then [lo, lo + u] else [lo + u, lo]))"

fun shortest_from :: "nat \<Rightarrow> nat \<Rightarrow> rat \<Rightarrow> rat" where
  "shortest_from 0 n x = x"
| "shortest_from (Suc fuel) n x =
     (case digits_candidates x n of [] \<Rightarrow> shortest_from fuel (Suc n) x | y # _ \<Rightarrow> y)"

definition repr_decimal :: "rat \<Rightarrow> rat" where
  "repr_decimal x = (if x = 0 then 0 else sgn x * shortest_from 17 1 \<bar>x\<bar>)"

fun decimal_of_str :: "pyval \<Rightarrow> pyval result" where
  "decimal_of_str (PInt i) = Inr (PDec (Fin (of_int i)))"
| "decimal_of_str (PDec d) = Inr (PDec d)"
| "decimal_of_str (PFloat f) = Inr (PDec (case f of Fin x \<Rightarrow> Fin (repr_decimal x) | _ \<Rightarrow> f))"
| "decimal_of_str (PStr s) =
     (case parse_number s of Some f \<Rightarrow> Inr (PDec f)
      | None \<Rightarrow> raise_exn InvalidOperation ''ConversionSyntax'')"
| "decimal_of_str _ = raise_exn InvalidOperation ''ConversionSyntax''"

text \<open>\<open>str(x)\<close>; of a value that is neither a string nor None nor an integer it is the argument \<open>sf\<close>.\<close>

fun py_str :: "(pyval \<Rightarrow> string) \<Rightarrow> pyval \<Rightarrow> string" where
  "py_str sf (PStr s) = s"
| "py_str sf PNone = ''None''"
| "py_str sf (PBool b) = (if b then ''True'' else ''False'')"
| "py_str sf (PInt i) = show_int i"
| "py_str sf v = sf v"

section \<open>Reading back what \<open>show_int\<close> writes\<close>

lemma code_digit: "n < 10 \<Longrightarrow> code (char_of (48 + n)) = 48 + n"
  by (simp add: code_def)

lemma scan_digits_append:
  "scan_digits v n (xs @ ys) = (case scan_digits v n xs of (w, m, r) \<Rightarrow> if r = [] then scan_digits w m ys else (w, m, r @ ys))"
  if "list_all dec_digit xs"
  using that by (induction v n xs rule: scan_digits.induct) auto

lemma show_nat_digits: "list_all dec_digit (show_nat n) \<and> show_nat n \<noteq> []"
proof (induction n rule: show_nat.induct)
  case (1 n)
  have "dec_digit (char_of (48 + k))" if "k < 10" for k :: nat
    using that by (simp add: dec_digit_def code_def)
  with 1 show ?case by (subst (1 2) show_nat.simps) auto
qed

lemma scan_show_nat: "\<exists>m>0. scan_digits 0 0 (show_nat n) = (n, m, []) \<and> m = length (show_nat n)"
proof (induction n rule: show_nat.induct)
  case (1 n)
  show ?case
  proof (cases "n < 10")
    case True
    then show ?thesis
      by (subst (1 2) show_nat.simps) (simp add: dec_digit_def digit_val_def code_def)
  next
    case False
    with 1 obtain m where m: "scan_digits 0 0 (show_nat (n div 10)) = (n div 10, m, [])"
      "m = length (show_nat (n div 10))" by blast
    have eq: "show_nat n = show_nat (n div 10) @ [char_of (48 + n mod 10)]"
      using False by (subst show_nat.simps) simp
    have "n mod 10 < 10" by simp
    then have d: "dec_digit (char_of (48 + n mod 10))" "digit_val (char_of (48 + n mod 10)) = n mod 10"
      by (simp_all add: dec_digit_def digit_val_def code_def)
    show ?thesis
      unfolding eq using show_nat_digits [of "n div 10"] m d by (simp add: scan_digits_append)
  qed
qed

lemma int_of_str_show_nat: "length (show_nat n) \<le> 4300 \<Longrightarrow> int_of_str (show_nat n) = Some (int n)"
proof -
  assume len: "length (show_nat n) \<le> 4300"
  obtain c cs where s: "show_nat n = c # cs" and ds: "list_all dec_digit (c # cs)"
    using show_nat_digits [of n] by (cases "show_nat n") auto
  have nw: "\<not> whitespace d" if "dec_digit d" for d
    using that by (auto simp: whitespace_def dec_digit_def)
  have "last (c # cs) \<in> set (c # cs)" by (rule last_in_set) simp
  then have lw: "\<not> whitespace (last (c # cs))" using ds nw by (auto simp: list_all_iff)
  have "dropWhile whitespace (rev (c # cs)) = rev (c # cs)"
    using lw by (metis dropWhile_eq_self_iff hd_rev)
  moreover have "\<not> whitespace c" using ds nw by simp
  ultimately have st: "strip (c # cs) = c # cs" by (simp add: strip_def)
  have "c \<noteq> CHR ''-''" "c \<noteq> CHR ''+''" using ds by (auto simp: dec_digit_def code_def)
  then show ?thesis using scan_show_nat [of n] len by (auto simp: int_of_str_def st s)
qed

end
