(* ===== verification/Rules.thy ===== *)
theory Rules
  imports Py_Parse
begin

text \<open>
  \<open>pipelines/scoring/rules/models.py\<close> and \<open>loader.py\<close>: the rule enums with the ordering of
  severities, the validation of a rule entry, and the loading of the rules file.

  pydantic and PyYAML are third-party code. What the model needs of pydantic-core, the lax
  conversion of one field to its declared type, is the record \<open>pydantic\<close> of functions that
  the definitions take as an argument; \<open>pydantic_exact\<close>, which accepts exactly the values
  that already have the type, is the instance the witnesses use.
\<close>

section \<open>Enums\<close>

datatype rule_family = Velocity | ImpossibleTravel | NewDevice

datatype rule_mode = Active | Shadow

datatype severity = Low | Medium | High | Critical

fun family_value :: "rule_family \<Rightarrow> string" where
  "family_value Velocity = ''velocity''"
| "family_value ImpossibleTravel = ''impossible_travel''"
| "family_value NewDevice = ''new_device''"

fun mode_value :: "rule_mode \<Rightarrow> string" where
  "mode_value Active = ''active''"
| "mode_value Shadow = ''shadow''"

fun severity_value :: "severity \<Rightarrow> int" where
  "severity_value Low = 0"
| "severity_value Medium = 1"
| "severity_value High = 2"
| "severity_value Critical = 3"

fun severity_name :: "severity \<Rightarrow> string" where
  "severity_name Low = ''low''"
| "severity_name Medium = ''medium''"
| "severity_name High = ''high''"
| "severity_name Critical = ''critical''"

definition severity_of_name :: "string \<Rightarrow> severity option" where
  "severity_of_name s = map_of (map (\<lambda>v. (severity_name v, v)) [Low, Medium, High, Critical]) s"

definition severity_of_value :: "int \<Rightarrow> severity option" where
  "severity_of_value i = map_of (map (\<lambda>v. (severity_value v, v)) [Low, Medium, High, Critical]) i"

definition family_of_value :: "string \<Rightarrow> rule_family option" where
  "family_of_value s = map_of (map (\<lambda>v. (family_value v, v)) [Velocity, ImpossibleTravel, NewDevice]) s"

definition mode_of_value :: "string \<Rightarrow> rule_mode option" where
  "mode_of_value s = map_of (map (\<lambda>v. (mode_value v, v)) [Active, Shadow]) s"

lemma severity_of_name_name [simp]: "severity_of_name (severity_name v) = Some v"
  by (cases v) (simp_all add: severity_of_name_def)

lemma severity_of_value_value [simp]: "severity_of_value (severity_value v) = Some v"
  by (cases v) (simp_all add: severity_of_value_def)

lemma family_of_value_value [simp]: "family_of_value (family_value f) = Some f"
  by (cases f) (simp_all add: family_of_value_def)

lemma mode_of_value_value [simp]: "mode_of_value (mode_value m) = Some m"
  by (cases m) (simp_all add: mode_of_value_def)

text \<open>
  The comparison methods of \<open>Severity\<close>: both sides are compared as ints; for another operand
  type the method returns \<open>NotImplemented\<close> (\<open>None\<close> here).
\<close>

datatype sev_operand = SevOp severity | IntOp int | OtherOp

fun operand_int :: "sev_operand \<Rightarrow> int option" where
  "operand_int (SevOp s) = Some (severity_value s)"
| "operand_int (IntOp i) = Some i"
| "operand_int OtherOp = None"

definition severity_lt :: "severity \<Rightarrow> sev_operand \<Rightarrow> bool option" where
  "severity_lt self other = map_option (\<lambda>i. severity_value self < i) (operand_int other)"

definition severity_le :: "severity \<Rightarrow> sev_operand \<Rightarrow> bool option" where
  "severity_le self other = map_option (\<lambda>i. severity_value self \<le> i) (operand_int other)"

definition severity_gt :: "severity \<Rightarrow> sev_operand \<Rightarrow> bool option" where
  "severity_gt self other = map_option (\<lambda>i. severity_value self > i) (operand_int other)"

definition severity_ge :: "severity \<Rightarrow> sev_operand \<Rightarrow> bool option" where
  "severity_ge self other = map_option (\<lambda>i. severity_value self \<ge> i) (operand_int other)"

instantiation severity :: linorder
begin

definition less_severity :: "severity \<Rightarrow> severity \<Rightarrow> bool" where
  "less_severity a b \<longleftrightarrow> severity_lt a (SevOp b) = Some True"

definition less_eq_severity :: "severity \<Rightarrow> severity \<Rightarrow> bool" where
  "less_eq_severity a b \<longleftrightarrow> severity_le a (SevOp b) = Some True"

instance
proof
  fix x y z :: severity
  show "(x < y) = (x \<le> y \<and> \<not> y \<le> x)"
    by (auto simp: less_severity_def less_eq_severity_def severity_lt_def severity_le_def)
  show "x \<le> x" by (simp add: less_eq_severity_def severity_le_def)
  show "x \<le> y \<Longrightarrow> y \<le> z \<Longrightarrow> x \<le> z"
    by (simp add: less_eq_severity_def severity_le_def)
  show "x \<le> y \<Longrightarrow> y \<le> x \<Longrightarrow> x = y"
    by (cases x; cases y) (simp_all add: less_eq_severity_def severity_le_def)
  show "x \<le> y \<or> y \<le> x" by (auto simp: less_eq_severity_def severity_le_def)
qed

end

lemma severity_le_iff: "a \<le> b \<longleftrightarrow> severity_value a \<le> severity_value b" for a b :: severity
  by (simp add: less_eq_severity_def severity_le_def)

lemma severity_less_iff: "a < b \<longleftrightarrow> severity_value a < severity_value b" for a b :: severity
  by (simp add: less_severity_def severity_lt_def)

section \<open>Rule definitions\<close>

record rule_definition =
  rule_id :: string
  rule_name :: string
  family :: rule_family
  conditions :: pydict
  severity :: severity
  enabled :: bool
  mode :: rule_mode

text \<open>
  \<open>^[a-zA-Z0-9][a-zA-Z0-9\-_]{0,62}[a-zA-Z0-9]$\<close> under \<open>re.match\<close>: the final \<open>$\<close> of Python
  also matches just before one trailing newline.
\<close>

definition rule_id_core :: "string \<Rightarrow> bool" where
  "rule_id_core s \<longleftrightarrow>
     2 \<le> length s \<and> length s \<le> 64 \<and> alnum_ascii (hd s) \<and> alnum_ascii (last s) \<and>
     list_all (\<lambda>c. alnum_ascii c \<or> c = CHR ''-'' \<or> c = CHR ''_'') (butlast (tl s))"

definition rule_id_match :: "string \<Rightarrow> bool" where
  "rule_id_match s \<longleftrightarrow>
     rule_id_core s \<or> (s \<noteq> [] \<and> last s = char_of (10::nat) \<and> rule_id_core (butlast s))"

definition validate_rule_id :: "pyval \<Rightarrow> string result" where
  "validate_rule_id v =
     (case v of
        PStr s \<Rightarrow>
          (if rule_id_match s then Inr s
           else raise_exn ValueError ''rule_id must be 2-64 chars, alphanumeric/hyphens/underscores, start and end with alphanumeric'')
      | _ \<Rightarrow> raise_exn ValueError ''rule_id must be a string'')"

definition coerce_severity :: "pyval \<Rightarrow> pyval result" where
  "coerce_severity v =
     (case v of
        PStr s \<Rightarrow>
          (case severity_of_name s of
             Some sev \<Rightarrow> Inr (PInt (severity_value sev))
           | None \<Rightarrow> raise_exn ValueError (''Invalid severity: '' @ repr_str s))
      | _ \<Rightarrow> Inr v)"

record pydantic =
  pyd_str :: "pyval \<Rightarrow> string option"
  pyd_bool :: "pyval \<Rightarrow> bool option"
  pyd_dict :: "pyval \<Rightarrow> pydict option"
  pyd_family :: "pyval \<Rightarrow> rule_family option"
  pyd_severity :: "pyval \<Rightarrow> severity option"
  pyd_mode :: "pyval \<Rightarrow> rule_mode option"

definition pydantic_exact :: pydantic where
  "pydantic_exact = \<lparr>
     pyd_str = (\<lambda>v. case v of PStr s \<Rightarrow> Some s | _ \<Rightarrow> None),
     pyd_bool = (\<lambda>v. case v of PBool b \<Rightarrow> Some b | _ \<Rightarrow> None),
     pyd_dict = (\<lambda>v. case v of PDict d \<Rightarrow> Some d | _ \<Rightarrow> None),
     pyd_family = (\<lambda>v. case v of PStr s \<Rightarrow> family_of_value s | _ \<Rightarrow> None),
     pyd_severity = (\<lambda>v. case v of PInt i \<Rightarrow> severity_of_value i | _ \<Rightarrow> None),
     pyd_mode = (\<lambda>v. case v of PStr s \<Rightarrow> mode_of_value s | _ \<Rightarrow> None)\<rparr>"

definition rule_field_names :: "string list" where
  "rule_field_names =
     [''rule_id'', ''name'', ''family'', ''conditions'', ''severity'', ''enabled'', ''mode'']"

definition invalid :: "'a result" where
  "invalid = raise_exn ValidationError ''validation error for RuleDefinition''"

definition need :: "'a option \<Rightarrow> 'a result" where
  "need x = (case x of Some v \<Rightarrow> Inr v | None \<Rightarrow> invalid)"

text \<open>
  A field validator raises \<open>ValueError\<close>; pydantic reports every failure as one
  \<open>ValidationError\<close>. \<open>extra="forbid"\<close> refuses any other key; \<open>mode\<close> has a default, every
  other field is required.
\<close>

definition model_validate :: "pydantic \<Rightarrow> pyval \<Rightarrow> rule_definition result" where
  "model_validate P item =
     (case item of
        PDict d \<Rightarrow>
          (if \<not> list_all (\<lambda>k. k \<in> set rule_field_names) (map fst d) then invalid
           else if \<not> list_all (has_key d) (butlast rule_field_names) then invalid
           else rbind (case validate_rule_id (dget d ''rule_id'') of Inl _ \<Rightarrow> invalid | Inr s \<Rightarrow> Inr s) (\<lambda>rid.
             rbind (need (pyd_str P (dget d ''name''))) (\<lambda>nm.
             rbind (need (pyd_family P (dget d ''family''))) (\<lambda>fam.
             rbind (need (pyd_dict P (dget d ''conditions''))) (\<lambda>cond.
             rbind (case coerce_severity (dget d ''severity'') of Inl _ \<Rightarrow> invalid | Inr v \<Rightarrow> need (pyd_severity P v)) (\<lambda>sev.
             rbind (need (pyd_bool P (dget d ''enabled''))) (\<lambda>en.
             rbind (if has_key d ''mode'' then need (pyd_mode P (dget d ''mode'')) else Inr Active) (\<lambda>md.
             Inr \<lparr>rule_id = rid, rule_name = nm, family = fam, conditions = cond,
                  severity = sev, enabled = en, mode = md\<rparr>))))))))
      | _ \<Rightarrow> invalid)"

section \<open>The loader\<close>

text \<open>
  \<open>read_file\<close> is the file system (what \<open>open\<close> and \<open>read\<close> return or raise), \<open>safe_load\<close> is
  PyYAML. The index loop stops at the first entry that does not validate.
\<close>

fun validate_entries :: "pydantic \<Rightarrow> nat \<Rightarrow> pyval list \<Rightarrow> rule_definition list result" where
  "validate_entries P i [] = Inr []"
| "validate_entries P i (item # items) =
     (case model_validate P item of
        Inl e \<Rightarrow>
          (if isinstance e ValidationError
           then raise_exn RuleConfigError (''Invalid rule config at index '' @ show_nat i @ '': '' @ exn_msg e)
           else Inl e)
      | Inr r \<Rightarrow> rbind (validate_entries P (Suc i) items) (\<lambda>rs. Inr (r # rs)))"

definition RuleLoader_load ::
  "pydantic \<Rightarrow> (string \<Rightarrow> string result) \<Rightarrow> (string \<Rightarrow> pyval result) \<Rightarrow> string \<Rightarrow> rule_definition list result" where
  "RuleLoader_load P read_file safe_load path =
     (case read_file path of
        Inl e \<Rightarrow>
          (if isinstance e FileNotFoundError
           then raise_exn RuleConfigError (''Rules file not found: '' @ path) else Inl e)
      | Inr content \<Rightarrow>
          (case safe_load content of
             Inl e \<Rightarrow>
               (if isinstance e YAMLError
                then raise_exn RuleConfigError (''Malformed YAML in '' @ path @ '': '' @ exn_msg e) else Inl e)
           | Inr data \<Rightarrow>
               (case data of
                  PList items \<Rightarrow>
                    rbind (validate_entries P 0 items) (\<lambda>all_rules. Inr (filter enabled all_rules))
                | _ \<Rightarrow> raise_exn RuleConfigError ''Rules config must be a YAML list'')))"

section \<open>Lemmas\<close>

lemma need_Inr [simp]: "need x = Inr v \<longleftrightarrow> x = Some v"
  by (cases x) (simp_all add: need_def invalid_def)

lemma need_Inl: "need x = Inl e \<Longrightarrow> exn_cls e = ValidationError"
  by (cases x) (auto simp: need_def invalid_def raise_exn_def)

lemma invalid_Inl: "invalid = Inl e \<Longrightarrow> exn_cls e = ValidationError"
  by (auto simp: invalid_def raise_exn_def)

lemma invalid_not_Inr [simp]: "invalid \<noteq> Inr v"
  by (simp add: invalid_def)

text \<open>The only exception validation raises is \<open>ValidationError\<close>.\<close>

lemma model_validate_error: "model_validate P item = Inl e \<Longrightarrow> exn_cls e = ValidationError"
  unfolding model_validate_def
  by (auto simp: result_simps dest: need_Inl invalid_Inl split: pyval.splits if_splits sum.splits)

lemma model_validate_rule_id: "model_validate P item = Inr r \<Longrightarrow> rule_id_match (rule_id r)"
  unfolding model_validate_def validate_rule_id_def
  by (auto simp: result_simps split: pyval.splits if_splits sum.splits)

lemma validate_entries_Inr:
  "validate_entries P i items = Inr rs \<longleftrightarrow> list_all2 (\<lambda>x r. model_validate P x = Inr r) items rs"
  by (induction P i items arbitrary: rs rule: validate_entries.induct)
     (auto simp: result_simps list_all2_Cons1 split: sum.splits if_splits)

lemma validate_entries_Inl: "validate_entries P i items = Inl e \<Longrightarrow> exn_cls e = RuleConfigError"
  by (induction P i items rule: validate_entries.induct)
     (auto simp: result_simps isinstance_def dest: model_validate_error split: sum.splits if_splits)

section \<open>Properties\<close>

text \<open>C22: Loading is all or nothing: it succeeds exactly when the file is a YAML list of which every
  entry validates, and then returns the enabled rules in file order, each with a well-formed id.
  One bad entry refuses the whole file.\<close>

theorem RuleLoader_load_spec:
  "RuleLoader_load P read_file safe_load path = Inr rules \<longleftrightarrow>
     (\<exists>content items all_rules. read_file path = Inr content \<and> safe_load content = Inr (PList items) \<and>
        list_all2 (\<lambda>x r. model_validate P x = Inr r) items all_rules \<and>
        list_all (\<lambda>r. rule_id_match (rule_id r)) all_rules \<and> rules = filter enabled all_rules)"
proof -
  have ids: "list_all (\<lambda>r. rule_id_match (rule_id r)) rs"
    if "list_all2 (\<lambda>x r. model_validate P x = Inr r) items rs" for items rs
    using that by (induction rule: list_all2_induct) (auto dest: model_validate_rule_id)
  show ?thesis
    by (auto simp: RuleLoader_load_def result_simps validate_entries_Inr ids
          split: sum.splits pyval.splits if_splits)
qed

text \<open>Every way a rules file can be bad surfaces as one exception class: with a missing file,
  malformed YAML, a document that is not a list or an invalid entry, loading raises
  RuleConfigError and nothing else.\<close>

theorem RuleLoader_load_errors:
  assumes "\<And>e. read_file path = Inl e \<Longrightarrow> exn_cls e = FileNotFoundError"
    and "\<And>content e. safe_load content = Inl e \<Longrightarrow> exn_cls e = YAMLError"
    and "RuleLoader_load P read_file safe_load path = Inl e"
  shows "exn_cls e = RuleConfigError"
  using assms
  by (auto simp: RuleLoader_load_def result_simps isinstance_def
        dest: validate_entries_Inl split: sum.splits pyval.splits if_splits)

lemma RuleLoader_load_errors_witness:
  "exn_cls (Exn RuleConfigError ''Rules config must be a YAML list'') = RuleConfigError"
proof (rule RuleLoader_load_errors [of "\<lambda>_. Inr ''{}''" _ "\<lambda>_. Inr (PDict [])" pydantic_exact])
  show "RuleLoader_load pydantic_exact (\<lambda>_. Inr ''{}'') (\<lambda>_. Inr (PDict [])) ''rules.yaml'' =
      Inl (Exn RuleConfigError ''Rules config must be a YAML list'')"
    by (simp add: RuleLoader_load_def raise_exn_def)
qed simp_all

text \<open>The comparison methods of Severity order the four levels linearly as low, medium, high,
  critical, agree with one another, and refuse an operand that is neither a severity nor an int.\<close>

theorem severity_order:
  "severity_lt a (SevOp b) = Some (a < b)" "severity_le a (SevOp b) = Some (a \<le> b)"
  "severity_gt a (SevOp b) = Some (b < a)" "severity_ge a (SevOp b) = Some (b \<le> a)"
  "severity_lt a OtherOp = None" "Low < Medium" "Medium < High" "High < Critical"
  by (auto simp: severity_less_iff severity_le_iff severity_lt_def severity_le_def severity_gt_def
        severity_ge_def less_le)

end
