(* ===== verification/Evaluator.thy ===== *)
theory Evaluator
  imports Rules
begin

text \<open>
  \<open>pipelines/scoring/rules/families/\<close> and \<open>evaluator.py\<close>: the three rule families, the
  evaluator that dispatches a transaction to them, its shadow-only variant and the Flink
  wrapper. The Prometheus counters the evaluator touches are the list of \<open>metric\<close> events, in
  order; spans and log lines are not modelled. The wall clock is the argument \<open>now_ms\<close>.
\<close>

section \<open>Rule families\<close>

text \<open>\<open>txn.get(k)\<close> for a key of any type: the keys of a transaction are strings.\<close>

definition txn_get :: "pydict \<Rightarrow> pyval \<Rightarrow> pyval result" where
  "txn_get txn k =
     (case k of PStr s \<Rightarrow> Inr (dget txn s)
      | PList _ \<Rightarrow> raise_exn TypeError ''unhashable type''
      | PDict _ \<Rightarrow> raise_exn TypeError ''unhashable type''
      | _ \<Rightarrow> Inr PNone)"

definition evaluate_velocity :: "pydict \<Rightarrow> pydict \<Rightarrow> bool result" where
  "evaluate_velocity txn conds =
     (let field = dget conds ''field'' in
      if field = PNone then Inr False
      else rbind (txn_get txn field) (\<lambda>value.
        if value = PNone then Inr False
        else if has_key conds ''count'' then py_gt value (dget conds ''count'')
        else if has_key conds ''amount''
        then rbind (decimal_of_str (dget conds ''amount'')) (\<lambda>d. py_gt value d)
        else Inr False))"

fun fl_sub :: "pyfloat \<Rightarrow> pyfloat \<Rightarrow> pyfloat" where
  "fl_sub (Fin x) (Fin y) = to_double (x - y)"
| "fl_sub NaN _ = NaN"
| "fl_sub _ NaN = NaN"
| "fl_sub PosInf PosInf = NaN"
| "fl_sub NegInf NegInf = NaN"
| "fl_sub PosInf _ = PosInf"
| "fl_sub NegInf _ = NegInf"
| "fl_sub (Fin _) PosInf = NegInf"
| "fl_sub (Fin _) NegInf = PosInf"

fun fl_abs :: "pyfloat \<Rightarrow> pyfloat" where
  "fl_abs (Fin x) = Fin \<bar>x\<bar>"
| "fl_abs NegInf = PosInf"
| "fl_abs f = f"

text \<open>
  The default Decimal context: 28 significant digits, halves to even. \<open>leading_place x\<close> is the number of
  digits before the decimal point, zero or negative for a number below 1.
\<close>

definition leading_place :: "rat \<Rightarrow> int" where
  "leading_place x =
     (if 1 \<le> \<bar>x\<bar> then int (length (show_nat (nat \<lfloor>\<bar>x\<bar>\<rfloor>)))
      else let m = nat (\<lceil>1 / \<bar>x\<bar>\<rceil> - 1) in 1 - int (if m = 0 then 0 else length (show_nat m)))"

definition dec_context :: "rat \<Rightarrow> rat" where
  "dec_context x =
     (if x = 0 then 0
      else let p = 28 - leading_place x in
        if 0 \<le> p then of_int (round_half_even (x * 10 ^ nat p)) / 10 ^ nat p
        else of_int (round_half_even (x / 10 ^ nat (- p))) * 10 ^ nat (- p))"

text \<open>
  \<open>abs(a - b)\<close>: exact on ints; with a float the other operand is converted to one, which may overflow;
  between Decimals, or a Decimal and an int, rounded by the context.
\<close>

definition py_abs_diff :: "pyval \<Rightarrow> pyval \<Rightarrow> pyval result" where
  "py_abs_diff a b =
     (case (num_of a, num_of b) of
        (Some x, Some y) \<Rightarrow>
          (case (a, b) of
             (PFloat _, PDec _) \<Rightarrow> raise_exn TypeError ''unsupported operand types''
           | (PDec _, PFloat _) \<Rightarrow> raise_exn TypeError ''unsupported operand types''
           | (PFloat _, _) \<Rightarrow> rbind (py_float a) (\<lambda>f. rbind (py_float b) (\<lambda>g. Inr (PFloat (fl_abs (fl_sub f g)))))
           | (_, PFloat _) \<Rightarrow> rbind (py_float a) (\<lambda>f. rbind (py_float b) (\<lambda>g. Inr (PFloat (fl_abs (fl_sub f g)))))
           | _ \<Rightarrow>
               (case (x, y) of
                  (Fin p, Fin q) \<Rightarrow>
                    (if is_dec a \<or> is_dec b then Inr (PDec (Fin \<bar>dec_context (p - q)\<bar>)) else Inr (PInt \<bar>\<lfloor>p - q\<rfloor>\<bar>))
                | _ \<Rightarrow> Inr (PDec (fl_abs (fl_sub x y)))))
      | _ \<Rightarrow> raise_exn TypeError ''unsupported operand types'')"

definition evaluate_impossible_travel :: "pydict \<Rightarrow> pydict \<Rightarrow> bool result" where
  "evaluate_impossible_travel txn conds =
     (let prev_geo_country = dget txn ''prev_geo_country'';
          prev_txn_time_ms = dget txn ''prev_txn_time_ms'';
          current_country = dget txn ''geo_country'';
          current_time_ms = dget txn ''txn_time_ms''
      in if prev_geo_country = PNone then Inr False
         else if prev_txn_time_ms = PNone then Inr False
         else if current_country = PNone then Inr False
         else if current_time_ms = PNone then Inr False
         else if py_eq prev_geo_country current_country then Inr False
         else if has_key conds ''window_ms''
         then rbind (py_abs_diff current_time_ms prev_txn_time_ms)
                (\<lambda>time_delta. py_ge (dget conds ''window_ms'') time_delta)
         else Inr False)"

definition evaluate_nd001 :: "pydict \<Rightarrow> pydict \<Rightarrow> bool result" where
  "evaluate_nd001 txn conds =
     (if \<not> truthy (dget txn ''device_is_new'') then Inr False
      else if dget txn ''txn_amount'' = PNone then Inr False
      else rbind (dsub conds ''amount'') (\<lambda>a.
             rbind (decimal_of_str a) (\<lambda>d. py_gt (dget txn ''txn_amount'') d)))"

definition evaluate_nd002 :: "pydict \<Rightarrow> pydict \<Rightarrow> bool result" where
  "evaluate_nd002 txn conds =
     (if \<not> truthy (dget txn ''device_is_new'') then Inr False
      else let device_count_24h = dget txn ''device_count_24h''; vel_count_1m = dget txn ''vel_count_1m'' in
        if device_count_24h = PNone \<or> vel_count_1m = PNone then Inr False
        else rbind (dsub conds ''device_count'') (\<lambda>dc. rbind (py_ge device_count_24h dc) (\<lambda>b.
          if b then rbind (dsub conds ''vel_count'') (\<lambda>vc. py_ge vel_count_1m vc) else Inr False)))"

definition evaluate_nd003 :: "pydict \<Rightarrow> bool result" where
  "evaluate_nd003 txn = Inr (dget txn ''device_known_fraud'' = PBool True)"

definition evaluate_nd004 :: "pydict \<Rightarrow> pydict \<Rightarrow> bool result" where
  "evaluate_nd004 txn conds =
     (if \<not> truthy (dget txn ''device_is_new'') then Inr False
      else if dget txn ''geo_network_class'' = PNone then Inr False
      else rbind (dsub conds ''network_class'') (\<lambda>nc. Inr (py_eq (dget txn ''geo_network_class'') nc)))"

definition evaluate_new_device :: "pydict \<Rightarrow> pydict \<Rightarrow> bool result" where
  "evaluate_new_device txn conds =
     (if has_key conds ''amount'' then evaluate_nd001 txn conds
      else if has_key conds ''device_count'' then evaluate_nd002 txn conds
      else if has_key conds ''network_class'' then evaluate_nd004 txn conds
      else evaluate_nd003 txn)"

fun family_dispatch :: "rule_family \<Rightarrow> pydict \<Rightarrow> pydict \<Rightarrow> bool result" where
  "family_dispatch Velocity = evaluate_velocity"
| "family_dispatch ImpossibleTravel = evaluate_impossible_travel"
| "family_dispatch NewDevice = evaluate_new_device"

section \<open>The evaluator\<close>

datatype determination = Clean | Suspicious

record evaluation_result =
  determination :: determination
  matched_rules :: "string list"
  highest_severity :: "string option"
  evaluation_timestamp :: int
  missing_fields :: "string list"

datatype metric =
    MEvaluation string string
  | MFlag string string string
  | MTrigger string
  | MShadowTrigger string
  | MShadowFp string

text \<open>The constructor keeps the enabled rules in order.\<close>

definition RuleEvaluator_init :: "rule_definition list \<Rightarrow> rule_definition list" where
  "RuleEvaluator_init rules = filter enabled rules"

text \<open>
  The loop over the rules: the metrics recorded so far, the active and shadow matches and
  the severities of the active matches. An exception of a family function leaves the loop
  with the metrics already recorded.
\<close>

record loop_state =
  metrics :: "metric list"
  active_matched :: "string list"
  shadow_matched :: "string list"
  severities :: "severity list"

definition loop_init :: loop_state where
  "loop_init = \<lparr>metrics = [], active_matched = [], shadow_matched = [], severities = []\<rparr>"

definition record_match :: "rule_definition \<Rightarrow> loop_state \<Rightarrow> loop_state" where
  "record_match r s =
     (if mode r = Shadow
      then s\<lparr>shadow_matched := shadow_matched s @ [rule_id r],
             metrics := metrics s @ [MShadowTrigger (rule_id r)]\<rparr>
      else s\<lparr>active_matched := active_matched s @ [rule_id r],
             severities := severities s @ [severity r],
             metrics := metrics s @ [MFlag (rule_id r) (family_value (family r)) (severity_name (severity r)),
                                     MTrigger (rule_id r)]\<rparr>)"

fun eval_loop :: "pydict \<Rightarrow> rule_definition list \<Rightarrow> loop_state \<Rightarrow> loop_state \<times> exn option" where
  "eval_loop txn [] s = (s, None)"
| "eval_loop txn (r # rs) s =
     (let s1 = s\<lparr>metrics := metrics s @ [MEvaluation (rule_id r) (family_value (family r))]\<rparr>
      in case family_dispatch (family r) txn (conditions r) of
           Inl e \<Rightarrow> (s1, Some e)
         | Inr matched \<Rightarrow> eval_loop txn rs (if matched then record_match r s1 else s1))"

definition max_severity :: "severity list \<Rightarrow> severity option" where
  "max_severity sevs = (case sevs of [] \<Rightarrow> None | v # vs \<Rightarrow> Some (fold max vs v))"

definition RuleEvaluator_dispatch ::
  "rule_definition list \<Rightarrow> int \<Rightarrow> pydict \<Rightarrow> metric list \<times> evaluation_result result" where
  "RuleEvaluator_dispatch rules now_ms txn =
     (case eval_loop txn rules loop_init of
        (s, Some e) \<Rightarrow> (metrics s, Inl e)
      | (s, None) \<Rightarrow>
          (let det = (if active_matched s \<noteq> [] then Suspicious else Clean)
           in (metrics s @ (if det = Clean then map MShadowFp (shadow_matched s) else []),
               Inr \<lparr>determination = det,
                    matched_rules = active_matched s @ map (\<lambda>r. r @ '':shadow'') (shadow_matched s),
                    highest_severity = map_option severity_name (max_severity (severities s)),
                    evaluation_timestamp = now_ms,
                    missing_fields = []\<rparr>)))"

text \<open>The Flink wrapper: the evaluator exists only after \<open>open\<close> has loaded the rules.\<close>

definition ProcessFunction_open ::
  "pydantic \<Rightarrow> (string \<Rightarrow> string result) \<Rightarrow> (string \<Rightarrow> pyval result) \<Rightarrow> string \<Rightarrow> rule_definition list option result" where
  "ProcessFunction_open P read_file safe_load path =
     rbind (RuleLoader_load P read_file safe_load path) (\<lambda>rules. Inr (Some (RuleEvaluator_init rules)))"

definition ProcessFunction_process_element ::
  "rule_definition list option \<Rightarrow> int \<Rightarrow> pydict \<Rightarrow> metric list \<times> evaluation_result result" where
  "ProcessFunction_process_element ev now_ms txn =
     (case ev of
        None \<Rightarrow> ([], raise_exn RuntimeError ''open() must be called before process_element()'')
      | Some rules \<Rightarrow> RuleEvaluator_dispatch rules now_ms txn)"

section \<open>The shadow evaluator\<close>

definition ShadowRuleEvaluator_init :: "rule_definition list \<Rightarrow> rule_definition list" where
  "ShadowRuleEvaluator_init rules = filter (\<lambda>r. enabled r \<and> mode r = Shadow) rules"

fun shadow_loop ::
  "pydict \<Rightarrow> rule_definition list \<Rightarrow> loop_state \<Rightarrow> loop_state \<times> exn option" where
  "shadow_loop txn [] s = (s, None)"
| "shadow_loop txn (r # rs) s =
     (let s1 = s\<lparr>metrics := metrics s @ [MEvaluation (rule_id r) (family_value (family r))]\<rparr>
      in case family_dispatch (family r) txn (conditions r) of
           Inl e \<Rightarrow> (s1, Some e)
         | Inr matched \<Rightarrow>
             shadow_loop txn rs
               (if matched
                then s1\<lparr>shadow_matched := shadow_matched s1 @ [rule_id r],
                        severities := severities s1 @ [severity r],
                        metrics := metrics s1 @ [MShadowTrigger (rule_id r)]\<rparr>
                else s1))"

definition ShadowRuleEvaluator_dispatch ::
  "rule_definition list \<Rightarrow> int \<Rightarrow> pydict \<Rightarrow> metric list \<times> evaluation_result result" where
  "ShadowRuleEvaluator_dispatch rules now_ms txn =
     (case shadow_loop txn rules loop_init of
        (s, Some e) \<Rightarrow> (metrics s, Inl e)
      | (s, None) \<Rightarrow>
          (let det = (if shadow_matched s \<noteq> [] then Suspicious else Clean)
           in (metrics s @
                 (if det = Clean
                  then map (\<lambda>r. MShadowFp (rule_id r)) (filter (\<lambda>r. rule_id r \<notin> set (shadow_matched s)) rules)
                  else []),
               Inr \<lparr>determination = det,
                    matched_rules = shadow_matched s,
                    highest_severity = map_option severity_name (max_severity (severities s)),
                    evaluation_timestamp = now_ms,
                    missing_fields = []\<rparr>)))"

section \<open>What the loops compute\<close>

definition rule_hit :: "pydict \<Rightarrow> rule_definition \<Rightarrow> bool" where
  "rule_hit txn r \<longleftrightarrow> family_dispatch (family r) txn (conditions r) = Inr True"

definition rule_raises :: "pydict \<Rightarrow> rule_definition \<Rightarrow> bool" where
  "rule_raises txn r \<longleftrightarrow> (case family_dispatch (family r) txn (conditions r) of Inl e \<Rightarrow> True | Inr b \<Rightarrow> False)"

abbreviation active_hits :: "pydict \<Rightarrow> rule_definition list \<Rightarrow> rule_definition list" where
  "active_hits txn rs \<equiv> filter (\<lambda>r. mode r = Active \<and> rule_hit txn r) rs"

abbreviation shadow_hits :: "pydict \<Rightarrow> rule_definition list \<Rightarrow> rule_definition list" where
  "shadow_hits txn rs \<equiv> filter (\<lambda>r. mode r = Shadow \<and> rule_hit txn r) rs"

lemma mode_not_shadow [simp]: "m \<noteq> Shadow \<longleftrightarrow> m = Active"
  by (cases m) auto

text \<open>One step of each loop, on the three outcomes of the family function.\<close>

definition evaluated :: "rule_definition \<Rightarrow> loop_state \<Rightarrow> loop_state" where
  "evaluated r s = s\<lparr>metrics := metrics s @ [MEvaluation (rule_id r) (family_value (family r))]\<rparr>"

lemma evaluated_simps [simp]:
  "active_matched (evaluated r s) = active_matched s"
  "shadow_matched (evaluated r s) = shadow_matched s"
  "severities (evaluated r s) = severities s"
  by (simp_all add: evaluated_def)

lemma record_match_simps [simp]:
  "active_matched (record_match r s) = active_matched s @ (if mode r = Active then [rule_id r] else [])"
  "shadow_matched (record_match r s) = shadow_matched s @ (if mode r = Shadow then [rule_id r] else [])"
  "severities (record_match r s) = severities s @ (if mode r = Active then [severity r] else [])"
  by (cases "mode r"; simp add: record_match_def)+

lemma eval_loop_step:
  "eval_loop txn (r # rs) s =
     (case family_dispatch (family r) txn (conditions r) of
        Inl e \<Rightarrow> (evaluated r s, Some e)
      | Inr b \<Rightarrow> eval_loop txn rs (if b then record_match r (evaluated r s) else evaluated r s))"
  by (simp add: evaluated_def Let_def split: sum.splits)

declare family_dispatch.simps [simp del] eval_loop.simps(2) [simp del]

lemma eval_loop_raises: "snd (eval_loop txn rs s) = None \<longleftrightarrow> (\<forall>r \<in> set rs. \<not> rule_raises txn r)"
proof (induction rs arbitrary: s)
  case (Cons r rs)
  show ?case
    by (cases "family_dispatch (family r) txn (conditions r)")
      (simp_all add: eval_loop_step rule_raises_def Cons.IH)
qed simp

lemma eval_loop_result:
  assumes "eval_loop txn rs s = (t, None)"
  shows "active_matched t = active_matched s @ map rule_id (active_hits txn rs) \<and>
         shadow_matched t = shadow_matched s @ map rule_id (shadow_hits txn rs) \<and>
         severities t = severities s @ map severity (active_hits txn rs)"
  using assms
proof (induction rs arbitrary: s)
  case (Cons r rs)
  then obtain b where b: "family_dispatch (family r) txn (conditions r) = Inr b"
    by (cases "family_dispatch (family r) txn (conditions r)") (simp_all add: eval_loop_step)
  note IH = Cons.IH [OF Cons.prems [unfolded eval_loop_step b sum.case]]
  show ?case using IH by (cases b; cases "mode r") (simp_all add: b rule_hit_def)
qed simp

lemma shadow_loop_step:
  "shadow_loop txn (r # rs) s =
     (case family_dispatch (family r) txn (conditions r) of
        Inl e \<Rightarrow> (evaluated r s, Some e)
      | Inr b \<Rightarrow> shadow_loop txn rs
          (if b then (evaluated r s)\<lparr>shadow_matched := shadow_matched s @ [rule_id r],
                                     severities := severities s @ [severity r],
                                     metrics := metrics (evaluated r s) @ [MShadowTrigger (rule_id r)]\<rparr>
           else evaluated r s))"
  by (simp add: evaluated_def Let_def split: sum.splits)

declare shadow_loop.simps(2) [simp del]

lemma shadow_loop_raises: "snd (shadow_loop txn rs s) = None \<longleftrightarrow> (\<forall>r \<in> set rs. \<not> rule_raises txn r)"
proof (induction rs arbitrary: s)
  case (Cons r rs)
  show ?case
    by (cases "family_dispatch (family r) txn (conditions r)")
      (simp_all add: shadow_loop_step rule_raises_def Cons.IH)
qed simp

lemma shadow_loop_result:
  assumes "shadow_loop txn rs s = (t, None)"
  shows "shadow_matched t = shadow_matched s @ map rule_id (filter (rule_hit txn) rs) \<and>
         severities t = severities s @ map severity (filter (rule_hit txn) rs)"
  using assms
proof (induction rs arbitrary: s)
  case (Cons r rs)
  then obtain b where b: "family_dispatch (family r) txn (conditions r) = Inr b"
    by (cases "family_dispatch (family r) txn (conditions r)") (simp_all add: shadow_loop_step)
  note IH = Cons.IH [OF Cons.prems [unfolded shadow_loop_step b sum.case]]
  show ?case using IH by (cases b) (simp_all add: b rule_hit_def)
qed simp

lemma loop_init_simps [simp]:
  "metrics loop_init = []" "active_matched loop_init = []"
  "shadow_matched loop_init = []" "severities loop_init = []"
  by (simp_all add: loop_init_def)

lemma fold_max_upper: "v \<le> fold max vs v \<and> (\<forall>w \<in> set vs. w \<le> fold max vs v)" for v :: severity
proof (induction vs arbitrary: v)
  case (Cons a vs)
  from Cons [of "max a v"] show ?case by auto
qed simp

lemma fold_max_mem: "fold max vs v \<in> insert v (set vs)" for v :: severity
proof (induction vs arbitrary: v)
  case (Cons a vs)
  from Cons [of "max a v"] show ?case by (auto simp: max_def split: if_splits)
qed simp

lemma max_severity_spec:
  "max_severity sevs = Some v \<longleftrightarrow> v \<in> set sevs \<and> (\<forall>w \<in> set sevs. w \<le> v)"
proof (cases sevs)
  case (Cons a vs)
  have "fold max vs a \<in> set sevs" "\<forall>w \<in> set sevs. w \<le> fold max vs a"
    using fold_max_mem [of vs a] fold_max_upper [of a vs] Cons by auto
  then show ?thesis using Cons by (auto simp: max_severity_def dest: order.antisym)
qed (simp add: max_severity_def)

lemma max_severity_None [simp]: "max_severity sevs = None \<longleftrightarrow> sevs = []"
  by (simp add: max_severity_def split: list.splits)

lemma severity_name_inj [simp]: "severity_name a = severity_name b \<longleftrightarrow> a = b"
  by (cases a; cases b) simp_all

text \<open>The result of a dispatch, in one equation over the rules that hit.\<close>

definition expected_result :: "pydict \<Rightarrow> rule_definition list \<Rightarrow> int \<Rightarrow> evaluation_result" where
  "expected_result txn rules now_ms =
     \<lparr>determination = (if active_hits txn rules = [] then Clean else Suspicious),
      matched_rules = map rule_id (active_hits txn rules) @ map (\<lambda>r. rule_id r @ '':shadow'') (shadow_hits txn rules),
      highest_severity = map_option severity_name (max_severity (map severity (active_hits txn rules))),
      evaluation_timestamp = now_ms, missing_fields = []\<rparr>"

lemma dispatch_result:
  "snd (RuleEvaluator_dispatch rules now_ms txn) = Inr res \<longleftrightarrow>
     (\<forall>r \<in> set rules. \<not> rule_raises txn r) \<and> res = expected_result txn rules now_ms"
proof (cases "eval_loop txn rules loop_init")
  case (Pair t eo)
  show ?thesis
  proof (cases eo)
    case None
    with Pair have ok: "\<forall>r \<in> set rules. \<not> rule_raises txn r"
      using eval_loop_raises [of txn rules loop_init] by simp
    note eq = eval_loop_result [OF Pair [unfolded None]]
    show ?thesis using ok Pair None eq
      by (auto simp: RuleEvaluator_dispatch_def expected_result_def Let_def comp_def)
  next
    case (Some e)
    with Pair have "\<not> (\<forall>r \<in> set rules. \<not> rule_raises txn r)"
      using eval_loop_raises [of txn rules loop_init] by simp
    then show ?thesis using Pair Some by (auto simp: RuleEvaluator_dispatch_def)
  qed
qed

lemma dispatch_error:
  "(\<exists>e. snd (RuleEvaluator_dispatch rules now_ms txn) = Inl e) \<longleftrightarrow> (\<exists>r \<in> set rules. rule_raises txn r)"
  using dispatch_result [of rules now_ms txn]
  by (cases "snd (RuleEvaluator_dispatch rules now_ms txn)") auto

lemma shadow_dispatch_result:
  "snd (ShadowRuleEvaluator_dispatch rules now_ms txn) = Inr res \<longleftrightarrow>
     (\<forall>r \<in> set rules. \<not> rule_raises txn r) \<and>
     res = \<lparr>determination = (if filter (rule_hit txn) rules = [] then Clean else Suspicious),
            matched_rules = map rule_id (filter (rule_hit txn) rules),
            highest_severity = map_option severity_name (max_severity (map severity (filter (rule_hit txn) rules))),
            evaluation_timestamp = now_ms, missing_fields = []\<rparr>"
proof (cases "shadow_loop txn rules loop_init")
  case (Pair t eo)
  show ?thesis
  proof (cases eo)
    case None
    with Pair have ok: "\<forall>r \<in> set rules. \<not> rule_raises txn r"
      using shadow_loop_raises [of txn rules loop_init] by simp
    note eq = shadow_loop_result [OF Pair [unfolded None]]
    show ?thesis using ok Pair None eq
      by (auto simp: ShadowRuleEvaluator_dispatch_def Let_def)
  next
    case (Some e)
    with Pair have "\<not> (\<forall>r \<in> set rules. \<not> rule_raises txn r)"
      using shadow_loop_raises [of txn rules loop_init] by simp
    then show ?thesis using Pair Some by (auto simp: ShadowRuleEvaluator_dispatch_def)
  qed
qed

text \<open>The first exception met by the loop is the one of the first rule that raises.\<close>

fun first_error :: "pydict \<Rightarrow> rule_definition list \<Rightarrow> exn option" where
  "first_error txn [] = None"
| "first_error txn (r # rs) =
     (case family_dispatch (family r) txn (conditions r) of Inl e \<Rightarrow> Some e | Inr b \<Rightarrow> first_error txn rs)"

lemma eval_loop_error: "snd (eval_loop txn rs s) = first_error txn rs"
proof (induction rs arbitrary: s)
  case (Cons r rs)
  show ?case
    by (cases "family_dispatch (family r) txn (conditions r)") (simp_all add: eval_loop_step Cons.IH)
qed simp

lemma first_error_None: "first_error txn rs = None \<longleftrightarrow> (\<forall>r \<in> set rs. \<not> rule_raises txn r)"
  using eval_loop_error [of txn rs loop_init] eval_loop_raises [of txn rs loop_init] by simp

text \<open>The trigger counters: one trigger and one flag per active hit, one shadow trigger per shadow hit.\<close>

fun trigger_ids :: "metric list \<Rightarrow> string list" where
  "trigger_ids [] = []"
| "trigger_ids (MTrigger i # ms) = i # trigger_ids ms"
| "trigger_ids (m # ms) = trigger_ids ms"

lemma trigger_ids_append [simp]: "trigger_ids (xs @ ys) = trigger_ids xs @ trigger_ids ys"
  by (induction xs rule: trigger_ids.induct) simp_all

lemma trigger_ids_fp [simp]: "trigger_ids (map MShadowFp xs) = []"
  by (induction xs) simp_all

lemma evaluated_triggers [simp]: "trigger_ids (metrics (evaluated r s)) = trigger_ids (metrics s)"
  by (simp add: evaluated_def)

lemma record_match_triggers [simp]:
  "trigger_ids (metrics (record_match r s)) = trigger_ids (metrics s) @ (if mode r = Active then [rule_id r] else [])"
  by (cases "mode r") (simp_all add: record_match_def)

lemma eval_loop_triggers:
  "trigger_ids (metrics (fst (eval_loop txn rs s))) = active_matched (fst (eval_loop txn rs s))"
  if "trigger_ids (metrics s) = active_matched s"
  using that
proof (induction rs arbitrary: s)
  case (Cons r rs)
  show ?case
    using Cons.IH [of "record_match r (evaluated r s)"] Cons.IH [of "evaluated r s"] Cons.prems
    by (cases "family_dispatch (family r) txn (conditions r)")
      (auto simp: eval_loop_step)
qed simp

section \<open>Properties\<close>

text \<open>C4: A dispatch returns exactly one of two things. If the family function of some enabled rule
  raises, the dispatch raises the exception of the first such rule. Otherwise the result is the
  one of the specification: SUSPICIOUS iff an active rule hits, the ids of the active hits in
  rule order followed by those of the shadow hits with their suffix, and the highest severity
  among the active hits only.\<close>

theorem RuleEvaluator_dispatch_spec:
  "snd (RuleEvaluator_dispatch rules now_ms txn) =
     (case first_error txn rules of Some e \<Rightarrow> Inl e | None \<Rightarrow> Inr (expected_result txn rules now_ms))"
proof (cases "first_error txn rules")
  case None
  then have "\<forall>r \<in> set rules. \<not> rule_raises txn r" by (simp add: first_error_None)
  then show ?thesis using None by (simp add: dispatch_result)
next
  case (Some e)
  then show ?thesis
    using eval_loop_error [of txn rules loop_init]
    by (cases "eval_loop txn rules loop_init") (simp add: RuleEvaluator_dispatch_def)
qed

text \<open>C14: Shadow rules are inert: when no rule raises, removing every shadow rule from the rule set
  changes neither the determination nor the highest severity, and the matched rules of the
  reduced set are the first part of those of the full set.\<close>

theorem shadow_rules_inert:
  assumes "snd (RuleEvaluator_dispatch rules now_ms txn) = Inr res"
  shows "\<exists>res'. snd (RuleEvaluator_dispatch (filter (\<lambda>r. mode r = Active) rules) now_ms txn) = Inr res' \<and>
           determination res' = determination res \<and>
           highest_severity res' = highest_severity res \<and>
           prefix (matched_rules res') (matched_rules res)"
proof -
  have eq: "active_hits txn (filter (\<lambda>r. mode r = Active) rules) = active_hits txn rules"
    "shadow_hits txn (filter (\<lambda>r. mode r = Active) rules) = []"
    by (auto simp: filter_empty_conv intro: filter_cong)
  show ?thesis
    using assms by (auto simp: dispatch_result expected_result_def eq)
qed

definition high_velocity_rule :: rule_definition where
  "high_velocity_rule =
     \<lparr>rule_id = ''VEL-001'', rule_name = ''high velocity'', family = Velocity,
      conditions = [(''field'', PStr ''vel_count_1m''), (''count'', PInt 5)],
      severity = High, enabled = True, mode = Active\<rparr>"

definition shadow_device_rule :: rule_definition where
  "shadow_device_rule =
     \<lparr>rule_id = ''ND-003'', rule_name = ''known fraud device'', family = NewDevice,
      conditions = [], severity = Critical, enabled = True, mode = Shadow\<rparr>"

definition busy_txn :: pydict where
  "busy_txn = [(''vel_count_1m'', PInt 9), (''device_known_fraud'', PBool True)]"

lemma busy_hits:
  "rule_hit busy_txn high_velocity_rule" "rule_hit busy_txn shadow_device_rule"
  "\<not> rule_raises busy_txn high_velocity_rule" "\<not> rule_raises busy_txn shadow_device_rule"
  by code_simp+

lemma busy_modes [simp]: "mode high_velocity_rule = Active" "mode shadow_device_rule = Shadow"
  by (simp_all add: high_velocity_rule_def shadow_device_rule_def)

lemma shadow_rules_inert_witness:
  "\<exists>res'. snd (RuleEvaluator_dispatch (filter (\<lambda>r. mode r = Active) [high_velocity_rule, shadow_device_rule]) 0 busy_txn) = Inr res' \<and>
     determination res' = Suspicious \<and> highest_severity res' = Some ''high''"
proof -
  let ?rules = "[high_velocity_rule, shadow_device_rule]"
  let ?res = "expected_result busy_txn ?rules 0"
  have "snd (RuleEvaluator_dispatch ?rules 0 busy_txn) = Inr ?res"
    by (simp add: dispatch_result busy_hits)
  from shadow_rules_inert [OF this] show ?thesis
    by (auto simp: expected_result_def busy_hits max_severity_def high_velocity_rule_def [THEN arg_cong, of severity])
qed

text \<open>The highest severity reported is the greatest in the order low, medium, high, critical
  among the active rules that hit, and none is reported exactly when no active rule hits.\<close>

theorem highest_severity_is_max:
  assumes "snd (RuleEvaluator_dispatch rules now_ms txn) = Inr res"
  shows "(highest_severity res = None \<longleftrightarrow> determination res = Clean) \<and>
         (highest_severity res = Some (severity_name v) \<longleftrightarrow>
            v \<in> severity ` set (active_hits txn rules) \<and>
            (\<forall>r \<in> set (active_hits txn rules). severity_value (severity r) \<le> severity_value v))"
proof -
  have "res = expected_result txn rules now_ms" using assms by (simp add: dispatch_result)
  then show ?thesis
    by (auto simp: expected_result_def max_severity_spec severity_le_iff)
qed

lemma highest_severity_is_max_witness:
  "highest_severity (expected_result busy_txn [high_velocity_rule, shadow_device_rule] 0) = Some (severity_name High)"
proof -
  let ?rules = "[high_velocity_rule, shadow_device_rule]"
  have "snd (RuleEvaluator_dispatch ?rules 0 busy_txn) = Inr (expected_result busy_txn ?rules 0)"
    by (simp add: dispatch_result busy_hits)
  from highest_severity_is_max [OF this, of High] show ?thesis
    by (simp add: busy_hits) (simp add: high_velocity_rule_def)
qed

text \<open>The production counter of rule triggers agrees with the result on every path, the one
  where a rule raises included: the ids counted, in order, are those of the active rules the
  loop matched, so a shadow rule is never counted as a trigger.\<close>

theorem triggers_are_active_matches:
  "trigger_ids (fst (RuleEvaluator_dispatch rules now_ms txn)) =
     active_matched (fst (eval_loop txn rules loop_init))"
  using eval_loop_triggers [of loop_init txn rules]
  by (cases "eval_loop txn rules loop_init"; cases "snd (eval_loop txn rules loop_init)")
    (auto simp: RuleEvaluator_dispatch_def Let_def)

abbreviation promoted :: "rule_definition \<Rightarrow> rule_definition" where
  "promoted r \<equiv> r\<lparr>mode := Active\<rparr>"

lemma promoted_hits [simp]:
  "rule_hit txn (promoted r) = rule_hit txn r" "rule_raises txn (promoted r) = rule_raises txn r"
  by (simp_all add: rule_hit_def rule_raises_def)

lemma first_error_promoted [simp]: "first_error txn (map promoted rs) = first_error txn rs"
  by (induction rs) (simp_all split: sum.splits)

lemma shadow_loop_error: "snd (shadow_loop txn rs s) = first_error txn rs"
proof (induction rs arbitrary: s)
  case (Cons r rs)
  show ?case
    by (cases "family_dispatch (family r) txn (conditions r)") (simp_all add: shadow_loop_step Cons.IH)
qed simp

text \<open>C15: The shadow evaluator is the production evaluator on the shadow rules made active: it
  raises the same exception, or gives the same determination, matched rules and severity.\<close>

theorem shadow_evaluator_is_promoted_evaluator:
  "snd (ShadowRuleEvaluator_dispatch rules now_ms txn) =
     snd (RuleEvaluator_dispatch (map promoted rules) now_ms txn)"
proof (cases "first_error txn rules")
  case None
  have "snd (RuleEvaluator_dispatch (map promoted rules) now_ms txn) = Inr (expected_result txn (map promoted rules) now_ms)"
    using None by (auto simp: dispatch_result first_error_None)
  moreover have "snd (ShadowRuleEvaluator_dispatch rules now_ms txn) = Inr (expected_result txn (map promoted rules) now_ms)"
    using None by (auto simp: shadow_dispatch_result first_error_None expected_result_def filter_map comp_def)
  ultimately show ?thesis by simp
next
  case (Some e)
  then show ?thesis
    using eval_loop_error [of txn "map promoted rules" loop_init] shadow_loop_error [of txn rules loop_init]
    by (cases "eval_loop txn (map promoted rules) loop_init"; cases "shadow_loop txn rules loop_init")
      (simp add: RuleEvaluator_dispatch_def ShadowRuleEvaluator_dispatch_def)
qed

end
