(* ===== verification/Broker.thy ===== *)
theory Broker
  imports Py_Parse
begin

text \<open>
  What the components use of the Kafka producer and of \<open>str.encode\<close>. The producer is
  third-party code: a produce call either appends the message to what has been sent or raises.
  Which of the two happens is an argument of the model (\<open>kafka\<close>), free to depend on everything
  sent so far, so each theorem holds for every behaviour of the broker.
\<close>

section \<open>UTF-8\<close>

definition utf8_char :: "char \<Rightarrow> 8 word list" where
  "utf8_char c =
     (if code c < 128 then [word_of_nat (code c)]
      else [word_of_nat (192 + code c div 64), word_of_nat (128 + code c mod 64)])"

definition utf8_encode :: "string \<Rightarrow> 8 word list" where
  "utf8_encode s = concat (map utf8_char s)"

fun utf8_decode :: "8 word list \<Rightarrow> string" where
  "utf8_decode [] = []"
| "utf8_decode (b # bs) =
     (if unat b < 128 then char_of (unat b) # utf8_decode bs
      else (case bs of [] \<Rightarrow> []
            | c # cs \<Rightarrow> char_of ((unat b - 192) * 64 + (unat c - 128)) # utf8_decode cs))"

lemma code_less: "code c < 256"
  by (simp add: code_def)

lemma char_of_code [simp]: "char_of (code c) = c"
  by (simp add: code_def)

lemma unat_word_of_nat: "n < 256 \<Longrightarrow> unat (word_of_nat n :: 8 word) = n"
  by (simp add: unsigned_of_nat take_bit_eq_mod)

lemma utf8_decode_char: "utf8_decode (utf8_char c @ bs) = c # utf8_decode bs"
proof (cases "code c < 128")
  case True
  then have "unat (word_of_nat (code c) :: 8 word) = code c"
    by (simp add: unat_word_of_nat)
  with True show ?thesis by (simp add: utf8_char_def)
next
  case False
  have "code c div 64 < 4" using code_less [of c] by simp
  then have a: "unat (word_of_nat (192 + code c div 64) :: 8 word) = 192 + code c div 64"
    by (intro unat_word_of_nat) simp
  have b: "unat (word_of_nat (128 + code c mod 64) :: 8 word) = 128 + code c mod 64"
    by (intro unat_word_of_nat) simp
  have "code c div 64 * 64 + code c mod 64 = code c" by simp
  with False show ?thesis by (simp add: utf8_char_def a b del: of_nat_add)
qed

lemma utf8_decode_encode: "utf8_decode (utf8_encode s) = s"
  by (induction s) (simp_all add: utf8_encode_def utf8_decode_char)

lemma utf8_encode_inj [simp]: "utf8_encode s = utf8_encode t \<longleftrightarrow> s = t"
  by (metis utf8_decode_encode)

text \<open>\<open>x.encode()\<close>: only a string has the method.\<close>

definition encode_key :: "pyval \<Rightarrow> 8 word list result" where
  "encode_key v = (case v of PStr s \<Rightarrow> Inr (utf8_encode s) | _ \<Rightarrow> raise_exn AttributeError ''encode'')"

section \<open>Producing messages\<close>

record message =
  msg_topic :: string
  msg_key :: "8 word list option"
  msg_value :: "8 word list"

type_synonym kafka = "message list \<Rightarrow> message \<Rightarrow> exn option"

definition produce :: "kafka \<Rightarrow> message \<Rightarrow> message list \<Rightarrow> message list \<times> unit result" where
  "produce K m sent = (case K sent m of None \<Rightarrow> (sent @ [m], Inr ()) | Some e \<Rightarrow> (sent, Inl e))"

lemma produce_ok: "produce K m sent = (sent', Inr ()) \<longleftrightarrow> K sent m = None \<and> sent' = sent @ [m]"
  by (auto simp: produce_def split: option.splits)

lemma produce_prefix: "produce K m sent = (sent', r) \<Longrightarrow> prefix sent sent'"
  by (auto simp: produce_def split: option.splits)

section \<open>The protocol of alert sinks\<close>

text \<open>
  \<open>pipelines/shared/alert_protocol.py\<close> names the one method of an alert sink. The law its
  implementations keep, and its caller relies on, is that an emission that returns has stored
  the alert, and that no emission removes one stored before.
\<close>

locale alert_sink =
  fixes emit :: "'alert \<Rightarrow> 'state \<Rightarrow> 'state \<times> unit result"
    and stored :: "'alert \<Rightarrow> 'state \<Rightarrow> bool"
  assumes emit_stores: "emit a s = (s', Inr ()) \<Longrightarrow> stored a s'"
    and emit_keeps: "stored b s \<Longrightarrow> emit a s = (s', r) \<Longrightarrow> stored b s'"
begin

text \<open>Emitting a list of alerts, each failure being caught, as the sink operator does.\<close>

primrec emit_all :: "'alert list \<Rightarrow> 'state \<Rightarrow> 'state \<times> 'alert list" where
  "emit_all [] s = (s, [])"
| "emit_all (a # as) s =
     (let (s1, r) = emit a s; (s2, fs) = emit_all as s1
      in (s2, case r of Inl e \<Rightarrow> a # fs | Inr u \<Rightarrow> fs))"

lemma emit_all_keeps: "stored b s \<Longrightarrow> stored b (fst (emit_all as s))"
proof (induction as arbitrary: s)
  case (Cons a as)
  obtain s1 r where "emit a s = (s1, r)" by fastforce
  with Cons emit_keeps [of b s a s1 r] show ?case by (simp split: prod.splits) (metis fst_conv)
qed simp

lemma emit_all_stores: "a \<in> set as \<Longrightarrow> stored a (fst (emit_all as s)) \<or> a \<in> set (snd (emit_all as s))"
proof (induction as arbitrary: s)
  case (Cons b as)
  obtain s1 r where e: "emit b s = (s1, r)" by fastforce
  obtain s2 fs where f: "emit_all as s1 = (s2, fs)" by fastforce
  show ?case
  proof (cases "a = b")
    case True
    show ?thesis
    proof (cases r)
      case (Inr u)
      then have "stored a s1" using e True emit_stores [of b s s1] by simp
      then have "stored a s2" using emit_all_keeps [of a s1 as] f by simp
      then show ?thesis by (simp add: e f)
    qed (simp add: e f True)
  next
    case False
    then show ?thesis using Cons.IH [of s1] Cons.prems by (auto simp: e f split: sum.splits)
  qed
qed simp

end

end
