(* ===== verification/Decision.thy ===== *)
theory Decision
  imports Evaluator Broker
begin

text \<open>
  \<open>pipelines/scoring/types.py\<close> and the evaluation step of \<open>job_extension.py\<close>: what is decided
  and which alert is raised for an enriched transaction. The identifiers are copied from the
  transaction without conversion, so they are values of any type here. The wiring of the Flink
  stream (\<open>map\<close>, \<open>filter\<close>, \<open>print\<close>) is modelled by the list functions at the end.
\<close>

section \<open>Types\<close>

datatype fallback_reason = Timeout | Unavailable

record feature_vector =
  fv_account_id :: pyval
  fv_vel_count_1m :: int
  fv_vel_amount_1m :: pyfloat
  fv_vel_count_5m :: int
  fv_vel_amount_5m :: pyfloat
  fv_vel_count_1h :: int
  fv_vel_amount_1h :: pyfloat
  fv_vel_count_24h :: int
  fv_vel_amount_24h :: pyfloat
  fv_geo_country :: string
  fv_geo_city :: string
  fv_geo_network_class :: string
  fv_geo_confidence :: pyfloat
  fv_device_first_seen :: int
  fv_device_txn_count :: int
  fv_device_known_fraud :: bool
  fv_prev_geo_country :: string
  fv_prev_txn_time_ms :: int

definition ZERO_FEATURE_VECTOR :: feature_vector where
  "ZERO_FEATURE_VECTOR =
     \<lparr>fv_account_id = PStr [], fv_vel_count_1m = 0, fv_vel_amount_1m = Fin 0, fv_vel_count_5m = 0,
      fv_vel_amount_5m = Fin 0, fv_vel_count_1h = 0, fv_vel_amount_1h = Fin 0, fv_vel_count_24h = 0,
      fv_vel_amount_24h = Fin 0, fv_geo_country = [], fv_geo_city = [], fv_geo_network_class = [],
      fv_geo_confidence = Fin 0, fv_device_first_seen = 0, fv_device_txn_count = 0,
      fv_device_known_fraud = False, fv_prev_geo_country = [], fv_prev_txn_time_ms = 0\<rparr>"

record fraud_alert =
  al_transaction_id :: pyval
  al_account_id :: pyval
  al_matched_rule_names :: "string list"
  al_severity :: string
  al_evaluation_timestamp :: int

record fraud_alert_record = fraud_alert +
  al_status :: string

datatype verdict = ALLOW | FLAG | BLOCK

fun verdict_name :: "verdict \<Rightarrow> string" where
  "verdict_name ALLOW = ''ALLOW''"
| "verdict_name FLAG = ''FLAG''"
| "verdict_name BLOCK = ''BLOCK''"

fun determination_name :: "determination \<Rightarrow> string" where
  "determination_name Clean = ''clean''"
| "determination_name Suspicious = ''suspicious''"

record fraud_decision =
  fd_transaction_id :: pyval
  fd_decision :: verdict
  fd_fraud_score :: pyfloat
  fd_rule_triggers :: "string list"
  fd_model_version :: string
  fd_decision_time_ms :: int
  fd_latency_ms :: pyfloat
  fd_schema_version :: string
  fd_shadow_determination :: "determination option"
  fd_shadow_fraud_score :: "pyfloat option"
  fd_shadow_rule_triggers :: "string list option"

definition FraudDecision :: "pyval \<Rightarrow> verdict \<Rightarrow> pyfloat \<Rightarrow> string list \<Rightarrow> int \<Rightarrow> fraud_decision" where
  "FraudDecision txn_id v score triggers time_ms =
     \<lparr>fd_transaction_id = txn_id, fd_decision = v, fd_fraud_score = score, fd_rule_triggers = triggers,
      fd_model_version = ''rule-only'', fd_decision_time_ms = time_ms, fd_latency_ms = Fin 0,
      fd_schema_version = ''1'', fd_shadow_determination = None, fd_shadow_fraud_score = None,
      fd_shadow_rule_triggers = None\<rparr>"

section \<open>Deciding\<close>

definition build_fraud_decision :: "pydict \<Rightarrow> evaluation_result \<Rightarrow> fraud_decision" where
  "build_fraud_decision txn result =
     (let txn_id = dget_or txn ''transaction_id'' (PStr []);
          is_clean = (determination result = Clean);
          v = (if is_clean then ALLOW
               else let sev = (case highest_severity result of Some s \<Rightarrow> (if s = [] then ''low'' else s) | None \<Rightarrow> ''low'')
                    in if sev \<in> {''high'', ''critical''} then BLOCK else FLAG);
          fraud_score = (if is_clean then Fin 0 else if v = FLAG then to_double (3/10) else to_double (8/10));
          rule_triggers = (if \<not> is_clean then matched_rules result else [])
      in FraudDecision txn_id v fraud_score rule_triggers (evaluation_timestamp result))"

definition build_alert :: "pydict \<Rightarrow> evaluation_result \<Rightarrow> fraud_alert option" where
  "build_alert txn result =
     (if determination result = Suspicious
      then Some \<lparr>al_transaction_id = dget_or txn ''transaction_id'' (PStr []),
                 al_account_id = dget_or txn ''account_id'' (PStr []),
                 al_matched_rule_names = matched_rules result,
                 al_severity = (case highest_severity result of Some s \<Rightarrow> (if s = [] then ''low'' else s) | None \<Rightarrow> ''low''),
                 al_evaluation_timestamp = evaluation_timestamp result\<rparr>
      else None)"

text \<open>
  The step never raises: any exception of the dispatch becomes the default decision, and
  the error counter (the first component) is incremented.
\<close>

definition evaluate_txn ::
  "rule_definition list \<Rightarrow> int \<Rightarrow> pydict \<Rightarrow> nat \<times> metric list \<times> fraud_alert option \<times> fraud_decision" where
  "evaluate_txn rules now_ms txn =
     (let (ms, r) = RuleEvaluator_dispatch rules now_ms txn in
      case r of
        Inr result \<Rightarrow> (0, ms, build_alert txn result, build_fraud_decision txn result)
      | Inl e \<Rightarrow> (1, ms, None, FraudDecision (dget_or txn ''transaction_id'' (PStr [])) ALLOW (Fin 0) [] 0))"

abbreviation decision_of :: "rule_definition list \<Rightarrow> int \<Rightarrow> pydict \<Rightarrow> fraud_decision" where
  "decision_of rules now_ms txn \<equiv> snd (snd (snd (evaluate_txn rules now_ms txn)))"

abbreviation alert_of :: "rule_definition list \<Rightarrow> int \<Rightarrow> pydict \<Rightarrow> fraud_alert option" where
  "alert_of rules now_ms txn \<equiv> fst (snd (snd (evaluate_txn rules now_ms txn)))"

text \<open>The two streams split off the evaluation: alerts (the \<open>None\<close>s filtered out) and decisions.\<close>

definition wire_rule_evaluator ::
  "rule_definition list \<Rightarrow> (pydict \<times> int) list \<Rightarrow> fraud_alert list \<times> fraud_decision list" where
  "wire_rule_evaluator rules stream =
     (let ev = RuleEvaluator_init rules;
          eval_stream = map (\<lambda>(txn, now_ms). snd (snd (evaluate_txn ev now_ms txn))) stream
      in (map the (filter (\<lambda>a. a \<noteq> None) (map fst eval_stream)), map snd eval_stream))"

section \<open>Lemmas\<close>

lemma severity_name_nonempty [simp]: "severity_name v \<noteq> []"
  by (cases v) simp_all

lemma severity_name_blocking [simp]: "severity_name v \<in> {''high'', ''critical''} \<longleftrightarrow> High \<le> v"
  by (cases v) (simp_all add: severity_le_iff)

lemma score_values:
  "to_double (3/10) = Fin (5404319552844595 / 18014398509481984)"
  "to_double (4/5) = Fin (3602879701896397 / 4503599627370496)"
  by code_simp+

lemma max_ge: "(\<exists>v. max_severity sevs = Some v \<and> w \<le> v) \<longleftrightarrow> (\<exists>v \<in> set sevs. w \<le> v)"
proof
  assume "\<exists>v \<in> set sevs. w \<le> v"
  then obtain u where u: "u \<in> set sevs" "w \<le> u" by blast
  then have "sevs \<noteq> []" by auto
  then obtain v where v: "max_severity sevs = Some v" by (cases "max_severity sevs") auto
  then have "u \<le> v" using u by (auto simp: max_severity_spec)
  with u v show "\<exists>v. max_severity sevs = Some v \<and> w \<le> v" by (meson order_trans)
qed (auto simp: max_severity_spec)

text \<open>The decision on the specified result, in terms of the active hits.\<close>

lemma decision_expected:
  "fd_decision (build_fraud_decision txn (expected_result txn rules now_ms)) =
     (if active_hits txn rules = [] then ALLOW
      else if list_ex (\<lambda>r. High \<le> severity r) (active_hits txn rules) then BLOCK else FLAG)"
proof (cases "active_hits txn rules = []")
  case False
  then obtain v where v: "max_severity (map severity (active_hits txn rules)) = Some v"
    by (cases "max_severity (map severity (active_hits txn rules))") auto
  have "High \<le> v \<longleftrightarrow> list_ex (\<lambda>r. High \<le> severity r) (active_hits txn rules)"
    using max_ge [of "map severity (active_hits txn rules)" High] v by (auto simp: list_ex_iff)
  with False v show ?thesis
    by (simp add: build_fraud_decision_def expected_result_def FraudDecision_def Let_def
        del: insert_iff singleton_iff)
qed (simp add: build_fraud_decision_def expected_result_def FraudDecision_def Let_def)

lemma decision_fields [simp]:
  "fd_transaction_id (FraudDecision i v s t m) = i" "fd_decision (FraudDecision i v s t m) = v"
  "fd_fraud_score (FraudDecision i v s t m) = s" "fd_rule_triggers (FraudDecision i v s t m) = t"
  "fd_decision_time_ms (FraudDecision i v s t m) = m"
  by (simp_all add: FraudDecision_def)

lemma evaluate_txn_spec:
  "decision_of rules now_ms txn =
     (case first_error txn rules of
        Some e \<Rightarrow> FraudDecision (dget_or txn ''transaction_id'' (PStr [])) ALLOW (Fin 0) [] 0
      | None \<Rightarrow> build_fraud_decision txn (expected_result txn rules now_ms))"
  "alert_of rules now_ms txn =
     (case first_error txn rules of
        Some e \<Rightarrow> None | None \<Rightarrow> build_alert txn (expected_result txn rules now_ms))"
proof -
  obtain ms r where d: "RuleEvaluator_dispatch rules now_ms txn = (ms, r)" by fastforce
  have r: "r = (case first_error txn rules of Some e \<Rightarrow> Inl e | None \<Rightarrow> Inr (expected_result txn rules now_ms))"
  proof (cases "first_error txn rules")
    case None
    then have "\<forall>r \<in> set rules. \<not> rule_raises txn r" by (simp add: first_error_None)
    with None show ?thesis using dispatch_result [of rules now_ms txn] d by simp
  next
    case (Some e)
    then show ?thesis
      using eval_loop_error [of txn rules loop_init] d
      by (cases "eval_loop txn rules loop_init") (simp add: RuleEvaluator_dispatch_def)
  qed
  show "decision_of rules now_ms txn =
     (case first_error txn rules of
        Some e \<Rightarrow> FraudDecision (dget_or txn ''transaction_id'' (PStr [])) ALLOW (Fin 0) [] 0
      | None \<Rightarrow> build_fraud_decision txn (expected_result txn rules now_ms))"
    and "alert_of rules now_ms txn =
     (case first_error txn rules of
        Some e \<Rightarrow> None | None \<Rightarrow> build_alert txn (expected_result txn rules now_ms))"
    by (simp_all add: evaluate_txn_def d r split: option.splits)
qed

lemma build_alert_None:
  "build_alert txn (expected_result txn' rules now_ms) = None \<longleftrightarrow> active_hits txn' rules = []"
  by (simp add: build_alert_def expected_result_def)

lemma alert_None_iff: "alert_of rules now_ms txn = None \<longleftrightarrow> fd_decision (decision_of rules now_ms txn) = ALLOW"
  by (simp add: evaluate_txn_spec build_alert_None decision_expected split: option.splits)

section \<open>Properties\<close>

lemma decision_formula:
  "fd_decision (decision_of rules now_ms txn) =
     (if first_error txn rules = None \<and> active_hits txn rules \<noteq> []
      then if list_ex (\<lambda>r. High \<le> severity r) (active_hits txn rules) then BLOCK else FLAG
      else ALLOW)"
  by (simp add: evaluate_txn_spec decision_expected split: option.splits)

text \<open>C1: Every transaction gets a decision. It is ALLOW when a rule raises or no active rule hits,
  BLOCK when an active rule of severity high or critical hits, FLAG otherwise.\<close>

theorem decision_correct:
  "fd_decision (decision_of rules now_ms txn) =
     (if first_error txn rules = None \<and> active_hits txn rules \<noteq> []
      then if list_ex (\<lambda>r. High \<le> severity r) (active_hits txn rules) then BLOCK else FLAG
      else ALLOW)"
  by (rule decision_formula)

text \<open>An alert is raised exactly for the transactions that are not allowed. Its score is one of
  the three fixed ones and lies between 0 and 1, and the rule triggers of a decision are empty
  exactly when it is ALLOW.\<close>

theorem alert_iff_not_allowed:
  "(alert_of rules now_ms txn = None \<longleftrightarrow> fd_decision (decision_of rules now_ms txn) = ALLOW) \<and>
   (fd_rule_triggers (decision_of rules now_ms txn) = [] \<longleftrightarrow> fd_decision (decision_of rules now_ms txn) = ALLOW) \<and>
   fl_le (Fin 0) (fd_fraud_score (decision_of rules now_ms txn)) \<and>
   fl_le (fd_fraud_score (decision_of rules now_ms txn)) (Fin 1)"
proof (cases "first_error txn rules")
  case None
  show ?thesis
  proof (cases "active_hits txn rules = []")
    case True
    then show ?thesis
      by (simp add: None evaluate_txn_spec build_alert_def build_fraud_decision_def expected_result_def Let_def fl_le_def)
  next
    case False
    then show ?thesis
      by (simp add: None evaluate_txn_spec build_alert_def build_fraud_decision_def expected_result_def
          Let_def fl_le_def score_values del: insert_iff)
  qed
qed (simp add: evaluate_txn_spec fl_le_def)

text \<open>The split streams neither lose nor invent anything: there is one decision per transaction,
  in order and with its id, and one alert per decision that is not ALLOW.\<close>

theorem wire_rule_evaluator_complete:
  "map fd_transaction_id (snd (wire_rule_evaluator rules stream)) =
     map (\<lambda>(txn, now_ms). dget_or txn ''transaction_id'' (PStr [])) stream \<and>
   length (fst (wire_rule_evaluator rules stream)) =
     length (filter (\<lambda>d. fd_decision d \<noteq> ALLOW) (snd (wire_rule_evaluator rules stream)))"
proof (induction stream)
  case (Cons x stream)
  obtain txn now_ms where x: "x = (txn, now_ms)" by fastforce
  let ?ev = "RuleEvaluator_init rules"
  have step: "wire_rule_evaluator rules ((txn, now_ms) # stream) =
      ((case alert_of ?ev now_ms txn of None \<Rightarrow> [] | Some a \<Rightarrow> [a]) @ fst (wire_rule_evaluator rules stream),
       decision_of ?ev now_ms txn # snd (wire_rule_evaluator rules stream))"
    by (simp add: wire_rule_evaluator_def Let_def split: option.splits)
  have "fd_transaction_id (decision_of ?ev now_ms txn) = dget_or txn ''transaction_id'' (PStr [])"
    by (simp add: evaluate_txn_spec build_fraud_decision_def Let_def split: option.splits)
  then show ?case using Cons.IH alert_None_iff [of ?ev now_ms txn]
    by (auto simp: step x split: option.splits)
qed (simp add: wire_rule_evaluator_def)

end
