(* ===== verification/Alert_Sinks.thy ===== *)
theory Alert_Sinks
  imports Decision Config
begin

text \<open>
  The sinks of the scoring stage: \<open>sinks/alert_kafka.py\<close>, \<open>sinks/alert_postgres.py\<close>, the operator
  \<open>_AlertSinkFunction\<close> of \<open>job_extension.py\<close> that drives both, and
  \<open>sinks/shadow_decisions_kafka.py\<close>. Avro serialisation (fastavro) and the Kafka producer are arguments
  (\<open>alert_host\<close>): a poll or a flush hands over the delivery reports of earlier messages and may raise. psycopg2 is
  modelled by the table and a list of faults: each call to the database consumes one entry and
  raises it if it is an exception (an exhausted list means success), so a theorem over all lists
  covers every pattern of failures.
\<close>

type_synonym avro = "pydict \<Rightarrow> 8 word list result"

section \<open>Kafka alerts\<close>

record alert_kafka_sink =
  ks_open :: bool
  ks_sent :: "message list"

definition AlertKafkaSink_init :: alert_kafka_sink where
  "AlertKafkaSink_init = \<lparr>ks_open = False, ks_sent = []\<rparr>"

text \<open>
  \<open>open\<close>: the imports and the constructor of the producer may raise before the producer is set, the parsing
  of the schemas after it. The registration of the schema swallows every exception.
\<close>

definition AlertKafkaSink_open :: "exn option \<Rightarrow> exn option \<Rightarrow> alert_kafka_sink \<Rightarrow> alert_kafka_sink \<times> unit result" where
  "AlertKafkaSink_open producer_error schema_error s =
     (case producer_error of
        Some e \<Rightarrow> (s, Inl e)
      | None \<Rightarrow> (s\<lparr>ks_open := True\<rparr>, case schema_error of Some e \<Rightarrow> Inl e | None \<Rightarrow> Inr ()))"

text \<open>
  What one call meets: the producer's queue, the writers of the two schemas, and at the poll the delivery
  reports of earlier alerts (\<open>None\<close>: delivered) and the exception of the poll itself.
\<close>

record alert_host =
  ah_broker :: kafka
  ah_avro :: avro
  ah_avro_dlq :: avro
  ah_topic :: string
  ah_dlq_topic :: string
  ah_now_ms :: int
  ah_reports :: "(fraud_alert \<times> string option) list"
  ah_poll_error :: "exn option"

definition alert_record :: "fraud_alert \<Rightarrow> pydict" where
  "alert_record a =
     [(''transaction_id'', al_transaction_id a), (''account_id'', al_account_id a),
      (''matched_rule_names'', PList (map PStr (al_matched_rule_names a))),
      (''severity'', PStr (al_severity a)),
      (''evaluation_timestamp'', PInt (al_evaluation_timestamp a))]"

definition alert_dlq_record :: "fraud_alert \<Rightarrow> string \<Rightarrow> string \<Rightarrow> int \<Rightarrow> pydict" where
  "alert_dlq_record a error_type error_message now_ms =
     alert_record a @
     [(''error_type'', PStr error_type), (''error_message'', PStr error_message), (''failed_at'', PInt now_ms)]"

definition produce_alert :: "kafka \<Rightarrow> string \<Rightarrow> pyval \<Rightarrow> 8 word list \<Rightarrow> message list \<Rightarrow> message list \<times> unit result" where
  "produce_alert K topic key payload sent =
     (case encode_key key of
        Inl e \<Rightarrow> (sent, Inl e)
      | Inr k \<Rightarrow> produce K \<lparr>msg_topic = topic, msg_key = Some k, msg_value = payload\<rparr> sent)"

text \<open>The delivery callback: a failed delivery is produced to the dead-letter topic; nothing escapes it.\<close>

definition AlertKafkaSink_on_delivery ::
  "alert_host \<Rightarrow> string option \<Rightarrow> fraud_alert \<Rightarrow> alert_kafka_sink \<Rightarrow> alert_kafka_sink" where
  "AlertKafkaSink_on_delivery h err a s =
     (case err of
        None \<Rightarrow> s
      | Some msg \<Rightarrow>
          (case ah_avro_dlq h (alert_dlq_record a ''DELIVERY_FAILURE'' msg (ah_now_ms h)) of
             Inl e \<Rightarrow> s
           | Inr payload \<Rightarrow>
               (if ks_open s
                then s\<lparr>ks_sent := fst (produce_alert (ah_broker h) (ah_dlq_topic h) (al_transaction_id a) payload (ks_sent s))\<rparr>
                else s)))"

definition alert_poll :: "alert_host \<Rightarrow> alert_kafka_sink \<Rightarrow> alert_kafka_sink \<times> unit result" where
  "alert_poll h s =
     (fold (\<lambda>(a, err). AlertKafkaSink_on_delivery h err a) (ah_reports h) s,
      case ah_poll_error h of Some e \<Rightarrow> Inl e | None \<Rightarrow> Inr ())"

definition AlertKafkaSink_emit :: "alert_host \<Rightarrow> fraud_alert \<Rightarrow> alert_kafka_sink \<Rightarrow> alert_kafka_sink \<times> unit result" where
  "AlertKafkaSink_emit h a s =
     (if \<not> ks_open s then (s, raise_exn RuntimeError ''AlertKafkaSink.open() must be called before emit()'')
      else case ah_avro h (alert_record a) of
             Inl e \<Rightarrow> (s, Inl e)
           | Inr payload \<Rightarrow>
               (case produce_alert (ah_broker h) (ah_topic h) (al_transaction_id a) payload (ks_sent s) of
                  (sent, Inl e) \<Rightarrow> (s\<lparr>ks_sent := sent\<rparr>, Inl e)
                | (sent, Inr _) \<Rightarrow> alert_poll h (s\<lparr>ks_sent := sent\<rparr>)))"

definition AlertKafkaSink_flush :: "alert_host \<Rightarrow> alert_kafka_sink \<Rightarrow> alert_kafka_sink \<times> unit result" where
  "AlertKafkaSink_flush h s = (if ks_open s then alert_poll h s else (s, Inr ()))"

text \<open>\<open>close\<close> flushes twice, the second time with a timeout; each flush may raise and leave the producer set.\<close>

definition AlertKafkaSink_close :: "alert_host \<Rightarrow> alert_host \<Rightarrow> alert_kafka_sink \<Rightarrow> alert_kafka_sink \<times> unit result" where
  "AlertKafkaSink_close h1 h2 s =
     (case AlertKafkaSink_flush h1 s of
        (s1, Inl e) \<Rightarrow> (s1, Inl e)
      | (s1, Inr _) \<Rightarrow>
          (case AlertKafkaSink_flush h2 s1 of
             (s2, Inl e) \<Rightarrow> (s2, Inl e)
           | (s2, Inr _) \<Rightarrow> (s2\<lparr>ks_open := False\<rparr>, Inr ())))"

text \<open>What it means that an alert is in the producer's queue for the alerts topic.\<close>

definition kafka_stored :: "alert_host \<Rightarrow> fraud_alert \<Rightarrow> alert_kafka_sink \<Rightarrow> bool" where
  "kafka_stored h a s \<longleftrightarrow>
     list_ex (\<lambda>m. msg_topic m = ah_topic h \<and> ah_avro h (alert_record a) = Inr (msg_value m) \<and>
                  (case encode_key (al_transaction_id a) of Inl e \<Rightarrow> False | Inr k \<Rightarrow> msg_key m = Some k))
       (ks_sent s)"

lemma on_delivery_sent:
  "\<exists>ms. ks_sent (AlertKafkaSink_on_delivery h err a s) = ks_sent s @ ms"
  by (auto simp: AlertKafkaSink_on_delivery_def produce_alert_def produce_def split: option.splits sum.splits)

lemma alert_poll_sent: "\<exists>ms. ks_sent (fst (alert_poll h s)) = ks_sent s @ ms"
proof -
  have "\<exists>ms. ks_sent (fold (\<lambda>(a, err). AlertKafkaSink_on_delivery h err a) rs t) = ks_sent t @ ms" for rs t
  proof (induction rs arbitrary: t)
    case (Cons r rs)
    obtain a err where r: "r = (a, err)" by fastforce
    obtain m1 where "ks_sent (AlertKafkaSink_on_delivery h err a t) = ks_sent t @ m1" using on_delivery_sent by blast
    moreover obtain m2 where "ks_sent (fold (\<lambda>(a, err). AlertKafkaSink_on_delivery h err a) rs (AlertKafkaSink_on_delivery h err a t)) =
        ks_sent (AlertKafkaSink_on_delivery h err a t) @ m2" using Cons.IH by blast
    ultimately show ?case by (simp add: r)
  qed simp
  then show ?thesis by (simp add: alert_poll_def)
qed

text \<open>The ends of an emission.\<close>

lemma AlertKafkaSink_emit_cases:
  assumes "AlertKafkaSink_emit h a s = (s', r)"
  obtains (closed) "\<not> ks_open s" "s' = s" "r = raise_exn RuntimeError ''AlertKafkaSink.open() must be called before emit()''"
  | (refused) e where "ks_open s" "r = Inl e" "ks_sent s' = ks_sent s"
      "ah_avro h (alert_record a) = Inl e \<or> encode_key (al_transaction_id a) = Inl e \<or>
       (\<exists>m. ah_broker h (ks_sent s) m = Some e)"
  | (queued) "ks_open s" "r = (case ah_poll_error h of Some e \<Rightarrow> Inl e | None \<Rightarrow> Inr ())" "kafka_stored h a s'"
      "prefix (ks_sent s) (ks_sent s')"
proof (cases "ks_open s")
  case True
  show ?thesis
  proof (cases "ah_avro h (alert_record a)")
    case (Inl e)
    then show ?thesis using refused [OF True, of e] assms True by (simp add: AlertKafkaSink_emit_def)
  next
    case (Inr payload)
    note av = this
    show ?thesis
    proof (cases "encode_key (al_transaction_id a)")
      case (Inl e)
      then show ?thesis using refused [OF True, of e] assms True av
        by (auto simp: AlertKafkaSink_emit_def produce_alert_def)
    next
      case (Inr k)
      let ?m = "\<lparr>msg_topic = ah_topic h, msg_key = Some k, msg_value = payload\<rparr>"
      let ?s = "s\<lparr>ks_sent := ks_sent s @ [?m]\<rparr>"
      show ?thesis
      proof (cases "ah_broker h (ks_sent s) ?m")
        case None
        obtain ms where ms: "ks_sent (fst (alert_poll h ?s)) = ks_sent ?s @ ms" using alert_poll_sent by blast
        have "(s', r) = alert_poll h ?s"
          using assms True av Inr None by (simp add: AlertKafkaSink_emit_def produce_alert_def produce_def)
        then have "s' = fst (alert_poll h ?s)" "r = snd (alert_poll h ?s)" by (metis fst_conv, metis snd_conv)
        then show ?thesis using queued [OF True] ms av Inr by (simp add: kafka_stored_def alert_poll_def)
      next
        case (Some e)
        then show ?thesis using refused [OF True, of e] assms True av Inr
          by (auto simp: AlertKafkaSink_emit_def produce_alert_def produce_def)
      qed
    qed
  qed
next
  case False
  then have "(s', r) = (s, raise_exn RuntimeError ''AlertKafkaSink.open() must be called before emit()'')"
    using assms by (simp add: AlertKafkaSink_emit_def)
  then show ?thesis using closed [OF False] by blast
qed

lemma AlertKafkaSink_emit_frame:
  assumes "AlertKafkaSink_emit h a s = (s', r)"
  shows "s' = s\<lparr>ks_sent := ks_sent s'\<rparr>"
proof -
  have "ks_open (AlertKafkaSink_on_delivery h err b t) = ks_open t" for err b t
    by (simp add: AlertKafkaSink_on_delivery_def split: option.split sum.split)
  then have "ks_open (fold (\<lambda>(a, err). AlertKafkaSink_on_delivery h err a) rs t) = ks_open t" for rs t
    by (induction rs arbitrary: t) auto
  then have "ks_open s' = ks_open s"
    using assms by (auto simp: AlertKafkaSink_emit_def alert_poll_def split: if_splits sum.splits prod.splits)
  then show ?thesis by simp
qed

interpretation kafka: alert_sink "AlertKafkaSink_emit h" "kafka_stored h"
  for h
proof
  fix a b :: fraud_alert and s s' :: alert_kafka_sink and r :: "unit result"
  show "kafka_stored h a s'" if "AlertKafkaSink_emit h a s = (s', Inr ())"
    using that by (cases rule: AlertKafkaSink_emit_cases) (simp_all add: raise_exn_def)
  show "kafka_stored h b s'" if "kafka_stored h b s" "AlertKafkaSink_emit h a s = (s', r)"
    using that(2,1) by (cases rule: AlertKafkaSink_emit_cases) (auto simp: kafka_stored_def prefix_def)
qed

section \<open>PostgreSQL\<close>

record alert_pg_sink =
  pg_connected :: bool
  pg_rows :: "fraud_alert list"
  pg_faults :: "exn option list"

definition db_call :: "alert_pg_sink \<Rightarrow> alert_pg_sink \<times> unit result" where
  "db_call s =
     (case pg_faults s of
        [] \<Rightarrow> (s, Inr ())
      | f # fs \<Rightarrow> (s\<lparr>pg_faults := fs\<rparr>, case f of None \<Rightarrow> Inr () | Some e \<Rightarrow> Inl e))"

definition AlertPostgresSink_connect :: "alert_pg_sink \<Rightarrow> alert_pg_sink \<times> unit result" where
  "AlertPostgresSink_connect s =
     (case db_call s of (s1, Inl e) \<Rightarrow> (s1, Inl e) | (s1, Inr _) \<Rightarrow> (s1\<lparr>pg_connected := True\<rparr>, Inr ()))"

definition AlertPostgresSink_ensure_connection :: "alert_pg_sink \<Rightarrow> alert_pg_sink \<times> unit result" where
  "AlertPostgresSink_ensure_connection s =
     (if \<not> pg_connected s then AlertPostgresSink_connect s
      else case db_call s of (s1, Inr _) \<Rightarrow> (s1, Inr ()) | (s1, Inl e) \<Rightarrow> AlertPostgresSink_connect s1)"

text \<open>The INSERT with \<open>ON CONFLICT (transaction_id) DO NOTHING\<close>, in autocommit mode, then \<open>commit\<close>.\<close>

definition insert_row :: "fraud_alert \<Rightarrow> fraud_alert list \<Rightarrow> fraud_alert list" where
  "insert_row a rows =
     (if list_ex (\<lambda>r. al_transaction_id r = al_transaction_id a) rows then rows else rows @ [a])"

definition AlertPostgresSink_execute_insert :: "fraud_alert \<Rightarrow> alert_pg_sink \<Rightarrow> alert_pg_sink \<times> unit result" where
  "AlertPostgresSink_execute_insert a s =
     (case db_call s of
        (s1, Inl e) \<Rightarrow> (s1, Inl e)
      | (s1, Inr _) \<Rightarrow> db_call (s1\<lparr>pg_rows := insert_row a (pg_rows s1)\<rparr>))"

definition connection_error :: "exn \<Rightarrow> bool" where
  "connection_error e \<longleftrightarrow> isinstance e OperationalError \<or> isinstance e InterfaceError"

definition AlertPostgresSink_persist :: "fraud_alert \<Rightarrow> alert_pg_sink \<Rightarrow> alert_pg_sink \<times> unit result" where
  "AlertPostgresSink_persist a s =
     (case AlertPostgresSink_ensure_connection s of
        (s1, Inl e) \<Rightarrow> (s1, Inl e)
      | (s1, Inr _) \<Rightarrow>
          (case AlertPostgresSink_execute_insert a s1 of
             (s2, Inr _) \<Rightarrow> (s2, Inr ())
           | (s2, Inl e) \<Rightarrow>
               (if connection_error e
                then (case AlertPostgresSink_connect s2 of
                        (s3, Inl e') \<Rightarrow> (s3, Inl e')
                      | (s3, Inr _) \<Rightarrow> AlertPostgresSink_execute_insert a s3)
                else (s2, Inl e))))"

definition AlertPostgresSink_emit :: "fraud_alert \<Rightarrow> alert_pg_sink \<Rightarrow> alert_pg_sink \<times> unit result" where
  "AlertPostgresSink_emit = AlertPostgresSink_persist"

text \<open>\<open>close\<close> tolerates a connection that cannot be closed.\<close>

definition AlertPostgresSink_close :: "alert_pg_sink \<Rightarrow> alert_pg_sink" where
  "AlertPostgresSink_close s =
     (if pg_connected s then (fst (db_call s))\<lparr>pg_connected := False\<rparr> else s)"

definition pg_stored :: "fraud_alert \<Rightarrow> alert_pg_sink \<Rightarrow> bool" where
  "pg_stored a s \<longleftrightarrow> list_ex (\<lambda>r. al_transaction_id r = al_transaction_id a) (pg_rows s)"

lemma db_call_rows [simp]: "db_call s = (s1, r) \<Longrightarrow> pg_rows s1 = pg_rows s"
  by (auto simp: db_call_def split: list.splits)

lemma connect_rows [simp]: "AlertPostgresSink_connect s = (s1, r) \<Longrightarrow> pg_rows s1 = pg_rows s"
  by (auto simp: AlertPostgresSink_connect_def split: prod.splits sum.splits)

lemma ensure_rows [simp]: "AlertPostgresSink_ensure_connection s = (s1, r) \<Longrightarrow> pg_rows s1 = pg_rows s"
  by (auto simp: AlertPostgresSink_ensure_connection_def split: prod.splits sum.splits if_splits)

lemma insert_row_idem [simp]: "insert_row a (insert_row a rows) = insert_row a rows"
  by (simp add: insert_row_def)

lemma execute_insert_rows:
  "AlertPostgresSink_execute_insert a s = (s1, r) \<Longrightarrow>
     pg_rows s1 = insert_row a (pg_rows s) \<or> (pg_rows s1 = pg_rows s \<and> (\<exists>e. r = Inl e))"
  by (auto simp: AlertPostgresSink_execute_insert_def split: prod.splits sum.splits)

text \<open>A call to \<open>persist\<close> inserts the row or leaves the table; when it returns it has inserted it.\<close>

lemma persist_rows:
  "AlertPostgresSink_persist a s = (s1, r) \<Longrightarrow>
     pg_rows s1 = insert_row a (pg_rows s) \<or> (pg_rows s1 = pg_rows s \<and> (\<exists>e. r = Inl e))"
  unfolding AlertPostgresSink_persist_def
  by (auto split: prod.splits sum.splits if_splits dest!: execute_insert_rows)

lemma stored_insert_row [simp]: "list_ex (\<lambda>r. al_transaction_id r = al_transaction_id a) (insert_row a rows)"
  by (simp add: insert_row_def)

lemma insert_row_distinct:
  "distinct (map al_transaction_id rows) \<Longrightarrow> distinct (map al_transaction_id (insert_row a rows))"
  by (auto simp: insert_row_def list_ex_iff dest: bspec)

lemma insert_row_prefix: "prefix rows (insert_row a rows)"
  by (simp add: insert_row_def)

interpretation postgres: alert_sink AlertPostgresSink_emit pg_stored
proof
  fix a b :: fraud_alert and s s' :: alert_pg_sink and r :: "unit result"
  show "pg_stored a s'" if "AlertPostgresSink_emit a s = (s', Inr ())"
    using persist_rows [of a s s' "Inr ()"] that
    by (auto simp: AlertPostgresSink_emit_def pg_stored_def)
  show "pg_stored b s'" if "pg_stored b s" "AlertPostgresSink_emit a s = (s', r)"
    using persist_rows [of a s s' r] that
    by (auto simp: AlertPostgresSink_emit_def pg_stored_def insert_row_def split: if_splits)
qed

section \<open>The sink operator\<close>

record alert_function =
  af_kafka :: "alert_kafka_sink option"
  af_pg :: "alert_pg_sink option"

text \<open>\<open>open\<close>: each sink is stored before it is opened, and a failure ends the method.\<close>

definition AlertSinkFunction_open :: "exn option \<Rightarrow> exn option \<Rightarrow> alert_pg_sink \<Rightarrow> alert_function \<times> unit result" where
  "AlertSinkFunction_open producer_error schema_error db =
     (case AlertKafkaSink_open producer_error schema_error AlertKafkaSink_init of
        (ks, Inl e) \<Rightarrow> (\<lparr>af_kafka = Some ks, af_pg = None\<rparr>, Inl e)
      | (ks, Inr _) \<Rightarrow>
          (let (ps, r) = AlertPostgresSink_connect db
           in (\<lparr>af_kafka = Some ks, af_pg = Some ps\<rparr>, r)))"

definition bad_record :: "exn \<Rightarrow> bool" where
  "bad_record e \<longleftrightarrow> isinstance e ValueError \<or> isinstance e TypeError \<or> isinstance e AttributeError"

definition AlertSinkFunction_map ::
  "alert_host \<Rightarrow> fraud_alert \<Rightarrow> alert_function \<Rightarrow> alert_function \<times> fraud_alert result" where
  "AlertSinkFunction_map h value s =
     (let (ks, r) = (case af_kafka s of
                       None \<Rightarrow> (None, raise_exn AttributeError ''emit'')
                     | Some k \<Rightarrow> (let (k', r) = AlertKafkaSink_emit h value k in (Some k', r)));
          s1 = s\<lparr>af_kafka := ks\<rparr>
      in if (case r of Inl e \<Rightarrow> \<not> bad_record e | Inr _ \<Rightarrow> False)
         then (s1, rbind r (\<lambda>_. Inr value))
         else (s1\<lparr>af_pg := map_option (\<lambda>p. fst (AlertPostgresSink_persist value p)) (af_pg s)\<rparr>, Inr value))"

definition AlertSinkFunction_close :: "alert_host \<Rightarrow> alert_host \<Rightarrow> alert_function \<Rightarrow> alert_function \<times> unit result" where
  "AlertSinkFunction_close h1 h2 s =
     (let (ks, r) = (case af_kafka s of
                       None \<Rightarrow> (None, Inr ())
                     | Some k \<Rightarrow> (let (k', r) = AlertKafkaSink_close h1 h2 k in (Some k', r)))
      in case r of
           Inl e \<Rightarrow> (s\<lparr>af_kafka := ks\<rparr>, Inl e)
         | Inr _ \<Rightarrow> (\<lparr>af_kafka = ks, af_pg = map_option AlertPostgresSink_close (af_pg s)\<rparr>, Inr ()))"

section \<open>Shadow decisions\<close>

definition estimate_shadow_score :: "evaluation_result \<Rightarrow> pyfloat" where
  "estimate_shadow_score r =
     (if determination r = Clean then to_double (1/10)
      else let sev = (case highest_severity r of Some s \<Rightarrow> (if s = [] then ''medium'' else s) | None \<Rightarrow> ''medium'')
           in if sev = ''low'' then to_double (5/10)
              else if sev = ''medium'' then to_double (65/100)
              else if sev = ''high'' then to_double (8/10)
              else if sev = ''critical'' then to_double (95/100)
              else to_double (65/100))"

definition decision_mismatch :: "fraud_decision \<Rightarrow> evaluation_result \<Rightarrow> bool" where
  "decision_mismatch fd r \<longleftrightarrow> (if fd_decision fd = ALLOW then Clean else Suspicious) \<noteq> determination r"

definition shadow_build_record ::
  "fraud_decision \<Rightarrow> evaluation_result \<Rightarrow> string \<Rightarrow> string \<Rightarrow> string \<Rightarrow> pydict" where
  "shadow_build_record fd r account_id rule_set_version shadow_rule_set_version =
     [(''transaction_id'', fd_transaction_id fd),
      (''account_id'', PStr account_id),
      (''production_decision'', PStr (verdict_name (fd_decision fd))),
      (''production_fraud_score'', PFloat (fd_fraud_score fd)),
      (''production_rule_triggers'', PList (map PStr (fd_rule_triggers fd))),
      (''shadow_determination'', PStr (determination_name (determination r))),
      (''shadow_fraud_score'', PFloat (estimate_shadow_score r)),
      (''shadow_rule_triggers'', PList (map PStr (matched_rules r))),
      (''model_version'', PStr (fd_model_version fd)),
      (''rule_set_version'', PStr rule_set_version),
      (''shadow_rule_set_version'', PStr shadow_rule_set_version),
      (''decision_time_ms'', PInt (fd_decision_time_ms fd)),
      (''score_delta'', PFloat (fl_sub (estimate_shadow_score r) (fd_fraud_score fd))),
      (''decision_mismatch'', PBool (decision_mismatch fd r)),
      (''schema_version'', PStr ''1'')]"

record shadow_sink =
  sh_open :: bool
  sh_sent :: "message list"

text \<open>The producer is set before the schema is parsed; a failed registration is only logged.\<close>

definition ShadowDecisionKafkaSink_open :: "exn option \<Rightarrow> exn option \<Rightarrow> shadow_sink \<Rightarrow> shadow_sink \<times> unit result" where
  "ShadowDecisionKafkaSink_open schema_error registration_error s =
     (s\<lparr>sh_open := True\<rparr>, case schema_error of Some e \<Rightarrow> Inl e | None \<Rightarrow> Inr ())"

definition ShadowDecisionKafkaSink_emit ::
  "kafka \<Rightarrow> avro \<Rightarrow> string \<Rightarrow> fraud_decision \<Rightarrow> evaluation_result \<Rightarrow> string \<Rightarrow> string \<Rightarrow> string \<Rightarrow>
     shadow_sink \<Rightarrow> shadow_sink \<times> unit result" where
  "ShadowDecisionKafkaSink_emit K avro topic fd r account_id rsv srsv s =
     (if \<not> sh_open s
      then (s, raise_exn RuntimeError ''ShadowDecisionKafkaSink.open() must be called before emit()'')
      else case avro (shadow_build_record fd r account_id rsv srsv) of
             Inl e \<Rightarrow> (s, Inl e)
           | Inr payload \<Rightarrow>
               (let (sent, res) = produce_alert K topic (fd_transaction_id fd) payload (sh_sent s)
                in (s\<lparr>sh_sent := sent\<rparr>, res)))"

definition ShadowDecisionKafkaSink_close :: "shadow_sink \<Rightarrow> shadow_sink" where
  "ShadowDecisionKafkaSink_close s = s\<lparr>sh_open := False\<rparr>"

section \<open>Properties\<close>

text \<open>C18: Persisting alerts is idempotent under every pattern of database failures: if the table holds
  at most one row per transaction it still does afterwards, no row is ever lost, and when the
  call returns normally the row of the transaction is in the table. The insert that follows a
  commit which failed after the row was written therefore does not duplicate it.\<close>

theorem persist_idempotent:
  assumes "distinct (map al_transaction_id (pg_rows s))"
    and "AlertPostgresSink_persist a s = (s', r)"
  shows "distinct (map al_transaction_id (pg_rows s')) \<and> prefix (pg_rows s) (pg_rows s') \<and>
         (r = Inr () \<longrightarrow> pg_stored a s')"
proof -
  have "r = Inr () \<longrightarrow> pg_stored a s'"
    using assms(2) postgres.emit_stores [of a s s'] by (auto simp: AlertPostgresSink_emit_def)
  moreover have "pg_rows s' = pg_rows s \<or> pg_rows s' = insert_row a (pg_rows s)"
    using persist_rows [OF assms(2)] by blast
  ultimately show ?thesis
    using assms(1) insert_row_distinct [of "pg_rows s" a] insert_row_prefix [of "pg_rows s" a] by auto
qed

definition sample_alert :: fraud_alert where
  "sample_alert = \<lparr>al_transaction_id = PStr ''t1'', al_account_id = PStr ''a1'',
     al_matched_rule_names = [''VEL-001''], al_severity = ''high'', al_evaluation_timestamp = 7\<rparr>"

definition flaky_db :: alert_pg_sink where
  "flaky_db = \<lparr>pg_connected = True, pg_rows = [],
     pg_faults = [None, None, Some (Exn OperationalError ''commit failed'')]\<rparr>"

lemma persist_idempotent_witness:
  "\<exists>s'. AlertPostgresSink_persist sample_alert flaky_db = (s', Inr ()) \<and> pg_stored sample_alert s' \<and>
     distinct (map al_transaction_id (pg_rows s'))"
proof -
  obtain s' where e: "AlertPostgresSink_persist sample_alert flaky_db = (s', Inr ())"
    by (simp add: AlertPostgresSink_persist_def AlertPostgresSink_ensure_connection_def flaky_db_def
        db_call_def AlertPostgresSink_execute_insert_def AlertPostgresSink_connect_def
        connection_error_def isinstance_def)
  have "distinct (map al_transaction_id (pg_rows flaky_db))" by (simp add: flaky_db_def)
  from persist_idempotent [OF this e] e show ?thesis by blast
qed

text \<open>C19: What the alert operator does with an alert. If it raises, the database has not been touched, and the
  exception is no ValueError, TypeError or AttributeError: the Kafka sink was not open (RuntimeError), or
  the serialiser or the queue of the producer refused the alert with it (BufferError for a full queue,
  KafkaException), or the poll raised it after the alert had been queued. If it returns, the alert has been
  handed to the database sink, whatever the database did, and it is in the producer's queue, unless the
  serialiser, its key or the queue refused it with a ValueError, TypeError or AttributeError, which the
  operator swallows: then Kafka has lost the alert.\<close>

theorem alert_operator_contract:
  assumes "AlertSinkFunction_map h a \<lparr>af_kafka = Some ks, af_pg = pg\<rparr> = (s', r)"
  shows "\<exists>ks'. af_kafka s' = Some ks' \<and> prefix (ks_sent ks) (ks_sent ks') \<and>
    (case r of
       Inl e \<Rightarrow> af_pg s' = pg \<and> \<not> bad_record e \<and>
         (\<not> ks_open ks \<and> exn_cls e = RuntimeError \<or>
          ks_open ks \<and> ks' = ks\<lparr>ks_sent := ks_sent ks'\<rparr> \<and>
            (ks_sent ks' = ks_sent ks \<and>
               (ah_avro h (alert_record a) = Inl e \<or> (\<exists>m. ah_broker h (ks_sent ks) m = Some e)) \<or>
             ah_poll_error h = Some e \<and> kafka_stored h a ks'))
     | Inr b \<Rightarrow> b = a \<and> ks_open ks \<and> af_pg s' = map_option (\<lambda>p. fst (AlertPostgresSink_persist a p)) pg \<and>
         (kafka_stored h a ks' \<or>
          ks_sent ks' = ks_sent ks \<and>
            (\<exists>e. bad_record e \<and> (ah_avro h (alert_record a) = Inl e \<or> encode_key (al_transaction_id a) = Inl e \<or>
               (\<exists>m. ah_broker h (ks_sent ks) m = Some e)))))"
proof -
  obtain ks' rk where e: "AlertKafkaSink_emit h a ks = (ks', rk)" by fastforce
  have key: "bad_record x" if "encode_key v = Inl x" for v x
    using that by (auto simp: encode_key_def raise_exn_def bad_record_def isinstance_def split: pyval.splits)
  have frame: "ks' = ks\<lparr>ks_sent := ks_sent ks'\<rparr>" using e by (rule AlertKafkaSink_emit_frame)
  have s': "s' = (if \<exists>x. rk = Inl x \<and> \<not> bad_record x then \<lparr>af_kafka = Some ks', af_pg = pg\<rparr>
      else \<lparr>af_kafka = Some ks', af_pg = map_option (\<lambda>p. fst (AlertPostgresSink_persist a p)) pg\<rparr>)"
    "r = (case rk of Inl x \<Rightarrow> if bad_record x then Inr a else Inl x | Inr _ \<Rightarrow> Inr a)"
    using assms by (auto simp: AlertSinkFunction_map_def e Let_def split: sum.splits if_splits)
  from e show ?thesis
  proof (cases rule: AlertKafkaSink_emit_cases)
    case closed
    then show ?thesis using s' by (simp add: raise_exn_def bad_record_def isinstance_def)
  next
    case (refused x)
    then show ?thesis using s' frame key by (auto split: if_splits)
  next
    case queued
    then show ?thesis using s' frame by (auto split: option.splits if_splits)
  qed
qed

text \<open>A queue that is full, and one whose error the operator swallows.\<close>

definition refusing_host :: "exn \<Rightarrow> alert_host" where
  "refusing_host e = \<lparr>ah_broker = (\<lambda>_ _. Some e), ah_avro = (\<lambda>_. Inr []), ah_avro_dlq = (\<lambda>_. Inr []),
     ah_topic = ''alerts'', ah_dlq_topic = ''dlq'', ah_now_ms = 0, ah_reports = [], ah_poll_error = None\<rparr>"

lemma alert_operator_contract_witness:
  "\<exists>s' r. AlertSinkFunction_map (refusing_host (Exn BufferError ''queue full'')) sample_alert
       \<lparr>af_kafka = Some \<lparr>ks_open = True, ks_sent = []\<rparr>, af_pg = Some flaky_db\<rparr> = (s', Inl r) \<and>
     \<not> bad_record r \<and> af_pg s' = Some flaky_db"
proof -
  let ?m = "AlertSinkFunction_map (refusing_host (Exn BufferError ''queue full'')) sample_alert
       \<lparr>af_kafka = Some \<lparr>ks_open = True, ks_sent = []\<rparr>, af_pg = Some flaky_db\<rparr>"
  obtain s' where e: "?m = (s', Inl (Exn BufferError ''queue full''))"
    by (simp add: AlertSinkFunction_map_def AlertKafkaSink_emit_def produce_alert_def refusing_host_def
        produce_def encode_key_def sample_alert_def bad_record_def isinstance_def Let_def)
  from alert_operator_contract [OF e] e show ?thesis by auto
qed

text \<open>A ValueError of the producer's queue loses the alert: the operator returns as if it had been sent.\<close>

lemma refused_alert_lost:
  "\<exists>s'. AlertSinkFunction_map (refusing_host (Exn ValueError ''bad'')) sample_alert
       \<lparr>af_kafka = Some \<lparr>ks_open = True, ks_sent = []\<rparr>, af_pg = None\<rparr> = (s', Inr sample_alert) \<and>
     af_kafka s' = Some \<lparr>ks_open = True, ks_sent = []\<rparr>"
  by (simp add: AlertSinkFunction_map_def AlertKafkaSink_emit_def produce_alert_def refusing_host_def
      produce_def encode_key_def sample_alert_def bad_record_def isinstance_def Let_def)

text \<open>The shadow record reports a mismatch exactly when one side stops the transaction and the
  other does not, and every score it reports for the shadow side lies between 0 and 1, at least
  one half exactly when the shadow rules find the transaction suspicious.\<close>

theorem shadow_record_correct:
  "(map_of (shadow_build_record fd r acc v w) ''decision_mismatch'' = Some (PBool True) \<longleftrightarrow>
      (fd_decision fd = ALLOW \<longleftrightarrow> determination r = Suspicious)) \<and>
   fl_le (Fin 0) (estimate_shadow_score r) \<and> fl_le (estimate_shadow_score r) (Fin 1) \<and>
   (fl_le (Fin (1/2)) (estimate_shadow_score r) \<longleftrightarrow> determination r = Suspicious)"
proof -
  have scores: "to_double (1/10) = Fin (3602879701896397 / 36028797018963968)"
    "to_double (1/2) = Fin (1/2)" "to_double (13/20) = Fin (5854679515581645 / 9007199254740992)"
    "to_double (4/5) = Fin (3602879701896397 / 4503599627370496)"
    "to_double (19/20) = Fin (4278419646001971 / 4503599627370496)"
    by code_simp+
  have "determination r = Clean \<or> determination r = Suspicious" by (cases "determination r") auto
  then show ?thesis
    by (auto simp: shadow_build_record_def decision_mismatch_def estimate_shadow_score_def scores fl_le_def Let_def)
qed

end
