(* ===== verification/Masking.thy ===== *)
theory Masking
  imports Config
begin

text \<open>
  \<open>pipelines/ingestion/shared/pii_masker/\<close>: the Luhn check, the masking of card numbers and the
  truncation of IP addresses. Of the standard module \<open>ipaddress\<close> (Python 3.11, the version of the
  images) the model holds what \<open>truncate_ip\<close> uses: parsing and printing of IPv4 and IPv6
  addresses, multicast, and the network of an address under a prefix.
\<close>

record masking_config =
  ipv4_prefix :: int
  ipv6_prefix :: int
  reject_invalid_pan :: bool

definition MaskingConfig_default :: masking_config where
  "MaskingConfig_default = \<lparr>ipv4_prefix = 24, ipv6_prefix = 64, reject_invalid_pan = True\<rparr>"

section \<open>Card numbers\<close>

text \<open>The loop of \<open>_luhn_valid\<close> over the reversed digits; \<open>int(ch)\<close> may raise.\<close>

definition luhn_digit :: "nat \<Rightarrow> int \<Rightarrow> int" where
  "luhn_digit i n = (if i mod 2 = 1 then (let m = n * 2 in if m > 9 then m - 9 else m) else n)"

fun luhn_total :: "nat \<Rightarrow> string \<Rightarrow> int result" where
  "luhn_total i [] = Inr 0"
| "luhn_total i (ch # chs) =
     rbind (py_int (PStr [ch])) (\<lambda>n. rbind (luhn_total (Suc i) chs) (\<lambda>t. Inr (luhn_digit i n + t)))"

definition luhn_valid :: "string \<Rightarrow> bool result" where
  "luhn_valid digits = rbind (luhn_total 0 (rev digits)) (\<lambda>total. Inr (total mod 10 = 0))"

text \<open>\<open>re.sub(r"[\s\-]", "", pan)\<close>.\<close>

definition strip_separators :: "string \<Rightarrow> string" where
  "strip_separators pan = filter (\<lambda>c. \<not> (whitespace c \<or> c = CHR ''-'')) pan"

definition extract_pan_parts :: "string \<Rightarrow> (string \<times> string) result" where
  "extract_pan_parts pan =
     (let digits = strip_separators pan in
      if \<not> isdigit digits
      then raise_exn InvalidPANError (''PAN contains non-digit characters: '' @ repr_str pan)
      else if length digits \<noteq> 15 \<and> length digits \<noteq> 16
      then raise_exn InvalidPANError
             (''PAN length '' @ show_nat (length digits) @ '' is invalid (expected 15 or 16 digits)'')
      else rbind (luhn_valid digits) (\<lambda>ok.
             if \<not> ok then raise_exn InvalidPANError ''Luhn check failed''
             else Inr (take 6 digits, drop (length digits - 4) digits)))"

record masked_pan =
  bin6 :: string
  last4 :: string
  pan_length :: nat

definition MaskedPAN_display :: "masked_pan \<Rightarrow> string" where
  "MaskedPAN_display m = bin6 m @ replicate (pan_length m - 10) CHR ''*'' @ last4 m"

definition MaskedPAN_repr :: "masked_pan \<Rightarrow> string" where
  "MaskedPAN_repr m = ''MaskedPAN(bin6='' @ repr_str (bin6 m) @ '', last4='' @ repr_str (last4 m) @ '')''"

text \<open>\<open>RawPAN\<close> wraps the digits; printing it never shows them and pickling it is refused.\<close>

datatype raw_pan = RawPAN (pan_digits: string)

definition RawPAN_init :: "pyval \<Rightarrow> raw_pan result" where
  "RawPAN_init pan =
     (case pan of PStr s \<Rightarrow> Inr (RawPAN (strip_separators s))
      | _ \<Rightarrow> raise_exn TypeError ''expected string or bytes-like object'')"

definition RawPAN_repr :: "raw_pan \<Rightarrow> string" where
  "RawPAN_repr p = ''RawPAN(***)''"

definition RawPAN_str :: "raw_pan \<Rightarrow> string" where
  "RawPAN_str p = ''***''"

definition RawPAN_reduce :: "raw_pan \<Rightarrow> unit result" where
  "RawPAN_reduce p = raise_exn TypeError ''RawPAN must not be pickled''"

definition RawPAN_mask :: "masking_config \<Rightarrow> raw_pan \<Rightarrow> masked_pan result" where
  "RawPAN_mask cfg p =
     rbind (extract_pan_parts (pan_digits p)) (\<lambda>(b, l).
       Inr \<lparr>bin6 = b, last4 = l, pan_length = length (pan_digits p)\<rparr>)"

section \<open>IP addresses\<close>

datatype ip = V4 nat | V6 nat "string option"

definition digits_value :: "string \<Rightarrow> nat" where
  "digits_value s = foldl (\<lambda>a c. a * 10 + digit_val c) 0 s"

definition parse_octet :: "string \<Rightarrow> nat option" where
  "parse_octet s =
     (if s = [] \<or> \<not> list_all dec_digit s \<or> 3 < length s \<or> (s \<noteq> ''0'' \<and> hd s = CHR ''0'')
         \<or> 255 < digits_value s
      then None else Some (digits_value s))"

definition parse_ipv4 :: "string \<Rightarrow> nat option" where
  "parse_ipv4 s =
     (case map parse_octet (split_on CHR ''.'' s) of
        [Some a, Some b, Some c, Some d] \<Rightarrow> Some (((a * 256 + b) * 256 + c) * 256 + d)
      | _ \<Rightarrow> None)"

definition show_ipv4 :: "nat \<Rightarrow> string" where
  "show_ipv4 n = join_with ''.'' (map show_nat [n div 2 ^ 24, n div 2 ^ 16 mod 256, n div 2 ^ 8 mod 256, n mod 256])"

definition hex_val :: "char \<Rightarrow> nat option" where
  "hex_val c =
     (if dec_digit c then Some (digit_val c)
      else if 65 \<le> code c \<and> code c \<le> 70 then Some (code c - 55)
      else if 97 \<le> code c \<and> code c \<le> 102 then Some (code c - 87) else None)"

definition parse_hextet :: "string \<Rightarrow> nat option" where
  "parse_hextet s =
     (if s = [] \<or> 4 < length s \<or> list_ex (\<lambda>c. hex_val c = None) s then None
      else Some (foldl (\<lambda>a c. a * 16 + the (hex_val c)) 0 s))"

fun hextets_value :: "string list \<Rightarrow> nat option" where
  "hextets_value [] = Some 0"
| "hextets_value (p # ps) =
     (case (parse_hextet p, hextets_value ps) of
        (Some h, Some v) \<Rightarrow> Some (h * 65536 ^ length ps + v)
      | _ \<Rightarrow> None)"

text \<open>The parts after a dotted last part has been replaced by two hextets.\<close>

definition expand_v4_tail :: "string list \<Rightarrow> string list option" where
  "expand_v4_tail parts =
     (if CHR ''.'' \<in> set (last parts)
      then (case parse_ipv4 (last parts) of
              None \<Rightarrow> None
            | Some v \<Rightarrow> Some (butlast parts @ [show_hex (v div 65536 mod 65536), show_hex (v mod 65536)]))
      else Some parts)"

definition inner_empties :: "string list \<Rightarrow> nat list" where
  "inner_empties parts = filter (\<lambda>i. parts ! i = []) [1..<length parts - 1]"

definition ipv6_int :: "string \<Rightarrow> nat option" where
  "ipv6_int s =
     (let parts0 = split_on CHR '':'' s in
      if s = [] \<or> length parts0 < 3 then None
      else case expand_v4_tail parts0 of
        None \<Rightarrow> None
      | Some parts \<Rightarrow>
          (if 9 < length parts then None
           else case inner_empties parts of
             [] \<Rightarrow>
               (if length parts \<noteq> 8 \<or> hd parts = [] \<or> last parts = [] then None else hextets_value parts)
           | [k] \<Rightarrow>
               (let hi = (if hd parts = [] then k - 1 else k);
                    lo = (if last parts = [] then length parts - k - 2 else length parts - k - 1)
                in if (hd parts = [] \<and> hi \<noteq> 0) \<or> (last parts = [] \<and> lo \<noteq> 0) \<or> 8 < hi + lo + 1 then None
                   else (case (hextets_value (take hi parts), hextets_value (drop (length parts - lo) parts)) of
                           (Some h, Some l) \<Rightarrow> Some (h * 65536 ^ (8 - hi) + l)
                         | _ \<Rightarrow> None))
           | _ \<Rightarrow> None))"

definition parse_ipv6 :: "string \<Rightarrow> (nat \<times> string option) option" where
  "parse_ipv6 s =
     (if CHR ''/'' \<in> set s then None
      else let addr = takeWhile (\<lambda>c. c \<noteq> CHR ''%'') s; rest = dropWhile (\<lambda>c. c \<noteq> CHR ''%'') s
           in if rest = [] then map_option (\<lambda>n. (n, None)) (ipv6_int addr)
              else if tl rest = [] \<or> CHR ''%'' \<in> set (tl rest) then None
              else map_option (\<lambda>n. (n, Some (tl rest))) (ipv6_int addr))"

text \<open>\<open>_compress_hextets\<close>: the first longest run of zero hextets, if longer than one.\<close>

fun best_run :: "nat \<Rightarrow> nat \<Rightarrow> nat \<times> nat \<Rightarrow> nat list \<Rightarrow> nat \<times> nat" where
  "best_run i n b [] = b"
| "best_run i n b (h # hs) =
     (if h = 0 then best_run (Suc i) (Suc n) (if snd b < Suc n then (i - n, Suc n) else b) hs
      else best_run (Suc i) 0 b hs)"

definition show_ipv6 :: "nat \<Rightarrow> string" where
  "show_ipv6 n =
     (let hs = map (\<lambda>k. n div 65536 ^ k mod 65536) [7, 6, 5, 4, 3, 2, 1, 0];
          (start, len) = best_run 0 0 (0, 0) hs;
          strs = map show_hex hs
      in join_with '':''
           (if 1 < len
            then (if start = 0 then [[]] else []) @ take start strs @ [[]] @
                 drop (start + len) strs @ (if start + len = 8 then [[]] else [])
            else strs))"

definition ip_address :: "string \<Rightarrow> ip option" where
  "ip_address s =
     (case parse_ipv4 s of
        Some n \<Rightarrow> Some (V4 n)
      | None \<Rightarrow> (case parse_ipv6 s of Some (n, scope) \<Rightarrow> Some (V6 n scope) | None \<Rightarrow> None))"

fun is_multicast :: "ip \<Rightarrow> bool" where
  "is_multicast (V4 n) = (n div 2 ^ 28 = 14)"
| "is_multicast (V6 n scope) = (n div 2 ^ 120 = 255)"

text \<open>\<open>str(ip_network(f"{ip}/{prefix}", strict=False).network_address)\<close>, \<open>None\<close> for a bad prefix.\<close>

definition network_of :: "nat \<Rightarrow> nat \<Rightarrow> int \<Rightarrow> nat" where
  "network_of width n plen = n div 2 ^ (width - nat plen) * 2 ^ (width - nat plen)"

fun network_address :: "masking_config \<Rightarrow> ip \<Rightarrow> string option" where
  "network_address cfg (V4 n) =
     (let p = ipv4_prefix cfg in if 0 \<le> p \<and> p \<le> 32 then Some (show_ipv4 (network_of 32 n p)) else None)"
| "network_address cfg (V6 n scope) =
     (let p = ipv6_prefix cfg; m = network_of 128 n p
      in if 0 \<le> p \<and> p \<le> 128
         then Some (show_ipv6 m @ (case scope of Some z \<Rightarrow> (if m = n then ''%'' @ z else []) | None \<Rightarrow> []))
         else None)"

definition ip_prefix :: "masking_config \<Rightarrow> ip \<Rightarrow> int" where
  "ip_prefix cfg a = (case a of V4 n \<Rightarrow> ipv4_prefix cfg | V6 n scope \<Rightarrow> ipv6_prefix cfg)"

definition truncate_ip :: "masking_config \<Rightarrow> pyval \<Rightarrow> string result" where
  "truncate_ip cfg ip =
     (case ip of
        PStr s \<Rightarrow>
          (case ip_address s of
             None \<Rightarrow> raise_exn ValueError (repr_str s @ '' does not appear to be an IPv4 or IPv6 address'')
           | Some addr \<Rightarrow>
               (if is_multicast addr
                then raise_exn ValueError (''Multicast addresses must not be stored: '' @ repr_str s)
                else case network_address cfg addr of
                       Some net \<Rightarrow> Inr net
                     | None \<Rightarrow>
                         raise_exn ValueError
                           (repr_str (s @ ''/'' @ show_int (ip_prefix cfg addr)) @
                            '' does not appear to be an IPv4 or IPv6 network'')))
      | _ \<Rightarrow> raise_exn ValueError ''does not appear to be an IPv4 or IPv6 address'')"

section \<open>The Luhn sum\<close>

text \<open>On ASCII digits the loop cannot raise, and the total is a sum over the positions.\<close>

fun luhn_sum :: "nat \<Rightarrow> int list \<Rightarrow> int" where
  "luhn_sum i [] = 0"
| "luhn_sum i (n # ns) = luhn_digit i n + luhn_sum (Suc i) ns"

definition ascii_digits :: "string \<Rightarrow> bool" where
  "ascii_digits s \<longleftrightarrow> list_all dec_digit s"

definition digit_values :: "string \<Rightarrow> int list" where
  "digit_values s = map (\<lambda>c. int (digit_val c)) s"

lemma py_int_digit:
  assumes "dec_digit c" shows "py_int (PStr [c]) = Inr (int (digit_val c))"
proof -
  have "\<not> whitespace c" "c \<noteq> CHR ''-''" "c \<noteq> CHR ''+''"
    using assms by (auto simp: dec_digit_def whitespace_def code_def)
  then show ?thesis using assms by (simp add: int_of_str_def strip_def)
qed

lemma py_int_superscript:
  assumes "isdigit_char c" "\<not> dec_digit c" shows "\<exists>e. py_int (PStr [c]) = Inl e"
proof -
  have "\<not> whitespace c" "c \<noteq> CHR ''-''" "c \<noteq> CHR ''+''" "c \<noteq> CHR ''_''"
    using assms by (auto simp: dec_digit_def isdigit_char_def whitespace_def code_def)
  then show ?thesis using assms by (simp add: int_of_str_def strip_def raise_exn_def)
qed

lemma luhn_total_digits: "ascii_digits s \<Longrightarrow> luhn_total i s = Inr (luhn_sum i (digit_values s))"
  by (induction i s rule: luhn_total.induct)
    (simp_all add: ascii_digits_def digit_values_def py_int_digit del: py_int.simps)

lemma luhn_total_ascii: "list_all isdigit_char s \<Longrightarrow> luhn_total i s = Inr t \<Longrightarrow> ascii_digits s"
proof (induction i s arbitrary: t rule: luhn_total.induct)
  case (2 i ch chs)
  then obtain n where n: "py_int (PStr [ch]) = Inr n" by (auto simp: result_simps simp del: py_int.simps)
  have "dec_digit ch"
  proof (rule ccontr)
    assume "\<not> dec_digit ch"
    with 2 obtain e where "py_int (PStr [ch]) = Inl e" using py_int_superscript [of ch] by auto
    with n show False by (simp del: py_int.simps)
  qed
  with 2 show ?case by (auto simp: ascii_digits_def result_simps simp del: py_int.simps)
qed (simp add: ascii_digits_def)

lemma ascii_digits_rev [simp]: "ascii_digits (rev s) \<longleftrightarrow> ascii_digits s"
  by (simp add: ascii_digits_def)

lemma luhn_valid_digits:
  "ascii_digits s \<Longrightarrow> luhn_valid s = Inr (luhn_sum 0 (digit_values (rev s)) mod 10 = 0)"
  by (simp add: luhn_valid_def luhn_total_digits)

lemma luhn_sum_update:
  "k < length ns \<Longrightarrow>
     luhn_sum i (ns[k := m]) = luhn_sum i ns - luhn_digit (i + k) (ns ! k) + luhn_digit (i + k) m"
proof (induction ns arbitrary: i k)
  case (Cons n ns)
  then show ?case by (cases k) auto
qed simp

lemma swap_mod_10: "x mod 10 = 0 \<Longrightarrow> (x - a + b) mod 10 = 0 \<Longrightarrow> a mod 10 = b mod 10"
  for x a b :: int
proof -
  assume "x mod 10 = 0" "(x - a + b) mod 10 = 0"
  then have "10 dvd x - (x - a + b)" by (intro dvd_diff mod_0_imp_dvd)
  then show ?thesis by (simp only: mod_eq_dvd_iff) simp
qed

text \<open>The digit map is a permutation of 0 to 9 at every position.\<close>

lemma luhn_digit_inj:
  assumes "0 \<le> a" "a \<le> 9" "0 \<le> b" "b \<le> 9" "luhn_digit i a mod 10 = luhn_digit i b mod 10"
  shows "a = b"
proof (cases "i mod 2 = 1")
  case True
  have "c = 0 \<or> c = 1 \<or> c = 2 \<or> c = 3 \<or> c = 4 \<or> c = 5 \<or> c = 6 \<or> c = 7 \<or> c = 8 \<or> c = 9"
    if "0 \<le> c" "c \<le> 9" for c :: int
    using that by presburger
  from this [OF assms(1,2)] this [OF assms(3,4)] show ?thesis
    using assms(5) True by (elim disjE) (simp_all add: luhn_digit_def)
next
  case False
  then show ?thesis using assms by (simp add: luhn_digit_def)
qed

lemma digit_val_bounds: "dec_digit c \<Longrightarrow> int (digit_val c) \<le> 9"
  by (auto simp: dec_digit_def digit_val_def)

lemma digit_val_eq: "dec_digit c \<Longrightarrow> dec_digit d \<Longrightarrow> digit_val c = digit_val d \<Longrightarrow> c = d"
proof -
  assume "dec_digit c" "dec_digit d" "digit_val c = digit_val d"
  then have "code c = code d" by (simp add: dec_digit_def digit_val_def eq_diff_iff)
  then show "c = d" by (simp add: code_def)
qed

lemma code_not_space: "isdigit_char c \<Longrightarrow> \<not> whitespace c \<and> c \<noteq> CHR ''-''"
  by (auto simp: isdigit_char_def dec_digit_def whitespace_def code_def)

lemma strip_separators_idem [simp]: "strip_separators (strip_separators s) = strip_separators s"
  by (simp add: strip_separators_def)

text \<open>When a card number is accepted.\<close>

definition valid_pan :: "string \<Rightarrow> bool" where
  "valid_pan digits \<longleftrightarrow>
     ascii_digits digits \<and> (length digits = 15 \<or> length digits = 16) \<and>
     luhn_sum 0 (digit_values (rev digits)) mod 10 = 0"

lemma extract_pan_parts_Inr:
  "extract_pan_parts pan = Inr bl \<longleftrightarrow>
     valid_pan (strip_separators pan) \<and>
     bl = (take 6 (strip_separators pan), drop (length (strip_separators pan) - 4) (strip_separators pan))"
proof -
  let ?d = "strip_separators pan"
  show ?thesis
  proof (cases "ascii_digits ?d \<and> (length ?d = 15 \<or> length ?d = 16)")
    case True
    then have "isdigit ?d" by (auto simp: isdigit_def ascii_digits_def isdigit_char_def list_all_iff)
    with True show ?thesis by (auto simp: extract_pan_parts_def Let_def luhn_valid_digits valid_pan_def)
  next
    case False
    have "ascii_digits ?d" if "isdigit ?d" "luhn_valid ?d = Inr ok" for ok
      using luhn_total_ascii [of "rev ?d" 0] that by (auto simp: isdigit_def luhn_valid_def result_simps)
    with False show ?thesis
      by (auto simp: extract_pan_parts_def Let_def valid_pan_def result_simps split: if_splits)
  qed
qed

text \<open>Masking accepts exactly the valid numbers, and keeps the first six digits, the last four and the length.\<close>

lemma masked_pan_parts:
  "rbind (RawPAN_init pan) (RawPAN_mask cfg) = Inr m \<longleftrightarrow>
     (\<exists>s. pan = PStr s \<and> valid_pan (strip_separators s) \<and>
        m = \<lparr>bin6 = take 6 (strip_separators s),
             last4 = drop (length (strip_separators s) - 4) (strip_separators s),
             pan_length = length (strip_separators s)\<rparr>)"
  by (cases pan) (auto simp: RawPAN_init_def RawPAN_mask_def result_simps extract_pan_parts_Inr)

section \<open>Dotted addresses\<close>

lemma split_join:
  "ps \<noteq> [] \<Longrightarrow> list_all (\<lambda>p. c \<notin> set p) ps \<Longrightarrow> split_on c (join_with [c] ps) = ps"
proof (induction "[c]" ps rule: join_with.induct)
  case (2 p)
  then show ?case by (induction p) auto
next
  case (3 p q ps)
  then have "split_on c (join_with [c] (q # ps)) = q # ps" by simp
  moreover have "split_on c (p @ c # r) = p # split_on c r" if "c \<notin> set p" for r
    using that by (induction p) auto
  ultimately show ?case using 3 by simp
qed simp

lemma digits_value_show_nat [simp]: "digits_value (show_nat n) = n"
proof (induction n rule: show_nat.induct)
  case (1 n)
  have d: "digit_val (char_of (48 + k)) = k" if "k < 10" for k
    using that by (simp add: digit_val_def code_digit)
  show ?case
  proof (cases "n < 10")
    case True
    then show ?thesis using d by (subst show_nat.simps) (simp add: digits_value_def)
  next
    case False
    then show ?thesis
      using 1 d [of "n mod 10"] by (subst show_nat.simps) (simp add: digits_value_def)
  qed
qed

lemma show_nat_hd: "0 < n \<Longrightarrow> hd (show_nat n) \<noteq> CHR ''0''"
proof (induction n rule: show_nat.induct)
  case (1 n)
  show ?case
  proof (cases "n < 10")
    case True
    then have "code (char_of (48 + n)) = 48 + n" by (rule code_digit)
    moreover have "code CHR ''0'' = 48" by (simp add: code_def)
    ultimately have "char_of (48 + n) \<noteq> CHR ''0''" using 1(2) by (metis add_cancel_right_right less_irrefl)
    then show ?thesis using True by (subst show_nat.simps) simp
  next
    case False
    then have "hd (show_nat (n div 10)) \<noteq> CHR ''0''" using 1 by simp
    then show ?thesis using False show_nat_digits [of "n div 10"] by (subst show_nat.simps) (simp add: hd_append)
  qed
qed

lemma show_nat_len3: "n < 1000 \<Longrightarrow> length (show_nat n) \<le> 3"
  by (subst show_nat.simps, subst show_nat.simps, subst show_nat.simps) simp

lemma parse_octet_show: "n < 256 \<Longrightarrow> parse_octet (show_nat n) = Some n"
proof (cases "n = 0")
  case True
  have "parse_octet (show_nat 0) = Some 0" by code_simp
  with True show ?thesis by simp
next
  case False
  then show "n < 256 \<Longrightarrow> ?thesis"
    using show_nat_digits [of n] show_nat_len3 [of n] show_nat_hd [of n] by (simp add: parse_octet_def)
qed

lemma dot_not_in_show: "CHR ''.'' \<notin> set (show_nat n)"
  using show_nat_digits [of n] by (auto simp: list_all_iff dec_digit_def code_def)

lemma octets_value:
  fixes n :: nat
  shows "(((n div 2 ^ 24) * 256 + n div 2 ^ 16 mod 256) * 256 + n div 2 ^ 8 mod 256) * 256 + n mod 256 = n"
proof -
  have "n div 2 ^ 24 * 256 + n div 2 ^ 16 mod 256 = n div 2 ^ 16"
    using div_mult_mod_eq [of "n div 2 ^ 16" 256] by (simp add: div_mult2_eq [symmetric])
  moreover have "n div 2 ^ 16 * 256 + n div 2 ^ 8 mod 256 = n div 2 ^ 8"
    using div_mult_mod_eq [of "n div 2 ^ 8" 256] by (simp add: div_mult2_eq [symmetric])
  moreover have "n div 2 ^ 8 * 256 + n mod 256 = n" by simp
  ultimately show ?thesis by simp
qed

lemma parse_show_ipv4: "n < 2 ^ 32 \<Longrightarrow> parse_ipv4 (show_ipv4 n) = Some n"
proof -
  assume n: "n < 2 ^ 32"
  let ?os = "[n div 2 ^ 24, n div 2 ^ 16 mod 256, n div 2 ^ 8 mod 256, n mod 256]"
  have split: "split_on CHR ''.'' (show_ipv4 n) = map show_nat ?os"
    unfolding show_ipv4_def by (rule split_join) (simp_all add: dot_not_in_show)
  have "n div 2 ^ 24 < 256" using n by (simp add: less_mult_imp_div_less)
  then have "map parse_octet (map show_nat ?os) = map Some ?os" by (simp add: parse_octet_show)
  with split show ?thesis using octets_value [of n] by (simp add: parse_ipv4_def)
qed

lemma network_of_le: "network_of w n p \<le> n"
  by (simp add: network_of_def)

section \<open>Properties\<close>

text \<open>C16: The Luhn check detects every single wrong digit: if a string of digits passes, replacing
  any one of its digits by a different digit makes it fail.\<close>

theorem luhn_detects_single_error:
  assumes "ascii_digits s" "luhn_valid s = Inr True" "k < length s" "dec_digit c" "c \<noteq> s ! k"
  shows "luhn_valid (s[k := c]) = Inr False"
proof -
  let ?j = "length s - Suc k" and ?ns = "digit_values (rev s)"
  have d: "dec_digit (s ! k)" using assms by (simp add: ascii_digits_def list_all_length)
  have asc: "ascii_digits (s[k := c])"
    using assms by (auto simp: ascii_digits_def list_all_iff dest: set_update_subset_insert [THEN subsetD])
  have new: "digit_values (rev (s[k := c])) = ?ns[?j := int (digit_val c)]"
    using assms by (simp add: digit_values_def rev_update map_update)
  have old: "?ns ! ?j = int (digit_val (s ! k))"
  proof -
    have "?j < length s" "length s - Suc ?j = k" using assms(3) by auto
    then show ?thesis using rev_nth [of ?j s] by (simp add: digit_values_def)
  qed
  let ?a = "luhn_digit ?j (int (digit_val (s ! k)))" and ?b = "luhn_digit ?j (int (digit_val c))"
  have sum: "luhn_sum 0 (digit_values (rev (s[k := c]))) = luhn_sum 0 ?ns - ?a + ?b"
    using luhn_sum_update [of ?j ?ns 0 "int (digit_val c)"] assms(3) old new
    by (simp add: digit_values_def)
  have ok: "luhn_sum 0 ?ns mod 10 = 0" using assms(1,2) by (simp add: luhn_valid_digits)
  have "luhn_sum 0 (digit_values (rev (s[k := c]))) mod 10 \<noteq> 0"
  proof
    assume "luhn_sum 0 (digit_values (rev (s[k := c]))) mod 10 = 0"
    then have "?a mod 10 = ?b mod 10" by (intro swap_mod_10 [OF ok]) (simp only: sum)
    then have "int (digit_val (s ! k)) = int (digit_val c)"
      using luhn_digit_inj [of "int (digit_val (s ! k))" "int (digit_val c)" ?j]
        digit_val_bounds d assms(4) by simp
    then show False using digit_val_eq d assms(4,5) by simp
  qed
  then show ?thesis using asc by (simp add: luhn_valid_digits)
qed

lemma luhn_detects_single_error_witness: "luhn_valid (''4111111111111111''[3 := CHR ''2'']) = Inr False"
  by (rule luhn_detects_single_error) code_simp+

text \<open>A rejected card number with a character that is not a digit is quoted in full in the
  message of the exception, which the producer copies into the dead-letter record and into the
  HTTP response.\<close>

theorem invalid_pan_message_quotes_pan:
  assumes "\<not> isdigit (strip_separators pan)"
  shows "extract_pan_parts pan = Inl (Exn InvalidPANError (''PAN contains non-digit characters: '' @ repr_str pan))"
  using assms by (simp add: extract_pan_parts_def Let_def raise_exn_def)

lemma invalid_pan_message_quotes_pan_witness:
  "extract_pan_parts ''411111111111111x'' =
     Inl (Exn InvalidPANError (''PAN contains non-digit characters: '' @ repr_str ''411111111111111x''))"
  by (rule invalid_pan_message_quotes_pan) code_simp

text \<open>An IPv4 address is stored only as its network: for a prefix of 0 to 32 bits the result is
  the address with the host bits cleared, a multicast address is refused, and so two addresses of
  one network are stored as the same string.\<close>

theorem truncate_ip_v4:
  assumes "n < 2 ^ 32" "0 \<le> ipv4_prefix cfg" "ipv4_prefix cfg \<le> 32"
  shows "truncate_ip cfg (PStr (show_ipv4 n)) =
    (if n div 2 ^ 28 = 14
     then Inl (Exn ValueError (''Multicast addresses must not be stored: '' @ repr_str (show_ipv4 n)))
     else Inr (show_ipv4 (n div 2 ^ (32 - nat (ipv4_prefix cfg)) * 2 ^ (32 - nat (ipv4_prefix cfg)))))"
  using assms
  by (simp add: truncate_ip_def ip_address_def parse_show_ipv4 network_of_def raise_exn_def Let_def)

lemma truncate_ip_v4_witness:
  "truncate_ip MaskingConfig_default (PStr (show_ipv4 3405803818)) = Inr (show_ipv4 3405803776)"
  using truncate_ip_v4 [of 3405803818 MaskingConfig_default] by (simp add: MaskingConfig_default_def)

text \<open>Truncation is idempotent on IPv4 for every prefix of at least four bits: the stored subnet,
  truncated again, is unchanged. (With a shorter prefix the subnet of a reserved address can be a
  multicast one, which is refused.)\<close>

theorem truncate_ip_v4_idempotent:
  assumes "n < 2 ^ 32" "4 \<le> ipv4_prefix cfg" "ipv4_prefix cfg \<le> 32"
    and "truncate_ip cfg (PStr (show_ipv4 n)) = Inr s"
  shows "truncate_ip cfg (PStr s) = Inr s"
proof -
  define k where "k = 32 - nat (ipv4_prefix cfg)"
  let ?m = "n div 2 ^ k * 2 ^ k"
  have eq: "truncate_ip cfg (PStr (show_ipv4 i)) = Inr (show_ipv4 (i div 2 ^ k * 2 ^ k))"
    if "i < 2 ^ 32" "i div 2 ^ 28 \<noteq> 14" for i
    using that assms(2,3)
    by (simp add: truncate_ip_def ip_address_def parse_show_ipv4 network_of_def Let_def k_def)
  have nm: "n div 2 ^ 28 \<noteq> 14"
    using assms by (auto simp: truncate_ip_def ip_address_def parse_show_ipv4)
  then have s: "s = show_ipv4 ?m" using eq [OF assms(1)] assms(4) by simp
  have m: "?m < 2 ^ 32" using assms(1) by (meson div_times_less_eq_dividend le_less_trans)
  have "k \<le> 28" using assms(2) by (simp add: k_def)
  then have p: "(2::nat) ^ 28 = 2 ^ k * 2 ^ (28 - k)" by (simp only: power_add [symmetric] le_add_diff_inverse)
  have "?m div 2 ^ 28 = n div 2 ^ 28" unfolding p by (simp add: div_mult2_eq)
  then show ?thesis using eq [OF m] nm s by simp
qed

lemma truncate_ip_v4_idempotent_witness:
  "truncate_ip MaskingConfig_default (PStr ''203.0.113.0'') = Inr ''203.0.113.0''"
proof (rule truncate_ip_v4_idempotent [of 3405803818])
  show "truncate_ip MaskingConfig_default (PStr (show_ipv4 3405803818)) = Inr ''203.0.113.0''" by code_simp
qed (simp_all add: MaskingConfig_default_def)

end
