(* ===== verification/Producer.thy ===== *)
theory Producer
  imports Masking Broker
begin

text \<open>
  The ingestion service: \<open>pipelines/ingestion/api/producer.py\<close> and \<open>ingestion/shared/\<close>
  (\<open>dlq_producer.py\<close>, \<open>schema_registry.py\<close>). What lies outside the repository is collected in
  the record \<open>ingest_env\<close>: the clock, the fresh identifiers (\<open>fresh_uuid\<close> is drawn by \<open>publish\<close>,
  \<open>event_uuid\<close> by the builder), \<open>json.dumps\<close>, the serialising Kafka producer, the dead-letter producer and
  the socket of the client. \<open>produce\<close> either puts an event into the producer's queue or raises; the \<open>poll(0)\<close>
  after it hands over the delivery reports that have arrived by then (\<open>None\<close>: delivered) and may raise
  itself. Whether an accepted event reaches the topic is known only from those reports. \<open>respond\<close> is what
  writing a response to the client raises, if anything. Spans and log lines are not modelled; the
  Prometheus counters are a list of events.
\<close>

text \<open>A response is its status and its body.\<close>

type_synonym response = "int \<times> pydict"

record ingest_env =
  now_ms :: int
  monotonic_ms :: int
  fresh_uuid :: string
  event_uuid :: string
  dlq_uuid :: "message list \<Rightarrow> string"
  hostname :: string
  json_dumps :: "pydict \<Rightarrow> string result"
  produce_event :: "pydict list \<Rightarrow> pydict \<Rightarrow> exn option"
  poll_reports :: "string option list"
  poll_error :: "exn option"
  dlq_broker :: kafka
  respond :: "response \<Rightarrow> exn option"

section \<open>The dead-letter producer\<close>

definition dlq_envelope :: "ingest_env \<Rightarrow> message list \<Rightarrow> string \<Rightarrow> string \<Rightarrow> string \<Rightarrow> string \<Rightarrow> bool \<Rightarrow> pydict" where
  "dlq_envelope env sent source_topic original_payload error_type error_message masking_applied =
     [(''dlq_id'', PStr (dlq_uuid env sent)), (''source_topic'', PStr source_topic),
      (''original_payload'', PStr original_payload), (''error_type'', PStr error_type),
      (''error_message'', PStr error_message), (''failed_at'', PInt (now_ms env)),
      (''producer_host'', PStr (hostname env)), (''masking_applied'', PBool masking_applied)]"

definition send_to_dlq ::
  "ingest_env \<Rightarrow> string \<Rightarrow> string \<Rightarrow> string \<Rightarrow> string \<Rightarrow> bool \<Rightarrow> message list \<Rightarrow> message list \<times> unit result" where
  "send_to_dlq env source_topic original_payload error_type error_message masking_applied sent =
     (case json_dumps env (dlq_envelope env sent source_topic original_payload error_type error_message masking_applied) of
        Inl e \<Rightarrow> (sent, Inl e)
      | Inr text \<Rightarrow>
          produce (dlq_broker env) \<lparr>msg_topic = ''txn.api.dlq'', msg_key = None, msg_value = utf8_encode text\<rparr> sent)"

text \<open>\<open>send\<close> of the protocol; \<open>decode_replace\<close> is \<open>bytes.decode("utf-8", errors="replace")\<close>.\<close>

definition DLQProducer_send ::
  "ingest_env \<Rightarrow> (8 word list \<Rightarrow> string) \<Rightarrow> string \<Rightarrow> 8 word list \<Rightarrow> string \<Rightarrow> string \<Rightarrow> message list \<Rightarrow> message list \<times> unit result" where
  "DLQProducer_send env decode_replace source_topic original_payload error_type error_message sent =
     send_to_dlq env source_topic (decode_replace original_payload) error_type error_message False sent"

section \<open>The schema registry\<close>

text \<open>
  \<open>connect_with_retry\<close>: \<open>probe i\<close> is what attempt \<open>i\<close> raises, if anything. The result is the
  number of the attempt that connected and the delays slept before it (in units of the base
  delay), or the error after the last attempt.
\<close>

fun connect_attempts :: "(nat \<Rightarrow> exn option) \<Rightarrow> nat \<Rightarrow> nat \<Rightarrow> nat list \<Rightarrow> exn option \<Rightarrow> (nat \<times> nat list) + exn option" where
  "connect_attempts probe attempt 0 slept last_exc = Inr last_exc"
| "connect_attempts probe attempt (Suc left) slept last_exc =
     (case probe attempt of
        None \<Rightarrow> Inl (attempt, slept)
      | Some e \<Rightarrow>
          connect_attempts probe (Suc attempt) left (if left = 0 then slept else slept @ [2 ^ attempt]) (Some e))"

definition connect_with_retry :: "(nat \<Rightarrow> exn option) \<Rightarrow> nat \<Rightarrow> (nat \<times> nat list) result" where
  "connect_with_retry probe retries =
     (case connect_attempts probe 0 retries [] None of
        Inl ok \<Rightarrow> Inr ok
      | Inr last_exc \<Rightarrow>
          raise_exn RuntimeError
            (''Schema Registry unreachable after '' @ show_nat retries @ '' attempts: '' @
             (case last_exc of None \<Rightarrow> ''None'' | Some e \<Rightarrow> exn_msg e)))"

text \<open>\<open>get_serializer\<close> caches by subject: a second request never builds a new serialiser.\<close>

definition get_serializer ::
  "(string \<Rightarrow> string \<Rightarrow> 's) \<Rightarrow> string \<Rightarrow> string \<Rightarrow> (string \<times> 's) list \<Rightarrow> (string \<times> 's) list \<times> 's" where
  "get_serializer mk subject schema_str cache =
     (case map_of cache subject of
        Some s \<Rightarrow> (cache, s)
      | None \<Rightarrow> (dset cache subject (mk subject schema_str), mk subject schema_str))"

section \<open>Validation\<close>

definition required_fields :: "string list" where
  "required_fields =
     [''transaction_id'', ''account_id'', ''merchant_id'', ''amount'', ''currency'', ''event_time'',
      ''card_number'', ''caller_ip'', ''api_key_id'', ''oauth_scope'']"

definition repr_strings :: "string list \<Rightarrow> string" where
  "repr_strings xs = ''['' @ join_with '', '' (map repr_str xs) @ '']''"

definition validate_required_fields :: "pydict \<Rightarrow> string list result" where
  "validate_required_fields payload =
     (let missing = filter (\<lambda>f. \<not> truthy (dget payload f)) required_fields
      in if missing \<noteq> [] then raise_exn ValidationError (''Missing required fields: '' @ repr_strings missing)
         else Inr missing)"

definition amount_errors :: "pydict \<Rightarrow> string list result" where
  "amount_errors payload =
     (case py_float (dget_or payload ''amount'' (PInt 0)) of
        Inl e \<Rightarrow>
          (if isinstance e TypeError \<or> isinstance e ValueError
           then Inr [''amount must be a numeric value''] else Inl e)
      | Inr amount \<Rightarrow> Inr (if fl_le amount (Fin 0) then [''amount must be > 0''] else []))"

definition currency_errors :: "pydict \<Rightarrow> string list" where
  "currency_errors payload =
     (case dget_or payload ''currency'' (PStr []) of
        PStr s \<Rightarrow> (if length s \<noteq> 3 then [''currency must be a 3-character ISO-4217 code''] else [])
      | _ \<Rightarrow> [''currency must be a 3-character ISO-4217 code''])"

definition event_time_errors :: "int \<Rightarrow> pydict \<Rightarrow> string list result" where
  "event_time_errors now payload =
     (case dget payload ''event_time'' of
        PNone \<Rightarrow> Inr []
      | v \<Rightarrow> rbind (py_int v) (\<lambda>t.
               Inr (if \<bar>now - t\<bar> > 5 * 60 * 1000
                    then [''event_time is more than 5 minutes from server time''] else [])))"

definition validate_field_values :: "int \<Rightarrow> pydict \<Rightarrow> string list result" where
  "validate_field_values now payload =
     rbind (amount_errors payload) (\<lambda>e1.
     rbind (event_time_errors now payload) (\<lambda>e5.
       let errors = e1 @ currency_errors payload @
             (if \<not> truthy (dget payload ''api_key_id'') then [''api_key_id must not be empty''] else []) @
             (if \<not> truthy (dget payload ''oauth_scope'') then [''oauth_scope must not be empty''] else []) @ e5
       in if errors \<noteq> [] then raise_exn ValidationError (''Field validation errors: '' @ repr_strings errors)
          else Inr errors))"

section \<open>The event builder\<close>

fun fl_mul :: "pyfloat \<Rightarrow> rat \<Rightarrow> pyfloat" where
  "fl_mul (Fin x) c = to_double (x * c)"
| "fl_mul f c = f"

fun py_round :: "pyfloat \<Rightarrow> int result" where
  "py_round (Fin x) = Inr (round_half_even x)"
| "py_round NaN = raise_exn ValueError ''cannot convert float NaN to integer''"
| "py_round _ = raise_exn OverflowError ''cannot convert float infinity to integer''"

text \<open>\<open>round(float(raw) * 10_000)\<close> as big-endian two's complement.\<close>

definition encode_amount :: "pyval \<Rightarrow> 8 word list result" where
  "encode_amount raw =
     rbind (py_float raw) (\<lambda>f.
     rbind (py_round (fl_mul f 10000)) (\<lambda>amount_int.
       int_to_bytes_signed amount_int ((bit_length amount_int + 8) div 8)))"

definition mask_card :: "masking_config \<Rightarrow> pydict \<Rightarrow> masked_pan result" where
  "mask_card cfg raw =
     (case rbind (dsub raw ''card_number'') (\<lambda>pan. rbind (RawPAN_init pan) (RawPAN_mask cfg)) of
        Inr m \<Rightarrow> Inr m
      | Inl e \<Rightarrow>
          (if isinstance e InvalidPANError then Inl e
           else raise_exn MaskingError (''PAN masking failed: '' @ exn_msg e)))"

definition mask_ip :: "masking_config \<Rightarrow> pydict \<Rightarrow> string result" where
  "mask_ip cfg raw =
     (case rbind (dsub raw ''caller_ip'') (truncate_ip cfg) of
        Inr s \<Rightarrow> Inr s
      | Inl e \<Rightarrow> raise_exn MaskingError (''IP masking failed: '' @ exn_msg e))"

definition TransactionEventBuilder_build ::
  "ingest_env \<Rightarrow> masking_config \<Rightarrow> string \<Rightarrow> pydict \<Rightarrow> pydict result" where
  "TransactionEventBuilder_build env cfg ch raw =
     rbind (mask_card cfg raw) (\<lambda>masked.
     rbind (mask_ip cfg raw) (\<lambda>subnet.
     rbind (dsub raw ''amount'') (\<lambda>raw_amount.
     rbind (encode_amount raw_amount) (\<lambda>amount_bytes.
     rbind (dsub raw ''account_id'') (\<lambda>account_id.
     rbind (dsub raw ''merchant_id'') (\<lambda>merchant_id.
     rbind (dsub raw ''currency'') (\<lambda>currency.
     rbind (rbind (dsub raw ''event_time'') py_int) (\<lambda>event_time.
     rbind (dsub raw ''api_key_id'') (\<lambda>api_key_id.
     rbind (dsub raw ''oauth_scope'') (\<lambda>oauth_scope.
       let event =
         [(''transaction_id'', py_or (dget raw ''transaction_id'') (PStr (event_uuid env))),
          (''account_id'', account_id),
          (''merchant_id'', merchant_id),
          (''amount'', PBytes amount_bytes),
          (''currency'', currency),
          (''event_time'', PInt event_time),
          (''processing_time'', PInt (now_ms env)),
          (''channel'', PStr ch),
          (''card_bin'', PStr (bin6 masked)),
          (''card_last4'', PStr (last4 masked)),
          (''caller_ip_subnet'', PStr subnet),
          (''api_key_id'', api_key_id),
          (''oauth_scope'', oauth_scope),
          (''geo_lat'', dget raw ''geo_lat''),
          (''geo_lon'', dget raw ''geo_lon''),
          (''masking_lib_version'', PStr ''1.0.0''),
          (''schema_version'', PStr ''1'')]
       in if has_key event ''card_number''
          then raise_exn AssertionError ''BUG: card_number must not appear in event dict''
          else Inr event))))))))))"

section \<open>Publishing\<close>

text \<open>\<open>_PII_PATTERN.fullmatch\<close> and the guard before \<open>produce\<close>.\<close>

definition pii_pattern :: "string \<Rightarrow> bool" where
  "pii_pattern s \<longleftrightarrow> 15 \<le> length s \<and> length s \<le> 19 \<and> list_all dec_digit s"

fun leaking_field :: "pydict \<Rightarrow> string option" where
  "leaking_field [] = None"
| "leaking_field ((k, v) # d) =
     (case v of PStr s \<Rightarrow> (if pii_pattern s then Some k else leaking_field d) | _ \<Rightarrow> leaking_field d)"

definition assert_no_pii_leak :: "pydict \<Rightarrow> unit result" where
  "assert_no_pii_leak event =
     (if has_key event ''card_number''
      then raise_exn MaskingError ''PII LEAK: 'card_number' key present in event dict''
      else case leaking_field event of
             Some k \<Rightarrow>
               raise_exn MaskingError
                 (''PII LEAK: field '' @ repr_str k @ '' contains a full card-number-length digit sequence'')
           | None \<Rightarrow> Inr ())"

datatype pmetric =
    PErrors string
  | PDlqDepth
  | PSchemaError string
  | PAccepted
  | PLatency int

record producer_state =
  p_started :: bool
  p_events :: "pydict list"
  p_dlq :: "message list"
  p_metrics :: "pmetric list"

record publish_result =
  pub_transaction_id :: pyval
  pub_status :: string
  pub_latency_ms :: int

definition error_type_name :: "exn \<Rightarrow> string" where
  "error_type_name e = (if exn_cls e = InvalidPANError then ''InvalidPANError'' else ''MaskingError'')"

text \<open>The sanitised payload of a dead-letter record.\<close>

definition sanitised :: "pydict \<Rightarrow> pydict" where
  "sanitised raw = filter (\<lambda>(k, v). k \<noteq> ''card_number'' \<and> k \<noteq> ''caller_ip'') raw"

definition handle_pre_serialise_error ::
  "ingest_env \<Rightarrow> exn \<Rightarrow> pydict \<Rightarrow> bool \<Rightarrow> producer_state \<Rightarrow> producer_state \<times> unit result" where
  "handle_pre_serialise_error env e raw masking_applied s =
     (let s1 = s\<lparr>p_metrics := p_metrics s @ [PErrors (error_type_name e), PDlqDepth]\<rparr> in
      case json_dumps env (sanitised raw) of
        Inl x \<Rightarrow> (s1, Inl x)
      | Inr safe_payload \<Rightarrow>
          (s1\<lparr>p_dlq := fst (send_to_dlq env ''txn.api'' safe_payload (error_type_name e) (exn_msg e) masking_applied (p_dlq s))\<rparr>,
           Inr ()))"

text \<open>The \<open>except (InvalidPANError, MaskingError)\<close> clause: report, dead-letter, raise again.\<close>

definition publish_failure ::
  "ingest_env \<Rightarrow> exn \<Rightarrow> pydict \<Rightarrow> bool \<Rightarrow> producer_state \<Rightarrow> producer_state \<times> publish_result result" where
  "publish_failure env e raw masking_applied s =
     (if isinstance e InvalidPANError \<or> isinstance e MaskingError
      then (case handle_pre_serialise_error env e raw masking_applied s of
              (s', Inr _) \<Rightarrow> (s', Inl e) | (s', Inl x) \<Rightarrow> (s', Inl x))
      else (s, Inl e))"

text \<open>\<open>_delivery_callback\<close>: a failed delivery is dead-lettered without its event.\<close>

definition delivery_callback :: "ingest_env \<Rightarrow> string option \<Rightarrow> producer_state \<Rightarrow> producer_state" where
  "delivery_callback env err s =
     (case err of
        None \<Rightarrow> s
      | Some msg \<Rightarrow>
          s\<lparr>p_metrics := p_metrics s @ [PErrors ''BrokerError'', PDlqDepth],
            p_dlq := (if p_started s then fst (send_to_dlq env ''txn.api'' ''{}'' ''BrokerError'' msg True (p_dlq s)) else p_dlq s)\<rparr>)"

text \<open>
  An event that \<open>produce\<close> has accepted stays accepted when \<open>poll(0)\<close> raises; then neither its latency nor
  the counter of accepted events is recorded.
\<close>

definition ProducerService_publish ::
  "ingest_env \<Rightarrow> masking_config \<Rightarrow> string \<Rightarrow> pydict \<Rightarrow> producer_state \<Rightarrow> producer_state \<times> publish_result result" where
  "ProducerService_publish env cfg ch raw s =
     (if \<not> p_started s then (s, raise_exn AssertionError ''ProducerService.start() must be called first'')
      else let transaction_id = py_or (dget raw ''transaction_id'') (PStr (fresh_uuid env))
           in case TransactionEventBuilder_build env cfg ch raw of
             Inl e \<Rightarrow> publish_failure env e raw False s
           | Inr event \<Rightarrow>
               (case assert_no_pii_leak event of
                  Inl e \<Rightarrow> publish_failure env e raw True s
                | Inr _ \<Rightarrow>
                    (case produce_event env (p_events s) event of
                       Some e \<Rightarrow> publish_failure env e raw True s
                     | None \<Rightarrow>
                         (let s1 = fold (delivery_callback env) (poll_reports env) (s\<lparr>p_events := p_events s @ [event]\<rparr>)
                          in case poll_error env of
                               Some e \<Rightarrow> publish_failure env e raw True s1
                             | None \<Rightarrow>
                                 (s1\<lparr>p_metrics := p_metrics s1 @ [PLatency (monotonic_ms env), PAccepted]\<rparr>,
                                  Inr \<lparr>pub_transaction_id = transaction_id, pub_status = ''accepted'',
                                       pub_latency_ms = monotonic_ms env\<rparr>)))))"

section \<open>The HTTP handler\<close>

text \<open>
  \<open>_respond\<close>: the answer of a request is the response that was written; an exception that leaves the
  handler, the one of a failed write included, is \<open>Inl\<close>.
\<close>

definition respond_with :: "ingest_env \<Rightarrow> response \<Rightarrow> response result" where
  "respond_with env r = (case respond env r of None \<Rightarrow> Inr r | Some e \<Rightarrow> Inl e)"

definition contains_channel :: "pyval \<Rightarrow> bool result" where
  "contains_channel payload =
     (case payload of
        PDict d \<Rightarrow> Inr (has_key d ''channel'')
      | PList xs \<Rightarrow> Inr (PStr ''channel'' \<in> set xs)
      | PStr s \<Rightarrow> Inr (sublist ''channel'' s)
      | _ \<Rightarrow> raise_exn TypeError ''argument is not iterable'')"

definition validation_response :: "ingest_env \<Rightarrow> string \<Rightarrow> producer_state \<Rightarrow> producer_state \<times> response result" where
  "validation_response env field s =
     (s\<lparr>p_metrics := p_metrics s @ [PErrors ''ValidationError'', PSchemaError ''ValidationError'']\<rparr>,
      respond_with env (400, [(''error'', PStr ''ValidationError''), (''fields'', PList [PStr field])]))"

definition publish_response :: "publish_result result \<Rightarrow> response" where
  "publish_response r =
     (case r of
        Inr res \<Rightarrow> (200, [(''transaction_id'', pub_transaction_id res), (''status'', PStr (pub_status res)),
                         (''latency_ms'', PInt (pub_latency_ms res))])
      | Inl e \<Rightarrow>
          (if isinstance e InvalidPANError
           then (400, [(''error'', PStr ''InvalidPANError''), (''detail'', PStr (exn_msg e))])
           else if isinstance e MaskingError
           then (500, [(''error'', PStr ''MaskingError''), (''detail'', PStr (exn_msg e))])
           else (500, [(''error'', PStr ''InternalError''), (''detail'', PStr (exn_msg e))])))"

text \<open>
  The \<open>try\<close> around \<open>publish\<close> holds the writing of the answer 200 as well: when that raises, the exception is
  answered like one of \<open>publish\<close>.
\<close>

definition publish_reply :: "ingest_env \<Rightarrow> publish_result result \<Rightarrow> response result" where
  "publish_reply env r =
     (case r of
        Inl e \<Rightarrow> respond_with env (publish_response (Inl e))
      | Inr res \<Rightarrow>
          (case respond env (publish_response (Inr res)) of
             None \<Rightarrow> Inr (publish_response (Inr res))
           | Some e \<Rightarrow> respond_with env (publish_response (Inl e))))"

definition do_POST ::
  "ingest_env \<Rightarrow> masking_config \<Rightarrow> string \<Rightarrow> (string \<Rightarrow> pyval result) \<Rightarrow> string \<Rightarrow> string option \<Rightarrow> (int \<Rightarrow> string) \<Rightarrow>
     producer_state \<Rightarrow> producer_state \<times> response result" where
  "do_POST env cfg ch json_loads path content_length read s =
     (if path \<noteq> ''/v1/transactions'' then (s, respond_with env (404, [(''error'', PStr ''NotFound'')]))
      else case py_int (case content_length of None \<Rightarrow> PInt 0 | Some l \<Rightarrow> PStr l) of
        Inl e \<Rightarrow> (s, Inl e)
      | Inr n \<Rightarrow>
        (case json_loads (read n) of
           Inl e \<Rightarrow>
             (if isinstance e JSONDecodeError then (s, respond_with env (400, [(''error'', PStr ''InvalidJSON'')])) else (s, Inl e))
         | Inr payload \<Rightarrow>
           (case contains_channel payload of
              Inl e \<Rightarrow> (s, Inl e)
            | Inr True \<Rightarrow> validation_response env ''channel is not an accepted request field'' s
            | Inr False \<Rightarrow>
              (case payload of
                 PDict d \<Rightarrow>
                   (case rbind (validate_required_fields d) (\<lambda>_. validate_field_values (now_ms env) d) of
                      Inl e \<Rightarrow>
                        (if isinstance e ValidationError then validation_response env (exn_msg e) s else (s, Inl e))
                    | Inr _ \<Rightarrow>
                        (let (s', r) = ProducerService_publish env cfg ch d s in (s', publish_reply env r)))
               | _ \<Rightarrow> (s, raise_exn AttributeError ''get'')))))"

section \<open>Lemmas\<close>

lemma to_double_small:
  assumes "\<bar>x\<bar> \<le> 2 ^ 60" shows "to_double x = Fin (fl x)"
proof -
  have "\<bar>x\<bar> / 2 ^ 53 \<le> \<bar>x\<bar>" by (simp add: field_simps)
  then have "\<bar>fl x - x\<bar> \<le> \<bar>x\<bar>" by (rule order_trans [OF fl_error])
  then have "\<bar>fl x\<bar> \<le> 2 * 2 ^ 60" using assms by linarith
  then have "\<bar>fl x\<bar> \<le> 2 ^ 61" by simp
  moreover have "(2::rat) ^ 61 < double_limit" unfolding double_limit_def by (rule power_strict_increasing) simp_all
  ultimately have "fl x < double_limit" "- double_limit < fl x" by linarith+
  then show ?thesis by (simp add: to_double_def Let_def)
qed

text \<open>Two roundings of an amount with at most four decimals stay within half a unit of \<open>k\<close>.\<close>

lemma double_rounding:
  fixes k :: int
  assumes "\<bar>k\<bar> \<le> 2 ^ 50"
  shows "\<bar>fl (fl (of_int k / 10000) * 10000) - of_int k\<bar> < 1/2"
    and "\<bar>fl (of_int k / 10000) * 10000\<bar> \<le> 2 ^ 51"
proof -
  define K where "K = \<bar>of_int k :: rat\<bar>"
  have K: "0 \<le> K" "K \<le> 2 ^ 50"
    using assms unfolding K_def by simp_all
  define y where "y = fl (of_int k / 10000) * 10000"
  have "\<bar>fl (of_int k / 10000) - of_int k / 10000\<bar> \<le> K / 10000 / 2 ^ 53"
    using fl_error [of "of_int k / 10000"] by (simp add: K_def)
  moreover have eq: "y - of_int k = (fl (of_int k / 10000) - of_int k / 10000) * 10000"
    by (simp add: y_def algebra_simps)
  have "\<bar>y - of_int k\<bar> = \<bar>fl (of_int k / 10000) - of_int k / 10000\<bar> * 10000"
    unfolding eq abs_mult by simp
  ultimately have d: "\<bar>y - of_int k\<bar> \<le> K / 2 ^ 53" by simp
  then have "\<bar>y - of_int k\<bar> \<le> 1/8" using K by simp
  then have y: "\<bar>y\<bar> \<le> K + 1/8" unfolding K_def by linarith
  then show "\<bar>fl (of_int k / 10000) * 10000\<bar> \<le> 2 ^ 51" using K unfolding y_def by simp
  have "\<bar>fl y - y\<bar> \<le> (K + 1/8) / 2 ^ 53"
    using fl_error [of y] y by (meson divide_right_mono order_trans zero_le_numeral zero_le_power)
  then have "\<bar>fl y - y\<bar> \<le> 1/4" using K by simp
  with \<open>\<bar>y - of_int k\<bar> \<le> 1/8\<close> show "\<bar>fl (fl (of_int k / 10000) * 10000) - of_int k\<bar> < 1/2"
    unfolding y_def by linarith
qed

lemma encode_amount_int:
  assumes "py_float raw = Inr f" "py_round (fl_mul f 10000) = Inr i"
  shows "\<exists>bs. encode_amount raw = Inr bs \<and> be_signed bs = i"
  using assms signed_length_suffices [of i] be_signed_be_bytes [of "(bit_length i + 8) div 8" i]
  by (simp add: encode_amount_def int_to_bytes_signed_def)

lemma leaking_field_None:
  "leaking_field d = None \<longleftrightarrow> list_all (\<lambda>(k, v). case v of PStr s \<Rightarrow> \<not> pii_pattern s | _ \<Rightarrow> True) d"
  by (induction d rule: leaking_field.induct) (auto split: pyval.splits)

lemma build_event:
  assumes "TransactionEventBuilder_build env cfg ch raw = Inr event"
  shows "\<exists>m subnet.
    mask_card cfg raw = Inr m \<and> mask_ip cfg raw = Inr subnet \<and>
    map fst event = [''transaction_id'', ''account_id'', ''merchant_id'', ''amount'', ''currency'', ''event_time'',
      ''processing_time'', ''channel'', ''card_bin'', ''card_last4'', ''caller_ip_subnet'', ''api_key_id'',
      ''oauth_scope'', ''geo_lat'', ''geo_lon'', ''masking_lib_version'', ''schema_version''] \<and>
    dget event ''card_bin'' = PStr (bin6 m) \<and> dget event ''card_last4'' = PStr (last4 m) \<and>
    dget event ''caller_ip_subnet'' = PStr subnet"
  using assms
  by (auto simp: TransactionEventBuilder_build_def result_simps Let_def dget_def split: if_splits)

lemma isinstance_masking [simp]:
  "isinstance e InvalidPANError \<longleftrightarrow> exn_cls e = InvalidPANError"
  "isinstance e MaskingError \<longleftrightarrow> exn_cls e = MaskingError"
  by (cases "exn_cls e"; simp add: isinstance_def)+

lemma mask_card_error: "mask_card cfg raw = Inl e \<Longrightarrow> exn_cls e = InvalidPANError \<or> exn_cls e = MaskingError"
  by (auto simp: mask_card_def result_simps split: sum.splits if_splits)

lemma send_to_dlq_sent:
  "send_to_dlq env src p t m b sent = (sent', r) \<Longrightarrow> sent' = sent \<or> (\<exists>x. sent' = sent @ [x])"
  by (auto simp: send_to_dlq_def produce_def split: sum.splits option.splits)

lemma handle_error_events:
  "p_events (fst (handle_pre_serialise_error env e raw b s)) = p_events s"
  by (auto simp: handle_pre_serialise_error_def Let_def split: sum.splits)

text \<open>What masking keeps of a card number and of an address.\<close>

lemma masked_card:
  assumes "mask_card cfg raw = Inr m"
  shows "\<exists>pan digits. dsub raw ''card_number'' = Inr (PStr pan) \<and>
    digits = filter (\<lambda>c. \<not> whitespace c \<and> c \<noteq> CHR ''-'') pan \<and>
    list_all dec_digit digits \<and> (length digits = 15 \<or> length digits = 16) \<and> luhn_valid digits = Inr True \<and>
    bin6 m = take 6 digits \<and> last4 m = drop (length digits - 4) digits"
proof -
  have "rbind (dsub raw ''card_number'') (\<lambda>pan. rbind (RawPAN_init pan) (RawPAN_mask cfg)) = Inr m"
    using assms by (auto simp: mask_card_def raise_exn_def split: sum.splits if_splits)
  then obtain v where v: "dsub raw ''card_number'' = Inr v" "rbind (RawPAN_init v) (RawPAN_mask cfg) = Inr m"
    by (auto simp: result_simps)
  then obtain pan where "v = PStr pan" "valid_pan (strip_separators pan)"
    "m = \<lparr>bin6 = take 6 (strip_separators pan), last4 = drop (length (strip_separators pan) - 4) (strip_separators pan),
       pan_length = length (strip_separators pan)\<rparr>"
    by (auto simp: masked_pan_parts)
  then show ?thesis
    using v(1) by (auto simp: strip_separators_def valid_pan_def ascii_digits_def luhn_valid_digits)
qed

lemma masked_ip:
  assumes "mask_ip cfg raw = Inr subnet"
  shows "\<exists>ip addr. dsub raw ''caller_ip'' = Inr (PStr ip) \<and> ip_address ip = Some addr \<and> \<not> is_multicast addr \<and>
    (case addr of
       V4 n \<Rightarrow> subnet = show_ipv4 (n - n mod 2 ^ (32 - nat (ipv4_prefix cfg)))
     | V6 n scope \<Rightarrow> prefix (show_ipv6 (n - n mod 2 ^ (128 - nat (ipv6_prefix cfg)))) subnet)"
proof -
  have "rbind (dsub raw ''caller_ip'') (truncate_ip cfg) = Inr subnet"
    using assms by (auto simp: mask_ip_def raise_exn_def split: sum.splits)
  then obtain v where "dsub raw ''caller_ip'' = Inr v" "truncate_ip cfg v = Inr subnet" by (auto simp: result_simps)
  moreover from this obtain s addr where "v = PStr s" "ip_address s = Some addr" "\<not> is_multicast addr"
    "network_address cfg addr = Some subnet"
    by (auto simp: truncate_ip_def raise_exn_def split: pyval.splits option.splits if_splits)
  moreover have "network_of w n p = n - n mod 2 ^ (w - nat p)" for w n p
    by (simp add: network_of_def minus_mod_eq_div_mult)
  ultimately show ?thesis by (cases addr) (auto simp: Let_def split: if_splits)
qed

lemma publish_failure_result: "\<exists>x. snd (publish_failure env e raw b s) = Inl x"
  by (auto simp: publish_failure_def split: prod.splits sum.splits)

lemma publish_failure_events: "p_events (fst (publish_failure env e raw b s)) = p_events s"
  using handle_error_events [of env e raw b s]
  by (auto simp: publish_failure_def split: prod.splits sum.splits)

text \<open>Delivery reports change the metrics and add at most one dead letter each.\<close>

lemma delivery_callback_frame:
  "p_events (delivery_callback env err s) = p_events s" "p_started (delivery_callback env err s) = p_started s"
  by (simp_all add: delivery_callback_def split: option.split)

lemma delivery_callback_dlq:
  "\<exists>more. p_dlq (delivery_callback env err s) = p_dlq s @ more \<and> length more \<le> (if err = None then 0 else 1)"
proof (cases err)
  case (Some m)
  obtain sent' r where d: "send_to_dlq env ''txn.api'' ''{}'' ''BrokerError'' m True (p_dlq s) = (sent', r)" by fastforce
  from send_to_dlq_sent [OF d] show ?thesis using Some d by (auto simp: delivery_callback_def)
qed (simp add: delivery_callback_def)

lemma reports_frame:
  "p_events (fold (delivery_callback env) rs s) = p_events s" "p_started (fold (delivery_callback env) rs s) = p_started s"
  by (induction rs arbitrary: s) (simp_all add: delivery_callback_frame)

lemma reports_dlq:
  "\<exists>more. p_dlq (fold (delivery_callback env) rs s) = p_dlq s @ more \<and> length more \<le> length (filter (\<lambda>r. r \<noteq> None) rs)"
proof (induction rs arbitrary: s)
  case (Cons r rs)
  obtain m1 where "p_dlq (delivery_callback env r s) = p_dlq s @ m1" "length m1 \<le> (if r = None then 0 else 1)"
    using delivery_callback_dlq [of env r s] by blast
  moreover obtain m2 where "p_dlq (fold (delivery_callback env) rs (delivery_callback env r s)) =
      p_dlq (delivery_callback env r s) @ m2" "length m2 \<le> length (filter (\<lambda>r. r \<noteq> None) rs)"
    using Cons.IH by blast
  ultimately show ?case by (intro exI [of _ "m1 @ m2"]) (auto split: if_splits)
qed simp

lemma publish_cases:
  obtains (not_started) "\<not> p_started s" "ProducerService_publish env cfg ch raw s =
      (s, raise_exn AssertionError ''ProducerService.start() must be called first'')"
  | (failed) e b where "p_started s" "ProducerService_publish env cfg ch raw s = publish_failure env e raw b s"
  | (poll_failed) event e s1 where "p_started s" "TransactionEventBuilder_build env cfg ch raw = Inr event"
      "assert_no_pii_leak event = Inr ()" "produce_event env (p_events s) event = None" "poll_error env = Some e"
      "s1 = fold (delivery_callback env) (poll_reports env) (s\<lparr>p_events := p_events s @ [event]\<rparr>)"
      "ProducerService_publish env cfg ch raw s = publish_failure env e raw True s1"
  | (published) event s1 where "p_started s" "TransactionEventBuilder_build env cfg ch raw = Inr event"
      "assert_no_pii_leak event = Inr ()" "produce_event env (p_events s) event = None" "poll_error env = None"
      "s1 = fold (delivery_callback env) (poll_reports env) (s\<lparr>p_events := p_events s @ [event]\<rparr>)"
      "ProducerService_publish env cfg ch raw s =
         (s1\<lparr>p_metrics := p_metrics s1 @ [PLatency (monotonic_ms env), PAccepted]\<rparr>,
          Inr \<lparr>pub_transaction_id = py_or (dget raw ''transaction_id'') (PStr (fresh_uuid env)),
               pub_status = ''accepted'', pub_latency_ms = monotonic_ms env\<rparr>)"
proof (cases "p_started s")
  case True
  note d = ProducerService_publish_def Let_def
  show ?thesis
  proof (cases "TransactionEventBuilder_build env cfg ch raw")
    case (Inl e)
    then show ?thesis using failed [of e False] True by (simp add: d)
  next
    case (Inr event)
    note b = this
    show ?thesis
    proof (cases "assert_no_pii_leak event")
      case (Inl e)
      then show ?thesis using failed [of e True] True b by (simp add: d)
    next
      case (Inr u)
      show ?thesis
      proof (cases "produce_event env (p_events s) event")
        case None
        then show ?thesis
          using poll_failed [OF True b, of _ "fold (delivery_callback env) (poll_reports env) (s\<lparr>p_events := p_events s @ [event]\<rparr>)"]
            published [OF True b, of "fold (delivery_callback env) (poll_reports env) (s\<lparr>p_events := p_events s @ [event]\<rparr>)"] True b Inr
          by (cases "poll_error env") (simp_all add: d)
      next
        case (Some e)
        then show ?thesis using failed [of e True] True b Inr by (simp add: d)
      qed
    qed
  qed
qed (simp add: ProducerService_publish_def)

text \<open>What publishing does to the accepted events, and when it reports success.\<close>

lemma publish_events:
  assumes "ProducerService_publish env cfg ch raw s = (s', r)"
  obtains (rejected) e where "r = Inl e" "p_events s' = p_events s"
  | (queued) event where "TransactionEventBuilder_build env cfg ch raw = Inr event"
      "assert_no_pii_leak event = Inr ()" "produce_event env (p_events s) event = None" "p_events s' = p_events s @ [event]"
      "(\<exists>e. poll_error env = Some e \<and> (\<exists>x. r = Inl x)) \<or> poll_error env = None \<and>
         r = Inr \<lparr>pub_transaction_id = py_or (dget raw ''transaction_id'') (PStr (fresh_uuid env)),
               pub_status = ''accepted'', pub_latency_ms = monotonic_ms env\<rparr>"
proof (cases rule: publish_cases [of s env cfg ch raw])
  case (failed e b)
  then have f: "publish_failure env e raw b s = (s', r)" using assms by simp
  then show ?thesis
    using rejected publish_failure_result [of env e raw b s] publish_failure_events [of env e raw b s] by fastforce
next
  case (poll_failed event e s1)
  then have "publish_failure env e raw True s1 = (s', r)" using assms by simp
  then have "p_events s' = p_events s @ [event]" "\<exists>x. r = Inl x"
    using publish_failure_result [of env e raw True s1] publish_failure_events [of env e raw True s1] poll_failed(6)
    by (auto simp: reports_frame)
  then show ?thesis using queued [OF poll_failed(2-4)] poll_failed(5) by blast
next
  case (published event s1)
  then show ?thesis using queued [of event] assms by (auto simp: reports_frame)
qed (use assms rejected in \<open>auto simp: raise_exn_def\<close>)

section \<open>Properties\<close>

text \<open>The amount on the wire is exact. For every amount of at most four decimals up to 2 ^ 50
  units of 0.0001 (more than a hundred billion), whether it arrives as a float, an int or a
  string, the two floating-point roundings on the way cancel and the big-endian two's-complement
  bytes decode to precisely that number of units.\<close>

theorem encode_amount_exact:
  assumes "\<bar>k\<bar> \<le> 2 ^ 50" "py_float raw = Inr (to_double (of_int k / 10000))"
  shows "\<exists>bs. encode_amount raw = Inr bs \<and> be_signed bs = k"
proof (rule encode_amount_int)
  let ?x = "fl (of_int k / 10000)"
  have "\<bar>of_int k :: rat\<bar> \<le> 2 ^ 50" using assms(1) by (metis of_int_abs of_int_le_iff of_int_numeral of_int_power)
  then have "\<bar>of_int k / 10000 :: rat\<bar> \<le> 2 ^ 60" by simp
  then have x: "to_double (of_int k / 10000) = Fin ?x" by (rule to_double_small)
  then show "py_float raw = Inr (Fin ?x)" using assms(2) by simp
  have "\<bar>?x * 10000\<bar> \<le> 2 ^ 60" using double_rounding(2) [OF assms(1)] by simp
  then have "fl_mul (Fin ?x) 10000 = Fin (fl (?x * 10000))" by (simp add: to_double_small)
  moreover have "round_half_even (fl (?x * 10000)) = k"
    by (rule round_half_even_unique) (use double_rounding(1) [OF assms(1)] in simp)
  ultimately show "py_round (fl_mul (Fin ?x) 10000) = Inr k" by simp
qed

lemma encode_amount_exact_witness: "\<exists>bs. encode_amount (PStr ''19.99'') = Inr bs \<and> be_signed bs = 199900"
  by (rule encode_amount_exact) (simp, code_simp)


definition good_payload :: pydict where
  "good_payload =
     [(''transaction_id'', PStr ''t1''), (''account_id'', PStr ''a1''), (''merchant_id'', PStr ''m1''),
      (''amount'', PInt 20), (''currency'', PStr ''EUR''), (''event_time'', PInt 1000),
      (''card_number'', PStr ''4111 1111 1111 1111''), (''caller_ip'', PStr ''203.0.113.42''),
      (''api_key_id'', PStr ''k''), (''oauth_scope'', PStr ''w'')]"

definition quiet_env :: ingest_env where
  "quiet_env = \<lparr>now_ms = 2000, monotonic_ms = 1, fresh_uuid = ''u'', event_uuid = ''v'', dlq_uuid = (\<lambda>_. ''d''), hostname = ''h'',
     json_dumps = (\<lambda>_. Inr ''{}''), produce_event = (\<lambda>_ _. None), poll_reports = [], poll_error = None,
     dlq_broker = (\<lambda>_ _. None), respond = (\<lambda>_. None)\<rparr>"

definition fresh_producer :: producer_state where
  "fresh_producer = \<lparr>p_started = True, p_events = [], p_dlq = [], p_metrics = []\<rparr>"


text \<open>C17: A payment the masking refuses is not published, and is dead-lettered. Whether the builder
  raises InvalidPANError or MaskingError (masking_applied False) or the leak guard finds a card number in
  the built event (masking_applied True), publish raises and no event is produced. If the payload can be
  serialised and the dead-letter broker accepts, publish raises that very exception and exactly one dead
  letter is written; its payload is that of the request less card_number and caller_ip. (Its error
  message may still quote the number: invalid_pan_message_quotes_pan.)\<close>

theorem masking_failure_is_dead_lettered:
  assumes "p_started s" "exn_cls e = InvalidPANError \<or> exn_cls e = MaskingError"
    and "case TransactionEventBuilder_build env cfg ch raw of
           Inl e' \<Rightarrow> e' = e \<and> masking_applied = False
         | Inr event \<Rightarrow> assert_no_pii_leak event = Inl e \<and> masking_applied = True"
  shows "\<exists>s' x. ProducerService_publish env cfg ch raw s = (s', Inl x) \<and> p_events s' = p_events s \<and>
    \<not> has_key (sanitised raw) ''card_number'' \<and> \<not> has_key (sanitised raw) ''caller_ip'' \<and>
    (\<forall>safe text. json_dumps env (sanitised raw) = Inr safe \<and>
        json_dumps env (dlq_envelope env (p_dlq s) ''txn.api'' safe (error_type_name e) (exn_msg e) masking_applied) = Inr text \<and>
        dlq_broker env (p_dlq s) \<lparr>msg_topic = ''txn.api.dlq'', msg_key = None, msg_value = utf8_encode text\<rparr> = None \<longrightarrow>
      x = e \<and> p_dlq s' = p_dlq s @ [\<lparr>msg_topic = ''txn.api.dlq'', msg_key = None, msg_value = utf8_encode text\<rparr>])"
proof -
  have keys: "\<not> has_key (sanitised raw) k" if "k = ''card_number'' \<or> k = ''caller_ip''" for k
    using that by (auto simp: has_key_iff sanitised_def)
  have p: "ProducerService_publish env cfg ch raw s = publish_failure env e raw masking_applied s"
    using assms(1,3) by (auto simp: ProducerService_publish_def split: sum.splits)
  obtain x where x: "snd (publish_failure env e raw masking_applied s) = Inl x"
    using publish_failure_result by blast
  show ?thesis
  proof (intro exI conjI allI impI)
    show "ProducerService_publish env cfg ch raw s = (fst (publish_failure env e raw masking_applied s), Inl x)"
      using p x by (metis prod.collapse)
  qed (use assms(2) x in \<open>auto simp: keys publish_failure_events publish_failure_def handle_pre_serialise_error_def
        send_to_dlq_def produce_def Let_def split: sum.splits\<close>)
qed

definition bad_card_payload :: pydict where
  "bad_card_payload = dset good_payload ''card_number'' (PStr ''4111 1111 1111 1112'')"

lemma masking_failure_is_dead_lettered_witness:
  "\<exists>s'. ProducerService_publish quiet_env MaskingConfig_default ''API'' bad_card_payload fresh_producer =
     (s', Inl (Exn InvalidPANError ''Luhn check failed'')) \<and> length (p_dlq s') = 1"
proof -
  have b: "TransactionEventBuilder_build quiet_env MaskingConfig_default ''API'' bad_card_payload =
      Inl (Exn InvalidPANError ''Luhn check failed'')"
    by code_simp
  have "p_started fresh_producer" by (simp add: fresh_producer_def)
  from masking_failure_is_dead_lettered [where e = "Exn InvalidPANError ''Luhn check failed''" and env = quiet_env and
      cfg = MaskingConfig_default and ch = "''API''" and raw = bad_card_payload and masking_applied = False, OF this] b
  show ?thesis by (auto simp: quiet_env_def fresh_producer_def)
qed

text \<open>What an answer says about the producer's queue: 200 is answered only when an event was accepted, and
  any other end of the request leaves the queue as it was, but for an event that was accepted before
  \<open>poll(0)\<close> or the writing of the answer raised.\<close>

lemma publish_reply_200:
  "publish_reply env r = Inr (200, body) \<longleftrightarrow>
     (\<exists>res. r = Inr res \<and> publish_response r = (200, body) \<and> respond env (200, body) = None)"
  by (auto simp: publish_reply_def publish_response_def respond_with_def split: sum.splits option.splits if_splits)

theorem http_200_iff_event:
  assumes "do_POST env cfg ch json_loads path len read s = (s', r)"
  shows "if \<exists>body. r = Inr (200, body) then \<exists>event. p_events s' = p_events s @ [event]
         else p_events s' = p_events s \<or>
           (\<exists>event. p_events s' = p_events s @ [event]) \<and> (poll_error env \<noteq> None \<or> (\<exists>body. respond env (200, body) \<noteq> None))"
proof -
  let ?ok = "\<lambda>t r. if \<exists>body. r = Inr (200, body) then \<exists>event. p_events t = p_events s @ [event]
         else p_events t = p_events s \<or>
           (\<exists>event. p_events t = p_events s @ [event]) \<and> (poll_error env \<noteq> None \<or> (\<exists>body. respond env (200, body) \<noteq> None))"
  have pub: "?ok t (publish_reply env r')" if "ProducerService_publish env cfg ch d s = (t, r')" for d t r'
    using that
  proof (cases rule: publish_events)
    case (queued event)
    then show ?thesis
      by (auto simp: publish_reply_200) (auto simp: publish_reply_def publish_response_def split: option.splits)
  qed (auto simp: publish_reply_200)
  have re: "respond_with env x \<noteq> Inr (200, b)" if "fst x \<noteq> 200" for x b
    using that by (auto simp: respond_with_def split: option.splits)
  have no: "?ok t r'" if "validation_response env f s = (t, r')" for f t r'
    using that re by (auto simp: validation_response_def)
  show ?thesis
    using assms unfolding do_POST_def
    by (auto simp: raise_exn_def re simp del: if_split dest: no pub
          split: if_splits sum.splits bool.splits pyval.splits prod.splits)
qed

definition post :: "pydict \<Rightarrow> producer_state \<times> response result" where
  "post d = do_POST quiet_env MaskingConfig_default ''API'' (\<lambda>_. Inr (PDict d)) ''/v1/transactions'' (Some ''2'')
     (\<lambda>_. ''{}'') fresh_producer"

lemma http_200_iff_event_witness:
  "\<exists>s' body event. post good_payload = (s', Inr (200, body)) \<and> p_events s' = [event]"
proof -
  have "case snd (post good_payload) of Inr (st, b) \<Rightarrow> st = 200 | Inl e \<Rightarrow> False" by code_simp
  then obtain s' body where e: "post good_payload = (s', Inr (200, body))"
    by (auto split: sum.splits) (metis prod.collapse)
  from http_200_iff_event [OF e [unfolded post_def]] e show ?thesis by (auto simp: fresh_producer_def)
qed

text \<open>A NaN amount slips through: field validation reports no error for it, and for a payload whose
  card and address can be masked the publication then raises ValueError, an exception the
  producer neither counts nor dead-letters.\<close>

theorem nan_amount_not_rejected:
  assumes "map_of raw ''amount'' = Some (PFloat NaN)"
    and "mask_card cfg raw = Inr m" "mask_ip cfg raw = Inr subnet" "p_started s"
  shows "amount_errors raw = Inr [] \<and>
    ProducerService_publish env cfg ch raw s = (s, Inl (Exn ValueError ''cannot convert float NaN to integer''))"
  using assms
  by (simp add: amount_errors_def dget_or_def fl_le_def ProducerService_publish_def TransactionEventBuilder_build_def
      dsub_def encode_amount_def publish_failure_def raise_exn_def Let_def)

lemma nan_amount_not_rejected_witness:
  "\<exists>raw. amount_errors raw = Inr [] \<and>
     snd (ProducerService_publish quiet_env MaskingConfig_default ''API'' raw fresh_producer) =
       Inl (Exn ValueError ''cannot convert float NaN to integer'')"
proof -
  let ?raw = "dset good_payload ''amount'' (PFloat NaN)"
  have "case mask_card MaskingConfig_default ?raw of Inl e \<Rightarrow> False | Inr m \<Rightarrow> True"
    "case mask_ip MaskingConfig_default ?raw of Inl e \<Rightarrow> False | Inr m \<Rightarrow> True"
    by code_simp+
  then obtain m subnet where "mask_card MaskingConfig_default ?raw = Inr m" "mask_ip MaskingConfig_default ?raw = Inr subnet"
    by (auto split: sum.splits)
  moreover have "map_of ?raw ''amount'' = Some (PFloat NaN)" by (simp add: dict_simps)
  ultimately show ?thesis
    using nan_amount_not_rejected [of ?raw MaskingConfig_default m subnet fresh_producer quiet_env "''API''"]
    by (auto simp: fresh_producer_def)
qed

text \<open>An event_time that is a string but not a number is not answered with 400: after the required
  fields are found present and the amount is a number, the conversion raises ValueError inside
  the validation, outside every handler, so the request gets no response at all.\<close>

theorem bad_event_time_unanswered:
  assumes "json_loads (read 0) = Inr (PDict d)" "\<not> has_key d ''channel''"
    and "filter (\<lambda>f. \<not> truthy (dget d f)) required_fields = []" "amount_errors d = Inr es"
    and "dget d ''event_time'' = PStr t" "int_of_str t = None"
  shows "do_POST env cfg ch json_loads ''/v1/transactions'' None read s =
    (s, Inl (Exn ValueError (''invalid literal for int() with base 10: '' @ repr_str t)))"
  using assms
  by (simp add: do_POST_def contains_channel_def validate_required_fields_def validate_field_values_def
      event_time_errors_def raise_exn_def isinstance_def)

lemma bad_event_time_unanswered_witness:
  "do_POST quiet_env MaskingConfig_default ''API'' (\<lambda>_. Inr (PDict (dset good_payload ''event_time'' (PStr ''noon''))))
     ''/v1/transactions'' None (\<lambda>_. []) fresh_producer =
   (fresh_producer, Inl (Exn ValueError (''invalid literal for int() with base 10: '' @ repr_str ''noon'')))"
proof (rule bad_event_time_unanswered)
  show "amount_errors (dset good_payload ''event_time'' (PStr ''noon'')) = Inr []" by code_simp
  show "filter (\<lambda>f. \<not> truthy (dget (dset good_payload ''event_time'' (PStr ''noon'')) f)) required_fields = []"
    by code_simp
  show "int_of_str ''noon'' = None" by code_simp
qed (simp, code_simp, code_simp)

lemma connect_attempts_Inl:
  "connect_attempts probe a n slept le = Inl (i, sl) \<longleftrightarrow>
     a \<le> i \<and> i < a + n \<and> probe i = None \<and> list_all (\<lambda>j. probe j \<noteq> None) [a..<i] \<and>
     sl = slept @ map (\<lambda>k. 2 ^ k) [a..<i]"
proof (induction n arbitrary: a slept le)
  case (Suc n)
  show ?case
  proof (cases "probe a")
    case None
    then show ?thesis
      by (cases "i = a") (auto simp: list_all_iff)
  next
    case (Some e)
    have cons: "[a..<i] = a # [Suc a..<i]" if "Suc a \<le> i" using that by (simp add: upt_conv_Cons)
    show ?thesis
    proof (cases "n = 0")
      case True
      then show ?thesis using Some by (auto simp: le_less_Suc_eq)
    next
      case False
      have "a \<le> i \<and> probe i = None \<longleftrightarrow> Suc a \<le> i \<and> probe i = None" using Some by (auto simp: Suc_le_eq le_less)
      then show ?thesis using Some False Suc.IH cons by auto
    qed
  qed
qed auto

text \<open>The connection to the schema registry is retried as documented: it succeeds with the first
  attempt below the limit whose probe succeeds, after sleeping 1, 2, 4, ... base delays between
  the failed ones, and fails exactly when every attempt fails.\<close>

theorem connect_with_retry_spec:
  "connect_with_retry probe retries = Inr (i, slept) \<longleftrightarrow>
     i < retries \<and> probe i = None \<and> list_all (\<lambda>j. probe j \<noteq> None) [0..<i] \<and>
     slept = map (\<lambda>k. 2 ^ k) [0..<i]"
  using connect_attempts_Inl [of probe 0 retries "[]" None i slept]
  by (auto simp: connect_with_retry_def split: sum.splits)

end
