(* ===== verification/Wire.thy ===== *)
theory Wire
  imports Broker
begin

text \<open>
  The byte formats of the processing stage: \<open>processing/shared/avro_serde.py\<close> and
  \<open>processing/shared/dlq_sink.py\<close>. A message is a magic byte 0, a schema id in four big-endian
  bytes and an Avro body; fastavro, which reads and writes the body, is an argument. Of the
  decoded record the model follows the two timestamps, which fastavro returns as datetimes and
  the code converts through floating point.
\<close>

section \<open>Raw transactions\<close>

record raw_transaction =
  rt_transaction_id :: string
  rt_account_id :: string
  rt_merchant_id :: string
  rt_amount :: rat
  rt_currency :: string
  rt_event_time :: int
  rt_processing_time :: int
  rt_channel :: string
  rt_card_bin :: string
  rt_card_last4 :: string
  rt_caller_ip_subnet :: string
  rt_api_key_id :: string
  rt_oauth_scope :: string
  rt_geo_lat :: "pyfloat option"
  rt_geo_lon :: "pyfloat option"
  rt_masking_lib_version :: string

text \<open>
  A timestamp as fastavro returns it: an aware datetime, here by its milliseconds since the
  epoch, or a plain int. \<open>timestamp()\<close> is the correctly rounded quotient by 1000.
\<close>

datatype avro_time = Datetime int | Millis int

fun time_to_ms :: "avro_time \<Rightarrow> int" where
  "time_to_ms (Millis k) = k"
| "time_to_ms (Datetime k) = truncate_rat (fl (fl (of_int k / 1000) * 1000))"

record decoded =
  dec_txn :: raw_transaction
  dec_event_time :: avro_time
  dec_processing_time :: avro_time

type_synonym avro_reader = "8 word list \<Rightarrow> decoded result"

definition schema_error :: "string \<Rightarrow> 'a result" where
  "schema_error msg = raise_exn SchemaValidationError msg"

definition deserialise_raw_transaction ::
  "avro_reader \<Rightarrow> int option \<Rightarrow> 8 word list \<Rightarrow> raw_transaction result" where
  "deserialise_raw_transaction reader expected_schema_id payload =
     (if length payload < 5
      then schema_error (''Payload too short: '' @ show_nat (length payload) @ '' bytes'')
      else if payload ! 0 \<noteq> 0
      then schema_error (''Invalid Confluent magic byte: 0x'' @ show_hex (unat (payload ! 0)))
      else let schema_id = be_unsigned (take 4 (drop 1 payload)) in
        if (case expected_schema_id of None \<Rightarrow> False | Some i \<Rightarrow> schema_id \<noteq> i)
        then schema_error
               (''Schema ID mismatch: got '' @ show_int schema_id @ '', expected '' @
                show_int (the expected_schema_id))
        else case reader (drop 5 payload) of
               Inl e \<Rightarrow>
                 (if isinstance e SchemaValidationError then Inl e
                  else schema_error (''Avro deserialization failed: '' @ exn_msg e))
             | Inr d \<Rightarrow>
                 Inr ((dec_txn d)\<lparr>rt_event_time := time_to_ms (dec_event_time d),
                                  rt_processing_time := time_to_ms (dec_processing_time d)\<rparr>))"

definition wire_format :: "int \<Rightarrow> 8 word list \<Rightarrow> 8 word list result" where
  "wire_format schema_id body = rbind (int_to_bytes_unsigned schema_id 4) (\<lambda>sid. Inr ([0] @ sid @ body))"

definition serialise_enriched_transaction ::
  "('r \<Rightarrow> 8 word list result) \<Rightarrow> int \<Rightarrow> 'r \<Rightarrow> 8 word list result" where
  "serialise_enriched_transaction writer schema_id rec = rbind (writer rec) (wire_format schema_id)"

text \<open>\<open>get_schema_id\<close>: the registry's answer, read as JSON, is an argument.\<close>

definition get_schema_id :: "(string \<Rightarrow> pydict result) \<Rightarrow> string \<Rightarrow> string \<Rightarrow> int result" where
  "get_schema_id http_get url subject =
     rbind (http_get (rev (dropWhile (\<lambda>c. c = CHR ''/'') (rev url)) @ ''/subjects/'' @ subject @ ''/versions/latest''))
       (\<lambda>d. rbind (dsub d ''id'') py_int)"

section \<open>Dead letters\<close>

record dlq_record =
  dl_dlq_id :: string
  dl_source_topic :: string
  dl_source_partition :: int
  dl_source_offset :: int
  dl_transaction_id :: "string option"
  dl_original_payload_bytes :: "8 word list"
  dl_error_type :: string
  dl_error_message :: string
  dl_watermark_at_rejection :: "int option"
  dl_event_time_at_rejection :: "int option"
  dl_failed_at :: int
  dl_processor_host :: string
  dl_processor_subtask_index :: int

text \<open>The identifier, the clock and the host name of the process that builds the record.\<close>

record dlq_context =
  dx_uuid :: string
  dx_now_ms :: int
  dx_host :: string

definition build_dlq_record ::
  "dlq_context \<Rightarrow> string \<Rightarrow> int \<Rightarrow> int \<Rightarrow> 8 word list \<Rightarrow> string \<Rightarrow> string \<Rightarrow> string option \<Rightarrow> int option \<Rightarrow> int option \<Rightarrow>
     int \<Rightarrow> dlq_record" where
  "build_dlq_record cx source_topic source_partition source_offset payload error_type error_message
     transaction_id wm event_time subtask =
     \<lparr>dl_dlq_id = dx_uuid cx, dl_source_topic = source_topic, dl_source_partition = source_partition,
      dl_source_offset = source_offset, dl_transaction_id = transaction_id,
      dl_original_payload_bytes = payload, dl_error_type = error_type, dl_error_message = error_message,
      dl_watermark_at_rejection = wm, dl_event_time_at_rejection = event_time, dl_failed_at = dx_now_ms cx,
      dl_processor_host = dx_host cx, dl_processor_subtask_index = subtask\<rparr>"

definition serialise_dlq_record ::
  "(dlq_record \<Rightarrow> 8 word list result) \<Rightarrow> int \<Rightarrow> dlq_record \<Rightarrow> 8 word list result" where
  "serialise_dlq_record writer schema_id rec = rbind (writer rec) (wire_format schema_id)"

record processing_dlq =
  pd_topic :: string
  pd_schema_id :: int
  pd_open :: bool
  pd_sent :: "message list"

definition ProcessingDLQSink_open :: "processing_dlq \<Rightarrow> processing_dlq" where
  "ProcessingDLQSink_open s = s\<lparr>pd_open := True\<rparr>"

text \<open>A serialisation error leaves \<open>send\<close>; a produce error is logged and swallowed.\<close>

definition ProcessingDLQSink_send ::
  "kafka \<Rightarrow> (dlq_record \<Rightarrow> 8 word list result) \<Rightarrow> dlq_context \<Rightarrow> string \<Rightarrow> 8 word list \<Rightarrow> string \<Rightarrow> string \<Rightarrow>
     processing_dlq \<Rightarrow> processing_dlq \<times> unit result" where
  "ProcessingDLQSink_send K writer cx source_topic payload error_type error_message s =
     (if \<not> pd_open s then (s, Inr ())
      else case serialise_dlq_record writer (pd_schema_id s)
                  (build_dlq_record cx source_topic 0 0 payload error_type error_message None None None 0) of
             Inl e \<Rightarrow> (s, Inl e)
           | Inr bytes \<Rightarrow>
               (s\<lparr>pd_sent := fst (produce K \<lparr>msg_topic = pd_topic s, msg_key = None, msg_value = bytes\<rparr> (pd_sent s))\<rparr>, Inr ()))"

definition ProcessingDLQSink_close :: "processing_dlq \<Rightarrow> processing_dlq" where
  "ProcessingDLQSink_close s = s\<lparr>pd_open := False\<rparr>"

definition DLQKafkaProducer_produce ::
  "kafka \<Rightarrow> 8 word list \<Rightarrow> string option \<Rightarrow> processing_dlq \<Rightarrow> processing_dlq" where
  "DLQKafkaProducer_produce K bytes key s =
     (if \<not> pd_open s then s
      else s\<lparr>pd_sent := fst (produce K
               \<lparr>msg_topic = pd_topic s,
                msg_key = (case key of None \<Rightarrow> None | Some k \<Rightarrow> (if k = [] then None else Some (utf8_encode k))),
                msg_value = bytes\<rparr> (pd_sent s))\<rparr>)"

section \<open>Lemmas\<close>

lemma be_unsigned_schema_id:
  "int_to_bytes_unsigned i 4 = Inr sid \<Longrightarrow> length sid = 4 \<and> be_unsigned sid = i"
  by (auto simp: int_to_bytes_unsigned_def be_unsigned_roundtrip split: if_splits)

text \<open>Whatever is sent to a dead-letter sink stays there.\<close>

lemma ProcessingDLQSink_send_prefix:
  "prefix (pd_sent s) (pd_sent (fst (ProcessingDLQSink_send K w cx src p t m s)))"
  by (auto simp: ProcessingDLQSink_send_def produce_def split: sum.splits option.splits)

section \<open>Properties\<close>

text \<open>C21: Wire format round trip: a record serialised under a schema id is read back by the
  deserialiser, which hands the reader exactly the bytes the writer produced, and is refused when
  a different schema id is expected.\<close>

theorem wire_roundtrip:
  assumes "serialise_enriched_transaction writer schema_id rec = Inr payload"
    and "writer rec = Inr body" "reader body = Inr d"
  shows "deserialise_raw_transaction reader None payload =
      Inr ((dec_txn d)\<lparr>rt_event_time := time_to_ms (dec_event_time d),
                       rt_processing_time := time_to_ms (dec_processing_time d)\<rparr>)
    \<and> deserialise_raw_transaction reader (Some schema_id) payload = deserialise_raw_transaction reader None payload
    \<and> (\<forall>i. i \<noteq> schema_id \<longrightarrow> (\<exists>e. deserialise_raw_transaction reader (Some i) payload = Inl e \<and>
            exn_cls e = SchemaValidationError))"
proof -
  obtain sid where sid: "int_to_bytes_unsigned schema_id 4 = Inr sid" "payload = [0] @ sid @ body"
    using assms(1,2) by (auto simp: serialise_enriched_transaction_def wire_format_def result_simps)
  note s = be_unsigned_schema_id [OF sid(1)]
  have "take 4 (drop 1 payload) = sid" "drop 5 payload = body" "payload ! 0 = 0" "\<not> length payload < 5"
    using s sid(2) by simp_all
  then show ?thesis
    using assms(3) s by (simp add: deserialise_raw_transaction_def Let_def schema_error_def raise_exn_def)
qed

definition sample_raw :: raw_transaction where
  "sample_raw = \<lparr>rt_transaction_id = ''t1'', rt_account_id = ''a1'', rt_merchant_id = ''m1'', rt_amount = 20,
     rt_currency = ''EUR'', rt_event_time = 0, rt_processing_time = 0, rt_channel = ''API'',
     rt_card_bin = ''411111'', rt_card_last4 = ''1111'', rt_caller_ip_subnet = ''203.0.113.0'',
     rt_api_key_id = ''k1'', rt_oauth_scope = ''w'', rt_geo_lat = None, rt_geo_lon = None,
     rt_masking_lib_version = ''1.0.0''\<rparr>"

definition sample_decoded :: decoded where
  "sample_decoded = \<lparr>dec_txn = sample_raw, dec_event_time = Millis 5, dec_processing_time = Millis 6\<rparr>"

lemma wire_roundtrip_witness:
  "deserialise_raw_transaction (\<lambda>_. Inr sample_decoded) None [0, 0, 0, 0, 7, 1, 2] =
     Inr (sample_raw\<lparr>rt_event_time := 5, rt_processing_time := 6\<rparr>)"
proof -
  have "serialise_enriched_transaction (\<lambda>_. Inr [1, 2]) 7 () = Inr [0, 0, 0, 0, 7, 1, 2]" by code_simp
  from wire_roundtrip [OF this, of "[1, 2]" "\<lambda>_. Inr sample_decoded" sample_decoded] show ?thesis
    by (simp add: sample_decoded_def)
qed

text \<open>The deserialiser raises nothing but SchemaValidationError, whatever the payload and whatever
  the Avro reader raises, so its caller's one handler catches every failure.\<close>

theorem deserialise_only_schema_errors:
  assumes "deserialise_raw_transaction reader expected payload = Inl e"
  shows "exn_cls e = SchemaValidationError"
proof -
  have "exn_cls x = SchemaValidationError" if "isinstance x SchemaValidationError" for x
    using that by (cases "exn_cls x") (simp_all add: isinstance_def)
  then show ?thesis
    using assms
    by (auto simp: deserialise_raw_transaction_def schema_error_def raise_exn_def Let_def
          split: if_splits sum.splits)
qed

lemma deserialise_only_schema_errors_witness:
  "exn_cls (Exn SchemaValidationError ''Payload too short: 1 bytes'') = SchemaValidationError"
proof (rule deserialise_only_schema_errors)
  show "deserialise_raw_transaction (\<lambda>_. raise_exn ValueError ''bad'') None [0] =
      Inl (Exn SchemaValidationError ''Payload too short: 1 bytes'')"
    by code_simp
qed

text \<open>The trip of a timestamp through a datetime and two floating-point roundings loses nothing for
  every millisecond strictly between 2 ^ 40 (November 2004) and 1000 * 2 ^ 31 (January 2038).\<close>

theorem time_to_ms_exact:
  assumes "2 ^ 40 < k" "k < 1000 * 2 ^ 31"
  shows "time_to_ms (Datetime k) = k"
proof -
  let ?x = "of_int k / 1000 :: rat"
  have lo: "2 ^ 40 + 1 \<le> (of_int k :: rat)" and hi: "(of_int k :: rat) + 1 \<le> 1000 * 2 ^ 31"
  proof -
    have "of_int (2 ^ 40 + 1) \<le> (of_int k :: rat)" "of_int (k + 1) \<le> (of_int (1000 * 2 ^ 31) :: rat)"
      using assms by (simp_all only: of_int_le_iff)
    then show "2 ^ 40 + 1 \<le> (of_int k :: rat)" "(of_int k :: rat) + 1 \<le> 1000 * 2 ^ 31" by simp_all
  qed
  have p: "pow2 30 = 2 ^ 30" "pow2 31 = 2 ^ 31" "pow2 40 = 2 ^ 40" "pow2 41 = 2 ^ 41"
    "pow2 (- 22) = 1 / 2 ^ 22" "pow2 (- 12) = 1 / 2 ^ 12"
    by (simp_all add: pow2_def)
  have "ulp_exp ?x = 30 - 52" by (rule ulp_exp_eq) (use lo hi in \<open>simp_all add: p\<close>)
  then have "\<bar>fl ?x - ?x\<bar> \<le> 1 / 2 ^ 23" using fl_error_ulp [of ?x] lo p by simp
  then have d: "\<bar>fl ?x * 1000 - of_int k\<bar> \<le> 1000 / 2 ^ 23" by (simp add: abs_if field_simps split: if_splits)
  let ?y = "fl ?x * 1000"
  have b: "2 ^ 40 \<le> ?y" "?y < 2 ^ 41" using d lo hi by (simp_all add: abs_if split: if_splits)
  then have u: "ulp_exp ?y = - 12" using ulp_exp_eq [of 40 ?y] by (simp add: p)
  have "fl ?y = of_int (k * 4096) * pow2 (ulp_exp ?y)"
    by (rule fl_near) (use b d in \<open>simp_all add: u p abs_if split: if_splits\<close>)
  then have "fl ?y = of_int k" by (simp add: u p)
  then show ?thesis using assms by (simp add: truncate_rat_def)
qed

lemma time_to_ms_exact_witness: "time_to_ms (Datetime 1760000000123) = 1760000000123"
  by (rule time_to_ms_exact) simp_all

end
