(* ===== verification/Velocity_Op.thy ===== *)
theory Velocity_Op
  imports Wire
begin

text \<open>
  \<open>processing/operators/velocity.py\<close>: per-account counts and sums in one-minute buckets. The
  buckets are the Flink \<open>MapState\<close> of one account (an association list), amounts are Decimals by
  value: sums are exact, since the 28 digits of the default Decimal context exceed the 18 digits
  of the amounts by far. Timers and the dead-letter side output are part of the result of a step.
  The state time-to-live of 14 days of processing time is left to Flink.
\<close>

type_synonym buckets = "(int \<times> (nat \<times> rat)) list"

definition windows :: "(int \<times> string) list" where
  "windows = [(1, ''1m''), (5, ''5m''), (60, ''1h''), (1440, ''24h'')]"

definition retention_ms :: int where
  "retention_ms = (24 * 3600 + 41) * 1000"

definition idle_ttl_ms :: int where
  "idle_ttl_ms = 7 * 24 * 3600 * 1000"

definition no_watermark :: int where
  "no_watermark = - 9223372036854775808"

definition bucket_of :: "int \<Rightarrow> int" where
  "bucket_of event_time_ms = event_time_ms div 60000"

text \<open>The scan of one window: the loop over the buckets with its two accumulators.\<close>

fun scan_window :: "int \<Rightarrow> nat \<times> rat \<Rightarrow> buckets \<Rightarrow> nat \<times> rat" where
  "scan_window cutoff (count, tot) [] = (count, tot)"
| "scan_window cutoff (count, tot) ((bk, (c, a)) # bs) =
     scan_window cutoff (if bk \<ge> cutoff then (count + c, tot + a) else (count, tot)) bs"

definition compute_velocity :: "buckets \<Rightarrow> int \<Rightarrow> pydict" where
  "compute_velocity bs current_bucket =
     concat (map (\<lambda>(mins, label).
       let (count, tot) = scan_window (current_bucket - mins) (0, 0) bs
       in [(''vel_count_'' @ label, PInt (int count)), (''vel_amount_'' @ label, PDec (Fin tot))]) windows)"

definition add_to_bucket :: "buckets \<Rightarrow> int \<Rightarrow> rat \<Rightarrow> buckets" where
  "add_to_bucket bs bk amount =
     (let (c, a) = (case map_of bs bk of None \<Rightarrow> (0, 0) | Some e \<Rightarrow> e)
      in dset bs bk (c + 1, a + amount))"

text \<open>\<open>process_element_pure\<close>, of the Flink class and of the stand-in alike.\<close>

definition velocity_pure :: "int \<Rightarrow> rat \<Rightarrow> buckets \<Rightarrow> buckets \<times> pydict" where
  "velocity_pure event_time_ms amount bs =
     (let bk = bucket_of event_time_ms; bs' = add_to_bucket bs bk amount
      in (bs', compute_velocity bs' bk))"

datatype vmetric = VDlq | VLateBeyond | VLateWithin int

record velocity_step =
  vs_buckets :: buckets
  vs_output :: "(raw_transaction \<times> pydict) option"
  vs_dlq :: "dlq_record option"
  vs_timers :: "int list"
  vs_metrics :: "vmetric list"

definition velocity_process_element ::
  "dlq_context \<Rightarrow> int \<Rightarrow> int \<Rightarrow> int \<Rightarrow> raw_transaction \<Rightarrow> buckets \<Rightarrow> velocity_step" where
  "velocity_process_element cx allowed_lateness_ms event_time_ms current_watermark txn bs =
     (if current_watermark \<noteq> no_watermark \<and> event_time_ms < current_watermark - allowed_lateness_ms
      then \<lparr>vs_buckets = bs, vs_output = None,
            vs_dlq = Some (build_dlq_record cx ''txn.api'' 0 0 [] ''LATE_EVENT_BEYOND_ALLOWED_LATENESS''
              (''event_time='' @ show_int event_time_ms @ '' is '' @ show_int (current_watermark - event_time_ms) @
               ''ms behind watermark (allowed='' @ show_int allowed_lateness_ms @ ''ms)'')
              (Some (rt_transaction_id txn)) (Some current_watermark) (Some event_time_ms) 0),
            vs_timers = [], vs_metrics = [VDlq, VLateBeyond]\<rparr>
      else let bk = bucket_of event_time_ms;
               bs' = add_to_bucket bs bk (rt_amount txn)
           in \<lparr>vs_buckets = bs', vs_output = Some (txn, compute_velocity bs' bk), vs_dlq = None,
               vs_timers = [event_time_ms + retention_ms, event_time_ms + idle_ttl_ms],
               vs_metrics = (if current_watermark \<noteq> no_watermark \<and> event_time_ms < current_watermark
                             then [VLateWithin (current_watermark - event_time_ms)] else [])\<rparr>)"

text \<open>The timer removes the stale buckets, and clears what is then empty.\<close>

definition velocity_on_timer :: "int \<Rightarrow> buckets \<Rightarrow> buckets" where
  "velocity_on_timer timestamp bs =
     (let cutoff = (timestamp - retention_ms) div 60000;
          stale = filter (\<lambda>bk. bk < cutoff) (map fst bs);
          bs' = fold (\<lambda>bk b. AList.delete bk b) stale bs
      in if bs' = [] then [] else bs')"

section \<open>What the buckets hold\<close>

text \<open>The reference: the list of the events accepted so far, as pairs of time and amount.\<close>

definition in_window :: "int \<Rightarrow> int \<Rightarrow> int \<times> rat \<Rightarrow> bool" where
  "in_window now mins e \<longleftrightarrow> bucket_of now - mins \<le> bucket_of (fst e)"

definition window_count :: "int \<Rightarrow> int \<Rightarrow> (int \<times> rat) list \<Rightarrow> nat" where
  "window_count now mins es = length (filter (in_window now mins) es)"

definition window_amount :: "int \<Rightarrow> int \<Rightarrow> (int \<times> rat) list \<Rightarrow> rat" where
  "window_amount now mins es = sum_list (map snd (filter (in_window now mins) es))"

text \<open>The buckets that a list of events leaves.\<close>

definition buckets_of :: "(int \<times> rat) list \<Rightarrow> buckets" where
  "buckets_of es = fold (\<lambda>e bs. fst (velocity_pure (fst e) (snd e) bs)) es []"

definition above :: "int \<Rightarrow> buckets \<Rightarrow> nat \<times> rat" where
  "above cutoff bs =
     (sum_list (map (\<lambda>(bk, c, a). if bk \<ge> cutoff then c else 0) bs),
      sum_list (map (\<lambda>(bk, c, a). if bk \<ge> cutoff then a else 0) bs))"

lemma scan_window_above:
  "scan_window cutoff (n, t) bs = (n + fst (above cutoff bs), t + snd (above cutoff bs))"
  by (induction cutoff "(n, t)" bs arbitrary: n t rule: scan_window.induct) (auto simp: above_def)

lemma above_update:
  assumes "distinct (map fst bs)"
  shows "above cutoff (add_to_bucket bs bk amount) =
    (if bk \<ge> cutoff then (fst (above cutoff bs) + 1, snd (above cutoff bs) + amount) else above cutoff bs)"
  using assms
proof (induction bs)
  case Nil
  then show ?case by (simp add: add_to_bucket_def dset_def above_def)
next
  case (Cons b bs)
  obtain k c a where b: "b = (k, c, a)" by (cases b)
  show ?case
  proof (cases "k = bk")
    case True
    then show ?thesis using b by (simp add: add_to_bucket_def dset_def above_def)
  next
    case False
    then have "add_to_bucket (b # bs) bk amount = b # add_to_bucket bs bk amount"
      using b by (simp add: add_to_bucket_def dset_def Let_def split: prod.splits)
    then show ?thesis using Cons b by (auto simp: above_def split: if_splits)
  qed
qed

lemma distinct_add_to_bucket: "distinct (map fst bs) \<Longrightarrow> distinct (map fst (add_to_bucket bs bk amount))"
  by (simp add: add_to_bucket_def distinct_dset Let_def split: prod.splits)

lemma buckets_of_snoc:
  "buckets_of (es @ [e]) = add_to_bucket (buckets_of es) (bucket_of (fst e)) (snd e)"
  by (simp add: buckets_of_def velocity_pure_def Let_def)

lemma distinct_buckets_of: "distinct (map fst (buckets_of es))"
proof (induction es rule: rev_induct)
  case Nil
  then show ?case by (simp add: buckets_of_def)
qed (simp add: buckets_of_snoc distinct_add_to_bucket)

lemma above_buckets_of:
  "above cutoff (buckets_of es) =
     (length (filter (\<lambda>e. cutoff \<le> bucket_of (fst e)) es),
      sum_list (map snd (filter (\<lambda>e. cutoff \<le> bucket_of (fst e)) es)))"
proof (induction es rule: rev_induct)
  case Nil
  then show ?case by (simp add: buckets_of_def above_def)
next
  case (snoc e es)
  then show ?case by (simp add: buckets_of_snoc above_update distinct_buckets_of)
qed

lemma scan_buckets_of:
  "scan_window (bucket_of now - mins) (0, 0) (buckets_of es) = (window_count now mins es, window_amount now mins es)"
  by (simp add: scan_window_above above_buckets_of window_count_def window_amount_def in_window_def [abs_def])

text \<open>Removing buckets below a cutoff does not change a window that starts at or above it.\<close>

lemma fold_delete: "fold (\<lambda>bk b. AList.delete bk b) ks bs = filter (\<lambda>(k, v). k \<notin> set ks) bs"
  by (induction ks arbitrary: bs) (auto simp: AList.delete_eq filter_filter intro!: filter_cong)

lemma velocity_on_timer_filter:
  "velocity_on_timer ts bs = filter (\<lambda>(k, v). (ts - retention_ms) div 60000 \<le> k) bs"
  by (force simp: velocity_on_timer_def Let_def fold_delete intro!: filter_cong)

lemma above_filter:
  "c \<le> cutoff \<Longrightarrow> above cutoff (filter (\<lambda>(k, v). c \<le> k) bs) = above cutoff bs"
  by (induction bs) (auto simp: above_def)

lemma compute_velocity_cong:
  assumes "\<And>mins. mins \<le> 1440 \<Longrightarrow> above (bk - mins) bs = above (bk - mins) bs'"
  shows "compute_velocity bs bk = compute_velocity bs' bk"
  using assms by (simp add: compute_velocity_def windows_def scan_window_above)

section \<open>Properties\<close>

text \<open>C8: The velocity fields are what they say over the buckets: after any sequence of events of an
  account, each field of the last event is the number, or the exact sum, of the events whose
  minute is at most the window's number of minutes before the minute of that event.\<close>

theorem velocity_counts_window:
  "snd (velocity_pure t amount (buckets_of es)) =
     concat (map (\<lambda>(mins, label).
       [(''vel_count_'' @ label, PInt (int (window_count t mins (es @ [(t, amount)])))),
        (''vel_amount_'' @ label, PDec (Fin (window_amount t mins (es @ [(t, amount)]))))]) windows)"
proof -
  have "snd (velocity_pure t amount (buckets_of es)) =
      compute_velocity (buckets_of (es @ [(t, amount)])) (bucket_of t)"
    by (simp add: velocity_pure_def buckets_of_snoc Let_def)
  then show ?thesis by (simp add: compute_velocity_def scan_buckets_of case_prod_unfold)
qed

text \<open>A window of m minutes misses no event at most m minutes old and holds none that is m + 1
  minutes old or older, but its first bucket is a whole minute: an event up to a minute too old
  can be counted, so the one-minute window spans two buckets.\<close>

theorem window_span:
  "(t - fst e \<le> mins * 60000 \<longrightarrow> in_window t mins e) \<and>
   (in_window t mins e \<longrightarrow> t - fst e < (mins + 1) * 60000) \<and>
   in_window 119999 1 (0, amount)"
proof -
  have b: "bucket_of x * 60000 \<le> x" "x < (bucket_of x + 1) * 60000" for x
    using div_mult_mod_eq [of x 60000] pos_mod_sign [of 60000 x] pos_mod_bound [of 60000 x]
    unfolding bucket_of_def distrib_right by linarith+
  have "bucket_of t - mins \<le> bucket_of (fst e)" if "t - fst e \<le> mins * 60000"
  proof (rule ccontr)
    assume "\<not> bucket_of t - mins \<le> bucket_of (fst e)"
    then have "(bucket_of (fst e) + 1) * 60000 \<le> (bucket_of t - mins) * 60000" by (intro mult_right_mono) simp_all
    then show False using that b(1) [of t] b(2) [of "fst e"] by (simp add: left_diff_distrib)
  qed
  moreover have "t - fst e < (mins + 1) * 60000" if "bucket_of t - mins \<le> bucket_of (fst e)"
  proof -
    have "(bucket_of t - mins) * 60000 \<le> bucket_of (fst e) * 60000" using that by (intro mult_right_mono) simp_all
    then show ?thesis using b(2) [of t] b(1) [of "fst e"] by (simp add: algebra_simps)
  qed
  moreover have "in_window 119999 1 (0, amount)" by (simp add: in_window_def bucket_of_def)
  ultimately show ?thesis unfolding in_window_def by blast
qed

lemma window_span_witness: "in_window 90000 1 (30000, 5) \<and> in_window 119999 1 (0, 5)"
  using window_span [of 90000 "(30000, 5)" 1 5] by simp

text \<open>Eviction is invisible: for an allowed lateness of at most 41 seconds (the configured one is
  30), the retention timer of watermark ts removes only buckets that no event still acceptable
  after it can see, so every later velocity is the same as without eviction.\<close>

theorem eviction_invisible:
  assumes "allowed \<le> 41000" "ts - allowed \<le> t" "distinct (map fst bs)"
  shows "snd (velocity_pure t amount (velocity_on_timer ts bs)) = snd (velocity_pure t amount bs)"
proof -
  note that = assms(3)
  let ?c = "(ts - retention_ms) div 60000"
  have "?c \<le> (t - 1440 * 60000) div 60000"
    using assms by (intro zdiv_mono1) (simp_all add: retention_ms_def)
  also have "(t - 1440 * 60000) div 60000 = bucket_of t - 1440" by (simp add: bucket_of_def)
  finally have c: "?c \<le> bucket_of t - 1440" .
  have d: "distinct (map fst (filter (\<lambda>(k, v). ?c \<le> k) bs))"
    using that by (auto simp: distinct_map intro: inj_on_subset)
  show ?thesis
    unfolding velocity_pure_def Let_def velocity_on_timer_filter snd_conv
    by (rule compute_velocity_cong) (use c in \<open>simp add: above_update that d above_filter\<close>)
qed

lemma eviction_invisible_witness:
  "snd (velocity_pure 86450000 7 (velocity_on_timer 86441000 [(0, 1, 3)])) = snd (velocity_pure 86450000 7 [(0, 1, 3)])"
  by (rule eviction_invisible [of 30000]) simp_all

text \<open>Late events go one way or the other: an event more than the allowed lateness behind the
  watermark leaves the buckets alone, sets no timer and becomes a dead letter with its id, its time
  and the watermark; any other event is counted and never dead-lettered.\<close>

theorem late_event_routing:
  "(let s = velocity_process_element cx allowed t wm txn bs in
    if wm \<noteq> no_watermark \<and> t < wm - allowed
    then vs_buckets s = bs \<and> vs_output s = None \<and> vs_timers s = [] \<and>
      (case vs_dlq s of None \<Rightarrow> False
       | Some r \<Rightarrow> dl_transaction_id r = Some (rt_transaction_id txn) \<and>
           dl_watermark_at_rejection r = Some wm \<and> dl_event_time_at_rejection r = Some t)
    else vs_dlq s = None \<and> vs_buckets s = fst (velocity_pure t (rt_amount txn) bs) \<and>
      vs_output s = Some (txn, snd (velocity_pure t (rt_amount txn) bs)))"
  by (simp add: velocity_process_element_def velocity_pure_def build_dlq_record_def Let_def)

end
