(* ===== verification/Device_Op.thy ===== *)
theory Device_Op
  imports Velocity_Op
begin

text \<open>
  \<open>processing/operators/device.py\<close> and \<open>geolocation.py\<close>: the profile of a device, kept per API
  key in Flink's \<open>ValueState\<close>, and the cached GeoIP lookup. The reader of the GeoIP database
  (geoip2) is an argument. Event-time timers are part of the result of a step; the time-to-live
  of the state in processing time is left to Flink.
\<close>

section \<open>Device profiles\<close>

record device_profile =
  first_seen_ms :: int
  txn_count :: int
  known_fraud :: bool
  last_seen_ms :: int
  last_geo_country :: pyval

definition null_device_fields :: pydict where
  "null_device_fields =
     [(''device_first_seen'', PNone), (''device_txn_count'', PNone), (''device_known_fraud'', PNone),
      (''prev_geo_country'', PNone), (''prev_txn_time_ms'', PNone)]"

definition update_profile :: "int \<Rightarrow> pyval \<Rightarrow> device_profile option \<Rightarrow> device_profile" where
  "update_profile event_time_ms country current =
     (case current of
        None \<Rightarrow> \<lparr>first_seen_ms = event_time_ms, txn_count = 1, known_fraud = False,
                 last_seen_ms = event_time_ms, last_geo_country = country\<rparr>
      | Some p \<Rightarrow> \<lparr>first_seen_ms = first_seen_ms p, txn_count = txn_count p + 1,
                    known_fraud = known_fraud p, last_seen_ms = event_time_ms,
                    last_geo_country = country\<rparr>)"

definition device_fields :: "device_profile \<Rightarrow> device_profile option \<Rightarrow> pydict" where
  "device_fields updated current =
     [(''device_first_seen'', PInt (first_seen_ms updated)),
      (''device_txn_count'', PInt (txn_count updated)),
      (''device_known_fraud'', PBool (known_fraud updated)),
      (''prev_geo_country'', case current of None \<Rightarrow> PNone | Some p \<Rightarrow> last_geo_country p),
      (''prev_txn_time_ms'', case current of None \<Rightarrow> PNone | Some p \<Rightarrow> PInt (last_seen_ms p))]"

text \<open>One element: the new state of the key, the device fields and the timers registered.\<close>

definition device_process_element ::
  "int \<Rightarrow> raw_transaction \<Rightarrow> pydict \<Rightarrow> device_profile option \<Rightarrow> device_profile option \<times> pydict \<times> int list" where
  "device_process_element event_time_ms txn geo state =
     (if rt_api_key_id txn = [] then (state, null_device_fields, [])
      else let updated = update_profile event_time_ms (dget geo ''geo_country'') state
           in (Some updated, device_fields updated state, [event_time_ms + idle_ttl_ms]))"

definition device_on_timer :: "int \<Rightarrow> device_profile option \<Rightarrow> device_profile option" where
  "device_on_timer timestamp state = None"

text \<open>\<open>process_element_pure\<close>, the same in both classes: a dict of profiles and no country.\<close>

definition device_pure ::
  "string option \<Rightarrow> int \<Rightarrow> (string \<times> device_profile) list \<Rightarrow> (string \<times> device_profile) list \<times> pydict" where
  "device_pure api_key_id event_time_ms st =
     (if api_key_id = None \<or> api_key_id = Some [] then (st, null_device_fields)
      else let k = the api_key_id; current = map_of st k;
               updated = update_profile event_time_ms PNone current
           in (dset st k updated, device_fields updated current))"

section \<open>Geolocation\<close>

text \<open>\<open>'203.0.113.0/24'\<close> or \<open>'203.0.113.0'\<close> to \<open>'203.0.113.1'\<close>.\<close>

definition subnet_to_ip :: "string \<Rightarrow> string" where
  "subnet_to_ip subnet_str =
     (let host = hd (split_on CHR ''/'' subnet_str);
          parts = split_on CHR ''.'' host
      in join_with ''.'' (if length parts = 4 \<and> last parts = ''0'' then butlast parts @ [''1''] else parts))"

type_synonym geo_reader = "string \<Rightarrow> (pyval \<times> pyval) result"

definition do_lookup :: "geo_reader option \<Rightarrow> string \<Rightarrow> pydict" where
  "do_lookup reader subnet_str =
     (case (case reader of None \<Rightarrow> raise_exn ValueError ''GeoIP reader not initialised''
                         | Some city \<Rightarrow> city (subnet_to_ip subnet_str)) of
        Inr (country, city_name) \<Rightarrow>
          [(''geo_country'', country), (''geo_city'', city_name),
           (''geo_network_class'', PStr ''RESIDENTIAL''), (''geo_confidence'', PFloat (to_double (9/10)))]
      | Inl e \<Rightarrow>
          [(''geo_country'', PNone), (''geo_city'', PNone), (''geo_network_class'', PNone), (''geo_confidence'', PNone)])"

text \<open>Opening the database: a missing or unreadable file leaves no reader, any other error escapes.\<close>

definition geo_open :: "geo_reader result \<Rightarrow> geo_reader option result" where
  "geo_open r =
     (case r of
        Inr reader \<Rightarrow> Inr (Some reader)
      | Inl e \<Rightarrow> (if isinstance e FileNotFoundError \<or> isinstance e ValueError then Inr None else Inl e))"

text \<open>
  \<open>functools.lru_cache(maxsize=10_000)\<close> around the lookup: the entries, most recent first. A hit
  moves the entry to the front; a miss on a full cache drops the least recent one.
\<close>

definition cached_lookup ::
  "nat \<Rightarrow> geo_reader option \<Rightarrow> string \<Rightarrow> (string \<times> pydict) list \<Rightarrow> (string \<times> pydict) list \<times> pydict" where
  "cached_lookup maxsize reader k cache =
     (case map_of cache k of
        Some v \<Rightarrow> ((k, v) # AList.delete k cache, v)
      | None \<Rightarrow>
          (let v = do_lookup reader k
           in ((k, v) # (if length cache < maxsize then cache else butlast cache), v)))"

definition geo_map ::
  "geo_reader option \<Rightarrow> raw_transaction \<Rightarrow> (string \<times> pydict) list \<Rightarrow> (string \<times> pydict) list \<times> pydict" where
  "geo_map reader txn cache = cached_lookup 10000 reader (rt_caller_ip_subnet txn) cache"

section \<open>Lemmas\<close>

definition run_device :: "(int \<times> pydict) list \<Rightarrow> raw_transaction \<Rightarrow> device_profile option \<Rightarrow> device_profile option" where
  "run_device es txn st = fold (\<lambda>(t, geo) s. fst (device_process_element t txn geo s)) es st"

lemma run_device_snoc:
  "run_device (es @ [(t, geo)]) txn st = fst (device_process_element t txn geo (run_device es txn st))"
  by (simp add: run_device_def)

lemma run_device_profile:
  assumes "rt_api_key_id txn \<noteq> []" "es \<noteq> []"
  shows "run_device es txn None =
    Some \<lparr>first_seen_ms = fst (hd es), txn_count = int (length es), known_fraud = False,
          last_seen_ms = fst (last es), last_geo_country = dget (snd (last es)) ''geo_country''\<rparr>"
  using assms(2)
proof (induction es rule: rev_induct)
  case (snoc e es)
  obtain t geo where e: "e = (t, geo)" by fastforce
  show ?case
  proof (cases es)
    case Nil
    then show ?thesis
      using assms(1) by (simp add: e run_device_def device_process_element_def update_profile_def Let_def)
  next
    case (Cons a as)
    then have "es \<noteq> []" by simp
    with snoc.IH show ?thesis
      using assms(1) unfolding e run_device_snoc
      by (simp add: device_process_element_def update_profile_def Let_def hd_append)
  qed
qed simp

lemma do_lookup_network_class:
  "dget (do_lookup reader s) ''geo_network_class'' = PStr ''RESIDENTIAL'' \<or>
   dget (do_lookup reader s) ''geo_network_class'' = PNone"
  by (simp add: do_lookup_def dget_def split: sum.splits prod.splits)

text \<open>A cache is sound when each entry is what the lookup returns.\<close>

definition cache_ok :: "geo_reader option \<Rightarrow> (string \<times> pydict) list \<Rightarrow> bool" where
  "cache_ok reader cache \<longleftrightarrow> list_all (\<lambda>(k, v). v = do_lookup reader k) cache \<and> distinct (map fst cache)"

lemma cached_lookup_ok:
  assumes "cache_ok reader cache" "length cache \<le> n" "0 < n" "cached_lookup n reader k cache = (cache', v)"
  shows "v = do_lookup reader k \<and> cache_ok reader cache' \<and> length cache' \<le> n"
proof (cases "map_of cache k")
  case (Some w)
  then have w: "w = do_lookup reader k" "(k, w) \<in> set cache"
    using assms(1) by (auto simp: cache_ok_def list_all_iff dest: map_of_SomeD)
  have "set (AList.delete k cache) \<subseteq> set cache" by (auto simp: AList.delete_eq)
  moreover have "length (AList.delete k cache) < length cache"
    using w(2) unfolding AList.delete_eq by (intro length_filter_less) auto
  moreover have "distinct (map fst (AList.delete k cache))"
    using assms(1) by (simp add: cache_ok_def AList.distinct_delete)
  moreover have "k \<notin> fst ` set (AList.delete k cache)" by (auto simp: AList.delete_eq)
  ultimately show ?thesis
    using assms Some w by (auto simp: cached_lookup_def cache_ok_def list_all_iff)
next
  case None
  then have k: "k \<notin> fst ` set cache" by (simp add: map_of_eq_None_iff)
  have sub: "set (butlast cache) \<subseteq> set cache" by (auto dest: in_set_butlastD)
  moreover have "k \<notin> fst ` set (butlast cache)" using k sub by blast
  moreover have "distinct (map fst (butlast cache))"
    using assms(1) by (simp add: cache_ok_def map_butlast distinct_butlast)
  ultimately show ?thesis
    using assms None k by (auto simp: cached_lookup_def cache_ok_def list_all_iff Let_def split: if_splits)
qed

section \<open>Properties\<close>

text \<open>While no timer fires, the device fields of an event describe the whole history of the key:
  the count is the number of events, the first-seen time that of the first event, and the previous
  country and time those of the event just before.\<close>

theorem device_fields_history:
  assumes "rt_api_key_id txn \<noteq> []" "es \<noteq> []"
  shows "fst (snd (device_process_element t txn geo (run_device es txn None))) =
    [(''device_first_seen'', PInt (fst (hd es))),
     (''device_txn_count'', PInt (int (length es) + 1)),
     (''device_known_fraud'', PBool False),
     (''prev_geo_country'', dget (snd (last es)) ''geo_country''),
     (''prev_txn_time_ms'', PInt (fst (last es)))]"
  using assms
  by (simp add: run_device_profile device_process_element_def update_profile_def device_fields_def Let_def)

lemma device_fields_history_witness:
  "dget (fst (snd (device_process_element 9 sample_raw [] (run_device [(1, []), (5, [])] sample_raw None))))
     ''prev_txn_time_ms'' = PInt 5"
  by (subst device_fields_history) (simp_all add: sample_raw_def dget_def)

text \<open>The seven-day idle timer is not an idle timer. Each event registers a timer of its own and
  none is withdrawn, so the timer of the first event erases the profile although the device was
  seen later, and the next event is reported as the first of a new device.\<close>

theorem active_device_forgotten:
  assumes "rt_api_key_id txn \<noteq> []" "t1 < t2" "t2 < t1 + idle_ttl_ms"
  shows "(let (s1, f1, timers1) = device_process_element t1 txn geo1 None;
              (s2, f2, timers2) = device_process_element t2 txn geo2 s1;
              s3 = device_on_timer (hd timers1) s2;
              (s4, f4, timers4) = device_process_element t3 txn geo3 s3
          in hd timers1 = t1 + idle_ttl_ms \<and> hd timers1 - t2 < idle_ttl_ms \<and>
             dget f2 ''device_txn_count'' = PInt 2 \<and> dget f4 ''device_txn_count'' = PInt 1 \<and>
             dget f4 ''prev_geo_country'' = PNone)"
  using assms
  by (simp add: device_process_element_def update_profile_def device_fields_def device_on_timer_def dget_def Let_def)

lemma active_device_forgotten_witness:
  "\<exists>s3. dget (fst (snd (device_process_element 604800001 sample_raw [] s3))) ''device_txn_count'' = PInt 1 \<and>
     s3 = device_on_timer 604800000 (fst (device_process_element 604799999 sample_raw []
            (fst (device_process_element 0 sample_raw [] None))))"
  using active_device_forgotten [of sample_raw 0 604799999 "[]" "[]" 604800001 "[]"]
  by (simp add: sample_raw_def idle_ttl_ms_def Let_def device_on_timer_def split: prod.splits)

text \<open>The cache of the lookup is transparent and bounded: from a sound cache of at most 10000
  entries every call returns what the uncached lookup would, and leaves a sound cache of at most
  10000 entries.\<close>

theorem geo_cache_transparent:
  assumes "cache_ok reader cache" "length cache \<le> 10000" "geo_map reader txn cache = (cache', geo)"
  shows "geo = do_lookup reader (rt_caller_ip_subnet txn) \<and> cache_ok reader cache' \<and> length cache' \<le> 10000"
  using cached_lookup_ok [OF assms(1,2) _ assms(3) [unfolded geo_map_def]] by simp

lemma geo_cache_transparent_witness:
  "snd (geo_map (Some (\<lambda>_. Inr (PStr ''DE'', PNone))) sample_raw []) =
     do_lookup (Some (\<lambda>_. Inr (PStr ''DE'', PNone))) ''203.0.113.0''"
  using geo_cache_transparent [of "Some (\<lambda>_. Inr (PStr ''DE'', PNone))" "[]" sample_raw, OF _ _ surjective_pairing]
  by (simp add: cache_ok_def sample_raw_def)

end
