(* ===== verification/Enrich.thy ===== *)
theory Enrich
  imports Device_Op Evaluator
begin

text \<open>
  \<open>processing/operators/enricher.py\<close> and the topology of \<open>processing/job.py\<close>: deduplication, the
  assembly of the enriched record, and the chain deserialise, deduplicate, velocity, location,
  device, assemble. Flink's keyed state is a map per operator; the time-to-live of the
  deduplication state (48 hours of processing time, renewed on write only) is Flink's documented
  behaviour and part of the model, since the deduplication guarantee rests on it. Writing to the
  Iceberg sink is modelled in its own theory.
\<close>

section \<open>Deduplication\<close>

definition dedup_ttl_ms :: int where
  "dedup_ttl_ms = 48 * 3600 * 1000"

text \<open>The value of a key: the event time stored and the processing time it was written at.\<close>

type_synonym seen = "(int \<times> int) option"

definition seen_value :: "int \<Rightarrow> seen \<Rightarrow> int option" where
  "seen_value proc_now s =
     (case s of None \<Rightarrow> None | Some (v, written) \<Rightarrow> if proc_now < written + dedup_ttl_ms then Some v else None)"

text \<open>\<open>process_element\<close>: the new state of the key and whether the transaction is passed on.\<close>

definition dedup_process_element :: "int \<Rightarrow> int \<Rightarrow> seen \<Rightarrow> seen \<times> bool" where
  "dedup_process_element event_time proc_now s =
     (if seen_value proc_now s \<noteq> None then (s, False) else (Some (event_time, proc_now), True))"

definition dedup_pure :: "string \<Rightarrow> int \<Rightarrow> (string \<times> int) list \<Rightarrow> (string \<times> int) list \<times> bool" where
  "dedup_pure txn_id event_time_ms st =
     (if has_key st txn_id then (st, False) else (dset st txn_id event_time_ms, True))"

section \<open>Assembling the record\<close>

text \<open>\<open>velocity_dict\<close> is indexed, the other dicts are read with \<open>get\<close>.\<close>

definition assemble_record ::
  "string \<Rightarrow> raw_transaction \<Rightarrow> pydict \<Rightarrow> pydict \<Rightarrow> pydict \<Rightarrow> int \<Rightarrow> int \<Rightarrow> pydict result" where
  "assemble_record processor_version txn velocity geo device enrichment_time enrichment_latency_ms =
     rbind (rmap (\<lambda>k. rbind (dsub velocity k) (\<lambda>v. Inr (k, v)))
              [''vel_count_1m'', ''vel_amount_1m'', ''vel_count_5m'', ''vel_amount_5m'',
               ''vel_count_1h'', ''vel_amount_1h'', ''vel_count_24h'', ''vel_amount_24h'']) (\<lambda>vel.
     Inr ([(''transaction_id'', PStr (rt_transaction_id txn)),
           (''account_id'', PStr (rt_account_id txn)),
           (''merchant_id'', PStr (rt_merchant_id txn)),
           (''amount'', PDec (Fin (rt_amount txn))),
           (''currency'', PStr (rt_currency txn)),
           (''event_time'', PInt (rt_event_time txn)),
           (''processing_time'', PInt (rt_processing_time txn)),
           (''channel'', PStr (rt_channel txn)),
           (''card_bin'', PStr (rt_card_bin txn)),
           (''card_last4'', PStr (rt_card_last4 txn)),
           (''caller_ip_subnet'', PStr (rt_caller_ip_subnet txn)),
           (''api_key_id'', PStr (rt_api_key_id txn)),
           (''oauth_scope'', PStr (rt_oauth_scope txn)),
           (''geo_lat'', case rt_geo_lat txn of None \<Rightarrow> PNone | Some f \<Rightarrow> PFloat f),
           (''geo_lon'', case rt_geo_lon txn of None \<Rightarrow> PNone | Some f \<Rightarrow> PFloat f),
           (''masking_lib_version'', PStr (rt_masking_lib_version txn))] @ vel @
          [(''geo_country'', dget geo ''geo_country''),
           (''geo_city'', dget geo ''geo_city''),
           (''geo_network_class'', dget geo ''geo_network_class''),
           (''geo_confidence'', dget geo ''geo_confidence''),
           (''device_first_seen'', dget device ''device_first_seen''),
           (''device_txn_count'', dget device ''device_txn_count''),
           (''device_known_fraud'', dget device ''device_known_fraud''),
           (''prev_geo_country'', dget device ''prev_geo_country''),
           (''prev_txn_time_ms'', dget device ''prev_txn_time_ms''),
           (''device_is_new'', PBool (py_eq (py_or (dget device ''device_txn_count'') (PInt 0)) (PInt 1))),
           (''txn_amount'', PDec (Fin (rt_amount txn))),
           (''enrichment_time'', PInt enrichment_time),
           (''enrichment_latency_ms'', PInt enrichment_latency_ms),
           (''processor_version'', PStr processor_version),
           (''schema_version'', PStr ''1'')]))"

definition assembler_flat_map ::
  "string \<Rightarrow> int \<Rightarrow> raw_transaction \<Rightarrow> pydict \<Rightarrow> pydict \<Rightarrow> pydict \<Rightarrow> pydict result" where
  "assembler_flat_map processor_version now_ms txn velocity geo device =
     assemble_record processor_version txn velocity geo device now_ms (max 0 (now_ms - rt_processing_time txn))"

section \<open>The chain of operators\<close>

text \<open>
  What Flink supplies with an element: its event timestamp, the watermark, the processing time
  and the wall clock.
\<close>

record element_context =
  ec_timestamp :: int
  ec_watermark :: int
  ec_proc_now :: int
  ec_wall_ms :: int
  ec_dlq :: dlq_context

record pipeline_state =
  ps_seen :: "(string \<times> (int \<times> int)) list"
  ps_velocity :: "(string \<times> buckets) list"
  ps_geo_cache :: "(string \<times> pydict) list"
  ps_device :: "(string \<times> device_profile) list"

definition pipeline_init :: pipeline_state where
  "pipeline_init = \<lparr>ps_seen = [], ps_velocity = [], ps_geo_cache = [], ps_device = []\<rparr>"

datatype pipeline_output =
    Duplicate
  | Late dlq_record
  | Enriched pydict
  | Failed exn

definition put_opt :: "('k \<times> 'v) list \<Rightarrow> 'k \<Rightarrow> 'v option \<Rightarrow> ('k \<times> 'v) list" where
  "put_opt m k v = (case v of None \<Rightarrow> AList.delete k m | Some x \<Rightarrow> dset m k x)"

text \<open>Location, device and assembly, which follow the velocity operator.\<close>

definition enrich_tail ::
  "string \<Rightarrow> geo_reader option \<Rightarrow> element_context \<Rightarrow> raw_transaction \<Rightarrow> pydict \<Rightarrow> pipeline_state \<Rightarrow>
     pipeline_state \<times> pipeline_output" where
  "enrich_tail processor_version reader ec txn velocity s =
     (let (cache, geo) = geo_map reader txn (ps_geo_cache s);
          dkey = (if rt_api_key_id txn = [] then ''__no_device__'' else rt_api_key_id txn);
          (profile, device, timers) =
            device_process_element (ec_timestamp ec) txn geo (map_of (ps_device s) dkey);
          s' = s\<lparr>ps_geo_cache := cache, ps_device := put_opt (ps_device s) dkey profile\<rparr>
      in case assembler_flat_map processor_version (ec_wall_ms ec) txn velocity geo device of
           Inr rec \<Rightarrow> (s', Enriched rec)
         | Inl e \<Rightarrow> (s', Failed e))"

definition pipeline_step ::
  "string \<Rightarrow> int \<Rightarrow> geo_reader option \<Rightarrow> element_context \<Rightarrow> raw_transaction \<Rightarrow> pipeline_state \<Rightarrow>
     pipeline_state \<times> pipeline_output" where
  "pipeline_step processor_version allowed reader ec txn s =
     (let (seen, fresh) = dedup_process_element (ec_timestamp ec) (ec_proc_now ec) (map_of (ps_seen s) (rt_transaction_id txn));
          s1 = s\<lparr>ps_seen := put_opt (ps_seen s) (rt_transaction_id txn) seen\<rparr>
      in if \<not> fresh then (s1, Duplicate)
         else let bs = (case map_of (ps_velocity s) (rt_account_id txn) of None \<Rightarrow> [] | Some b \<Rightarrow> b);
                  vs = velocity_process_element (ec_dlq ec) allowed (ec_timestamp ec) (ec_watermark ec) txn bs;
                  s2 = s1\<lparr>ps_velocity := dset (ps_velocity s1) (rt_account_id txn) (vs_buckets vs)\<rparr>
              in case vs_output vs of
                   None \<Rightarrow> (s1, Late (the (vs_dlq vs)))
                 | Some (txn', velocity) \<Rightarrow> enrich_tail processor_version reader ec txn' velocity s2)"

text \<open>
  \<open>deserialise_with_dlq\<close>: a payload that does not deserialise yields nothing. The dead-letter
  record is built (second component) but no statement sends it anywhere.
\<close>

definition deserialise_with_dlq ::
  "avro_reader \<Rightarrow> dlq_context \<Rightarrow> string \<Rightarrow> 8 word list \<Rightarrow> raw_transaction list \<times> dlq_record option" where
  "deserialise_with_dlq reader cx input_topic payload =
     (case deserialise_raw_transaction reader None payload of
        Inr txn \<Rightarrow> ([txn], None)
      | Inl e \<Rightarrow> ([], Some (build_dlq_record cx input_topic 0 0 payload ''SCHEMA_VALIDATION_ERROR'' (exn_msg e)
                             None None None 0)))"

section \<open>Lemmas\<close>

text \<open>The velocity operator always supplies the eight fields, so assembling never fails.\<close>

lemma compute_velocity_keys:
  "map fst (compute_velocity bs bk) =
     [''vel_count_1m'', ''vel_amount_1m'', ''vel_count_5m'', ''vel_amount_5m'',
      ''vel_count_1h'', ''vel_amount_1h'', ''vel_count_24h'', ''vel_amount_24h'']"
  by (simp add: compute_velocity_def windows_def case_prod_unfold Let_def)

lemma assemble_record_Inr:
  "\<exists>rec. assemble_record v txn (compute_velocity bs bk) geo device et el = Inr rec \<and>
     \<not> has_key rec ''txn_time_ms'' \<and> \<not> has_key rec ''device_count_24h'' \<and>
     dget rec ''geo_network_class'' = dget geo ''geo_network_class'' \<and> length rec = 39 \<and>
     dget rec ''transaction_id'' = PStr (rt_transaction_id txn)"
  by (simp add: assemble_record_def compute_velocity_def windows_def case_prod_unfold Let_def dsub_def has_key_def dget_def)

text \<open>
  The runs of the deduplication of one transaction id: at each step an element arrives at a
  processing time not before the previous one and is passed on or dropped.
\<close>

inductive dedup_run :: "(int \<times> bool) list \<Rightarrow> seen \<Rightarrow> bool" where
  start: "dedup_run [] None"
| arrive: "dedup_run tr s \<Longrightarrow> tr = [] \<or> fst (last tr) \<le> now \<Longrightarrow>
     dedup_process_element event_time now s = (s', passed) \<Longrightarrow> dedup_run (tr @ [(now, passed)]) s'"

inductive_cases dedup_run_snocE: "dedup_run (tr @ [x]) s"

definition passed_times :: "(int \<times> bool) list \<Rightarrow> int list" where
  "passed_times tr = map fst (filter snd tr)"

text \<open>The state records the last element passed on, and the passed ones are a lifetime apart.\<close>

lemma dedup_run_invariant:
  "dedup_run tr s \<Longrightarrow>
     sorted_wrt (\<lambda>a b. a + dedup_ttl_ms \<le> b) (passed_times tr) \<and>
     (case s of None \<Rightarrow> passed_times tr = []
      | Some (v, w) \<Rightarrow> passed_times tr \<noteq> [] \<and> w = last (passed_times tr) \<and> (\<forall>a \<in> set (passed_times tr). a \<le> w))"
proof (induction rule: dedup_run.induct)
  case start
  then show ?case by (simp add: passed_times_def)
next
  case (arrive tr s now event_time s' passed)
  show ?case
  proof (cases "seen_value now s")
    case (Some v)
    then have "s' = s" "\<not> passed" using arrive.hyps(3) by (auto simp: dedup_process_element_def)
    then show ?thesis using arrive.IH by (simp add: passed_times_def split: option.splits prod.splits)
  next
    case None
    then have s': "s' = Some (event_time, now)" "passed" using arrive.hyps(3) by (auto simp: dedup_process_element_def)
    have old: "a + dedup_ttl_ms \<le> now" if "a \<in> set (passed_times tr)" for a
    proof (cases s)
      case (Some vw)
      then show ?thesis using None arrive.IH that by (fastforce simp: seen_value_def split: prod.splits if_splits)
    qed (use arrive.IH that in simp)
    then show ?thesis
      using arrive.IH s' by (force simp: passed_times_def sorted_wrt_append dedup_ttl_ms_def)
  qed
qed

lemma map_of_vel_missing: "\<not> has_key rec k \<Longrightarrow> dget rec k = PNone"
  by (rule dget_None_iff)

text \<open>After the velocity operator the record is always assembled, with the looked-up location.\<close>

lemma enrich_tail_enriched:
  "\<exists>s' rec device et el. enrich_tail v reader ec txn (compute_velocity bs bk) s = (s', Enriched rec) \<and>
     assemble_record v txn (compute_velocity bs bk) (snd (geo_map reader txn (ps_geo_cache s))) device et el = Inr rec"
proof -
  obtain cache geo where g: "geo_map reader txn (ps_geo_cache s) = (cache, geo)" by fastforce
  define dkey where "dkey = (if rt_api_key_id txn = [] then ''__no_device__'' else rt_api_key_id txn)"
  obtain profile device timers where
    d: "device_process_element (ec_timestamp ec) txn geo (map_of (ps_device s) dkey) = (profile, device, timers)"
    using prod_cases3 by blast
  obtain rec where "assembler_flat_map v (ec_wall_ms ec) txn (compute_velocity bs bk) geo device = Inr rec"
    using assemble_record_Inr unfolding assembler_flat_map_def by blast
  then show ?thesis
    by (auto simp: enrich_tail_def g d dkey_def [symmetric] assembler_flat_map_def Let_def)
qed

lemma pipeline_step_cases:
  obtains (duplicate) "seen_value (ec_proc_now ec) (map_of (ps_seen s) (rt_transaction_id txn)) \<noteq> None"
      "snd (pipeline_step v allowed reader ec txn s) = Duplicate"
  | (late) r where "ec_timestamp ec < ec_watermark ec - allowed" "dl_transaction_id r = Some (rt_transaction_id txn)"
      "snd (pipeline_step v allowed reader ec txn s) = Late r"
  | (enriched) rec bs bk device et el where "snd (pipeline_step v allowed reader ec txn s) = Enriched rec"
      "assemble_record v txn (compute_velocity bs bk) (snd (geo_map reader txn (ps_geo_cache s))) device et el = Inr rec"
proof (cases "seen_value (ec_proc_now ec) (map_of (ps_seen s) (rt_transaction_id txn))")
  case (Some x)
  then show ?thesis by (intro duplicate) (simp_all add: pipeline_step_def dedup_process_element_def)
next
  case None
  define bs where "bs = (case map_of (ps_velocity s) (rt_account_id txn) of None \<Rightarrow> [] | Some b \<Rightarrow> b)"
  show ?thesis
  proof (cases "ec_watermark ec \<noteq> no_watermark \<and> ec_timestamp ec < ec_watermark ec - allowed")
    case True
    then show ?thesis
      using None by (intro late [of "the (vs_dlq (velocity_process_element (ec_dlq ec) allowed (ec_timestamp ec) (ec_watermark ec) txn bs))"])
        (simp_all add: pipeline_step_def dedup_process_element_def velocity_process_element_def
          build_dlq_record_def bs_def [symmetric] Let_def)
  next
    case False
    let ?bk = "bucket_of (ec_timestamp ec)"
    let ?bs = "add_to_bucket bs ?bk (rt_amount txn)"
    define s2 where "s2 = s\<lparr>ps_seen := put_opt (ps_seen s) (rt_transaction_id txn) (Some (ec_timestamp ec, ec_proc_now ec)),
      ps_velocity := dset (ps_velocity s) (rt_account_id txn) ?bs\<rparr>"
    have step: "pipeline_step v allowed reader ec txn s = enrich_tail v reader ec txn (compute_velocity ?bs ?bk) s2"
      using None False by (auto simp: pipeline_step_def dedup_process_element_def velocity_process_element_def
          bs_def [symmetric] s2_def Let_def)
    have "ps_geo_cache s2 = ps_geo_cache s" by (simp add: s2_def)
    with enrich_tail_enriched [of v reader ec txn ?bs ?bk s2] show ?thesis
      unfolding step [symmetric] using enriched by auto
  qed
qed

lemma pipeline_step_enriched:
  assumes "pipeline_step v allowed reader ec txn s = (s', Enriched rec)"
  obtains bs bk device et el where
    "assemble_record v txn (compute_velocity bs bk) (snd (geo_map reader txn (ps_geo_cache s))) device et el = Inr rec"
  by (cases rule: pipeline_step_cases [of ec s txn v allowed reader]) (use assms in auto)

section \<open>Properties\<close>

text \<open>C7: Deduplication holds for its 48 hours: in every run, with processing time that does not go
  back, any two arrivals of one transaction id that are both passed on are at least 48 hours apart.\<close>

theorem dedup_no_duplicate_within_ttl:
  assumes "dedup_run tr s"
  shows "sorted_wrt (\<lambda>a b. a + dedup_ttl_ms \<le> b) (passed_times tr)"
  using dedup_run_invariant [OF assms] by simp

lemma dedup_no_duplicate_within_ttl_witness:
  "\<exists>tr s. dedup_run tr s \<and> tr = [(0, True), (5, False)] \<and> sorted_wrt (\<lambda>a b. a + dedup_ttl_ms \<le> b) (passed_times tr)"
proof -
  have "dedup_run ([] @ [(0, True)]) (Some (3, 0))"
    by (rule dedup_run.arrive [OF dedup_run.start, of 0 3]) (simp_all add: dedup_process_element_def seen_value_def)
  then have "dedup_run (([] @ [(0, True)]) @ [(5, False)]) (Some (3, 0))"
    by (rule dedup_run.arrive [where event_time = 4])
      (simp_all add: dedup_process_element_def seen_value_def dedup_ttl_ms_def)
  from dedup_no_duplicate_within_ttl [OF this] this show ?thesis by auto
qed

text \<open>C5: One step of the chain has exactly one of three outcomes and never fails: the transaction is dropped, and
  then its id was seen within the lifetime of the state; or it is put out as a late record (the side output
  that the job never reads) with its own id, and then its time is below the watermark by more than the allowed
  lateness; or it is enriched to a record of 39 fields with its own id (a comment and a test say 40).
  Assembling never fails, because the velocity operator supplies all eight fields it indexes.\<close>

theorem pipeline_step_outcome:
  "(case snd (pipeline_step v allowed reader ec txn s) of
      Duplicate \<Rightarrow> seen_value (ec_proc_now ec) (map_of (ps_seen s) (rt_transaction_id txn)) \<noteq> None
    | Late r \<Rightarrow> dl_transaction_id r = Some (rt_transaction_id txn) \<and> ec_timestamp ec < ec_watermark ec - allowed
    | Enriched rec \<Rightarrow> dget rec ''transaction_id'' = PStr (rt_transaction_id txn) \<and> length rec = 39
    | Failed e \<Rightarrow> False)"
proof (cases rule: pipeline_step_cases [of ec s txn v allowed reader])
  case (enriched rec bs bk device et el)
  then show ?thesis
    using assemble_record_Inr [of v txn bs bk "snd (geo_map reader txn (ps_geo_cache s))" device et el] by auto
qed simp_all

text \<open>The impossible-travel rules never fire in production. The family reads txn_time_ms, which no
  enriched record has, so for every record the chain emits, every rule of the family, whatever its
  conditions, evaluates to false.\<close>

theorem impossible_travel_never_fires:
  assumes "pipeline_step v allowed reader ec txn s = (s', Enriched rec)"
  shows "family_dispatch ImpossibleTravel rec conds = Inr False"
proof -
  obtain bs bk geo device et el where "assemble_record v txn (compute_velocity bs bk) geo device et el = Inr rec"
    using pipeline_step_enriched [OF assms] by metis
  then have "\<not> has_key rec ''txn_time_ms''"
    using assemble_record_Inr [of v txn bs bk geo device et el] by auto
  then show ?thesis by (simp add: family_dispatch.simps evaluate_impossible_travel_def map_of_vel_missing Let_def)
qed

definition idle_context :: element_context where
  "idle_context = \<lparr>ec_timestamp = 1000, ec_watermark = no_watermark, ec_proc_now = 2000, ec_wall_ms = 2000,
     ec_dlq = \<lparr>dx_uuid = ''u'', dx_now_ms = 2000, dx_host = ''h''\<rparr>\<rparr>"

lemma sample_enriched:
  "\<exists>s' rec. pipeline_step ''v'' 30000 (Some (\<lambda>_. Inr (PStr ''DE'', PStr ''Berlin''))) idle_context sample_raw pipeline_init =
     (s', Enriched rec)"
proof -
  let ?r = "pipeline_step ''v'' 30000 (Some (\<lambda>_. Inr (PStr ''DE'', PStr ''Berlin''))) idle_context sample_raw pipeline_init"
  have "case snd ?r of Enriched rec \<Rightarrow> True | _ \<Rightarrow> False" by code_simp
  then show ?thesis by (cases ?r) (auto split: pipeline_output.splits)
qed

lemma impossible_travel_never_fires_witness:
  "\<exists>s' rec. pipeline_step ''v'' 30000 (Some (\<lambda>_. Inr (PStr ''DE'', PStr ''Berlin''))) idle_context sample_raw pipeline_init =
     (s', Enriched rec) \<and> family_dispatch ImpossibleTravel rec [(''window_ms'', PInt 3600000)] = Inr False"
  using sample_enriched impossible_travel_never_fires by blast

text \<open>Two of the four new-device rules cannot fire either: no enriched record has the device count
  of the last day, and its network class is RESIDENTIAL or absent, so a rule on device_count and a
  rule on any other network class evaluate to false on every record the chain emits, provided the
  location cache holds only results of the lookup.\<close>

theorem new_device_rules_dead:
  assumes "pipeline_step v allowed reader ec txn s = (s', Enriched rec)" "\<not> has_key conds ''amount''"
    and "cache_ok reader (ps_geo_cache s)" "length (ps_geo_cache s) \<le> 10000"
    and "has_key conds ''device_count'' \<or> (\<exists>c. map_of conds ''network_class'' = Some (PStr c) \<and> c \<noteq> ''RESIDENTIAL'')"
  shows "family_dispatch NewDevice rec conds = Inr False"
proof -
  obtain cache geo where g: "cached_lookup 10000 reader (rt_caller_ip_subnet txn) (ps_geo_cache s) = (cache, geo)"
    by fastforce
  then obtain bs bk device et el where a: "assemble_record v txn (compute_velocity bs bk) geo device et el = Inr rec"
    using pipeline_step_enriched [OF assms(1)] unfolding geo_map_def by (metis snd_conv)
  have r: "\<not> has_key rec ''device_count_24h''" "dget rec ''geo_network_class'' = dget geo ''geo_network_class''"
    using a assemble_record_Inr [of v txn bs bk geo device et el] by auto
  have "geo = do_lookup reader (rt_caller_ip_subnet txn)"
    using cached_lookup_ok [OF assms(3,4) _ g] by simp
  then have c: "dget rec ''geo_network_class'' = PStr ''RESIDENTIAL'' \<or> dget rec ''geo_network_class'' = PNone"
    using r(2) do_lookup_network_class [of reader "rt_caller_ip_subnet txn"] by simp
  show ?thesis
    using assms(2,5) r(1) c
    by (auto simp: family_dispatch.simps evaluate_new_device_def evaluate_nd002_def evaluate_nd004_def
        map_of_vel_missing dsub_def has_key_def Let_def)
qed

lemma new_device_rules_dead_witness:
  "\<exists>s' rec. pipeline_step ''v'' 30000 (Some (\<lambda>_. Inr (PStr ''DE'', PStr ''Berlin''))) idle_context sample_raw pipeline_init =
     (s', Enriched rec) \<and> family_dispatch NewDevice rec [(''network_class'', PStr ''HOSTING'')] = Inr False"
proof -
  obtain s' rec where e: "pipeline_step ''v'' 30000 (Some (\<lambda>_. Inr (PStr ''DE'', PStr ''Berlin''))) idle_context sample_raw pipeline_init =
     (s', Enriched rec)"
    using sample_enriched by blast
  have "family_dispatch NewDevice rec [(''network_class'', PStr ''HOSTING'')] = Inr False"
    by (rule new_device_rules_dead [OF e]) (simp_all add: has_key_def pipeline_init_def cache_ok_def)
  with e show ?thesis by blast
qed

end
