(* ===== verification/Sink_Base.thy ===== *)
theory Sink_Base
  imports Py_Parse Config
begin

text \<open>
  \<open>pipelines/shared/iceberg_sink_base.py\<close> and what the Iceberg sinks have in common: the state
  of a sink, the deduplication of its buffer, the dead letters and the life cycle
  append-or-flush. The catalog, \<open>pyarrow\<close>, the thread pool and \<open>pybreaker\<close> are not under
  \<open>src/\<close>: what they do during one flush is the argument \<open>flush_env\<close>, arbitrary in every
  theorem. The dead-letter queue of these sinks is a log line; \<open>dlq\<close> is the list of the events
  logged. Ordinary log lines and spans are not modelled. Every component that drives a sink
  relies on the interface \<open>buffered_sink\<close>, which each sink is shown to provide.
\<close>

section \<open>State\<close>

datatype sink_metric =
    Buffer_overflow | Catalog_unavailable | Flush_duration | Feast_push_failure
  | Materialization_lag rat

record dlq_event =
  ev_transaction_id :: pyval
  ev_reason :: string
  ev_batch_size :: nat

text \<open>A table is what has landed in it, row by row, each with its cells in schema order.\<close>

record sink =
  buffer :: "pydict list"
  last_flush_time_sec :: rat
  table_loaded :: bool
  breaker_ready :: bool
  written :: "pyval list list"
  dlq :: "dlq_event list"
  metrics :: "sink_metric list"

text \<open>
  What happens outside during one flush: the reading of \<open>time.time()\<close>, whether \<open>pyarrow\<close>
  accepts the columns, and how \<open>breaker.call(table.append, pa_table)\<close> ends. An append that
  raises, or whose result is not there after five seconds (a \<open>TimeoutError\<close>), may still have
  landed: leaving the \<open>with\<close> block waits for the thread.
\<close>

datatype append_result = Appended | Append_raised exn bool

record flush_env =
  env_now :: rat
  env_arrow :: "pyval list list \<Rightarrow> exn option"
  env_append :: append_result

definition append_rows :: "'e flush_env_scheme \<Rightarrow> pyval list list \<Rightarrow> 'a sink_scheme \<Rightarrow> 'a sink_scheme \<times> exn option" where
  "append_rows e rows s =
     (case env_append e of
        Appended \<Rightarrow> (s\<lparr>written := written s @ rows\<rparr>, None)
      | Append_raised x landed \<Rightarrow>
          (if landed then s\<lparr>written := written s @ rows\<rparr> else s, Some x))"

definition count_metric :: "sink_metric \<Rightarrow> 'a sink_scheme \<Rightarrow> 'a sink_scheme" where
  "count_metric m s = s\<lparr>metrics := metrics s @ [m]\<rparr>"

text \<open>\<open>now - last >= 1.0\<close> in floating point.\<close>

definition second_elapsed :: "rat \<Rightarrow> 'a sink_scheme \<Rightarrow> bool" where
  "second_elapsed now s \<longleftrightarrow> 1 \<le> fl (now - last_flush_time_sec s)"

section \<open>Deduplication\<close>

abbreviation tid_key :: string where
  "tid_key \<equiv> ''transaction_id''"

fun dedup_loop :: "pyval list \<Rightarrow> pydict list \<Rightarrow> pydict list result" where
  "dedup_loop seen [] = Inr []"
| "dedup_loop seen (r # rs) =
     (let k = dget_or r tid_key (PStr []) in
      if \<not> hashable k then raise_exn TypeError ''unhashable type''
      else if list_ex (\<lambda>x. py_eq x k) seen then dedup_loop seen rs
      else rbind (dedup_loop (seen @ [k]) rs) (\<lambda>ds. Inr (r # ds)))"

definition deduplicate :: "pydict list \<Rightarrow> pydict list result" where
  "deduplicate rs = dedup_loop [] rs"

definition first_txn_id :: "pydict list \<Rightarrow> pyval" where
  "first_txn_id ds = (case ds of [] \<Rightarrow> PStr ''unknown'' | d # _ \<Rightarrow> dget_or d tid_key (PStr ''unknown''))"

section \<open>Dead letters\<close>

text \<open>The event is written by \<open>json.dumps\<close>, which refuses bytes and decimals.\<close>

fun json_ok :: "pyval \<Rightarrow> bool" where
  "json_ok (PBytes b) = False"
| "json_ok (PDec d) = False"
| "json_ok (PList xs) = list_all json_ok xs"
| "json_ok (PDict d) = list_all (\<lambda>(k, v). json_ok v) d"
| "json_ok _ = True"

definition emit_dlq :: "string \<Rightarrow> pyval \<Rightarrow> nat \<Rightarrow> 'a sink_scheme \<Rightarrow> 'a sink_scheme \<times> exn option" where
  "emit_dlq reason t n s =
     (if json_ok t
      then (s\<lparr>dlq := dlq s @ [\<lparr>ev_transaction_id = t, ev_reason = reason, ev_batch_size = n\<rparr>]\<rparr>, None)
      else (s, Some (Exn TypeError ''Object is not JSON serializable'')))"

definition classify_flush_error :: "exn \<Rightarrow> string" where
  "classify_flush_error x =
     (if isinstance x TimeoutError then ''timeout''
      else if isinstance x CircuitBreakerError then ''circuit_open''
      else if isinstance x ConnectionError \<or> isinstance x OSError then ''catalog_unavailable''
      else ''flush_error'')"

section \<open>The base sink\<close>

text \<open>
  The hooks of the subclass: \<open>to_table\<close> is \<open>_records_to_arrow_table\<close>, \<open>after\<close> the exception
  \<open>_after_flush_success\<close> raises, if any. The calls of the other hooks are recorded as metrics.
\<close>

definition base_open :: "bool \<Rightarrow> bool \<Rightarrow> sink \<Rightarrow> sink" where
  "base_open catalog_ok breaker_ok s = s\<lparr>table_loaded := catalog_ok, breaker_ready := breaker_ok\<rparr>"

definition base_init :: "rat \<Rightarrow> sink" where
  "base_init now = \<lparr>buffer = [], last_flush_time_sec = now, table_loaded = False, breaker_ready = False,
     written = [], dlq = [], metrics = []\<rparr>"

definition base_write ::
  "(pydict list \<Rightarrow> pyval list list result) \<Rightarrow> (pydict list \<Rightarrow> exn option) \<Rightarrow> flush_env \<Rightarrow> pydict list \<Rightarrow>
   sink \<Rightarrow> sink \<times> exn option" where
  "base_write to_table after e ds s =
     (if \<not> table_loaded s then (s, None)
      else case to_table ds of
        Inl x \<Rightarrow> (s, Some x)
      | Inr rows \<Rightarrow>
          (case env_arrow e rows of
             Some x \<Rightarrow> (s, Some x)
           | None \<Rightarrow>
               (case append_rows e rows s of
                  (s', Some x) \<Rightarrow> (s', Some x)
                | (s', None) \<Rightarrow> (s', after ds))))"

definition base_on_error :: "exn \<Rightarrow> pydict list \<Rightarrow> sink \<Rightarrow> sink \<times> exn option" where
  "base_on_error x ds s =
     (let reason = classify_flush_error x;
          s1 = (if reason = ''catalog_unavailable'' then count_metric Catalog_unavailable s else s)
      in emit_dlq reason (first_txn_id ds) (length ds) s1)"

definition base_finally :: "nat \<Rightarrow> sink \<Rightarrow> sink" where
  "base_finally buffer_max s =
     (let s1 = count_metric Flush_duration s;
          s2 = (if buffer_max \<le> length (buffer s1) then count_metric Buffer_overflow s1 else s1)
      in s2\<lparr>buffer := []\<rparr>)"

definition base_flush ::
  "nat \<Rightarrow> (pydict list \<Rightarrow> pyval list list result) \<Rightarrow> (pydict list \<Rightarrow> exn option) \<Rightarrow> flush_env \<Rightarrow> sink \<Rightarrow>
   sink \<times> exn option" where
  "base_flush buffer_max to_table after e s =
     (if buffer s = [] then (s, None)
      else let s1 = s\<lparr>last_flush_time_sec := env_now e\<rparr> in
        case deduplicate (buffer s1) of
          Inl x \<Rightarrow> (s1, Some x)
        | Inr ds \<Rightarrow>
            (let (s3, r) = (case base_write to_table after e ds s1 of
                              (s2, None) \<Rightarrow> (s2, None)
                            | (s2, Some x) \<Rightarrow> base_on_error x ds s2)
             in (base_finally buffer_max s3, r)))"

text \<open>
  \<open>invoke\<close>: a flush by time before the record is appended, one by size after it; an exception
  of either ends the call and is swallowed. The sinks share the shape of this method, so it is
  stated once for any \<open>flush\<close>; the environments of the two flushes are \<open>fst es\<close> and \<open>snd es\<close>.
\<close>

definition flush_then_append ::
  "nat \<Rightarrow> ('e flush_env_scheme \<Rightarrow> 'a sink_scheme \<Rightarrow> 'a sink_scheme \<times> exn option) \<Rightarrow> 'e flush_env_scheme \<times> 'e flush_env_scheme \<Rightarrow>
   'a sink_scheme \<Rightarrow> pydict \<Rightarrow> 'a sink_scheme" where
  "flush_then_append buffer_max flush es s value =
     (case (if second_elapsed (env_now (fst es)) s then flush (fst es) s else (s, None)) of
        (s1, Some x) \<Rightarrow> s1
      | (s1, None) \<Rightarrow>
          (let s2 = s1\<lparr>buffer := buffer s1 @ [value]\<rparr> in
           if buffer_max \<le> length (buffer s2) then fst (flush (snd es) s2) else s2))"

definition base_invoke ::
  "nat \<Rightarrow> (pydict list \<Rightarrow> pyval list list result) \<Rightarrow> (pydict list \<Rightarrow> exn option) \<Rightarrow> flush_env \<times> flush_env \<Rightarrow>
   sink \<Rightarrow> pydict \<Rightarrow> sink" where
  "base_invoke buffer_max to_table after = flush_then_append buffer_max (base_flush buffer_max to_table after)"

definition base_close ::
  "nat \<Rightarrow> (pydict list \<Rightarrow> pyval list list result) \<Rightarrow> (pydict list \<Rightarrow> exn option) \<Rightarrow> flush_env \<Rightarrow> sink \<Rightarrow>
   sink \<times> exn option" where
  "base_close buffer_max to_table after e s = base_flush buffer_max to_table after e s"

section \<open>Deduplication, against a reference\<close>

definition string_id :: "pydict \<Rightarrow> bool" where
  "string_id r \<longleftrightarrow> (\<exists>t. dget_or r tid_key (PStr []) = PStr t)"

abbreviation rec_key :: "pydict \<Rightarrow> pyval" where
  "rec_key r \<equiv> dget_or r tid_key (PStr [])"

lemma dedup_loop_keep_first:
  "list_all string_id rs \<Longrightarrow> \<forall>k\<in>set seen. \<exists>t. k = PStr t \<Longrightarrow>
   dedup_loop seen rs = Inr (keep_first rec_key (set seen) rs)"
proof (induction rs arbitrary: seen)
  case (Cons r rs)
  obtain t where t: "rec_key r = PStr t" using Cons.prems(1) by (auto simp: string_id_def)
  have mem: "list_ex (\<lambda>x. py_eq x (PStr t)) seen \<longleftrightarrow> PStr t \<in> set seen"
  proof -
    have "\<forall>x\<in>set seen. py_eq x (PStr t) \<longleftrightarrow> x = PStr t" using Cons.prems(2) by fastforce
    then show ?thesis by (auto simp: list_ex_iff)
  qed
  show ?case
  proof (cases "PStr t \<in> set seen")
    case True
    then show ?thesis using Cons t mem by simp
  next
    case False
    then show ?thesis using Cons.prems Cons.IH [of "seen @ [PStr t]"] t mem by simp
  qed
qed simp

lemma deduplicate_eq: "list_all string_id rs \<Longrightarrow> deduplicate rs = Inr (keep_first rec_key {} rs)"
  using dedup_loop_keep_first [of rs "[]"] by (simp add: deduplicate_def)

lemma first_txn_id_string: "list_all string_id ds \<Longrightarrow> \<exists>t. first_txn_id ds = PStr t"
  by (cases ds) (auto simp: first_txn_id_def string_id_def dget_or_def split: option.splits)

lemma keep_first_set: "set (keep_first key seen xs) \<subseteq> set xs"
  by (induction key seen xs rule: keep_first.induct) auto

lemma keep_first_string_id:
  "list_all string_id rs \<Longrightarrow> list_all string_id (keep_first rec_key {} rs)"
  using keep_first_set [of rec_key "{}" rs] by (auto simp: list_all_iff)

section \<open>The interface of a sink\<close>

text \<open>
  What a sink has accounted for: the rows that landed in its table and the records its dead
  letters count.
\<close>

definition accounted :: "'a sink_scheme \<Rightarrow> nat" where
  "accounted s = length (written s) + sum_list (map ev_batch_size (dlq s))"

locale buffered_sink =
  fixes invoke :: "'e \<Rightarrow> 's \<Rightarrow> 'a \<Rightarrow> 's"
    and close :: "'e \<Rightarrow> 's \<Rightarrow> 's"
    and buf :: "'s \<Rightarrow> 'a list"
    and acc :: "'s \<Rightarrow> nat"
    and key :: "'a \<Rightarrow> 'k"
    and ok :: "'a \<Rightarrow> bool"
    and writable :: "'s \<Rightarrow> bool"
    and limit :: nat
  assumes limit_pos: "0 < limit"
    and invoke_buf: "list_all ok (buf s) \<Longrightarrow> ok v \<Longrightarrow> length (buf s) < limit \<Longrightarrow>
      length (buf (invoke e s v)) < limit \<and>
      (buf (invoke e s v) = [] \<or> buf (invoke e s v) = [v] \<or> buf (invoke e s v) = buf s @ [v])"
    and invoke_writable: "writable s \<Longrightarrow> writable (invoke e s v)"
    and invoke_acc: "writable s \<Longrightarrow> list_all ok (buf s) \<Longrightarrow> ok v \<Longrightarrow> distinct (map key (buf s @ [v])) \<Longrightarrow>
      acc s + length (buf s) + 1 \<le> acc (invoke e s v) + length (buf (invoke e s v))"
    and close_buf: "list_all ok (buf s) \<Longrightarrow> buf (close e s) = []"
    and close_acc: "writable s \<Longrightarrow> list_all ok (buf s) \<Longrightarrow> distinct (map key (buf s)) \<Longrightarrow>
      acc s + length (buf s) \<le> acc (close e s)"
begin

lemma run_bounded:
  "list_all ok (buf s) \<Longrightarrow> list_all (\<lambda>(e, v). ok v) evs \<Longrightarrow> length (buf s) < limit \<Longrightarrow>
   length (buf (fold (\<lambda>(e, v) s. invoke e s v) evs s)) < limit \<and>
   list_all ok (buf (fold (\<lambda>(e, v) s. invoke e s v) evs s))"
proof (induction evs arbitrary: s)
  case (Cons ev evs)
  obtain e v where ev: "ev = (e, v)" by force
  have "list_all ok (buf (invoke e s v))" "length (buf (invoke e s v)) < limit"
    using invoke_buf [of s v e] Cons.prems ev by auto
  then show ?case using Cons ev by simp
qed simp

lemma run_accounted:
  "writable s \<Longrightarrow> list_all ok (buf s) \<Longrightarrow> list_all (\<lambda>(e, v). ok v) evs \<Longrightarrow> length (buf s) < limit \<Longrightarrow>
   distinct (map key (buf s @ map snd evs)) \<Longrightarrow>
   acc s + length (buf s) + length evs
     \<le> acc (close f (fold (\<lambda>(e, v) s. invoke e s v) evs s))"
proof (induction evs arbitrary: s)
  case Nil
  then show ?case using close_acc [of s f] by simp
next
  case (Cons ev evs)
  obtain e v where ev: "ev = (e, v)" by force
  let ?s = "invoke e s v"
  have b: "length (buf ?s) < limit" "buf ?s = [] \<or> buf ?s = [v] \<or> buf ?s = buf s @ [v]"
    using invoke_buf [of s v e] Cons.prems ev by auto
  have a: "acc s + length (buf s) + 1 \<le> acc ?s + length (buf ?s)"
    using invoke_acc [of s v e] Cons.prems ev by auto
  have ok: "list_all ok (buf ?s)" using b(2) Cons.prems ev by auto
  define K where "K = map key (map snd evs)"
  have "distinct (map key (buf s) @ key v # K)" using Cons.prems(5) ev by (simp add: K_def)
  then have "distinct (map key (buf ?s) @ K)" using b(2) by (elim disjE) simp_all
  then have "distinct (map key (buf ?s @ map snd evs))" by (simp add: K_def)
  with Cons.IH [of ?s] a b(1) ok Cons.prems ev invoke_writable [of s e v] show ?case by simp
qed

end

section \<open>The base sink provides it\<close>

lemma accounted_simps [effect_simps]:
  "accounted (s\<lparr>last_flush_time_sec := t\<rparr>) = accounted s"
  "accounted (s\<lparr>buffer := b\<rparr>) = accounted s"
  "accounted (count_metric m s) = accounted s"
  "buffer (count_metric m s) = buffer s"
  "table_loaded (count_metric m s) = table_loaded s"
  "written (count_metric m s) = written s"
  "dlq (count_metric m s) = dlq s"
  by (simp_all add: accounted_def count_metric_def)

lemma emit_dlq_string:
  "t = PStr x \<Longrightarrow> emit_dlq reason t n s =
     (s\<lparr>dlq := dlq s @ [\<lparr>ev_transaction_id = t, ev_reason = reason, ev_batch_size = n\<rparr>]\<rparr>, None)"
  by (simp add: emit_dlq_def)

lemma emit_dlq_effect:
  assumes "\<exists>x. t = PStr x" "emit_dlq reason t n s = (s', r)"
  shows "r = None" "buffer s' = buffer s" "table_loaded s' = table_loaded s" "written s' = written s"
    "accounted s' = accounted s + n"
  using assms by (auto simp: emit_dlq_string accounted_def)

lemma append_rows_effect:
  assumes "append_rows e rows s = (s', r)"
  shows "buffer s' = buffer s" "table_loaded s' = table_loaded s" "dlq s' = dlq s"
    "accounted s \<le> accounted s'" "r = None \<Longrightarrow> accounted s' = accounted s + length rows"
    "written s' = written s \<or> written s' = written s @ rows" "r = None \<Longrightarrow> written s' = written s @ rows"
  using assms by (auto simp: append_rows_def accounted_def split: append_result.splits if_splits)

lemma base_on_error_effect:
  assumes "list_all string_id ds" "base_on_error x ds s = (s', r)"
  shows "r = None" "buffer s' = buffer s" "table_loaded s' = table_loaded s" "written s' = written s"
    "accounted s' = accounted s + length ds"
  using emit_dlq_effect [OF first_txn_id_string [OF assms(1)], of "classify_flush_error x" "length ds" _ s' r] assms(2)
  by (auto simp: base_on_error_def Let_def effect_simps split: if_splits)

lemma base_finally_effect [effect_simps]:
  "buffer (base_finally m s) = []" "table_loaded (base_finally m s) = table_loaded s"
  "accounted (base_finally m s) = accounted s" "written (base_finally m s) = written s"
  "dlq (base_finally m s) = dlq s"
  by (simp_all add: base_finally_def Let_def effect_simps count_metric_def accounted_def)

text \<open>
  Every flush of the sinks satisfies one law, from which both forms of \<open>invoke\<close> provide the
  interface: the one above, and the one of a stand-in, which appends the record first.
\<close>

definition append_then_flush ::
  "nat \<Rightarrow> ('e flush_env_scheme \<Rightarrow> 'a sink_scheme \<Rightarrow> 'a sink_scheme \<times> exn option) \<Rightarrow> 'e flush_env_scheme \<times> 'e flush_env_scheme \<Rightarrow>
   'a sink_scheme \<Rightarrow> pydict \<Rightarrow> 'a sink_scheme" where
  "append_then_flush buffer_max flush es s value =
     (let s1 = s\<lparr>buffer := buffer s @ [value]\<rparr> in
      case (if second_elapsed (env_now (fst es)) s1 then flush (fst es) s1 else (s1, None)) of
        (s2, Some x) \<Rightarrow> s2
      | (s2, None) \<Rightarrow> if buffer_max \<le> length (buffer s2) then fst (flush (snd es) s2) else s2)"

locale flushable =
  fixes flush :: "'e flush_env_scheme \<Rightarrow> 'a sink_scheme \<Rightarrow> 'a sink_scheme \<times> exn option"
    and writable :: "'a sink_scheme \<Rightarrow> bool"
    and buffer_max :: nat
  assumes buffer_max_pos: "0 < buffer_max"
    and flush_law: "list_all string_id (buffer s) \<Longrightarrow>
      snd (flush e s) = None \<and> buffer (fst (flush e s)) = []"
    and flush_writable: "writable s \<Longrightarrow> writable (fst (flush e s))"
    and flush_accounts: "writable s \<Longrightarrow> list_all string_id (buffer s) \<Longrightarrow>
      accounted s + length (keep_first rec_key {} (buffer s)) \<le> accounted (fst (flush e s))"
    and writable_buffer: "writable (s\<lparr>buffer := b\<rparr>) = writable s"
begin

lemma flush_cases:
  assumes "list_all string_id (buffer s)"
  obtains s' where "flush e s = (s', None)" "buffer s' = []" "writable s \<Longrightarrow> writable s'"
    "writable s \<Longrightarrow> distinct (map rec_key (buffer s)) \<Longrightarrow> accounted s + length (buffer s) \<le> accounted s'"
proof -
  obtain s' r where f: "flush e s = (s', r)" by force
  have "accounted s + length (buffer s) \<le> accounted s'" if "writable s" "distinct (map rec_key (buffer s))"
    using flush_accounts [OF that(1) assms, of e] keep_first_id [OF that(2), of "{}"] f by simp
  with f show thesis using that [of s'] flush_law [OF assms, of e] flush_writable [of s e] by simp
qed

lemma flush_then_append_cases:
  assumes "list_all string_id (buffer s)" "string_id v" "length (buffer s) < buffer_max"
  shows "length (buffer (flush_then_append buffer_max flush es s v)) < buffer_max \<and>
      (buffer (flush_then_append buffer_max flush es s v) = [] \<or>
       buffer (flush_then_append buffer_max flush es s v) = [v] \<or>
       buffer (flush_then_append buffer_max flush es s v) = buffer s @ [v])"
proof -
  obtain s1 where s1: "(if second_elapsed (env_now (fst es)) s then flush (fst es) s else (s, None)) = (s1, None)"
      "buffer s1 = [] \<or> buffer s1 = buffer s"
    using flush_cases [OF assms(1), of "fst es"] by (metis (full_types))
  let ?s2 = "s1\<lparr>buffer := buffer s1 @ [v]\<rparr>"
  have "list_all string_id (buffer ?s2)" using s1 assms by auto
  then obtain s3 where "flush (snd es) ?s2 = (s3, None)" "buffer s3 = []" by (rule flush_cases)
  with s1 assms show ?thesis by (auto simp: flush_then_append_def Let_def)
qed

lemma flush_then_append_accounts:
  assumes "writable s" "list_all string_id (buffer s)" "string_id v" "distinct (map rec_key (buffer s @ [v]))"
  shows "accounted s + length (buffer s) + 1 \<le>
    accounted (flush_then_append buffer_max flush es s v) + length (buffer (flush_then_append buffer_max flush es s v))"
proof -
  obtain s1 where s1: "(if second_elapsed (env_now (fst es)) s then flush (fst es) s else (s, None)) = (s1, None)"
      "buffer s1 = [] \<and> accounted s + length (buffer s) \<le> accounted s1 \<or> s1 = s" "writable s1"
  proof (cases "second_elapsed (env_now (fst es)) s")
    case True
    have d: "distinct (map rec_key (buffer s))" using assms(4) by simp
    show thesis by (rule flush_cases [OF assms(2), of "fst es"], rule that) (use True assms(1) d in auto)
  next
    case False
    with assms(1) show thesis by (intro that [of s]) auto
  qed
  let ?s2 = "s1\<lparr>buffer := buffer s1 @ [v]\<rparr>"
  have ok: "list_all string_id (buffer ?s2)" "distinct (map rec_key (buffer ?s2))" using s1 assms by auto
  have acc: "accounted s + length (buffer s) + 1 \<le> accounted ?s2 + length (buffer ?s2)"
    using s1(2) by (auto simp: effect_simps)
  have w: "writable ?s2" using s1(3) by (simp add: writable_buffer)
  obtain s3 where s3: "flush (snd es) ?s2 = (s3, None)" "buffer s3 = []" "writable s3"
      "accounted ?s2 + length (buffer ?s2) \<le> accounted s3"
    using flush_cases [OF ok(1), of "snd es"] w ok(2) by metis
  show ?thesis
    using s1(1) s3 acc by (auto simp: flush_then_append_def Let_def)
qed

lemma flush_then_append_writable: "writable s \<Longrightarrow> writable (flush_then_append buffer_max flush es s v)"
  using flush_writable [of s "fst es"] flush_writable [of "fst (flush (fst es) s)\<lparr>buffer := buffer (fst (flush (fst es) s)) @ [v]\<rparr>" "snd es"]
    flush_writable [of "s\<lparr>buffer := buffer s @ [v]\<rparr>" "snd es"]
  by (auto simp: flush_then_append_def Let_def writable_buffer split: prod.splits option.splits)

lemma append_then_flush_cases:
  assumes "list_all string_id (buffer s)" "string_id v" "length (buffer s) < buffer_max"
  shows "length (buffer (append_then_flush buffer_max flush es s v)) < buffer_max \<and>
      (buffer (append_then_flush buffer_max flush es s v) = [] \<or>
       buffer (append_then_flush buffer_max flush es s v) = buffer s @ [v])"
proof -
  let ?s1 = "s\<lparr>buffer := buffer s @ [v]\<rparr>"
  have ok: "list_all string_id (buffer ?s1)" using assms by simp
  obtain s2 where s2: "flush (fst es) ?s1 = (s2, None)" "buffer s2 = []" by (rule flush_cases [OF ok])
  obtain s3 where s3: "flush (snd es) ?s1 = (s3, None)" "buffer s3 = []" by (rule flush_cases [OF ok])
  obtain s4 where "flush (snd es) s2 = (s4, None)" "buffer s4 = []"
    by (rule flush_cases [of s2]) (use s2 in auto)
  with s2 s3 show ?thesis using assms buffer_max_pos by (auto simp: append_then_flush_def Let_def)
qed

lemma append_then_flush_accounts:
  assumes "writable s" "list_all string_id (buffer s)" "string_id v" "distinct (map rec_key (buffer s @ [v]))"
  shows "accounted s + length (buffer s) + 1 \<le>
    accounted (append_then_flush buffer_max flush es s v) + length (buffer (append_then_flush buffer_max flush es s v))"
proof -
  let ?s1 = "s\<lparr>buffer := buffer s @ [v]\<rparr>"
  have ok: "list_all string_id (buffer ?s1)" "distinct (map rec_key (buffer ?s1))" "writable ?s1"
    using assms by (auto simp: writable_buffer)
  obtain s2 where s2: "flush (fst es) ?s1 = (s2, None)" "buffer s2 = []" "writable s2"
      "accounted ?s1 + length (buffer ?s1) \<le> accounted s2"
    by (rule flush_cases [OF ok(1), of "fst es"]) (use ok in auto)
  obtain s3 where s3: "flush (snd es) ?s1 = (s3, None)" "accounted ?s1 + length (buffer ?s1) \<le> accounted s3"
    by (rule flush_cases [OF ok(1), of "snd es"]) (use ok in auto)
  obtain s4 where "flush (snd es) s2 = (s4, None)" "accounted s2 \<le> accounted s4"
    by (rule flush_cases [of s2 "snd es"]) (use s2 in auto)
  with s2 s3 show ?thesis by (auto simp: append_then_flush_def Let_def effect_simps)
qed

lemma append_then_flush_writable: "writable s \<Longrightarrow> writable (append_then_flush buffer_max flush es s v)"
proof -
  let ?s1 = "s\<lparr>buffer := buffer s @ [v]\<rparr>"
  assume "writable s"
  then have "writable ?s1" by (simp add: writable_buffer)
  then show ?thesis
    using flush_writable [of ?s1 "fst es"] flush_writable [of ?s1 "snd es"]
      flush_writable [of "fst (flush (fst es) ?s1)" "snd es"]
    by (auto simp: append_then_flush_def Let_def split: prod.splits option.splits)
qed

end

sublocale flushable \<subseteq> timely: buffered_sink "flush_then_append buffer_max flush" "\<lambda>es s. fst (flush (fst es) s)"
  buffer accounted rec_key string_id writable buffer_max
proof unfold_locales
  fix s and es :: "'e flush_env_scheme \<times> 'e flush_env_scheme"
  assume "writable s" "list_all string_id (buffer s)" "distinct (map rec_key (buffer s))"
  then show "accounted s + length (buffer s) \<le> accounted (fst (flush (fst es) s))"
    using flush_cases [of s "fst es"] by (metis fst_conv)
qed (use buffer_max_pos flush_then_append_cases flush_then_append_writable flush_then_append_accounts flush_law in auto)

sublocale flushable \<subseteq> eager: buffered_sink "append_then_flush buffer_max flush" "\<lambda>es s. fst (flush (fst es) s)"
  buffer accounted rec_key string_id writable buffer_max
proof unfold_locales
  fix s and es :: "'e flush_env_scheme \<times> 'e flush_env_scheme"
  assume "writable s" "list_all string_id (buffer s)" "distinct (map rec_key (buffer s))"
  then show "accounted s + length (buffer s) \<le> accounted (fst (flush (fst es) s))"
    using flush_cases [of s "fst es"] by (metis fst_conv)
qed (use buffer_max_pos append_then_flush_cases append_then_flush_writable append_then_flush_accounts flush_law in auto)

locale record_table =
  fixes to_table :: "pydict list \<Rightarrow> pyval list list result"
    and after :: "pydict list \<Rightarrow> exn option"
    and buffer_max :: nat
  assumes to_table_length: "to_table ds = Inr rows \<Longrightarrow> length rows = length ds"
    and buffer_max_pos: "0 < buffer_max"
begin

lemma base_write_effect:
  assumes "base_write to_table after e ds s = (s', r)"
  shows "buffer s' = buffer s" "table_loaded s' = table_loaded s" "accounted s \<le> accounted s'"
    "table_loaded s \<Longrightarrow> r = None \<Longrightarrow> accounted s' = accounted s + length ds"
  using assms to_table_length [of ds]
  by (auto simp: base_write_def split: if_splits sum.splits option.splits prod.splits
      dest: append_rows_effect)

lemma base_flush_effect:
  assumes "list_all string_id (buffer s)" and "base_flush buffer_max to_table after e s = (s', r)"
  shows "r = None" "buffer s' = []" "table_loaded s' = table_loaded s" "accounted s \<le> accounted s'"
    "table_loaded s \<Longrightarrow> accounted s + length (keep_first rec_key {} (buffer s)) \<le> accounted s'"
proof -
  let ?ds = "keep_first rec_key {} (buffer s)"
  let ?s1 = "s\<lparr>last_flush_time_sec := env_now e\<rparr>"
  have ok: "list_all string_id ?ds" using keep_first_string_id [OF assms(1)] .
  obtain s2 w where w: "base_write to_table after e ?ds ?s1 = (s2, w)" by force
  note we = base_write_effect [OF w]
  have "r = None \<and> buffer s' = [] \<and> table_loaded s' = table_loaded s \<and> accounted s \<le> accounted s' \<and>
    (table_loaded s \<longrightarrow> accounted s + length ?ds \<le> accounted s')"
  proof (cases "buffer s = []")
    case True
    then show ?thesis using assms(2) by (simp add: base_flush_def)
  next
    case False
    show ?thesis
    proof (cases w)
      case None
      then show ?thesis using assms False w we deduplicate_eq [OF assms(1)]
        by (auto simp: base_flush_def effect_simps)
    next
      case (Some x)
      obtain s3 r3 where "base_on_error x ?ds s2 = (s3, r3)" by force
      with Some show ?thesis using assms False w we deduplicate_eq [OF assms(1)]
          base_on_error_effect [OF ok, of x s2 s3 r3]
        by (auto simp: base_flush_def effect_simps)
    qed
  qed
  then show "r = None" "buffer s' = []" "table_loaded s' = table_loaded s" "accounted s \<le> accounted s'"
    "table_loaded s \<Longrightarrow> accounted s + length ?ds \<le> accounted s'" by blast+
qed

end

sublocale record_table \<subseteq> base: flushable "base_flush buffer_max to_table after" table_loaded buffer_max
proof unfold_locales
  fix s :: sink and e
  obtain s' r where f: "base_flush buffer_max to_table after e s = (s', r)" by force
  show "table_loaded s \<Longrightarrow> table_loaded (fst (base_flush buffer_max to_table after e s))"
    by (auto simp: base_flush_def Let_def effect_simps base_on_error_def emit_dlq_def
        dest!: base_write_effect(2) split: sum.splits prod.splits option.splits if_splits)
  assume "list_all string_id (buffer s)"
  note b = base_flush_effect [OF this f]
  show "snd (base_flush buffer_max to_table after e s) = None \<and> buffer (fst (base_flush buffer_max to_table after e s)) = []"
    using b f by simp
  show "table_loaded s \<Longrightarrow> accounted s + length (keep_first rec_key {} (buffer s))
      \<le> accounted (fst (base_flush buffer_max to_table after e s))"
    using b f by simp
qed (simp_all add: buffer_max_pos)

section \<open>What the base class drops\<close>

text \<open>The base class of the sinks drops silently: when its table could not be loaded, a flush of
  a buffer empties it, but nothing is written and no dead letter is logged, against the documented
  rule that a failed batch goes to the dead letters.\<close>

theorem base_sink_drops_silently:
  assumes "\<not> table_loaded s" "list_all string_id (buffer s)"
  shows "buffer (fst (base_flush buffer_max to_table after e s)) = []
    \<and> written (fst (base_flush buffer_max to_table after e s)) = written s
    \<and> dlq (fst (base_flush buffer_max to_table after e s)) = dlq s"
proof (cases "buffer s = []")
  case False
  then show ?thesis using assms deduplicate_eq [OF assms(2)]
    by (simp add: base_flush_def base_write_def Let_def effect_simps)
qed (simp add: base_flush_def)

lemma base_sink_drops_silently_witness:
  "dlq (fst (base_flush 100 (\<lambda>ds. Inr (map (map snd) ds)) (\<lambda>ds. None)
      \<lparr>env_now = 1, env_arrow = (\<lambda>rows. None), env_append = Appended\<rparr>
      ((base_open False True (base_init 0))\<lparr>buffer := [[(tid_key, PStr ''t1'')]]\<rparr>))) = []"
proof -
  let ?s = "(base_open False True (base_init 0))\<lparr>buffer := [[(tid_key, PStr ''t1'')]]\<rparr>"
  have "\<not> table_loaded ?s" "list_all string_id (buffer ?s)" "dlq ?s = []"
    by (simp_all add: base_open_def base_init_def string_id_def dget_or_def)
  with base_sink_drops_silently [of ?s] show ?thesis by metis
qed

end
