(* ===== verification/Metric_Decls.thy ===== *)
theory Metric_Decls
  imports Pyval
begin

text \<open>
  The metrics the services declare, module by module: \<open>scoring/metrics.py\<close>, \<open>scoring/telemetry.py\<close>,
  the two \<open>circuit_breaker.py\<close>, \<open>processing/metrics.py\<close>, \<open>kafka_metrics_bridge.py\<close>,
  \<open>ingestion/api/metrics.py\<close> and \<open>analytics/consumers/metrics.py\<close>. A declaration is the variable it is
  bound to, the name given to Prometheus, the kind, the label names and the bounds of the buckets; the
  help texts are left out. What Prometheus makes of a declaration is not defined here.
\<close>

section \<open>Declarations\<close>

datatype metric_kind = Counter | Gauge | Histogram

record metric_decl =
  md_var :: string
  md_name :: string
  md_kind :: metric_kind
  md_labels :: "string list"
  md_buckets :: "rat list"

text \<open>A metric bound to a variable of its own name.\<close>

definition decl :: "metric_kind \<Rightarrow> string \<Rightarrow> string list \<Rightarrow> metric_decl" where
  "decl kind name labels = \<lparr>md_var = name, md_name = name, md_kind = kind, md_labels = labels, md_buckets = []\<rparr>"

definition histogram :: "string \<Rightarrow> rat list \<Rightarrow> string list \<Rightarrow> metric_decl" where
  "histogram name bounds labels =
     \<lparr>md_var = name, md_name = name, md_kind = Histogram, md_labels = labels, md_buckets = bounds\<rparr>"

definition scoring_metrics :: "metric_decl list" where
  "scoring_metrics =
     [decl Counter ''feature_store_fallback_total'' [''reason''],
      decl Counter ''feature_store_miss_total'' [],
      histogram ''feature_store_retrieval_seconds''
        [1/1000, 2/1000, 3/1000, 5/1000, 1/100, 5/100, 1/10, 25/100, 5/10, 1] [],
      decl Gauge ''feature_materialization_lag_ms'' [],
      decl Counter ''rule_evaluations_total'' [''rule_id'', ''rule_family''],
      decl Counter ''rule_flags_total'' [''rule_id'', ''rule_family'', ''severity''],
      decl Counter ''rule_shadow_triggers_total'' [''rule_id'', ''mode''],
      decl Counter ''rule_shadow_fp_total'' [''rule_id''],
      decl Counter ''rule_triggers_total'' [''rule_id''],
      decl Counter ''rule_active_fp_total'' [''rule_id''],
      decl Counter ''iceberg_decisions_buffer_overflow_total'' [],
      decl Counter ''iceberg_decisions_catalog_unavailable_total'' [],
      decl Counter ''evaluation_errors_total'' []]"

definition telemetry_metrics :: "metric_decl list" where
  "telemetry_metrics = [decl Gauge ''trace_sampling_rate'' [''decision_type'']]"

definition ml_breaker_metrics :: "metric_decl list" where
  "ml_breaker_metrics =
     [decl Gauge ''ml_circuit_breaker_state'' [''state''], decl Counter ''ml_circuit_open_calls_total'' []]"

definition iceberg_breaker_metrics :: "metric_decl list" where
  "iceberg_breaker_metrics =
     [decl Gauge ''iceberg_circuit_breaker_state'' [''state''], decl Counter ''iceberg_circuit_breaker_open_total'' []]"

definition processing_metrics :: "metric_decl list" where
  "processing_metrics =
     [histogram ''enrichment_latency_ms'' [1, 5, 10, 20, 50, 100, 250, 500] [],
      decl Counter ''dlq_events_total'' [''error_type''],
      decl Gauge ''consumer_lag_records'' [],
      decl Gauge ''last_checkpoint_duration_ms'' [],
      decl Counter ''dedup_skipped_total'' [],
      decl Counter ''checkpoint_failures_total'' [],
      decl Gauge ''last_watermark_advance_epoch'' [],
      decl Counter ''late_events_within_window_total'' [''stage''],
      decl Counter ''late_events_beyond_window_total'' [''stage'', ''topic''],
      histogram ''corrected_record_latency_ms'' [1, 5, 10, 25, 50, 100, 250, 500] [''stage''],
      decl Counter ''iceberg_buffer_overflow_total'' [],
      decl Counter ''iceberg_catalog_unavailable_total'' [],
      histogram ''iceberg_flush_duration_seconds'' [1/100, 5/100, 1/10, 25/100, 5/10, 1, 25/10, 5, 10] [],
      decl Counter ''feast_push_failures_total'' []]"

definition bridge_metrics :: "metric_decl list" where
  "bridge_metrics = [decl Counter ''bridge_thread_died_total'' [''thread_name'']]"

definition ingestion_metrics :: "metric_decl list" where
  "ingestion_metrics =
     [(histogram ''producer_publish_latency_ms'' [1, 2, 5, 10, 20, 50, 100, 500] [''topic''])\<lparr>md_var := ''PUBLISH_LATENCY''\<rparr>,
      (decl Counter ''producer_events_total'' [''topic'', ''status''])\<lparr>md_var := ''EVENTS_TOTAL''\<rparr>,
      (decl Counter ''producer_errors_total'' [''topic'', ''error_type''])\<lparr>md_var := ''ERRORS_TOTAL''\<rparr>,
      (decl Gauge ''dlq_depth'' [''topic''])\<lparr>md_var := ''DLQ_DEPTH''\<rparr>,
      (decl Counter ''schema_validation_errors_total'' [''topic'', ''error_type''])\<lparr>md_var := ''SCHEMA_VALIDATION_ERRORS''\<rparr>]"

definition analytics_metrics :: "metric_decl list" where
  "analytics_metrics =
     [decl Gauge ''analytics_consumer_lag'' [''consumer_group'', ''topic''],
      decl Counter ''analytics_events_consumed_total'' [''topic''],
      decl Counter ''analytics_consumer_restarts_total'' []]"

text \<open>\<open>from module import name\<close> finds the name, or raises \<open>ImportError\<close>.\<close>

definition binds :: "metric_decl list \<Rightarrow> string \<Rightarrow> bool" where
  "binds decls name \<longleftrightarrow> list_ex (\<lambda>d. md_var d = name) decls"

section \<open>Updates\<close>

text \<open>An update \<open>metric.labels(k=v, ...).method(...)\<close> as it stands in the code, without its amount.\<close>

datatype update_method = Inc | Set_value | Observe

record metric_update =
  mu_var :: string
  mu_labels :: "(string \<times> string) list"
  mu_method :: update_method

definition update :: "update_method \<Rightarrow> string \<Rightarrow> (string \<times> string) list \<Rightarrow> metric_update" where
  "update m var labels = \<lparr>mu_var = var, mu_labels = labels, mu_method = m\<rparr>"

text \<open>The label names are those of the declaration and the method is one of its kind.\<close>

fun has_method :: "metric_kind \<Rightarrow> update_method \<Rightarrow> bool" where
  "has_method Counter m = (m = Inc)"
| "has_method Gauge m = (m = Inc \<or> m = Set_value)"
| "has_method Histogram m = (m = Observe)"

definition fits :: "metric_decl list \<Rightarrow> metric_update \<Rightarrow> bool" where
  "fits decls u \<longleftrightarrow>
     list_ex (\<lambda>d. md_var d = mu_var u \<and> length (mu_labels u) = length (md_labels d) \<and>
       set (map fst (mu_labels u)) = set (md_labels d) \<and> has_method (md_kind d) (mu_method u)) decls"

text \<open>The value of a counter: how often its series was incremented.\<close>

definition series_count :: "string \<Rightarrow> (string \<times> string) list \<Rightarrow> metric_update list \<Rightarrow> nat" where
  "series_count var labels us = count_list us (update Inc var labels)"

lemma series_count_append [simp]:
  "series_count var labels (us @ vs) = series_count var labels us + series_count var labels vs"
  by (simp add: series_count_def)

lemma series_count_Cons [simp]:
  "series_count var labels (u # us) = (if u = update Inc var labels then 1 else 0) + series_count var labels us"
  by (simp add: series_count_def)

lemma series_count_Nil [simp]: "series_count var labels [] = 0"
  by (simp add: series_count_def)

lemma update_eq [simp]: "update m var labels = update m' var' labels' \<longleftrightarrow> m = m' \<and> var = var' \<and> labels = labels'"
  by (auto simp: update_def)

section \<open>What the declarations keep\<close>

text \<open>
  No name and no variable is declared twice within a process that loads the scoring and processing modules,
  and every histogram has rising bounds, both of which Prometheus checks when a module is loaded.
\<close>

definition job_metrics :: "metric_decl list" where
  "job_metrics = scoring_metrics @ telemetry_metrics @ ml_breaker_metrics @ iceberg_breaker_metrics @
     processing_metrics @ bridge_metrics"

lemmas module_defs = scoring_metrics_def telemetry_metrics_def ml_breaker_metrics_def iceberg_breaker_metrics_def
  processing_metrics_def bridge_metrics_def ingestion_metrics_def analytics_metrics_def decl_def histogram_def

theorem declarations_register:
  "distinct (map md_name job_metrics)" "distinct (map md_name ingestion_metrics)" "distinct (map md_name analytics_metrics)"
  "list_all (\<lambda>d. sorted (md_buckets d) \<and> distinct (md_buckets d)) (job_metrics @ ingestion_metrics)"
  by (simp_all add: job_metrics_def module_defs)

text \<open>The gauge of the materialisation lag belongs to the scoring module only.\<close>

lemma lag_gauge_module:
  "binds scoring_metrics ''feature_materialization_lag_ms''" "\<not> binds processing_metrics ''feature_materialization_lag_ms''"
  by (simp_all add: binds_def module_defs)

end
