(* ===== verification/Features.thy ===== *)
theory Features
  imports Py_Parse Decision Metric_Decls
begin

text \<open>
  The online features: \<open>pipelines/shared/feature_schema.py\<close> (which columns are pushed, with
  their Arrow types and extractors), \<open>processing/feature_materializer.py\<close> (the pushes) and
  \<open>scoring/clients/feature_serving.py\<close> (reading them back within 3 ms). Feast, \<open>pyarrow\<close> and the
  executor are not under \<open>src/\<close>: whether a push raises is the argument \<open>store\<close>, how the fetch of a
  feature row ends (its dict, an exception, or \<open>TimeoutError\<close>) the argument \<open>fetched\<close>.
  \<open>str\<close> of a value that is neither a string nor an integer nor None is the argument \<open>sf\<close>.
\<close>

section \<open>Columns\<close>

datatype arrow_type = Int32 | Int64 | Float32 | Float64 | Boolean | Timestamp_ms | Inferred

record column_spec =
  cs_field :: string
  cs_type :: arrow_type
  cs_extract :: "pydict \<Rightarrow> pyval result"

type_synonym column = "string \<times> arrow_type \<times> pyval list"

text \<open>\<open>int(r.get(k) or 0)\<close>, \<open>float(r.get(k) or 0)\<close>, \<open>r.get(k) or ""\<close>, \<open>bool(r.get(k, False))\<close>.\<close>

definition int_or_0 :: "string \<Rightarrow> pydict \<Rightarrow> pyval result" where
  "int_or_0 k r = rbind (py_int (py_or (dget r k) (PInt 0))) (\<lambda>i. Inr (PInt i))"

definition float_or_0 :: "string \<Rightarrow> pydict \<Rightarrow> pyval result" where
  "float_or_0 k r = rbind (py_float (py_or (dget r k) (PInt 0))) (\<lambda>f. Inr (PFloat f))"

definition str_or_empty :: "string \<Rightarrow> pydict \<Rightarrow> pyval result" where
  "str_or_empty k r = Inr (py_or (dget r k) (PStr []))"

definition bool_or_false :: "string \<Rightarrow> pydict \<Rightarrow> pyval result" where
  "bool_or_false k r = Inr (PBool (truthy (dget_or r k (PBool False))))"

text \<open>\<open>int(r[k]) if r.get(k) else None\<close>.\<close>

definition int_or_none :: "string \<Rightarrow> pydict \<Rightarrow> pyval result" where
  "int_or_none k r =
     (if truthy (dget r k) then rbind (dsub r k) (\<lambda>v. rbind (py_int v) (\<lambda>i. Inr (PInt i))) else Inr PNone)"

definition column_of :: "string \<Rightarrow> arrow_type \<Rightarrow> (string \<Rightarrow> pydict \<Rightarrow> pyval result) \<Rightarrow> column_spec" where
  "column_of k t f = \<lparr>cs_field = k, cs_type = t, cs_extract = f k\<rparr>"

definition VELOCITY_COLUMNS :: "column_spec list" where
  "VELOCITY_COLUMNS =
     [column_of ''vel_count_1m'' Int32 int_or_0, column_of ''vel_amount_1m'' Float64 float_or_0,
      column_of ''vel_count_5m'' Int32 int_or_0, column_of ''vel_amount_5m'' Float64 float_or_0,
      column_of ''vel_count_1h'' Int32 int_or_0, column_of ''vel_amount_1h'' Float64 float_or_0,
      column_of ''vel_count_24h'' Int32 int_or_0, column_of ''vel_amount_24h'' Float64 float_or_0]"

definition GEO_COLUMNS :: "column_spec list" where
  "GEO_COLUMNS =
     [column_of ''geo_country'' Inferred str_or_empty, column_of ''geo_city'' Inferred str_or_empty,
      column_of ''geo_network_class'' Inferred str_or_empty, column_of ''geo_confidence'' Float64 float_or_0,
      column_of ''geo_lat'' Float32 float_or_0, column_of ''geo_lon'' Float32 float_or_0]"

definition DEVICE_COLUMNS :: "column_spec list" where
  "DEVICE_COLUMNS =
     [column_of ''device_first_seen'' Int64 int_or_none, column_of ''device_txn_count'' Int64 int_or_0,
      column_of ''device_known_fraud'' Boolean bool_or_false, column_of ''prev_geo_country'' Inferred str_or_empty,
      column_of ''prev_txn_time_ms'' Int64 int_or_none]"

definition FEATURE_GROUPS :: "(string \<times> column_spec list) list" where
  "FEATURE_GROUPS =
     [(''velocity_push_source'', VELOCITY_COLUMNS), (''geo_push_source'', GEO_COLUMNS),
      (''device_push_source'', DEVICE_COLUMNS)]"

definition FEATURE_REFS :: "(string \<times> string) list" where
  "FEATURE_REFS =
     map (Pair ''velocity_features'')
       [''vel_count_1m'', ''vel_amount_1m'', ''vel_count_5m'', ''vel_amount_5m'',
        ''vel_count_1h'', ''vel_amount_1h'', ''vel_count_24h'', ''vel_amount_24h'']
     @ map (Pair ''geo_features'') [''geo_country'', ''geo_city'', ''geo_network_class'', ''geo_confidence'']
     @ map (Pair ''device_features'')
       [''device_first_seen'', ''device_txn_count'', ''device_known_fraud'', ''prev_geo_country'', ''prev_txn_time_ms'']"

section \<open>Materialising\<close>

record materializer =
  pushes :: "(string \<times> column list) list"
  last_push_ms :: rat
  lag_gauge :: "rat option"

definition base_columns :: "pydict list \<Rightarrow> int list \<Rightarrow> column list" where
  "base_columns records event_timestamps =
     [(''account_id'', Inferred, map (\<lambda>r. dget r ''account_id'') records),
      (''transaction_id'', Inferred, map (\<lambda>r. dget r ''transaction_id'') records),
      (''event_timestamp'', Timestamp_ms, map PInt event_timestamps)]"

definition event_timestamps_of :: "pydict list \<Rightarrow> int list result" where
  "event_timestamps_of records = rmap (\<lambda>r. py_int (dget_or r ''event_time'' (PInt 0))) records"

text \<open>An exception of an extractor, of Arrow or of the store is logged and the group left out.\<close>

definition extract_columns :: "column_spec list \<Rightarrow> pydict list \<Rightarrow> column list result" where
  "extract_columns cs records =
     rmap (\<lambda>c. rbind (rmap (cs_extract c) records) (\<lambda>cells. Inr (cs_field c, cs_type c, cells))) cs"

definition push_feature_group ::
  "(string \<Rightarrow> column list \<Rightarrow> exn option) \<Rightarrow> pydict list \<Rightarrow> int list \<Rightarrow> string \<times> column_spec list \<Rightarrow>
   (string \<times> column list) list \<Rightarrow> (string \<times> column list) list" where
  "push_feature_group store records event_timestamps grp ps =
     (case extract_columns (snd grp) records of
        Inl e \<Rightarrow> ps
      | Inr cols \<Rightarrow>
          (let data = base_columns records event_timestamps @ cols in
           case store (fst grp) data of None \<Rightarrow> ps @ [(fst grp, data)] | Some e \<Rightarrow> ps))"

text \<open>The gauge is imported from the metrics of the processor inside a \<open>try\<close> that catches everything.\<close>

definition update_staleness_gauge :: "rat \<Rightarrow> materializer \<Rightarrow> materializer" where
  "update_staleness_gauge now_ms m =
     (if binds processing_metrics ''feature_materialization_lag_ms''
      then m\<lparr>lag_gauge := Some (fl (now_ms - last_push_ms m)), last_push_ms := now_ms\<rparr> else m)"

definition materialize ::
  "(string \<Rightarrow> column list \<Rightarrow> exn option) \<Rightarrow> rat \<Rightarrow> pydict list \<Rightarrow> materializer \<Rightarrow> materializer \<times> exn option" where
  "materialize store now_ms records m =
     (if records = [] then (m, None)
      else case event_timestamps_of records of
        Inl e \<Rightarrow> (m, Some e)
      | Inr ts \<Rightarrow>
          (update_staleness_gauge now_ms
             (m\<lparr>pushes := fold (push_feature_group store records ts) FEATURE_GROUPS (pushes m)\<rparr>), None))"

text \<open>The import fails, since the gauge is one of the scoring metrics: it is never set here.\<close>

lemma staleness_gauge_never_set:
  "lag_gauge (fst (materialize store now_ms records m)) = lag_gauge m"
  "last_push_ms (fst (materialize store now_ms records m)) = last_push_ms m"
  by (simp_all add: materialize_def update_staleness_gauge_def lag_gauge_module split: sum.split)

section \<open>Serving\<close>

datatype serving_metric = Retrieval_seconds | Store_fallback fallback_reason | Store_miss

definition zero_for :: "pyval \<Rightarrow> feature_vector" where
  "zero_for account_id = ZERO_FEATURE_VECTOR\<lparr>fv_account_id := account_id\<rparr>"

definition first_value :: "pyval list \<Rightarrow> pyval result" where
  "first_value vs = (case vs of [] \<Rightarrow> raise_exn OtherException ''list index out of range'' | v # _ \<Rightarrow> Inr v)"

definition response_values :: "(string \<times> pyval list) list \<Rightarrow> pydict result" where
  "response_values raw =
     rmap (\<lambda>(k, v). rbind (first_value v) (\<lambda>x. Inr (k, x))) (filter (\<lambda>(k, v). k \<noteq> ''account_id'') raw)"

definition vector_int :: "pydict \<Rightarrow> string \<Rightarrow> int result" where
  "vector_int values k = py_int (py_or (dget values k) (PInt 0))"

definition vector_float :: "pydict \<Rightarrow> string \<Rightarrow> pyfloat result" where
  "vector_float vals k = py_float (py_or (dget vals k) (PFloat (Fin 0)))"

definition vector_str :: "(pyval \<Rightarrow> string) \<Rightarrow> pydict \<Rightarrow> string \<Rightarrow> string" where
  "vector_str sf vals k = py_str sf (py_or (dget vals k) (PStr []))"

definition feature_vector_of :: "(pyval \<Rightarrow> string) \<Rightarrow> pyval \<Rightarrow> pydict \<Rightarrow> feature_vector result" where
  "feature_vector_of sf account_id vals =
     rbind (vector_int vals ''vel_count_1m'') (\<lambda>c1. rbind (vector_float vals ''vel_amount_1m'') (\<lambda>a1.
     rbind (vector_int vals ''vel_count_5m'') (\<lambda>c5. rbind (vector_float vals ''vel_amount_5m'') (\<lambda>a5.
     rbind (vector_int vals ''vel_count_1h'') (\<lambda>ch. rbind (vector_float vals ''vel_amount_1h'') (\<lambda>ah.
     rbind (vector_int vals ''vel_count_24h'') (\<lambda>cd. rbind (vector_float vals ''vel_amount_24h'') (\<lambda>ad.
     rbind (vector_float vals ''geo_confidence'') (\<lambda>conf.
     rbind (vector_int vals ''device_first_seen'') (\<lambda>seen.
     rbind (vector_int vals ''device_txn_count'') (\<lambda>cnt.
     rbind (vector_int vals ''prev_txn_time_ms'') (\<lambda>prev.
     Inr \<lparr>fv_account_id = account_id, fv_vel_count_1m = c1, fv_vel_amount_1m = a1,
          fv_vel_count_5m = c5, fv_vel_amount_5m = a5, fv_vel_count_1h = ch, fv_vel_amount_1h = ah,
          fv_vel_count_24h = cd, fv_vel_amount_24h = ad,
          fv_geo_country = vector_str sf vals ''geo_country'', fv_geo_city = vector_str sf vals ''geo_city'',
          fv_geo_network_class = vector_str sf vals ''geo_network_class'', fv_geo_confidence = conf,
          fv_device_first_seen = seen, fv_device_txn_count = cnt,
          fv_device_known_fraud = truthy (py_or (dget vals ''device_known_fraud'') (PBool False)),
          fv_prev_geo_country = vector_str sf vals ''prev_geo_country'', fv_prev_txn_time_ms = prev\<rparr>))))))))))))"

text \<open>What the \<open>try\<close> block of \<open>get_features\<close> computes once the future has a result.\<close>

definition read_response ::
  "(pyval \<Rightarrow> string) \<Rightarrow> pyval \<Rightarrow> (string \<times> pyval list) list \<Rightarrow> (feature_vector \<times> serving_metric list) result" where
  "read_response sf account_id raw =
     rbind (response_values raw) (\<lambda>vals.
       if list_all (\<lambda>(k, v). v = PNone) vals then Inr (zero_for account_id, [Store_miss])
       else if list_ex (\<lambda>(k, v). v = PNone) vals then Inr (zero_for account_id, [Store_miss])
       else rbind (feature_vector_of sf account_id vals) (\<lambda>fv. Inr (fv, [])))"

definition get_features ::
  "(pyval \<Rightarrow> string) \<Rightarrow> bool \<Rightarrow> pyval \<Rightarrow> (string \<times> pyval list) list result \<Rightarrow> feature_vector \<times> serving_metric list" where
  "get_features sf opened account_id fetched =
     (if \<not> opened then (zero_for account_id, [])
      else
        let before = (case fetched of Inl e \<Rightarrow> [] | Inr raw \<Rightarrow> [Retrieval_seconds]) in
        case rbind fetched (read_response sf account_id) of
          Inr (fv, ms) \<Rightarrow> (fv, before @ ms)
        | Inl e \<Rightarrow>
            (zero_for account_id,
             before @ [Retrieval_seconds, Store_fallback (if isinstance e TimeoutError then Timeout else Unavailable)]))"

section \<open>Lemmas\<close>

lemma response_values_None:
  assumes "response_values raw = Inr vals" "(k, v # vs) \<in> set raw" "k \<noteq> ''account_id''"
  shows "(k, v) \<in> set vals"
proof -
  let ?raw = "filter (\<lambda>(k, v). k \<noteq> ''account_id'') raw"
  let ?f = "\<lambda>(k, v). rbind (first_value v) (\<lambda>x. Inr (k, x))"
  have l: "list_all2 (\<lambda>x y. ?f x = Inr y) ?raw vals"
    using assms(1) by (simp add: response_values_def rmap_Inr_iff)
  have "(k, v # vs) \<in> set ?raw" using assms by auto
  then obtain i where i: "i < length ?raw" "?raw ! i = (k, v # vs)" by (metis in_set_conv_nth)
  have "?f (?raw ! i) = Inr (vals ! i)" using list_all2_nthD [OF l i(1)] .
  moreover have "vals ! i \<in> set vals" using i(1) list_all2_lengthD [OF l] by simp
  ultimately show ?thesis using i(2) by (auto simp: first_value_def)
qed

lemma read_response_cases:
  assumes "read_response sf a raw = Inr (fv, ms)"
  obtains (miss) "fv = zero_for a" and "ms = [Store_miss]"
  | (full) vals where "response_values raw = Inr vals" and "list_all (\<lambda>(k, v). v \<noteq> PNone) vals"
      and "vals \<noteq> []" and "feature_vector_of sf a vals = Inr fv" and "ms = []"
proof -
  obtain vals where v: "response_values raw = Inr vals" using assms by (auto simp: read_response_def result_simps)
  show thesis
  proof (cases "list_ex (\<lambda>(k, v). v = PNone) vals \<or> vals = []")
    case True
    then show ?thesis using miss assms v by (auto simp: read_response_def split: if_splits)
  next
    case False
    then have "list_all (\<lambda>(k, v). v \<noteq> PNone) vals" "vals \<noteq> []" by (auto simp: list_ex_iff list_all_iff)
    moreover from this have "\<not> list_all (\<lambda>(k, v). v = PNone) vals" by (auto simp: list_all_iff neq_Nil_conv)
    ultimately show ?thesis using full [OF v] assms v False by (auto simp: read_response_def result_simps)
  qed
qed

lemma feature_vector_account: "feature_vector_of sf a vals = Inr fv \<Longrightarrow> fv_account_id fv = a"
  by (auto simp: feature_vector_of_def result_simps)

lemma int_or_none_falsy: "\<not> truthy (dget r k) \<Longrightarrow> int_or_none k r = Inr PNone"
  by (simp add: int_or_none_def)

lemma device_columns_prev:
  assumes "extract_columns DEVICE_COLUMNS [r] = Inr cols" "\<not> truthy (dget r ''prev_txn_time_ms'')"
  shows "(''prev_txn_time_ms'', Int64, [PNone]) \<in> set cols"
  using assms by (auto simp: extract_columns_def DEVICE_COLUMNS_def column_of_def int_or_none_falsy result_simps)

section \<open>Properties\<close>

text \<open>The feature client answers every call, for the account asked: with the features read when
  the client is open and every value of the response is present and converts, and otherwise,
  whatever the store raises or however late it is, with the zero vector and a metric that says why.\<close>

theorem get_features_complete_or_zero:
  "fv_account_id (fst (get_features sf opened a fetched)) = a \<and>
   (if opened \<and> (\<exists>raw vals fv. fetched = Inr raw \<and> response_values raw = Inr vals \<and> vals \<noteq> [] \<and>
                    list_all (\<lambda>(k, v). v \<noteq> PNone) vals \<and> feature_vector_of sf a vals = Inr fv)
    then (\<exists>raw vals. fetched = Inr raw \<and> response_values raw = Inr vals \<and>
            Inr (fst (get_features sf opened a fetched)) = feature_vector_of sf a vals) \<and>
         snd (get_features sf opened a fetched) = [Retrieval_seconds]
    else fst (get_features sf opened a fetched) = zero_for a \<and>
         (opened \<longleftrightarrow> Store_miss \<in> set (snd (get_features sf opened a fetched)) \<or>
                     Store_fallback Timeout \<in> set (snd (get_features sf opened a fetched)) \<or>
                     Store_fallback Unavailable \<in> set (snd (get_features sf opened a fetched))))"
  (is "?acc \<and> ?res")
proof (cases "opened")
  case True
  show ?thesis
  proof (cases "rbind fetched (read_response sf a)")
    case (Inl e)
    have "\<not> (\<exists>raw vals fv. fetched = Inr raw \<and> response_values raw = Inr vals \<and> vals \<noteq> [] \<and>
                    list_all (\<lambda>(k, v). v \<noteq> PNone) vals \<and> feature_vector_of sf a vals = Inr fv)"
      using Inl by (auto simp: read_response_def list_all_iff list_ex_iff split: if_splits)
    with Inl True show ?thesis by (auto simp: get_features_def zero_for_def)
  next
    case (Inr r)
    obtain fv ms where r: "r = (fv, ms)" by force
    obtain raw where raw: "fetched = Inr raw" "read_response sf a raw = Inr (fv, ms)"
      using Inr r by (cases fetched) auto
    show ?thesis
    proof (rule read_response_cases [OF raw(2)])
      assume z: "fv = zero_for a" "ms = [Store_miss]"
      have "\<not> (\<exists>vals fv. response_values raw = Inr vals \<and> vals \<noteq> [] \<and>
                    list_all (\<lambda>(k, v). v \<noteq> PNone) vals \<and> feature_vector_of sf a vals = Inr fv)"
        using raw(2) z(2) by (auto simp: read_response_def list_all_iff list_ex_iff neq_Nil_conv split: if_splits)
      with z raw True show ?thesis by (auto simp: get_features_def zero_for_def)
    next
      fix vals
      assume v: "response_values raw = Inr vals" "list_all (\<lambda>(k, v). v \<noteq> PNone) vals" "vals \<noteq> []"
        "feature_vector_of sf a vals = Inr fv" "ms = []"
      then show ?thesis using raw True feature_vector_account [OF v(4)] by (auto simp: get_features_def)
    qed
  qed
qed (simp add: get_features_def zero_for_def)

text \<open>One absent value costs all of them: a record without a previous transaction time, as the
  first one of every device is, is pushed with an empty cell, and any response that gives this cell
  back is answered with the zero vector, whatever velocity or country the store holds.\<close>

theorem missing_cell_zeroes_vector:
  assumes "extract_columns DEVICE_COLUMNS [r] = Inr cols" "\<not> truthy (dget r ''prev_txn_time_ms'')"
    and "\<forall>(k, t, cells)\<in>set cols. (k, cells) \<in> set raw"
  shows "fst (get_features sf True a (Inr raw)) = zero_for a"
proof -
  have m: "(''prev_txn_time_ms'', [PNone]) \<in> set raw"
    using device_columns_prev [OF assms(1,2)] assms(3) by fastforce
  show ?thesis
  proof (cases "response_values raw")
    case (Inr vals)
    have "(''prev_txn_time_ms'', PNone) \<in> set vals" using response_values_None [OF Inr m] by simp
    then show ?thesis using Inr by (auto simp: get_features_def read_response_def list_ex_iff)
  qed (simp add: get_features_def read_response_def)
qed

lemma missing_cell_zeroes_vector_witness:
  "fst (get_features (\<lambda>v. []) True (PStr ''acc'')
     (Inr [(''account_id'', [PStr ''acc'']), (''vel_count_1m'', [PInt 7]), (''device_first_seen'', [PInt 5]),
           (''device_txn_count'', [PInt 1]), (''device_known_fraud'', [PBool False]),
           (''prev_geo_country'', [PStr []]), (''prev_txn_time_ms'', [PNone])])) = zero_for (PStr ''acc'')"
  by (rule missing_cell_zeroes_vector [where r = "[(''device_first_seen'', PInt 5), (''device_txn_count'', PInt 1)]"])
    (auto simp: extract_columns_def DEVICE_COLUMNS_def column_of_def int_or_none_def int_or_0_def bool_or_false_def
       str_or_empty_def py_or_def dget_def dget_or_def dsub_def)

end
