(* ===== verification/Feature_Client.thy ===== *)
theory Feature_Client
  imports Features
begin

text \<open>
  The life of \<open>FeatureServingClient\<close> (\<open>pipelines/scoring/clients/feature_serving.py\<close>): opened, used from one
  thread after another call has returned or timed out, closed. A fetch that times out is not withdrawn: it
  stays in the queue of the executor and keeps a worker busy. What \<open>get_features\<close> makes of a response is in
  Features; here it is when the response arrives. Times are in any unit; the store's answers and durations
  are arguments.
\<close>

section \<open>The client\<close>

definition SERVING_REFS :: "string list" where
  "SERVING_REFS =
     [''velocity_features:vel_count_1m'', ''velocity_features:vel_amount_1m'', ''velocity_features:vel_count_5m'',
      ''velocity_features:vel_amount_5m'', ''velocity_features:vel_count_1h'', ''velocity_features:vel_amount_1h'',
      ''velocity_features:vel_count_24h'', ''velocity_features:vel_amount_24h'', ''geo_features:geo_country'',
      ''geo_features:geo_city'', ''geo_features:geo_network_class'', ''geo_features:geo_confidence'',
      ''device_features:device_first_seen'', ''device_features:device_txn_count'', ''device_features:device_known_fraud'',
      ''device_features:prev_geo_country'', ''device_features:prev_txn_time_ms'']"

text \<open>The executor: absent, running with the times at which its live workers are free, or shut down.\<close>

datatype executor = Not_opened | Running "int list" | Shut_down

definition client_open :: "exn option \<Rightarrow> int \<Rightarrow> int \<Rightarrow> executor \<Rightarrow> executor \<times> unit result" where
  "client_open store_error workers now x =
     (case store_error of
        Some e \<Rightarrow> (x, Inl e)
      | None \<Rightarrow>
          (if workers \<le> 0 then (x, raise_exn ValueError ''max_workers must be greater than 0'')
           else (Running (replicate (nat workers) now), Inr ())))"

text \<open>\<open>shutdown(wait=False)\<close>; the reference to the executor stays.\<close>

definition client_close :: "executor \<Rightarrow> executor" where
  "client_close x = (case x of Not_opened \<Rightarrow> Not_opened | _ \<Rightarrow> Shut_down)"

text \<open>One call: for whom, when, how long the store takes (\<open>None\<close> for ever), what it answers to \<open>SERVING_REFS\<close>.\<close>

record fetch_call =
  fe_account :: pyval
  fe_at :: int
  fe_runs :: "int option"
  fe_outcome :: "(string \<times> pyval list) list result"

definition finish_time :: "int list \<Rightarrow> fetch_call \<Rightarrow> int option" where
  "finish_time ws c = (if ws = [] then None else map_option (\<lambda>d. max (min_list ws) (fe_at c) + d) (fe_runs c))"

definition workers_after :: "int list \<Rightarrow> fetch_call \<Rightarrow> int list" where
  "workers_after ws c =
     (if ws = [] then []
      else remove1 (min_list ws) ws @ (case finish_time ws c of None \<Rightarrow> [] | Some t \<Rightarrow> [t]))"

definition fetch_in_time :: "int \<Rightarrow> int list \<Rightarrow> fetch_call \<Rightarrow> (string \<times> pyval list) list result" where
  "fetch_in_time timeout ws c =
     (case finish_time ws c of
        Some t \<Rightarrow> (if t \<le> fe_at c + timeout then fe_outcome c else raise_exn TimeoutError [])
      | None \<Rightarrow> raise_exn TimeoutError [])"

text \<open>\<open>submit\<close> stands before the \<open>try\<close>: what it raises leaves \<open>get_features\<close>.\<close>

definition client_get ::
  "(pyval \<Rightarrow> string) \<Rightarrow> int \<Rightarrow> fetch_call \<Rightarrow> executor \<Rightarrow> executor \<times> (feature_vector \<times> serving_metric list) result" where
  "client_get sf timeout c x =
     (case x of
        Not_opened \<Rightarrow> (x, Inr (get_features sf False (fe_account c) (fe_outcome c)))
      | Running ws \<Rightarrow> (Running (workers_after ws c), Inr (get_features sf True (fe_account c) (fetch_in_time timeout ws c)))
      | Shut_down \<Rightarrow> (x, raise_exn RuntimeError ''cannot schedule new futures after shutdown''))"

fun client_run ::
  "(pyval \<Rightarrow> string) \<Rightarrow> int \<Rightarrow> fetch_call list \<Rightarrow> executor \<Rightarrow> (feature_vector \<times> serving_metric list) result list" where
  "client_run sf timeout [] x = []"
| "client_run sf timeout (c # cs) x =
     (case client_get sf timeout c x of (x', r) \<Rightarrow> r # client_run sf timeout cs x')"

section \<open>Lemmas\<close>

text \<open>The client asks for the features the schema of the store declares.\<close>

lemma serving_refs_declared: "SERVING_REFS = map (\<lambda>(v, f). v @ '':'' @ f) FEATURE_REFS"
  by (simp add: SERVING_REFS_def FEATURE_REFS_def)

text \<open>An exception reaches the caller after \<open>close\<close>, and only then; a client never opened serves zeros.\<close>

lemma client_raises_iff_closed: "isl (snd (client_get sf timeout c x)) \<longleftrightarrow> x = Shut_down"
  by (cases x) (simp_all add: client_get_def raise_exn_def)

lemma closed_client_raises:
  "client_open None workers now Not_opened = (x, Inr ()) \<Longrightarrow>
   snd (client_get sf timeout c (client_close x)) = raise_exn RuntimeError ''cannot schedule new futures after shutdown''"
  by (auto simp: client_open_def client_close_def client_get_def raise_exn_def split: if_splits)

text \<open>An executor whose workers all hang answers with zeros for ever.\<close>

lemma no_worker_zero:
  "client_run sf timeout cs (Running []) =
     map (\<lambda>c. Inr (zero_for (fe_account c), [Retrieval_seconds, Store_fallback Timeout])) cs"
  by (induction cs)
     (simp_all add: client_get_def get_features_def fetch_in_time_def finish_time_def workers_after_def raise_exn_def isinstance_def)

lemma one_worker_late:
  assumes "fe_runs c = Some d" "fe_at c \<le> t" "fe_at c + timeout < t + d"
  shows "client_get sf timeout c (Running [t]) =
    (Running [t + d], Inr (zero_for (fe_account c), [Retrieval_seconds, Store_fallback Timeout]))"
  using assms
  by (simp add: client_get_def get_features_def fetch_in_time_def finish_time_def workers_after_def raise_exn_def isinstance_def
      max_def)

text \<open>Back-to-back calls: the next comes when the last has timed out. \<open>busy i\<close> is the work queued before call \<open>i\<close>.\<close>

definition busy :: "nat \<Rightarrow> int \<Rightarrow> int \<Rightarrow> nat \<Rightarrow> int" where
  "busy n d e i = (if i \<le> n then int i * d else int n * d + int (i - n) * e)"

definition call_of ::
  "int \<Rightarrow> int \<Rightarrow> nat \<Rightarrow> int \<Rightarrow> int \<Rightarrow> (nat \<Rightarrow> pyval) \<Rightarrow> (nat \<Rightarrow> (string \<times> pyval list) list result) \<Rightarrow> nat \<Rightarrow> fetch_call" where
  "call_of start timeout n d e account outcome i =
     \<lparr>fe_account = account i, fe_at = start + int i * timeout, fe_runs = Some (if i < n then d else e), fe_outcome = outcome i\<rparr>"

lemma busy_Suc: "busy n d e (Suc i) = busy n d e i + (if i < n then d else e)"
proof (cases "i < n")
  case True
  then show ?thesis by (simp add: busy_def distrib_right)
next
  case False
  then have "busy n d e i = int n * d + int (i - n) * e" by (cases "i = n") (simp_all add: busy_def)
  moreover have "busy n d e (Suc i) = int n * d + int (Suc i - n) * e" using False by (simp only: busy_def Suc_le_eq if_False)
  moreover have "int (Suc i - n) = int (i - n) + 1" using False by simp
  ultimately show ?thesis using False by (simp only: distrib_right mult_1 if_False add.assoc)
qed

lemma busy_behind:
  assumes "timeout < d" "e \<le> timeout" "int m * (timeout - e) < int n * (d - timeout)" "0 < i" "i \<le> n + m"
  shows "int i * timeout < busy n d e i"
proof (cases "i \<le> n")
  case True
  then show ?thesis using assms(1,4) by (simp add: busy_def)
next
  case False
  then have i: "int i = int n + int (i - n)" "int (i - n) \<le> int m" using assms(5) by linarith+
  from i(2) have "int (i - n) * (timeout - e) \<le> int m * (timeout - e)" by (rule mult_right_mono) (use assms(2) in simp)
  then have "int (i - n) * (timeout - e) < int n * (d - timeout)" using assms(3) by linarith
  then have "(int n + int (i - n)) * timeout < int n * d + int (i - n) * e" by (simp only: algebra_simps)
  then show ?thesis using False by (simp only: busy_def i(1) [symmetric] if_False)
qed

section \<open>Properties\<close>

text \<open>A slow spell of the store outlasts itself. With one worker, \<open>n\<close> calls whose fetch takes \<open>d\<close>, longer than
  the time-out, leave their work in the queue; the calls after them, though the store answers in \<open>e\<close>, within
  the time-out, are served zeros as well, as many as it takes to work off the backlog: all \<open>m\<close> of them as
  long as \<open>m (timeout - e) < n (d - timeout)\<close>, whatever the store answers.\<close>

theorem slow_spell_outlasts:
  assumes "timeout < d" "e \<le> timeout" "int m * (timeout - e) < int n * (d - timeout)"
  shows "client_run sf timeout (map (call_of start timeout n d e account outcome) [0..<n + m]) (Running [start]) =
    map (\<lambda>i. Inr (zero_for (account i), [Retrieval_seconds, Store_fallback Timeout])) [0..<n + m]"
proof -
  let ?call = "call_of start timeout n d e account outcome"
  have "i \<le> n + m \<Longrightarrow>
      client_run sf timeout (map ?call [i..<n + m]) (Running [start + busy n d e i]) =
      map (\<lambda>i. Inr (zero_for (account i), [Retrieval_seconds, Store_fallback Timeout])) [i..<n + m]" for i
  proof (induction rule: inc_induct)
    case (step i)
    have "int i * timeout \<le> busy n d e i"
      using busy_behind [OF assms, of i] step(2) by (cases "i = 0") (simp_all add: busy_def less_imp_le)
    moreover have "int (Suc i) * timeout < busy n d e (Suc i)" using busy_behind [OF assms, of "Suc i"] step(2) by simp
    ultimately have "client_get sf timeout (?call i) (Running [start + busy n d e i]) =
        (Running [start + busy n d e (Suc i)], Inr (zero_for (account i), [Retrieval_seconds, Store_fallback Timeout]))"
      using one_worker_late [of "?call i" "if i < n then d else e" "start + busy n d e i" timeout sf]
      by (simp add: call_of_def busy_Suc algebra_simps)
    then show ?case using step by (simp add: upt_conv_Cons)
  qed simp
  from this [of 0] show ?thesis by (simp add: busy_def)
qed

lemma slow_spell_outlasts_witness:
  "client_run (\<lambda>v. []) 3 (map (call_of 0 3 2 10 1 (\<lambda>i. PStr ''a'') (\<lambda>i. Inr [(''vel_count_1m'', [PInt 7])])) [0..<2 + 6]) (Running [0]) =
     replicate 8 (Inr (zero_for (PStr ''a''), [Retrieval_seconds, Store_fallback Timeout]))"
  using slow_spell_outlasts [of 3 10 1 6 2 "\<lambda>v. []" 0 "\<lambda>i. PStr ''a''" "\<lambda>i. Inr [(''vel_count_1m'', [PInt 7])]"]
  by (simp add: map_replicate_const)

end
