(* ===== verification/Iceberg_Sinks.thy ===== *)
theory Iceberg_Sinks
  imports Sink_Base Features
begin

text \<open>
  \<open>pipelines/processing/operators/iceberg_sink.py\<close> (enriched transactions) and
  \<open>pipelines/scoring/sinks/iceberg_decisions.py\<close> (fraud decisions). Each file defines its class
  twice, for PyFlink and as a plain stand-in; the two differ, and both are modelled (the names of
  the second start with \<open>standin\<close>). The rows are built here cell by cell; \<open>pyarrow\<close>, which then
  checks them against the column types, is \<open>env_arrow\<close>. The sinks never pass a Kafka producer to
  \<open>_emit_dlq_event\<close>, so a dead letter is only its log line.
\<close>

section \<open>State\<close>

text \<open>\<open>catalog_loaded\<close> exists in the stand-ins only.\<close>

record catalog_sink = sink +
  catalog_loaded :: bool

record enriched_sink = catalog_sink +
  feast_ready :: bool
  feast_pushes :: "(string \<times> column list) list"
  last_feast_push_ms :: "rat option"

text \<open>
  What a push meets: \<open>env_pandas\<close> is what building the Arrow columns and the data frame raises,
  \<open>env_push_mode\<close> what importing \<open>PushMode\<close> raises, \<open>env_feast\<close> what the store raises for a push.
\<close>

record feast_env = flush_env +
  env_pandas :: "column list \<Rightarrow> exn option"
  env_push_mode :: "exn option"
  env_feast :: "string \<Rightarrow> column list \<Rightarrow> exn option"
  env_push_now :: rat

definition enriched_init :: "rat \<Rightarrow> enriched_sink" where
  "enriched_init now = \<lparr>buffer = [], last_flush_time_sec = now, table_loaded = False, breaker_ready = False,
     written = [], dlq = [], metrics = [], catalog_loaded = False, feast_ready = False, feast_pushes = [],
     last_feast_push_ms = None\<rparr>"

text \<open>\<open>open\<close> of the PyFlink class raises when the catalog or the breaker cannot be had.\<close>

definition enriched_open ::
  "exn option \<Rightarrow> exn option \<Rightarrow> bool \<Rightarrow> enriched_sink \<Rightarrow> enriched_sink \<times> exn option" where
  "enriched_open catalog breaker feast_ok s =
     (case catalog of Some x \<Rightarrow> (s, Some x)
      | None \<Rightarrow> (let s1 = s\<lparr>table_loaded := True\<rparr> in
          case breaker of Some x \<Rightarrow> (s1, Some x)
          | None \<Rightarrow> (s1\<lparr>breaker_ready := True, feast_ready := feast_ok\<rparr>, None)))"

definition standin_enriched_open ::
  "exn option \<Rightarrow> exn option \<Rightarrow> bool \<Rightarrow> enriched_sink \<Rightarrow> enriched_sink" where
  "standin_enriched_open catalog breaker feast_ok s =
     (let s1 = (if catalog = None then s\<lparr>table_loaded := True, catalog_loaded := True\<rparr> else s\<lparr>catalog_loaded := False\<rparr>);
          s2 = (if breaker = None then s1\<lparr>breaker_ready := True\<rparr> else s1)
      in if feast_ok then s2\<lparr>feast_ready := True\<rparr> else s2)"

section \<open>The rows of the enriched table\<close>

definition enriched_fields :: "string list" where
  "enriched_fields =
     [''transaction_id'', ''account_id'', ''merchant_id'', ''amount'', ''currency'', ''event_time'',
      ''enrichment_time'', ''channel'', ''card_bin'', ''card_last4'', ''caller_ip_subnet'', ''api_key_id'',
      ''oauth_scope'', ''geo_lat'', ''geo_lon'', ''masking_lib_version'', ''vel_count_1m'', ''vel_amount_1m'',
      ''vel_count_5m'', ''vel_amount_5m'', ''vel_count_1h'', ''vel_amount_1h'', ''vel_count_24h'',
      ''vel_amount_24h'', ''geo_country'', ''geo_city'', ''geo_network_class'', ''geo_confidence'',
      ''device_first_seen'', ''device_txn_count'', ''device_known_fraud'', ''prev_geo_country'',
      ''prev_txn_time_ms'', ''enrichment_latency_ms'', ''processor_version'', ''schema_version'']"

definition timestamp_fields :: "string list" where
  "timestamp_fields = [''event_time'', ''enrichment_time'', ''device_first_seen'', ''prev_txn_time_ms'']"

definition integer_fields :: "string list" where
  "integer_fields = [''vel_count_1m'', ''vel_count_5m'', ''vel_count_1h'', ''vel_count_24h'',
     ''device_txn_count'', ''enrichment_latency_ms'']"

definition float_fields :: "string list" where
  "float_fields = [''geo_lat'', ''geo_lon'', ''geo_confidence'']"

definition or_none :: "pyval \<Rightarrow> (pyval \<Rightarrow> pyval result) \<Rightarrow> pyval result" where
  "or_none v f = (if v = PNone then Inr PNone else f v)"

definition bool_cell :: "pyval \<Rightarrow> pyval" where
  "bool_cell v =
     (case v of PBool b \<Rightarrow> PBool b
      | PStr s \<Rightarrow> PBool (lower_str s \<in> {''true'', ''1'', ''yes''})
      | _ \<Rightarrow> PBool (truthy v))"

definition enriched_cell :: "(pyval \<Rightarrow> string) \<Rightarrow> string \<Rightarrow> pyval \<Rightarrow> pyval result" where
  "enriched_cell sf field_name v =
     (if is_dec v then Inr v
      else if field_name \<in> set timestamp_fields
      then or_none v (\<lambda>v. rbind (py_int v) (\<lambda>i. Inr (PInt (i * 1000))))
      else if field_name \<in> set integer_fields then or_none v (\<lambda>v. rbind (py_int v) (\<lambda>i. Inr (PInt i)))
      else if field_name \<in> set float_fields then or_none v (\<lambda>v. rbind (py_float v) (\<lambda>f. Inr (PFloat f)))
      else if field_name = ''device_known_fraud'' then or_none v (\<lambda>v. Inr (bool_cell v))
      else or_none v (\<lambda>v. Inr (PStr (py_str sf v))))"

definition enriched_row :: "(pyval \<Rightarrow> string) \<Rightarrow> pydict \<Rightarrow> pyval list result" where
  "enriched_row sf record = rmap (\<lambda>f. enriched_cell sf f (dget record f)) enriched_fields"

definition enriched_table :: "(pyval \<Rightarrow> string) \<Rightarrow> pydict list \<Rightarrow> pyval list list result" where
  "enriched_table sf records = rmap (enriched_row sf) records"

text \<open>The method of the stand-in has the same body.\<close>

definition standin_enriched_table :: "(pyval \<Rightarrow> string) \<Rightarrow> pydict list \<Rightarrow> pyval list list result" where
  "standin_enriched_table sf records = enriched_table sf records"

section \<open>Pushing to Feast\<close>

text \<open>
  The columns are written out in the class; each group is built and pushed in a \<open>try\<close> of its own.
  The PyFlink class logs a failure and goes on, the stand-in raises it. \<open>PushMode\<close> is imported in the
  group of the velocities alone, once its data frame is built; the pushes of the other two groups read the
  same local name, so when the velocities fail before the import both raise UnboundLocalError.
\<close>

definition velocity_columns :: "pydict list \<Rightarrow> int list \<Rightarrow> column list result" where
  "velocity_columns records ts =
     rbind (rmap (\<lambda>(k, t, f). rbind (rmap f records) (\<lambda>cells. Inr (k, t, cells)))
       [(''vel_count_1m'', Int32, int_or_0 ''vel_count_1m''), (''vel_amount_1m'', Float64, float_or_0 ''vel_amount_1m''),
        (''vel_count_5m'', Int32, int_or_0 ''vel_count_5m''), (''vel_amount_5m'', Float64, float_or_0 ''vel_amount_5m''),
        (''vel_count_1h'', Int32, int_or_0 ''vel_count_1h''), (''vel_amount_1h'', Float64, float_or_0 ''vel_amount_1h''),
        (''vel_count_24h'', Int32, int_or_0 ''vel_count_24h''), (''vel_amount_24h'', Float64, float_or_0 ''vel_amount_24h'')])
     (\<lambda>cols. Inr (base_columns records ts @ cols))"

definition geo_columns :: "pydict list \<Rightarrow> int list \<Rightarrow> column list result" where
  "geo_columns records ts =
     rbind (rmap (\<lambda>(k, t, f). rbind (rmap f records) (\<lambda>cells. Inr (k, t, cells)))
       [(''geo_country'', Inferred, str_or_empty ''geo_country''), (''geo_city'', Inferred, str_or_empty ''geo_city''),
        (''geo_network_class'', Inferred, str_or_empty ''geo_network_class''),
        (''geo_confidence'', Float64, float_or_0 ''geo_confidence''),
        (''geo_lat'', Float32, float_or_0 ''geo_lat''), (''geo_lon'', Float32, float_or_0 ''geo_lon'')])
     (\<lambda>cols. Inr (base_columns records ts @ cols))"

text \<open>\<open>int(r.get(k) or 0) if r.get(k) else None\<close>.\<close>

definition int_get_or_none :: "string \<Rightarrow> pydict \<Rightarrow> pyval result" where
  "int_get_or_none k r = (if truthy (dget r k) then int_or_0 k r else Inr PNone)"

definition device_columns :: "pydict list \<Rightarrow> int list \<Rightarrow> column list result" where
  "device_columns records ts =
     rbind (rmap (\<lambda>(k, t, f). rbind (rmap f records) (\<lambda>cells. Inr (k, t, cells)))
       [(''device_first_seen'', Int64, int_get_or_none ''device_first_seen''),
        (''device_txn_count'', Int64, int_or_0 ''device_txn_count''),
        (''device_known_fraud'', Boolean, bool_or_false ''device_known_fraud''),
        (''prev_geo_country'', Inferred, str_or_empty ''prev_geo_country''),
        (''prev_txn_time_ms'', Int64, int_get_or_none ''prev_txn_time_ms'')])
     (\<lambda>cols. Inr (base_columns records ts @ cols))"

definition push_group ::
  "'e feast_env_scheme \<Rightarrow> exn option \<Rightarrow> string \<Rightarrow> column list result \<Rightarrow> enriched_sink \<Rightarrow> enriched_sink \<times> exn option" where
  "push_group e push_mode source cols s =
     (case cols of Inl x \<Rightarrow> (s, Some x)
      | Inr data \<Rightarrow>
          (case env_pandas e data of
             Some x \<Rightarrow> (s, Some x)
           | None \<Rightarrow>
               (case push_mode of
                  Some x \<Rightarrow> (s, Some x)
                | None \<Rightarrow>
                    (case env_feast e source data of
                       Some x \<Rightarrow> (s, Some x)
                     | None \<Rightarrow> (s\<lparr>feast_pushes := feast_pushes s @ [(source, data)]\<rparr>, None)))))"

text \<open>Whether the group of the velocities has bound \<open>PushMode\<close>, and what reading it raises afterwards.\<close>

definition push_mode_bound :: "'e feast_env_scheme \<Rightarrow> column list result \<Rightarrow> bool" where
  "push_mode_bound e velocity \<longleftrightarrow>
     (case velocity of Inl x \<Rightarrow> False | Inr data \<Rightarrow> env_pandas e data = None \<and> env_push_mode e = None)"

definition read_push_mode :: "'e feast_env_scheme \<Rightarrow> column list result \<Rightarrow> exn option" where
  "read_push_mode e velocity =
     (if push_mode_bound e velocity then None
      else Some (Exn OtherException ''cannot access local variable 'PushMode' where it is not associated with a value''))"

definition update_lag :: "rat \<Rightarrow> enriched_sink \<Rightarrow> enriched_sink" where
  "update_lag now_ms s =
     (let last_ms = (case last_feast_push_ms s of None \<Rightarrow> now_ms | Some t \<Rightarrow> t)
      in (count_metric (Materialization_lag (fl (now_ms - last_ms))) s)\<lparr>last_feast_push_ms := Some now_ms\<rparr>)"

definition push_to_feast ::
  "'e feast_env_scheme \<Rightarrow> pydict list \<Rightarrow> enriched_sink \<Rightarrow> enriched_sink \<times> exn option" where
  "push_to_feast e records s =
     (if \<not> feast_ready s then (s, None)
      else case event_timestamps_of records of
        Inl x \<Rightarrow> (s, Some x)
      | Inr ts \<Rightarrow>
          (let s1 = fst (push_group e (env_push_mode e) ''velocity_push_source'' (velocity_columns records ts) s);
               pm = read_push_mode e (velocity_columns records ts);
               s2 = fst (push_group e pm ''geo_push_source'' (geo_columns records ts) s1);
               s3 = fst (push_group e pm ''device_push_source'' (device_columns records ts) s2)
           in (update_lag (env_push_now e) s3, None)))"

text \<open>Here a failure of the velocities ends the method, so the name is bound when the others read it.\<close>

definition standin_push_to_feast ::
  "'e feast_env_scheme \<Rightarrow> pydict list \<Rightarrow> enriched_sink \<Rightarrow> enriched_sink \<times> exn option" where
  "standin_push_to_feast e records s =
     (if \<not> feast_ready s then (s, None)
      else case event_timestamps_of records of
        Inl x \<Rightarrow> (s, Some x)
      | Inr ts \<Rightarrow>
          (case push_group e (env_push_mode e) ''velocity_push_source'' (velocity_columns records ts) s of
             (s1, Some x) \<Rightarrow> (s1, Some x)
           | (s1, None) \<Rightarrow>
               (case push_group e None ''geo_push_source'' (geo_columns records ts) s1 of
                  (s2, Some x) \<Rightarrow> (s2, Some x)
                | (s2, None) \<Rightarrow>
                    (case push_group e None ''device_push_source'' (device_columns records ts) s2 of
                       (s3, Some x) \<Rightarrow> (s3, Some x)
                     | (s3, None) \<Rightarrow> (update_lag (env_push_now e) s3, None)))))"

text \<open>After a successful append: a failed push is counted and does not fail the flush.\<close>

definition after_append ::
  "(pydict list \<Rightarrow> enriched_sink \<Rightarrow> enriched_sink \<times> exn option) \<Rightarrow> pydict list \<Rightarrow> enriched_sink \<Rightarrow> enriched_sink" where
  "after_append push ds s =
     (case push ds s of (s1, None) \<Rightarrow> s1 | (s1, Some x) \<Rightarrow> count_metric Feast_push_failure s1)"

section \<open>Flushing\<close>

text \<open>The outer handler of the flushes, and the dead letters of a table that is not there.\<close>

definition on_flush_error :: "exn \<Rightarrow> pydict list \<Rightarrow> 'a sink_scheme \<Rightarrow> 'a sink_scheme \<times> exn option" where
  "on_flush_error x ds s =
     (if exn_cls x = CircuitBreakerError then emit_dlq ''circuit_open'' (first_txn_id ds) (length ds) s
      else if isinstance x ConnectionError \<or> isinstance x OSError
      then emit_dlq ''catalog_unavailable'' (first_txn_id ds) (length ds) (count_metric Catalog_unavailable s)
      else emit_dlq ''flush_error'' (first_txn_id ds) (length ds) s)"

fun emit_each :: "pydict list \<Rightarrow> 'a sink_scheme \<Rightarrow> 'a sink_scheme \<times> exn option" where
  "emit_each [] s = (s, None)"
| "emit_each (d # ds) s =
     (case emit_dlq ''iceberg_table_not_loaded'' (dget_or d tid_key (PStr ''unknown'')) 1 s of
        (s1, Some x) \<Rightarrow> (s1, Some x)
      | (s1, None) \<Rightarrow> emit_each ds s1)"

text \<open>
  \<open>self._breaker.call\<close>, then \<open>self._table.append\<close>, are looked up before the job is submitted:
  on a sink that was not opened the lookup raises.
\<close>

definition submit_append :: "'e flush_env_scheme \<Rightarrow> pyval list list \<Rightarrow> 'a sink_scheme \<Rightarrow> 'a sink_scheme \<times> exn option" where
  "submit_append e rows s =
     (if \<not> breaker_ready s then (s, Some (Exn AttributeError ''NoneType object has no attribute call''))
      else if \<not> table_loaded s then (s, Some (Exn AttributeError ''NoneType object has no attribute append''))
      else append_rows e rows s)"

definition enriched_write ::
  "(pyval \<Rightarrow> string) \<Rightarrow> 'e feast_env_scheme \<Rightarrow> pydict list \<Rightarrow> enriched_sink \<Rightarrow> enriched_sink \<times> exn option" where
  "enriched_write sf e ds s =
     (if \<not> table_loaded s then emit_each ds s
      else case enriched_table sf ds of
        Inl x \<Rightarrow> (s, Some x)
      | Inr rows \<Rightarrow>
          (case env_arrow e rows of
             Some x \<Rightarrow> (s, Some x)
           | None \<Rightarrow>
               (case submit_append e rows s of
                  (s1, None) \<Rightarrow> (after_append (push_to_feast e) ds s1, None)
                | (s1, Some x) \<Rightarrow>
                    if isinstance x TimeoutError then emit_dlq ''timeout'' (first_txn_id ds) (length ds) s1
                    else (s1, Some x))))"

definition standin_enriched_write ::
  "(pyval \<Rightarrow> string) \<Rightarrow> 'e feast_env_scheme \<Rightarrow> pydict list \<Rightarrow> enriched_sink \<Rightarrow> enriched_sink \<times> exn option" where
  "standin_enriched_write sf e ds s =
     (if \<not> table_loaded s then emit_each ds s
      else if \<not> catalog_loaded s then (s, None)
      else case standin_enriched_table sf ds of
        Inl x \<Rightarrow> (s, Some x)
      | Inr rows \<Rightarrow>
          (case env_arrow e rows of
             Some x \<Rightarrow> (s, Some x)
           | None \<Rightarrow>
               (case append_rows e rows s of
                  (s1, None) \<Rightarrow> (after_append (standin_push_to_feast e) ds s1, None)
                | (s1, Some x) \<Rightarrow> (s1, Some x))))"

text \<open>
  The frame of every flush of the two files: take the time, deduplicate, write under the outer
  handler, and in any case count and clear. \<open>timed\<close>: the flush observes its duration (the sink of
  the decisions does not).
\<close>

definition flush_frame ::
  "bool \<Rightarrow> nat \<Rightarrow> (exn \<Rightarrow> pydict list \<Rightarrow> 'a sink_scheme \<Rightarrow> 'a sink_scheme \<times> exn option) \<Rightarrow>
   ('e flush_env_scheme \<Rightarrow> pydict list \<Rightarrow> 'a sink_scheme \<Rightarrow> 'a sink_scheme \<times> exn option) \<Rightarrow>
   'e flush_env_scheme \<Rightarrow> 'a sink_scheme \<Rightarrow> 'a sink_scheme \<times> exn option" where
  "flush_frame timed buffer_max handler write e s =
     (if buffer s = [] then (s, None)
      else let s1 = s\<lparr>last_flush_time_sec := env_now e\<rparr> in
        case deduplicate (buffer s1) of
          Inl x \<Rightarrow> (s1, Some x)
        | Inr ds \<Rightarrow>
            (let (s3, r) = (case write e ds s1 of
                              (s2, None) \<Rightarrow> (s2, None)
                            | (s2, Some x) \<Rightarrow> handler x ds s2);
                 s4 = (if timed then count_metric Flush_duration s3 else s3);
                 s5 = (if buffer_max \<le> length (buffer s4) then count_metric Buffer_overflow s4 else s4)
             in (s5\<lparr>buffer := []\<rparr>, r)))"

definition enriched_flush ::
  "nat \<Rightarrow> (pyval \<Rightarrow> string) \<Rightarrow> 'e feast_env_scheme \<Rightarrow> enriched_sink \<Rightarrow> enriched_sink \<times> exn option" where
  "enriched_flush buffer_max sf = flush_frame True buffer_max on_flush_error (enriched_write sf)"

definition standin_enriched_flush ::
  "nat \<Rightarrow> (pyval \<Rightarrow> string) \<Rightarrow> 'e feast_env_scheme \<Rightarrow> enriched_sink \<Rightarrow> enriched_sink \<times> exn option" where
  "standin_enriched_flush buffer_max sf = flush_frame True buffer_max on_flush_error (standin_enriched_write sf)"

definition enriched_invoke ::
  "nat \<Rightarrow> (pyval \<Rightarrow> string) \<Rightarrow> 'e feast_env_scheme \<times> 'e feast_env_scheme \<Rightarrow> enriched_sink \<Rightarrow> pydict \<Rightarrow> enriched_sink" where
  "enriched_invoke buffer_max sf = flush_then_append buffer_max (enriched_flush buffer_max sf)"

definition standin_enriched_invoke ::
  "nat \<Rightarrow> (pyval \<Rightarrow> string) \<Rightarrow> 'e feast_env_scheme \<times> 'e feast_env_scheme \<Rightarrow> enriched_sink \<Rightarrow> pydict \<Rightarrow> enriched_sink" where
  "standin_enriched_invoke buffer_max sf = append_then_flush buffer_max (standin_enriched_flush buffer_max sf)"

definition enriched_close ::
  "nat \<Rightarrow> (pyval \<Rightarrow> string) \<Rightarrow> 'e feast_env_scheme \<Rightarrow> enriched_sink \<Rightarrow> enriched_sink \<times> exn option" where
  "enriched_close buffer_max sf e s = enriched_flush buffer_max sf e s"

section \<open>The sink of the decisions\<close>

definition decision_record :: "fraud_decision \<Rightarrow> pydict" where
  "decision_record d =
     [(''transaction_id'', fd_transaction_id d),
      (''decision'', PStr (verdict_name (fd_decision d))),
      (''fraud_score'', PFloat (fd_fraud_score d)),
      (''rule_triggers'', PList (map PStr (fd_rule_triggers d))),
      (''model_version'', PStr (fd_model_version d)),
      (''decision_time_ms'', PInt (fd_decision_time_ms d)),
      (''latency_ms'', PFloat (fd_latency_ms d)),
      (''schema_version'', PStr (fd_schema_version d)),
      (''shadow_determination'', case fd_shadow_determination d of None \<Rightarrow> PNone | Some x \<Rightarrow> PStr (determination_name x)),
      (''shadow_fraud_score'', case fd_shadow_fraud_score d of None \<Rightarrow> PNone | Some x \<Rightarrow> PFloat x),
      (''shadow_rule_triggers'',
         case fd_shadow_rule_triggers d of None \<Rightarrow> PNone | Some xs \<Rightarrow> PList (map PStr xs))]"

definition decision_fields :: "string list" where
  "decision_fields = [''transaction_id'', ''decision'', ''fraud_score'', ''rule_triggers'', ''model_version'',
     ''decision_time_ms'', ''latency_ms'', ''schema_version'']"

definition decision_cell :: "(pyval \<Rightarrow> string) \<Rightarrow> string \<Rightarrow> pyval \<Rightarrow> pyval result" where
  "decision_cell sf field_name v =
     (if field_name \<in> {''fraud_score'', ''latency_ms''}
      then (if v = PNone then Inr (PFloat (Fin 0)) else rbind (py_float v) (\<lambda>f. Inr (PFloat f)))
      else if field_name = ''decision_time_ms''
      then (if v = PNone then Inr (PInt 0) else rbind (py_int v) (\<lambda>i. Inr (PInt (i * 1000))))
      else if field_name = ''rule_triggers''
      then Inr (case v of PList xs \<Rightarrow> PList xs | _ \<Rightarrow> PList [])
      else Inr (PStr (if v = PNone then [] else py_str sf v)))"

definition decision_row :: "(pyval \<Rightarrow> string) \<Rightarrow> pydict \<Rightarrow> pyval list result" where
  "decision_row sf record = rmap (\<lambda>f. decision_cell sf f (dget record f)) decision_fields"

definition decision_table :: "(pyval \<Rightarrow> string) \<Rightarrow> pydict list \<Rightarrow> pyval list list result" where
  "decision_table sf records = rmap (decision_row sf) records"

definition standin_decision_table :: "(pyval \<Rightarrow> string) \<Rightarrow> pydict list \<Rightarrow> pyval list list result" where
  "standin_decision_table sf records = decision_table sf records"

definition decisions_init :: "rat \<Rightarrow> catalog_sink" where
  "decisions_init now = \<lparr>buffer = [], last_flush_time_sec = now, table_loaded = False, breaker_ready = False,
     written = [], dlq = [], metrics = [], catalog_loaded = False\<rparr>"

definition decisions_open :: "exn option \<Rightarrow> exn option \<Rightarrow> catalog_sink \<Rightarrow> catalog_sink \<times> exn option" where
  "decisions_open catalog breaker s =
     (case catalog of Some x \<Rightarrow> (s, Some x)
      | None \<Rightarrow> (let s1 = s\<lparr>table_loaded := True\<rparr> in
          case breaker of Some x \<Rightarrow> (s1, Some x) | None \<Rightarrow> (s1\<lparr>breaker_ready := True\<rparr>, None)))"

definition standin_decisions_open :: "exn option \<Rightarrow> exn option \<Rightarrow> catalog_sink \<Rightarrow> catalog_sink" where
  "standin_decisions_open catalog breaker s =
     (let s1 = (if catalog = None then s\<lparr>table_loaded := True, catalog_loaded := True\<rparr> else s\<lparr>catalog_loaded := False\<rparr>)
      in if breaker = None then s1\<lparr>breaker_ready := True\<rparr> else s1)"

text \<open>There is no test for a missing table here: the attribute lookup on None fails instead.\<close>

definition decisions_write ::
  "(pyval \<Rightarrow> string) \<Rightarrow> flush_env \<Rightarrow> pydict list \<Rightarrow> catalog_sink \<Rightarrow> catalog_sink \<times> exn option" where
  "decisions_write sf e ds s =
     (case decision_table sf ds of
        Inl x \<Rightarrow> (s, Some x)
      | Inr rows \<Rightarrow>
          (case env_arrow e rows of
             Some x \<Rightarrow> (s, Some x)
           | None \<Rightarrow>
               (case submit_append e rows s of
                  (s1, None) \<Rightarrow> (s1, None)
                | (s1, Some x) \<Rightarrow>
                    if isinstance x TimeoutError then emit_dlq ''timeout'' (first_txn_id ds) (length ds) s1
                    else (s1, Some x))))"

definition standin_decisions_write ::
  "(pyval \<Rightarrow> string) \<Rightarrow> flush_env \<Rightarrow> pydict list \<Rightarrow> catalog_sink \<Rightarrow> catalog_sink \<times> exn option" where
  "standin_decisions_write sf e ds s =
     (if catalog_loaded s \<and> table_loaded s
      then (case standin_decision_table sf ds of
              Inl x \<Rightarrow> (s, Some x)
            | Inr rows \<Rightarrow> (case env_arrow e rows of Some x \<Rightarrow> (s, Some x) | None \<Rightarrow> append_rows e rows s))
      else (s, None))"

text \<open>The stand-in does not count an unavailable catalog.\<close>

definition standin_decisions_error :: "exn \<Rightarrow> pydict list \<Rightarrow> 'a sink_scheme \<Rightarrow> 'a sink_scheme \<times> exn option" where
  "standin_decisions_error x ds s =
     emit_dlq (if exn_cls x = CircuitBreakerError then ''circuit_open''
               else if isinstance x ConnectionError \<or> isinstance x OSError then ''catalog_unavailable''
               else ''flush_error'') (first_txn_id ds) (length ds) s"

definition decisions_flush ::
  "nat \<Rightarrow> (pyval \<Rightarrow> string) \<Rightarrow> flush_env \<Rightarrow> catalog_sink \<Rightarrow> catalog_sink \<times> exn option" where
  "decisions_flush buffer_max sf = flush_frame False buffer_max on_flush_error (decisions_write sf)"

definition standin_decisions_flush ::
  "nat \<Rightarrow> (pyval \<Rightarrow> string) \<Rightarrow> flush_env \<Rightarrow> catalog_sink \<Rightarrow> catalog_sink \<times> exn option" where
  "standin_decisions_flush buffer_max sf =
     flush_frame False buffer_max standin_decisions_error (standin_decisions_write sf)"

definition decisions_invoke ::
  "nat \<Rightarrow> (pyval \<Rightarrow> string) \<Rightarrow> flush_env \<times> flush_env \<Rightarrow> catalog_sink \<Rightarrow> pydict \<Rightarrow> catalog_sink" where
  "decisions_invoke buffer_max sf = flush_then_append buffer_max (decisions_flush buffer_max sf)"

definition standin_decisions_invoke ::
  "nat \<Rightarrow> (pyval \<Rightarrow> string) \<Rightarrow> flush_env \<times> flush_env \<Rightarrow> catalog_sink \<Rightarrow> pydict \<Rightarrow> catalog_sink" where
  "standin_decisions_invoke buffer_max sf = flush_then_append buffer_max (standin_decisions_flush buffer_max sf)"

definition decisions_close :: "nat \<Rightarrow> (pyval \<Rightarrow> string) \<Rightarrow> flush_env \<Rightarrow> catalog_sink \<Rightarrow> catalog_sink \<times> exn option" where
  "decisions_close buffer_max sf e s = decisions_flush buffer_max sf e s"

text \<open>The map function of the stream: hands a decision to the sink and returns it.\<close>

definition IcebergSinkFunction_map ::
  "nat \<Rightarrow> (pyval \<Rightarrow> string) \<Rightarrow> flush_env \<times> flush_env \<Rightarrow> fraud_decision option \<Rightarrow> catalog_sink option \<Rightarrow>
   catalog_sink option \<times> fraud_decision option" where
  "IcebergSinkFunction_map buffer_max sf es value s =
     (case (s, value) of
        (Some k, Some d) \<Rightarrow> (Some (decisions_invoke buffer_max sf es k (decision_record d)), value)
      | _ \<Rightarrow> (s, value))"

section \<open>The frame keeps the contract of a sink\<close>

locale framed =
  fixes wr :: "'e flush_env_scheme \<Rightarrow> pydict list \<Rightarrow> 'a sink_scheme \<Rightarrow> 'a sink_scheme \<times> exn option"
    and handler :: "exn \<Rightarrow> pydict list \<Rightarrow> 'a sink_scheme \<Rightarrow> 'a sink_scheme \<times> exn option"
    and writable :: "'a sink_scheme \<Rightarrow> bool"
    and buffer_max :: nat
    and timed :: bool
  assumes max_pos: "0 < buffer_max"
    and write_accounts: "list_all string_id ds \<Longrightarrow> accounted s \<le> accounted (fst (wr e ds s)) \<and>
      (writable s \<longrightarrow> snd (wr e ds s) = None \<longrightarrow> accounted s + length ds \<le> accounted (fst (wr e ds s)))"
    and write_writable: "writable s \<Longrightarrow> writable (fst (wr e ds s))"
    and handler_accounts: "list_all string_id ds \<Longrightarrow> snd (handler x ds s) = None \<and>
      accounted (fst (handler x ds s)) = accounted s + length ds"
    and handler_writable: "writable s \<Longrightarrow> writable (fst (handler x ds s))"
    and writable_update: "writable (s\<lparr>buffer := b\<rparr>) = writable s"
      "writable (s\<lparr>last_flush_time_sec := t\<rparr>) = writable s" "writable (count_metric m s) = writable s"

sublocale framed \<subseteq> flushable "flush_frame timed buffer_max handler wr" writable buffer_max
proof unfold_locales
  fix s :: "'a sink_scheme" and e :: "'e flush_env_scheme"
  let ?s1 = "s\<lparr>last_flush_time_sec := env_now e\<rparr>"
  let ?ds = "keep_first rec_key {} (buffer s)"
  assume ids: "list_all string_id (buffer s)"
  have ok: "list_all string_id ?ds" using keep_first_string_id [OF ids] .
  note d = deduplicate_eq [OF ids]
  have h: "r = None \<and> accounted s'' = accounted s' + length ?ds" if "handler x ?ds s' = (s'', r)" for x s' s'' r
    using handler_accounts [OF ok, of x s'] that by simp
  show "snd (flush_frame timed buffer_max handler wr e s) = None
      \<and> buffer (fst (flush_frame timed buffer_max handler wr e s)) = []"
    using d
    by (auto simp: flush_frame_def Let_def split: prod.splits option.splits dest: h)
  assume w: "writable s"
  then have w1: "writable ?s1" by (simp add: writable_update)
  show "accounted s + length ?ds \<le> accounted (fst (flush_frame timed buffer_max handler wr e s))"
    using write_accounts [OF ok, of ?s1 e] w1 d
    by (auto simp: flush_frame_def Let_def effect_simps split: prod.splits option.splits dest!: h)
next
  fix s :: "'a sink_scheme" and e :: "'e flush_env_scheme"
  assume w: "writable s"
  have h1: "writable s''" if "wr e ds s' = (s'', r)" "writable s'" for ds s' s'' r
    using write_writable [OF that(2), of e ds] that(1) by simp
  have h2: "writable s''" if "handler x ds s' = (s'', r)" "writable s'" for x ds s' s'' r
    using handler_writable [OF that(2), of x ds] that(1) by simp
  show "writable (fst (flush_frame timed buffer_max handler wr e s))"
    using w by (auto simp: flush_frame_def Let_def writable_update split: prod.splits option.splits sum.splits
        dest!: h1 h2)
qed (simp_all add: max_pos writable_update)

section \<open>Every sink keeps it\<close>

lemma on_flush_error_effect:
  assumes "list_all string_id ds"
  shows "snd (on_flush_error x ds s) = None \<and> accounted (fst (on_flush_error x ds s)) = accounted s + length ds"
  using first_txn_id_string [OF assms] by (auto simp: on_flush_error_def emit_dlq_string accounted_def count_metric_def)

lemma standin_decisions_error_effect:
  assumes "list_all string_id ds"
  shows "snd (standin_decisions_error x ds s) = None
    \<and> accounted (fst (standin_decisions_error x ds s)) = accounted s + length ds"
  using first_txn_id_string [OF assms] by (auto simp: standin_decisions_error_def emit_dlq_string accounted_def)

lemma emit_each_eq:
  "list_all string_id ds \<Longrightarrow> emit_each ds s =
     (s\<lparr>dlq := dlq s @ map (\<lambda>d. \<lparr>ev_transaction_id = dget_or d tid_key (PStr ''unknown''),
          ev_reason = ''iceberg_table_not_loaded'', ev_batch_size = 1\<rparr>) ds\<rparr>, None)"
proof (induction ds arbitrary: s)
  case (Cons d ds)
  have "\<exists>t. dget_or d tid_key (PStr ''unknown'') = PStr t"
    using Cons.prems by (auto simp: string_id_def dget_or_def split: option.splits)
  then show ?case using Cons by (auto simp: emit_dlq_string)
qed simp

lemma emit_each_effect:
  "list_all string_id ds \<Longrightarrow> snd (emit_each ds s) = None \<and> accounted (fst (emit_each ds s)) = accounted s + length ds"
  by (simp add: emit_each_eq accounted_def comp_def sum_list_triv)

lemma accounted_feast [effect_simps]:
  "accounted (s\<lparr>feast_pushes := p\<rparr>) = accounted s" "accounted (s\<lparr>last_feast_push_ms := t\<rparr>) = accounted s"
  by (simp_all add: accounted_def)

lemma push_group_accounted: "accounted (fst (push_group e pm source cols s)) = accounted s"
  by (auto simp: push_group_def effect_simps split: sum.splits option.splits)

lemma update_lag_accounted: "accounted (update_lag n s) = accounted s"
  by (simp add: update_lag_def Let_def effect_simps)

lemma push_to_feast_accounted:
  "accounted (fst (push_to_feast e ds s)) = accounted s"
  "accounted (fst (standin_push_to_feast e ds s)) = accounted s"
proof -
  have g: "accounted s' = accounted s''" if "push_group e pm source cols s'' = (s', r)" for pm source cols s' s'' r
    using push_group_accounted [of e pm source cols s''] that by simp
  show "accounted (fst (push_to_feast e ds s)) = accounted s"
    by (auto simp: push_to_feast_def Let_def update_lag_accounted push_group_accounted split: sum.splits)
  show "accounted (fst (standin_push_to_feast e ds s)) = accounted s"
    by (auto simp: standin_push_to_feast_def update_lag_accounted split: sum.splits prod.splits option.splits dest!: g)
qed

lemma after_append_accounted:
  assumes "\<And>ds s. accounted (fst (push ds s)) = accounted s"
  shows "accounted (after_append push ds s) = accounted s"
  using assms [of ds s] by (auto simp: after_append_def effect_simps split: prod.splits option.splits)

lemma rows_length: "enriched_table sf ds = Inr rows \<Longrightarrow> length rows = length ds"
  "decision_table sf ds = Inr rows \<Longrightarrow> length rows = length ds"
  "standin_enriched_table sf ds = Inr rows \<Longrightarrow> length rows = length ds"
  "standin_decision_table sf ds = Inr rows \<Longrightarrow> length rows = length ds"
  by (simp_all add: enriched_table_def decision_table_def standin_enriched_table_def standin_decision_table_def
      rmap_length)

lemma emit_dlq_ok:
  "list_all string_id ds \<Longrightarrow> emit_dlq reason (first_txn_id ds) (length ds) s =
    (s\<lparr>dlq := dlq s @ [\<lparr>ev_transaction_id = first_txn_id ds, ev_reason = reason, ev_batch_size = length ds\<rparr>]\<rparr>, None)"
  using first_txn_id_string emit_dlq_string by blast

lemma accounted_dlq: "accounted (s\<lparr>dlq := dlq s @ [\<lparr>ev_transaction_id = t, ev_reason = r, ev_batch_size = n\<rparr>]\<rparr>)
    = accounted s + n"
  by (simp add: accounted_def)

lemma append_None: "append_rows e rows s = (s', None) \<Longrightarrow> accounted s' = accounted s + length rows"
  by (simp add: append_rows_effect)

lemma append_Some: "append_rows e rows s = (s', Some x) \<Longrightarrow> accounted s \<le> accounted s'"
  by (simp add: append_rows_effect)

lemma submit_None: "submit_append e rows s = (s', None) \<Longrightarrow> accounted s' = accounted s + length rows"
  by (auto simp: submit_append_def append_None split: if_splits)

lemma submit_Some: "submit_append e rows s = (s', Some x) \<Longrightarrow> accounted s \<le> accounted s'"
  by (auto simp: submit_append_def append_Some split: if_splits)

lemmas accounting = emit_each_effect emit_dlq_ok accounted_dlq after_append_accounted push_to_feast_accounted

interpretation enriched: framed "enriched_write sf" on_flush_error "\<lambda>s. True" "Suc n" True for sf n
proof unfold_locales
  fix ds :: "pydict list" and s :: enriched_sink and e :: "'e feast_env_scheme"
  assume "list_all string_id ds"
  then show "accounted s \<le> accounted (fst (enriched_write sf e ds s)) \<and>
      (True \<longrightarrow> snd (enriched_write sf e ds s) = None \<longrightarrow> accounted s + length ds \<le> accounted (fst (enriched_write sf e ds s)))"
    by (auto simp: enriched_write_def accounting split: sum.splits option.splits prod.splits
        dest!: rows_length submit_None submit_Some)
qed (auto simp: on_flush_error_effect)

interpretation decisions: framed "decisions_write sf" on_flush_error "\<lambda>s. True" "Suc n" False for sf n
proof unfold_locales
  fix ds :: "pydict list" and s :: catalog_sink and e :: flush_env
  assume "list_all string_id ds"
  then show "accounted s \<le> accounted (fst (decisions_write sf e ds s)) \<and>
      (True \<longrightarrow> snd (decisions_write sf e ds s) = None \<longrightarrow> accounted s + length ds \<le> accounted (fst (decisions_write sf e ds s)))"
    by (auto simp: decisions_write_def accounting split: sum.splits option.splits prod.splits
        dest!: rows_length submit_None submit_Some)
qed (auto simp: on_flush_error_effect)

text \<open>The stand-ins keep it once their catalog is loaded.\<close>

abbreviation catalog_consistent :: "'a catalog_sink_scheme \<Rightarrow> bool" where
  "catalog_consistent s \<equiv> table_loaded s \<longrightarrow> catalog_loaded s"

lemma catalog_loaded_kept [effect_simps]:
  "catalog_loaded (count_metric m s) = catalog_loaded s"
  "catalog_loaded (fst (emit_dlq reason t n s)) = catalog_loaded s"
  "table_loaded (fst (emit_dlq reason t n s)) = table_loaded s"
  "catalog_loaded (fst (append_rows e rows s)) = catalog_loaded s"
  "table_loaded (fst (append_rows e rows s)) = table_loaded s"
  by (simp_all add: count_metric_def emit_dlq_def append_rows_def split: append_result.splits)

lemma standin_error_kept [effect_simps]:
  "catalog_loaded (fst (on_flush_error x ds s)) = catalog_loaded s"
  "table_loaded (fst (on_flush_error x ds s)) = table_loaded s"
  "catalog_loaded (fst (standin_decisions_error x ds s)) = catalog_loaded s"
  "table_loaded (fst (standin_decisions_error x ds s)) = table_loaded s"
  by (simp_all add: on_flush_error_def standin_decisions_error_def effect_simps)

lemma standin_decisions_write_kept:
  "catalog_loaded (fst (standin_decisions_write sf e ds s)) = catalog_loaded s"
  "table_loaded (fst (standin_decisions_write sf e ds s)) = table_loaded s"
  by (simp_all add: standin_decisions_write_def effect_simps split: sum.splits option.splits)

interpretation standin_decisions:
  framed "standin_decisions_write sf" standin_decisions_error "\<lambda>s. catalog_loaded s \<and> table_loaded s" "Suc n" False for sf n
proof unfold_locales
  fix ds :: "pydict list" and s :: catalog_sink and e :: flush_env
  assume "list_all string_id ds"
  show "accounted s \<le> accounted (fst (standin_decisions_write sf e ds s)) \<and>
      (catalog_loaded s \<and> table_loaded s \<longrightarrow> snd (standin_decisions_write sf e ds s) = None \<longrightarrow>
        accounted s + length ds \<le> accounted (fst (standin_decisions_write sf e ds s)))"
    by (cases "env_append e") (auto simp: standin_decisions_write_def append_rows_def accounted_def
        split: sum.splits option.splits if_splits dest!: rows_length)
qed (auto simp: standin_decisions_error_effect standin_decisions_write_kept effect_simps)

lemma feast_kept:
  "catalog_loaded (fst (push_group e pm source cols s)) = catalog_loaded s"
  "table_loaded (fst (push_group e pm source cols s)) = table_loaded s"
  "catalog_loaded (update_lag n s) = catalog_loaded s" "table_loaded (update_lag n s) = table_loaded s"
  by (auto simp: push_group_def update_lag_def Let_def effect_simps split: sum.splits option.splits)

lemma standin_push_kept:
  "catalog_loaded (fst (standin_push_to_feast e ds s)) = catalog_loaded s
    \<and> table_loaded (fst (standin_push_to_feast e ds s)) = table_loaded s"
proof -
  have g: "catalog_loaded s' = catalog_loaded s'' \<and> table_loaded s' = table_loaded s''"
    if "push_group e pm source cols s'' = (s', r)" for pm source cols s' s'' r
    using feast_kept(1,2) [of e pm source cols s''] that by simp
  show ?thesis
    by (auto simp: standin_push_to_feast_def feast_kept split: sum.splits prod.splits option.splits dest!: g)
qed

lemma emit_each_kept:
  "catalog_loaded (fst (emit_each ds s)) = catalog_loaded s \<and> table_loaded (fst (emit_each ds s)) = table_loaded s"
proof (induction ds arbitrary: s)
  case (Cons d ds)
  obtain s1 r where e: "emit_dlq ''iceberg_table_not_loaded'' (dget_or d tid_key (PStr ''unknown'')) 1 s = (s1, r)"
    by force
  have "catalog_loaded s1 = catalog_loaded s" "table_loaded s1 = table_loaded s"
    using catalog_loaded_kept(2) [of "''iceberg_table_not_loaded''" "dget_or d tid_key (PStr ''unknown'')" 1 s]
      catalog_loaded_kept(3) [of "''iceberg_table_not_loaded''" "dget_or d tid_key (PStr ''unknown'')" 1 s] e
    by simp_all
  with Cons e show ?case by (simp split: option.split)
qed simp

lemma standin_enriched_write_kept:
  "catalog_loaded (fst (standin_enriched_write sf e ds s)) = catalog_loaded s
    \<and> table_loaded (fst (standin_enriched_write sf e ds s)) = table_loaded s"
proof -
  have a: "catalog_loaded s'' = catalog_loaded s' \<and> table_loaded s'' = table_loaded s'"
    if "append_rows e rows s' = (s'', r)" for rows s' s'' r
    using catalog_loaded_kept(4,5) [of e rows s'] that by simp
  have p: "catalog_loaded s'' = catalog_loaded s' \<and> table_loaded s'' = table_loaded s'"
    if "standin_push_to_feast e ds s' = (s'', r)" for s' s'' r
    using standin_push_kept [of e ds s'] that by simp
  show ?thesis
    by (auto simp: standin_enriched_write_def emit_each_kept after_append_def effect_simps
        split: sum.splits prod.splits option.splits dest!: a p)
qed

interpretation standin_enriched:
  framed "standin_enriched_write sf" on_flush_error catalog_consistent "Suc n" True for sf n
proof unfold_locales
  fix ds :: "pydict list" and s :: enriched_sink and e :: "'e feast_env_scheme"
  assume "list_all string_id ds"
  then show "accounted s \<le> accounted (fst (standin_enriched_write sf e ds s)) \<and>
      (catalog_consistent s \<longrightarrow> snd (standin_enriched_write sf e ds s) = None \<longrightarrow>
        accounted s + length ds \<le> accounted (fst (standin_enriched_write sf e ds s)))"
    by (auto simp: standin_enriched_write_def accounting split: sum.splits option.splits prod.splits
        dest!: rows_length append_None append_Some)
qed (auto simp: on_flush_error_effect standin_enriched_write_kept effect_simps)

interpretation base_enriched: record_table "enriched_table sf" "\<lambda>ds. None" "Suc n" for sf n
  by unfold_locales (auto dest: rows_length)

interpretation base_decisions: record_table "decision_table sf" "\<lambda>ds. None" "Suc n" for sf n
  by unfold_locales (auto dest: rows_length)

section \<open>Properties\<close>

text \<open>C10: The sink of the enriched transactions loses nothing silently and stays bounded: from an
  empty buffer, whatever the catalog, the breaker, Arrow and the clock do, after any sequence of
  records with distinct ids the buffer is shorter than its limit, and once the sink is closed at
  least as many rows and dead-lettered records have been added as records came in.\<close>

theorem enriched_sink_accounts:
  fixes f :: "'e feast_env_scheme" and evs :: "(('e feast_env_scheme \<times> 'e feast_env_scheme) \<times> pydict) list"
  assumes "0 < buffer_max" "buffer s = []"
    and "list_all (\<lambda>(e, v). string_id v) evs" "distinct (map rec_key (map snd evs))"
  shows "length (buffer (fold (\<lambda>(e, v) s. enriched_invoke buffer_max sf e s v) evs s)) < buffer_max
    \<and> accounted s + length evs
       \<le> accounted (fst (enriched_close buffer_max sf f (fold (\<lambda>(e, v) s. enriched_invoke buffer_max sf e s v) evs s)))"
proof -
  obtain n where n: "buffer_max = Suc n" using assms(1) by (cases buffer_max) auto
  show ?thesis
    using enriched.timely.run_bounded [where s = s and n = n and sf = sf and evs = evs]
      enriched.timely.run_accounted [where s = s and n = n and sf = sf and evs = evs and f = "(f, f)"] assms
    unfolding enriched_invoke_def enriched_flush_def enriched_close_def n by simp
qed

lemma enriched_sink_accounts_witness:
  "\<exists>s. buffer s = [] \<and> accounted s + 2 \<le>
     accounted (fst (enriched_close 100 (\<lambda>v. [])
       \<lparr>env_now = 5, env_arrow = (\<lambda>rows. None), env_append = Append_raised (Exn ConnectionError []) False,
        env_pandas = (\<lambda>cols. None), env_push_mode = None, env_feast = (\<lambda>k cols. None), env_push_now = 5\<rparr>
       (fold (\<lambda>(e, v) s. enriched_invoke 100 (\<lambda>v. []) e s v)
         [((\<lparr>env_now = 0, env_arrow = (\<lambda>rows. None), env_append = Appended,
             env_pandas = (\<lambda>cols. None), env_push_mode = None, env_feast = (\<lambda>k cols. None), env_push_now = 0\<rparr>,
            \<lparr>env_now = 0, env_arrow = (\<lambda>rows. None), env_append = Appended,
             env_pandas = (\<lambda>cols. None), env_push_mode = None, env_feast = (\<lambda>k cols. None), env_push_now = 0\<rparr>), [(tid_key, PStr ''a'')]),
          ((\<lparr>env_now = 3, env_arrow = (\<lambda>rows. None), env_append = Appended,
             env_pandas = (\<lambda>cols. None), env_push_mode = None, env_feast = (\<lambda>k cols. None), env_push_now = 3\<rparr>,
            \<lparr>env_now = 3, env_arrow = (\<lambda>rows. None), env_append = Appended,
             env_pandas = (\<lambda>cols. None), env_push_mode = None, env_feast = (\<lambda>k cols. None), env_push_now = 3\<rparr>), [(tid_key, PStr ''b'')])] s)))"
  (is "\<exists>s. _ \<and> _ \<le> accounted (fst (enriched_close _ _ ?f (fold _ ?evs s)))")
proof -
  have "list_all (\<lambda>(e, v). string_id v) ?evs" "distinct (map rec_key (map snd ?evs))"
    by (simp_all add: string_id_def dget_or_def)
  moreover have "buffer (enriched_init 0) = []" by (simp add: enriched_init_def)
  ultimately show ?thesis
    using enriched_sink_accounts [of 100 "enriched_init 0" ?evs "\<lambda>v. []" ?f] by auto
qed

text \<open>A decision is written exactly: for a decision whose id is a string, the row holds its id,
  verdict, score, triggers, model version, time in microseconds, latency and schema version, in the
  order of the table. The shadow fields of the decision are not in the table.\<close>

theorem decision_row_exact:
  assumes "fd_transaction_id d = PStr t"
  shows "decision_row sf (decision_record d) =
    Inr [PStr t, PStr (verdict_name (fd_decision d)), PFloat (fd_fraud_score d),
         PList (map PStr (fd_rule_triggers d)), PStr (fd_model_version d),
         PInt (fd_decision_time_ms d * 1000), PFloat (fd_latency_ms d), PStr (fd_schema_version d)]"
  using assms
  by (simp add: decision_row_def decision_fields_def decision_cell_def decision_record_def dget_def)

lemma decision_row_exact_witness:
  "decision_row (\<lambda>v. []) (decision_record (FraudDecision (PStr ''t1'') BLOCK (Fin (1 / 2)) [''VEL-001''] 7)) =
    Inr [PStr ''t1'', PStr ''BLOCK'', PFloat (Fin (1 / 2)), PList [PStr ''VEL-001''], PStr ''rule-only'',
         PInt 7000, PFloat (Fin 0), PStr ''1'']"
  by (subst decision_row_exact) (simp_all add: FraudDecision_def)

text \<open>A flush of a sink that is open, with a buffer of string ids and an Arrow table that builds.\<close>

lemma enriched_flush_unfold:
  assumes "table_loaded s" "breaker_ready s" "buffer s \<noteq> []" "list_all string_id (buffer s)"
    and "enriched_table sf (keep_first rec_key {} (buffer s)) = Inr rows" "env_arrow e rows = None"
  shows "enriched_flush buffer_max sf e s =
    (let ds = keep_first rec_key {} (buffer s);
         (s3, r) = (case append_rows e rows (s\<lparr>last_flush_time_sec := env_now e\<rparr>) of
             (s1, None) \<Rightarrow> (after_append (push_to_feast e) ds s1, None)
           | (s1, Some x) \<Rightarrow>
               if isinstance x TimeoutError then emit_dlq ''timeout'' (first_txn_id ds) (length ds) s1
               else on_flush_error x ds s1);
         s4 = count_metric Flush_duration s3;
         s5 = (if buffer_max \<le> length (buffer s4) then count_metric Buffer_overflow s4 else s4)
     in (s5\<lparr>buffer := []\<rparr>, r))"
  using assms keep_first_string_id [OF assms(4)]
  by (auto simp: enriched_flush_def flush_frame_def deduplicate_eq enriched_write_def submit_append_def Let_def
      emit_dlq_ok split: prod.split option.split)

lemma push_group_fields:
  "written (fst (push_group e pm source cols s)) = written s" "dlq (fst (push_group e pm source cols s)) = dlq s"
  "buffer (fst (push_group e pm source cols s)) = buffer s"
  by (auto simp: push_group_def split: sum.splits option.splits)

lemma after_append_fields:
  "written (after_append (push_to_feast e) ds s) = written s" "dlq (after_append (push_to_feast e) ds s) = dlq s"
  "buffer (after_append (push_to_feast e) ds s) = buffer s"
  by (auto simp: after_append_def push_to_feast_def update_lag_def count_metric_def push_group_fields Let_def
      split: sum.splits prod.splits option.splits)

text \<open>A successful flush writes each transaction of the batch once: the rows appended are those of
  the first record of every id in the buffer, in the order of arrival, no id twice, and nothing is
  dead-lettered.\<close>

theorem enriched_flush_writes_first:
  assumes "table_loaded s" "breaker_ready s" "buffer s \<noteq> []" "list_all string_id (buffer s)"
    and "enriched_table sf (keep_first rec_key {} (buffer s)) = Inr rows" "env_arrow e rows = None"
    and "env_append e = Appended"
  shows "written (fst (enriched_flush buffer_max sf e s)) = written s @ rows
    \<and> dlq (fst (enriched_flush buffer_max sf e s)) = dlq s
    \<and> list_all2 (\<lambda>d row. enriched_row sf d = Inr row) (keep_first rec_key {} (buffer s)) rows
    \<and> distinct (map rec_key (keep_first rec_key {} (buffer s)))
    \<and> rec_key ` set (keep_first rec_key {} (buffer s)) = rec_key ` set (buffer s)"
  using assms keep_first_distinct [of rec_key "{}" "buffer s"] keep_first_keys [of rec_key "{}" "buffer s"]
  by (simp add: enriched_flush_unfold append_rows_def Let_def effect_simps after_append_fields
      enriched_table_def rmap_Inr_iff)

definition sample_env :: "append_result \<Rightarrow> feast_env" where
  "sample_env a = \<lparr>env_now = 5, env_arrow = (\<lambda>rows. None), env_append = a, env_pandas = (\<lambda>cols. None), env_push_mode = None, env_feast = (\<lambda>k cols. None), env_push_now = 5\<rparr>"

definition sample_sink :: enriched_sink where
  "sample_sink = (fst (enriched_open None None False (enriched_init 0)))
     \<lparr>buffer := [[(tid_key, PStr ''a'')], [(tid_key, PStr ''b'')], [(tid_key, PStr ''a''), (''amount'', PInt 2)]]\<rparr>"

lemma sample_sink_facts:
  "table_loaded sample_sink" "breaker_ready sample_sink" "buffer sample_sink \<noteq> []" "list_all string_id (buffer sample_sink)"
  "keep_first rec_key {} (buffer sample_sink) = [[(tid_key, PStr ''a'')], [(tid_key, PStr ''b'')]]"
  "written sample_sink = []" "dlq sample_sink = []"
  by (simp_all add: sample_sink_def enriched_open_def enriched_init_def string_id_def dget_or_def)

lemma sample_rows: "\<exists>r1 r2. enriched_table (\<lambda>v. []) [[(tid_key, PStr ''a'')], [(tid_key, PStr ''b'')]] = Inr [r1, r2]"
  by (simp add: enriched_table_def enriched_row_def enriched_fields_def enriched_cell_def or_none_def dget_def
      timestamp_fields_def integer_fields_def float_fields_def)

lemma enriched_flush_writes_first_witness:
  "length (written (fst (enriched_flush 100 (\<lambda>v. []) (sample_env Appended) sample_sink))) = 2"
proof -
  obtain r1 r2 where "enriched_table (\<lambda>v. []) (keep_first rec_key {} (buffer sample_sink)) = Inr [r1, r2]"
    using sample_rows by (auto simp: sample_sink_facts)
  from enriched_flush_writes_first [OF sample_sink_facts(1-4) this, of "sample_env Appended" 100]
  show ?thesis by (simp add: sample_env_def sample_sink_facts)
qed

text \<open>A flush that times out may be reported as lost although it is not: when the append takes more
  than five seconds and then lands, the batch is both in the table and in the dead letters, since
  leaving the thread pool waits for the append that the time limit was to cut off.\<close>

theorem timed_out_batch_written_and_dead_lettered:
  assumes "table_loaded s" "breaker_ready s" "buffer s \<noteq> []" "list_all string_id (buffer s)"
    and "enriched_table sf (keep_first rec_key {} (buffer s)) = Inr rows" "env_arrow e rows = None"
    and "env_append e = Append_raised x True" "isinstance x TimeoutError"
  shows "written (fst (enriched_flush buffer_max sf e s)) = written s @ rows
    \<and> dlq (fst (enriched_flush buffer_max sf e s)) = dlq s @
        [\<lparr>ev_transaction_id = first_txn_id (keep_first rec_key {} (buffer s)), ev_reason = ''timeout'',
          ev_batch_size = length rows\<rparr>]"
  using assms keep_first_string_id [OF assms(4)] rows_length(1) [OF assms(5)]
  by (simp add: enriched_flush_unfold append_rows_def Let_def effect_simps emit_dlq_ok)

lemma timed_out_batch_written_and_dead_lettered_witness:
  "\<exists>s. let s' = fst (enriched_flush 100 (\<lambda>v. []) (sample_env (Append_raised (Exn TimeoutError []) True)) s)
    in length (written s') = 2 \<and> length (dlq s') = 1"
proof -
  obtain r1 r2 where "enriched_table (\<lambda>v. []) (keep_first rec_key {} (buffer sample_sink)) = Inr [r1, r2]"
    using sample_rows by (auto simp: sample_sink_facts)
  from timed_out_batch_written_and_dead_lettered [OF sample_sink_facts(1-4) this,
      of "sample_env (Append_raised (Exn TimeoutError []) True)" "Exn TimeoutError []" 100]
  show ?thesis by (intro exI [of _ sample_sink]) (simp add: sample_env_def sample_sink_facts isinstance_def)
qed

section \<open>Two ways to materialise\<close>

lemma int_get_or_none_eq: "int_get_or_none k = int_or_none k"
  by (auto simp: fun_eq_iff int_get_or_none_def int_or_none_def int_or_0_def py_or_def dget_def dsub_def
      split: option.splits)

lemma columns_eq:
  "velocity_columns rs ts = rbind (extract_columns VELOCITY_COLUMNS rs) (\<lambda>cols. Inr (base_columns rs ts @ cols))"
  "geo_columns rs ts = rbind (extract_columns GEO_COLUMNS rs) (\<lambda>cols. Inr (base_columns rs ts @ cols))"
  "device_columns rs ts = rbind (extract_columns DEVICE_COLUMNS rs) (\<lambda>cols. Inr (base_columns rs ts @ cols))"
  by (simp_all add: velocity_columns_def geo_columns_def device_columns_def extract_columns_def VELOCITY_COLUMNS_def
      GEO_COLUMNS_def DEVICE_COLUMNS_def column_of_def int_get_or_none_eq)

text \<open>A push as the materializer makes it, which imports \<open>PushMode\<close> for each group.\<close>

definition feast_push :: "'e feast_env_scheme \<Rightarrow> string \<Rightarrow> column list \<Rightarrow> exn option" where
  "feast_push e source data =
     (case env_push_mode e of
        Some x \<Rightarrow> Some x
      | None \<Rightarrow> (case env_pandas e data of Some x \<Rightarrow> Some x | None \<Rightarrow> env_feast e source data))"

lemma push_group_pushes:
  "feast_pushes (fst (push_group e (env_push_mode e) (fst grp) (rbind (extract_columns (snd grp) rs) (\<lambda>cols. Inr (base_columns rs ts @ cols))) s))
   = push_feature_group (feast_push e) rs ts grp (feast_pushes s)"
  by (cases "extract_columns (snd grp) rs")
    (auto simp: push_group_def push_feature_group_def feast_push_def Let_def split: option.split)

lemma push_group_refused: "fst (push_group e (Some x) source cols s) = s"
  by (auto simp: push_group_def split: sum.split option.split)

text \<open>C20: The table-driven materializer and the pushes written out in the PyFlink sink, from the same online
  store and a nonempty batch. They raise the same exception, when an event time cannot be read; and when the
  velocities of the batch build and PushMode can be imported they leave the same pushes, group by
  group, whichever pushes the store refuses and whichever of the other groups do not build. When the
  velocities do not build (or the import fails) the sink pushes nothing at all, because its other two groups
  read the PushMode that the velocity group imports, while the materializer pushes every group that builds.\<close>

theorem materializer_equivalent:
  assumes "records \<noteq> []" "feast_ready s" "pushes m = feast_pushes s"
  shows "snd (materialize (feast_push e) now_ms records m) = snd (push_to_feast e records s) \<and>
    (case event_timestamps_of records of
       Inl x \<Rightarrow> pushes (fst (materialize (feast_push e) now_ms records m)) = feast_pushes s \<and>
         feast_pushes (fst (push_to_feast e records s)) = feast_pushes s
     | Inr ts \<Rightarrow>
         if push_mode_bound e (velocity_columns records ts)
         then feast_pushes (fst (push_to_feast e records s)) = pushes (fst (materialize (feast_push e) now_ms records m))
         else feast_pushes (fst (push_to_feast e records s)) = feast_pushes s \<and>
           pushes (fst (materialize (feast_push e) now_ms records m)) =
             push_feature_group (feast_push e) records ts (''device_push_source'', DEVICE_COLUMNS)
               (push_feature_group (feast_push e) records ts (''geo_push_source'', GEO_COLUMNS) (feast_pushes s)))"
proof (cases "event_timestamps_of records")
  case (Inl x)
  then show ?thesis using assms by (simp add: materialize_def push_to_feast_def)
next
  case (Inr ts)
  note eqs = push_group_pushes [of e "(''velocity_push_source'', VELOCITY_COLUMNS)" records ts]
      push_group_pushes [of e "(''geo_push_source'', GEO_COLUMNS)" records ts]
      push_group_pushes [of e "(''device_push_source'', DEVICE_COLUMNS)" records ts]
  have m: "pushes (fst (materialize (feast_push e) now_ms records m)) =
      fold (push_feature_group (feast_push e) records ts) FEATURE_GROUPS (feast_pushes s)"
    "snd (materialize (feast_push e) now_ms records m) = None"
    using assms Inr by (simp_all add: materialize_def Let_def update_staleness_gauge_def lag_gauge_module)
  show ?thesis
  proof (cases "push_mode_bound e (velocity_columns records ts)")
    case True
    then have "env_push_mode e = None" by (simp add: push_mode_bound_def split: sum.splits)
    then show ?thesis
      using True assms Inr m eqs
      by (simp add: push_to_feast_def read_push_mode_def Let_def update_lag_def count_metric_def FEATURE_GROUPS_def columns_eq)
  next
    case False
    have v: "fst (push_group e (env_push_mode e) ''velocity_push_source'' (velocity_columns records ts) s) = s"
      using False by (auto simp: push_group_def push_mode_bound_def split: sum.splits option.splits)
    then have "push_feature_group (feast_push e) records ts (''velocity_push_source'', VELOCITY_COLUMNS) (feast_pushes s) =
        feast_pushes s"
      using eqs(1) [of s] by (simp add: columns_eq)
    then show ?thesis
      using False assms Inr m v
      by (simp add: push_to_feast_def read_push_mode_def push_group_refused Let_def update_lag_def count_metric_def
          FEATURE_GROUPS_def)
  qed
qed

lemma materializer_equivalent_witness:
  "\<exists>s m. feast_ready s \<and> pushes m = feast_pushes s \<and>
     snd (materialize (feast_push (sample_env Appended)) 5 [[(''event_time'', PInt 3)]] m)
       = snd (push_to_feast (sample_env Appended) [[(''event_time'', PInt 3)]] s)"
proof -
  define s where "s = fst (enriched_open None None True (enriched_init 0))"
  define m where "m = \<lparr>pushes = [], last_push_ms = 0, lag_gauge = None\<rparr>"
  have "feast_ready s" "pushes m = feast_pushes s"
    by (simp_all add: s_def m_def enriched_open_def enriched_init_def)
  with materializer_equivalent [of "[[(''event_time'', PInt 3)]]" s m "sample_env Appended" 5] show ?thesis by blast
qed

end
