(* ===== verification/Iceberg_Dlq.thy ===== *)
theory Iceberg_Dlq
  imports Iceberg_Sinks Wire Config
begin

text \<open>
  What the Iceberg sinks send out for a lost batch: \<open>_emit_dlq_event\<close> of \<open>pipelines/processing/operators/iceberg_sink.py\<close>
  with its optional Kafka producer, and of \<open>scoring/sinks/iceberg_decisions.py\<close>; and the buffer sizes both modules
  read from the environment when they are imported. \<open>json.dumps\<close>, the Avro writer and the producer are arguments.
\<close>

section \<open>The events\<close>

definition enriched_dlq_payload :: "dlq_event \<Rightarrow> pydict" where
  "enriched_dlq_payload ev =
     [(''event'', PStr ''iceberg_sink_dlq''), (''transaction_id'', ev_transaction_id ev), (''reason'', PStr (ev_reason ev)),
      (''batch_size'', PInt (int (ev_batch_size ev)))]"

definition decisions_dlq_payload :: "dlq_event \<Rightarrow> pydict" where
  "decisions_dlq_payload ev =
     [(''event'', PStr ''iceberg_decisions_sink_dlq''), (''transaction_id'', ev_transaction_id ev),
      (''reason'', PStr (ev_reason ev)), (''batch_size'', PInt (int (ev_batch_size ev)))]"

definition emit_decisions_event :: "(pydict \<Rightarrow> string result) \<Rightarrow> dlq_event \<Rightarrow> string list \<Rightarrow> string list \<times> unit result" where
  "emit_decisions_event dumps ev lines =
     (case dumps (decisions_dlq_payload ev) of Inl e \<Rightarrow> (lines, Inl e) | Inr line \<Rightarrow> (lines @ [line], Inr ()))"

text \<open>The log of dead letters and what a producer took; the Avro schema admits a text or null as identifier.\<close>

record dlq_outlet =
  dq_log :: "string list"
  dq_produced :: "(8 word list \<times> pyval) list"

definition text_or_null :: "pyval \<Rightarrow> string option result" where
  "text_or_null v = (case v of PNone \<Rightarrow> Inr None | PStr t \<Rightarrow> Inr (Some t) | _ \<Rightarrow> raise_exn ValueError ''not a string or null'')"

definition produce_dlq_event ::
  "(dlq_record \<Rightarrow> 8 word list result) \<Rightarrow> (string \<Rightarrow> 8 word list) \<Rightarrow> dlq_context \<Rightarrow> (8 word list \<Rightarrow> pyval \<Rightarrow> exn option) \<Rightarrow>
   dlq_event \<Rightarrow> string \<Rightarrow> (8 word list \<times> pyval) result" where
  "produce_dlq_event writer utf8 cx prd ev line =
     rbind (text_or_null (ev_transaction_id ev)) (\<lambda>t.
     rbind (serialise_dlq_record writer 0
       (build_dlq_record cx ''iceberg_sink'' 0 0 (utf8 line) ''iceberg_sink_dlq'' (ev_reason ev) t None None 0)) (\<lambda>bytes.
     case prd bytes (ev_transaction_id ev) of Some e \<Rightarrow> Inl e | None \<Rightarrow> Inr (bytes, ev_transaction_id ev)))"

definition emit_dlq_event ::
  "(pydict \<Rightarrow> string result) \<Rightarrow> (dlq_record \<Rightarrow> 8 word list result) \<Rightarrow> (string \<Rightarrow> 8 word list) \<Rightarrow> dlq_context \<Rightarrow>
   (8 word list \<Rightarrow> pyval \<Rightarrow> exn option) option \<Rightarrow> dlq_event \<Rightarrow> dlq_outlet \<Rightarrow> dlq_outlet \<times> unit result" where
  "emit_dlq_event dumps writer utf8 cx dlq_producer ev o1 =
     (case dumps (enriched_dlq_payload ev) of
        Inl e \<Rightarrow> (o1, Inl e)
      | Inr line \<Rightarrow>
          (let o2 = o1\<lparr>dq_log := dq_log o1 @ [line]\<rparr> in
           case dlq_producer of
             None \<Rightarrow> (o2, Inr ())
           | Some prd \<Rightarrow>
               (case produce_dlq_event writer utf8 cx prd ev line of
                  Inl e \<Rightarrow> (o2, Inr ())
                | Inr m \<Rightarrow> (o2\<lparr>dq_produced := dq_produced o2 @ [m]\<rparr>, Inr ()))))"

text \<open>The calls the sinks make, all without a producer.\<close>

definition sink_dead_letters ::
  "(pydict \<Rightarrow> string result) \<Rightarrow> (dlq_record \<Rightarrow> 8 word list result) \<Rightarrow> (string \<Rightarrow> 8 word list) \<Rightarrow> dlq_context \<Rightarrow> dlq_event list \<Rightarrow>
   dlq_outlet \<Rightarrow> dlq_outlet" where
  "sink_dead_letters dumps writer utf8 cx evs o1 =
     fold (\<lambda>ev q. fst (emit_dlq_event dumps writer utf8 cx None ev q)) evs o1"

definition enriched_buffer_max :: "environ \<Rightarrow> int result" where
  "enriched_buffer_max env = py_int (PStr (env_get env ''ICEBERG_BUFFER_MAX'' ''100''))"

definition decisions_buffer_max :: "environ \<Rightarrow> int result" where
  "decisions_buffer_max env = py_int (PStr (env_get env ''ICEBERG_DECISIONS_BUFFER_MAX'' ''100''))"

section \<open>Lemmas\<close>

text \<open>A buffer size that is no integer stops the import of the module.\<close>

lemma default_buffer_sizes: "enriched_buffer_max (\<lambda>_. None) = Inr 100" "decisions_buffer_max (\<lambda>_. None) = Inr 100"
  by code_simp+

lemma bad_buffer_size_stops_import: "env ''ICEBERG_BUFFER_MAX'' = Some ''many'' \<Longrightarrow> isl (enriched_buffer_max env)"
proof -
  assume "env ''ICEBERG_BUFFER_MAX'' = Some ''many''"
  moreover have "isl (py_int (PStr ''many''))" by code_simp
  ultimately show ?thesis by (simp add: enriched_buffer_max_def env_get_def)
qed

text \<open>Nothing the sinks dead-letter reaches Kafka: each event is one line of the log.\<close>

lemma sinks_only_log:
  assumes "\<And>d. \<exists>line. dumps d = Inr line"
  shows "dq_produced (sink_dead_letters dumps writer utf8 cx evs q) = dq_produced q \<and>
    length (dq_log (sink_dead_letters dumps writer utf8 cx evs q)) = length (dq_log q) + length evs"
proof (induction evs arbitrary: q)
  case (Cons ev evs)
  obtain line where "dumps (enriched_dlq_payload ev) = Inr line" using assms by blast
  then show ?case using Cons [of "q\<lparr>dq_log := dq_log q @ [line]\<rparr>"] by (simp add: sink_dead_letters_def emit_dlq_event_def)
qed (simp add: sink_dead_letters_def)

text \<open>Were a producer passed, its message would carry that line and nothing more.\<close>

lemma produced_event_carries_line:
  assumes "emit_dlq_event dumps writer utf8 cx (Some prd) ev q = (q', Inr ())" "dq_produced q' = dq_produced q @ [(bytes, key)]"
  shows "\<exists>line t. dumps (enriched_dlq_payload ev) = Inr line \<and> key = ev_transaction_id ev \<and>
    serialise_dlq_record writer 0
      (build_dlq_record cx ''iceberg_sink'' 0 0 (utf8 line) ''iceberg_sink_dlq'' (ev_reason ev) t None None 0) = Inr bytes"
  using assms
  by (auto simp: emit_dlq_event_def produce_dlq_event_def result_simps Let_def split: sum.splits option.splits)

end
