(* ===== verification/Replay_Models.thy ===== *)
theory Replay_Models
  imports Py_Parse Config
begin

text \<open>
  \<open>pipelines/replay/models.py\<close>: the configuration of a replay, the comparison of one event with
  its original, the status of a job and the summary of a comparison. A \<open>datetime\<close> is its instant in
  microseconds; its ISO text is produced and read by the arguments \<open>isoformat\<close> and
  \<open>fromisoformat\<close>. Scores are dynamic values, since the original one comes from the payload and the
  new one from the scoring function the caller supplies.
\<close>

section \<open>Floating-point arithmetic\<close>

fun fl_sub :: "pyfloat \<Rightarrow> pyfloat \<Rightarrow> pyfloat" where
  "fl_sub (Fin x) (Fin y) = to_double (x - y)"
| "fl_sub NaN y = NaN"
| "fl_sub x NaN = NaN"
| "fl_sub PosInf PosInf = NaN"
| "fl_sub NegInf NegInf = NaN"
| "fl_sub PosInf y = PosInf"
| "fl_sub NegInf y = NegInf"
| "fl_sub x PosInf = NegInf"
| "fl_sub x NegInf = PosInf"

fun fl_add :: "pyfloat \<Rightarrow> pyfloat \<Rightarrow> pyfloat" where
  "fl_add (Fin x) (Fin y) = to_double (x + y)"
| "fl_add NaN y = NaN"
| "fl_add x NaN = NaN"
| "fl_add PosInf NegInf = NaN"
| "fl_add NegInf PosInf = NaN"
| "fl_add PosInf y = PosInf"
| "fl_add NegInf y = NegInf"
| "fl_add x PosInf = PosInf"
| "fl_add x NegInf = NegInf"

fun fl_abs :: "pyfloat \<Rightarrow> pyfloat" where
  "fl_abs (Fin x) = Fin \<bar>x\<bar>"
| "fl_abs NaN = NaN"
| "fl_abs _ = PosInf"

text \<open>\<open>x / n\<close> and \<open>round(x, k)\<close>; the latter rounds the exact value of the double half to even.\<close>

fun fl_div_nat :: "pyfloat \<Rightarrow> nat \<Rightarrow> pyfloat" where
  "fl_div_nat (Fin x) n = to_double (x / of_nat n)"
| "fl_div_nat f n = f"

fun fl_round :: "nat \<Rightarrow> pyfloat \<Rightarrow> pyfloat" where
  "fl_round k (Fin x) = to_double (of_int (round_half_even (x * 10 ^ k)) / 10 ^ k)"
| "fl_round k f = f"

text \<open>\<open>a - b\<close> on scores: integers exactly, otherwise in doubles.\<close>

fun as_int :: "pyval \<Rightarrow> int option" where
  "as_int (PInt i) = Some i"
| "as_int (PBool b) = Some (if b then 1 else 0)"
| "as_int _ = None"

fun is_score :: "pyval \<Rightarrow> bool" where
  "is_score (PFloat f) = True"
| "is_score v = (as_int v \<noteq> None)"

definition py_arith :: "(int \<Rightarrow> int \<Rightarrow> int) \<Rightarrow> (pyfloat \<Rightarrow> pyfloat \<Rightarrow> pyfloat) \<Rightarrow> pyval \<Rightarrow> pyval \<Rightarrow> pyval result" where
  "py_arith iop fop a b =
     (case (as_int a, as_int b) of
        (Some i, Some j) \<Rightarrow> Inr (PInt (iop i j))
      | _ \<Rightarrow>
          (if is_score a \<and> is_score b
           then rbind (py_float a) (\<lambda>f. rbind (py_float b) (\<lambda>g. Inr (PFloat (fop f g))))
           else raise_exn TypeError ''unsupported operand type(s)''))"

definition py_sub :: "pyval \<Rightarrow> pyval \<Rightarrow> pyval result" where
  "py_sub = py_arith (-) fl_sub"

text \<open>
  \<open>sum\<close>, division by a count, \<open>abs\<close>, \<open>max\<close> and \<open>round\<close> on such values; \<open>max\<close> keeps the first of equals. \<open>sum\<close>
  is that of Python 3.11, which the images and the continuous integration run: each partial sum of floats is
  rounded (Python 3.12 began to compensate the error).
\<close>

fun py_sum :: "pyval \<Rightarrow> pyval list \<Rightarrow> pyval result" where
  "py_sum acc [] = Inr acc"
| "py_sum acc (v # vs) = rbind (py_arith (+) fl_add acc v) (\<lambda>a. py_sum a vs)"

definition py_div_count :: "pyval \<Rightarrow> nat \<Rightarrow> pyval result" where
  "py_div_count v n =
     (case as_int v of
        Some i \<Rightarrow> (case to_double (of_int i / of_nat n) of Fin x \<Rightarrow> Inr (PFloat (Fin x))
                  | _ \<Rightarrow> raise_exn OverflowError ''integer division result too large for a float'')
      | None \<Rightarrow> rbind (py_float v) (\<lambda>f. Inr (PFloat (fl_div_nat f n))))"

fun py_abs :: "pyval \<Rightarrow> pyval result" where
  "py_abs (PFloat f) = Inr (PFloat (fl_abs f))"
| "py_abs v = (case as_int v of Some i \<Rightarrow> Inr (PInt \<bar>i\<bar>) | None \<Rightarrow> raise_exn TypeError ''bad operand type for abs()'')"

fun py_max :: "pyval \<Rightarrow> pyval list \<Rightarrow> pyval result" where
  "py_max m [] = Inr m"
| "py_max m (v # vs) = rbind (py_gt v m) (\<lambda>b. py_max (if b then v else m) vs)"

fun py_round :: "nat \<Rightarrow> pyval \<Rightarrow> pyval" where
  "py_round k (PFloat f) = PFloat (fl_round k f)"
| "py_round k v = v"

section \<open>Configuration\<close>

datatype replay_source = Src_iceberg | Src_kafka | Src_dlq

fun source_value :: "replay_source \<Rightarrow> string" where
  "source_value Src_iceberg = ''iceberg''"
| "source_value Src_kafka = ''kafka''"
| "source_value Src_dlq = ''dlq''"

definition source_of_value :: "string \<Rightarrow> replay_source result" where
  "source_of_value s =
     (case find (\<lambda>x. source_value x = s) [Src_iceberg, Src_kafka, Src_dlq] of
        Some x \<Rightarrow> Inr x
      | None \<Rightarrow> raise_exn ValueError (repr_str s @ '' is not a valid ReplaySource''))"

datatype replay_status = Job_pending | Job_running | Job_completed | Job_failed | Job_cancelled

fun status_value :: "replay_status \<Rightarrow> string" where
  "status_value Job_pending = ''pending''"
| "status_value Job_running = ''running''"
| "status_value Job_completed = ''completed''"
| "status_value Job_failed = ''failed''"
| "status_value Job_cancelled = ''cancelled''"

record iceberg_source_config =
  is_table_name :: string
  is_start_timestamp :: string
  is_end_timestamp :: string
  is_snapshot_id :: "int option"
  is_filter_expression :: "string option"

record kafka_source_config =
  ks_topic :: string
  ks_start_offset :: int
  ks_end_offset :: int
  ks_partition :: int
  ks_consumer_group :: "string option"

record dlq_source_config =
  ds_source_topic :: string
  ds_dlq_topic :: string
  ds_start_time :: "string option"
  ds_end_time :: "string option"
  ds_max_messages :: int

record replay_config =
  rc_source_type :: replay_source
  rc_iceberg :: "iceberg_source_config option"
  rc_kafka :: "kafka_source_config option"
  rc_dlq :: "dlq_source_config option"
  rc_rule_set_version :: "string option"
  rc_use_shadow_rules :: bool
  rc_output_topic :: string
  rc_description :: string

definition ReplayConfig_post_init :: "replay_config \<Rightarrow> replay_config result" where
  "ReplayConfig_post_init c =
     (if rc_source_type c = Src_iceberg \<and> rc_iceberg c = None
      then raise_exn ValueError (''iceberg_config required when source_type='' @ repr_str ''iceberg'')
      else if rc_source_type c = Src_kafka \<and> rc_kafka c = None
      then raise_exn ValueError (''kafka_config required when source_type='' @ repr_str ''kafka'')
      else if rc_source_type c = Src_dlq \<and> rc_dlq c = None
      then raise_exn ValueError (''dlq_config required when source_type='' @ repr_str ''dlq'')
      else Inr c)"

section \<open>The result of one event\<close>

text \<open>A timestamp that is not a text is kept as it came.\<close>

datatype stamp = Instant int | Raw pyval

record replay_result =
  rr_job_id :: string
  rr_event_id :: pyval
  rr_original_timestamp :: stamp
  rr_replay_timestamp :: int
  rr_original_decision :: pyval
  rr_replay_decision :: pyval
  rr_original_score :: pyval
  rr_replay_score :: pyval
  rr_rules_original :: "pyval list"
  rr_rules_replay :: pyval
  rr_score_delta :: pyval
  rr_decision_changed :: bool
  rr_processing_time_ms :: rat
  rr_metadata :: pydict

definition ReplayResult_post_init :: "replay_result \<Rightarrow> replay_result result" where
  "ReplayResult_post_init r =
     rbind (if rr_original_score r \<noteq> PNone \<and> rr_replay_score r \<noteq> PNone
            then rbind (py_sub (rr_replay_score r) (rr_original_score r)) (\<lambda>d. Inr (r\<lparr>rr_score_delta := d\<rparr>))
            else Inr r) (\<lambda>r1.
     Inr (if rr_original_decision r1 \<noteq> PNone \<and> rr_replay_decision r1 \<noteq> PNone
          then r1\<lparr>rr_decision_changed := \<not> py_eq (rr_original_decision r1) (rr_replay_decision r1)\<rparr>
          else r1))"

text \<open>What the sink and the service send out for a result; only a datetime has \<open>isoformat\<close>.\<close>

definition result_to_dict :: "(int \<Rightarrow> string) \<Rightarrow> replay_result \<Rightarrow> pydict result" where
  "result_to_dict isoformat r =
     (case rr_original_timestamp r of
        Raw v \<Rightarrow> raise_exn AttributeError ''object has no attribute isoformat''
      | Instant t \<Rightarrow> Inr
          [(''replay_job_id'', PStr (rr_job_id r)), (''original_event_id'', rr_event_id r),
           (''original_timestamp'', PStr (isoformat t)), (''replay_timestamp'', PStr (isoformat (rr_replay_timestamp r))),
           (''original_decision'', rr_original_decision r), (''replay_decision'', rr_replay_decision r),
           (''original_score'', rr_original_score r), (''replay_score'', rr_replay_score r),
           (''triggered_rules_original'', PList (rr_rules_original r)),
           (''triggered_rules_replay'', rr_rules_replay r), (''score_delta'', rr_score_delta r),
           (''decision_changed'', PBool (rr_decision_changed r)),
           (''processing_time_ms'', PFloat (Fin (rr_processing_time_ms r))), (''metadata'', PDict (rr_metadata r))])"

section \<open>The status of a job\<close>

record job_status =
  js_job_id :: string
  js_config :: "replay_config option"
  js_status :: replay_status
  js_created_at :: int
  js_started_at :: "int option"
  js_completed_at :: "int option"
  js_total_events :: pyval
  js_processed_events :: int
  js_failed_events :: int
  js_results_summary :: pydict
  js_error_message :: "string option"

text \<open>The count of a source is an int, but for an Iceberg snapshot the value of its summary: a text, or None.\<close>

definition progress_percent :: "job_status \<Rightarrow> rat result" where
  "progress_percent s =
     (case as_int (js_total_events s) of
        Some n \<Rightarrow> Inr (if n = 0 then 0 else fl (fl (of_int (js_processed_events s) / of_int n) * 100))
      | None \<Rightarrow> raise_exn TypeError ''unsupported operand type(s) for /'')"

definition is_active :: "job_status \<Rightarrow> bool" where
  "is_active s \<longleftrightarrow> js_status s = Job_running"

definition opt_val :: "('a \<Rightarrow> pyval) \<Rightarrow> 'a option \<Rightarrow> pyval" where
  "opt_val f x = (case x of None \<Rightarrow> PNone | Some v \<Rightarrow> f v)"

definition status_to_dict :: "(int \<Rightarrow> string) \<Rightarrow> job_status \<Rightarrow> pydict result" where
  "status_to_dict isoformat s =
     rbind (progress_percent s) (\<lambda>progress. Inr
     [(''job_id'', PStr (js_job_id s)),
      (''source_type'', opt_val (\<lambda>c. PStr (source_value (rc_source_type c))) (js_config s)),
      (''status'', PStr (status_value (js_status s))),
      (''created_at'', PStr (isoformat (js_created_at s))),
      (''started_at'', opt_val (\<lambda>t. PStr (isoformat t)) (js_started_at s)),
      (''completed_at'', opt_val (\<lambda>t. PStr (isoformat t)) (js_completed_at s)),
      (''progress_percent'', PFloat (fl_round 2 (Fin progress))),
      (''total_events'', js_total_events s),
      (''processed_events'', PInt (js_processed_events s)),
      (''failed_events'', PInt (js_failed_events s)),
      (''results_summary'', PDict (js_results_summary s)),
      (''error_message'', opt_val PStr (js_error_message s)),
      (''description'', PStr (case js_config s of Some c \<Rightarrow> rc_description c | None \<Rightarrow> []))])"

section \<open>Comparing\<close>

text \<open>
  \<open>set(v)\<close>: the elements of a list, which must be hashable, the characters of a text, the keys of
  an object. A set is iterated in an order of its own: \<open>set_order\<close> lists the elements of the given
  list without repetition, in that order.
\<close>

fun py_set :: "pyval \<Rightarrow> pyval list result" where
  "py_set (PList xs) = (if list_all hashable xs then Inr xs else raise_exn TypeError ''unhashable type'')"
| "py_set (PStr s) = Inr (map (\<lambda>c. PStr [c]) s)"
| "py_set (PDict d) = Inr (map (\<lambda>kv. PStr (fst kv)) d)"
| "py_set (PBytes bs) = Inr (map (\<lambda>b. PInt (uint b)) bs)"
| "py_set v = raise_exn TypeError ''object is not iterable''"

text \<open>The rules that triggered on one side only, and how often each did over all results.\<close>

definition symmetric_difference :: "(pyval list \<Rightarrow> pyval list) \<Rightarrow> pyval list \<Rightarrow> pyval list \<Rightarrow> pyval list" where
  "symmetric_difference set_order xs ys =
     set_order (filter (\<lambda>x. x \<notin> set ys) xs @ filter (\<lambda>y. y \<notin> set xs) ys)"

definition changed_rules :: "(pyval list \<Rightarrow> pyval list) \<Rightarrow> replay_result \<Rightarrow> pyval list result" where
  "changed_rules set_order r =
     rbind (py_set (PList (rr_rules_original r))) (\<lambda>orig_set.
     rbind (py_set (rr_rules_replay r)) (\<lambda>replay_set.
       Inr (symmetric_difference set_order orig_set replay_set)))"

definition rule_changes :: "(pyval list \<Rightarrow> pyval list) \<Rightarrow> replay_result list \<Rightarrow> (pyval \<times> nat) list result" where
  "rule_changes set_order rs =
     rbind (rmap (changed_rules set_order) rs) (\<lambda>changes. Inr (fold (\<lambda>k d. dbump d k) (concat changes) []))"

definition most_changed :: "(pyval \<times> nat) list \<Rightarrow> (pyval \<times> nat) list" where
  "most_changed d = take 10 (sort_key (\<lambda>(k, n). - int n) d)"

text \<open>The deltas of the results with a new score, their mean and their greatest size.\<close>

definition score_deltas :: "replay_result list \<Rightarrow> pyval list" where
  "score_deltas rs = map rr_score_delta (filter (\<lambda>r. rr_replay_score r \<noteq> PNone) rs)"

definition mean_delta :: "pyval list \<Rightarrow> pyval result" where
  "mean_delta ds =
     (if ds = [] then Inr (PFloat (Fin 0)) else rbind (py_sum (PInt 0) ds) (\<lambda>s. py_div_count s (length ds)))"

definition max_delta :: "pyval list \<Rightarrow> pyval result" where
  "max_delta ds =
     rbind (rmap py_abs ds) (\<lambda>vs. case vs of [] \<Rightarrow> Inr (PFloat (Fin 0)) | v # ws \<Rightarrow> py_max v ws)"

definition change_rate :: "nat \<Rightarrow> nat \<Rightarrow> rat" where
  "change_rate c n = fl (fl (of_nat c / of_nat n) * 100)"

record comparison_summary =
  cs_total_compared :: nat
  cs_decisions_changed :: nat
  cs_decision_change_rate :: rat
  cs_avg_score_delta :: pyval
  cs_max_score_delta :: pyval
  cs_rules_changed_most :: "(pyval \<times> nat) list"
  cs_direction_breakdown :: "(string \<times> nat) list"

definition comparison_init :: comparison_summary where
  "comparison_init = \<lparr>cs_total_compared = 0, cs_decisions_changed = 0, cs_decision_change_rate = 0,
     cs_avg_score_delta = PFloat (Fin 0), cs_max_score_delta = PFloat (Fin 0), cs_rules_changed_most = [], cs_direction_breakdown = []\<rparr>"

definition direction :: "(pyval \<Rightarrow> string) \<Rightarrow> replay_result \<Rightarrow> string" where
  "direction str r = str (rr_original_decision r) @ ''_to_'' @ str (rr_replay_decision r)"

definition has_direction :: "replay_result \<Rightarrow> bool" where
  "has_direction r \<longleftrightarrow> rr_decision_changed r \<and> truthy (rr_original_decision r) \<and> truthy (rr_replay_decision r)"

text \<open>The fields set before an exception stay set.\<close>

definition summary_compute ::
  "(pyval list \<Rightarrow> pyval list) \<Rightarrow> (pyval \<Rightarrow> string) \<Rightarrow> replay_result list \<Rightarrow> comparison_summary \<Rightarrow>
   comparison_summary \<times> exn option" where
  "summary_compute set_order str rs s =
     (if rs = [] then (s, None)
      else let n_changed = length (filter rr_decision_changed rs);
               ds = score_deltas rs;
               s1 = s\<lparr>cs_total_compared := length rs, cs_decisions_changed := n_changed,
                      cs_decision_change_rate := change_rate n_changed (length rs)\<rparr>
           in case (if ds = [] then Inr s1 else rbind (mean_delta ds) (\<lambda>v. Inr (s1\<lparr>cs_avg_score_delta := v\<rparr>))) of
                Inl e \<Rightarrow> (s1, Some e)
              | Inr s2 \<Rightarrow>
          (case (if ds = [] then Inr s2 else rbind (max_delta ds) (\<lambda>v. Inr (s2\<lparr>cs_max_score_delta := v\<rparr>))) of
                Inl e \<Rightarrow> (s2, Some e)
              | Inr s3 \<Rightarrow>
          (case rule_changes set_order rs of
                Inl e \<Rightarrow> (s3, Some e)
              | Inr changes \<Rightarrow>
                  (s3\<lparr>cs_rules_changed_most := most_changed changes,
                      cs_direction_breakdown :=
                        fold (\<lambda>r d. dbump d (direction str r)) (filter has_direction rs) (cs_direction_breakdown s3)\<rparr>,
                   None))))"

end
