(* ===== verification/Replay_Sources.thy ===== *)
theory Replay_Sources
  imports Replay_Models Broker
begin

text \<open>
  \<open>pipelines/replay/source_adapters.py\<close>: the three sources of a replay. What the polls of a Kafka consumer
  return is a sequence without end. The Iceberg scan, the watermarks and the decoders (\<open>json.loads\<close>,
  decoding with replacement, ISO dates) are arguments. A generator is the sequence of the answers to its
  \<open>next()\<close>: an event, its end, the exception it raises, or \<open>None\<close> where \<open>next()\<close> never returns.
\<close>

section \<open>What is outside\<close>

record decoders =
  json_value :: "8 word list \<Rightarrow> pyval option"
  decode_replace :: "8 word list \<Rightarrow> string"
  now_iso :: string
  from_iso :: "string \<Rightarrow> int option"
  str_other :: "pyval \<Rightarrow> string"

record poll_message =
  pm_key :: "8 word list option"
  pm_value :: "8 word list option"
  pm_partition :: int
  pm_offset :: int

datatype poll = No_message | Poll_error | Message poll_message

datatype gen_step = Yielded pydict | Stopped | Raised exn

type_synonym event_stream = "nat \<Rightarrow> gen_step option"

text \<open>
  A generator from the loop body up to the next \<open>yield\<close> and the local variables before it; one that has
  ended or raised stays ended.
\<close>

fun generator :: "('s \<Rightarrow> (gen_step \<times> 's) option) \<Rightarrow> 's \<Rightarrow> event_stream" where
  "generator body s 0 = map_option fst (body s)"
| "generator body s (Suc k) =
     (case body s of
        None \<Rightarrow> None
      | Some (Yielded ev, s') \<Rightarrow> generator body s' k
      | Some (x, s') \<Rightarrow> Some Stopped)"

definition raises_at_once :: "exn \<Rightarrow> event_stream" where
  "raises_at_once e k = Some (if k = 0 then Raised e else Stopped)"

text \<open>The events a generator yields before it ends, and the exception it ends with.\<close>

definition runs_to :: "event_stream \<Rightarrow> pydict list \<Rightarrow> exn option \<Rightarrow> bool" where
  "runs_to g evs e \<longleftrightarrow>
     list_all (\<lambda>k. g k = Some (Yielded (evs ! k))) [0..<length evs] \<and>
     g (length evs) = Some (case e of None \<Rightarrow> Stopped | Some x \<Rightarrow> Raised x)"

text \<open>Every failure to set a source up is reported as \<open>RuntimeError\<close>.\<close>

definition ensure_source :: "string \<Rightarrow> string \<Rightarrow> exn option \<Rightarrow> unit result" where
  "ensure_source missing failed created =
     (case created of
        None \<Rightarrow> Inr ()
      | Some e \<Rightarrow> if isinstance e ImportError then raise_exn RuntimeError missing
                  else raise_exn RuntimeError (failed @ exn_msg e))"

section \<open>Iceberg\<close>

text \<open>\<open>s.replace("Z", "+00:00")\<close>.\<close>

definition replace_Z :: "string \<Rightarrow> string" where
  "replace_Z s = concat (map (\<lambda>c. if c = CHR ''Z'' then ''+00:00'' else [c]) s)"

record iceberg_world =
  iw_load :: "exn option"
  iw_snapshots :: "(int \<times> pyval) list result"
  iw_columns :: "string list"
  iw_scan :: "int option \<Rightarrow> (string \<times> int \<times> int) option \<Rightarrow> pydict list result"

definition parse_bound :: "decoders \<Rightarrow> string \<Rightarrow> int result" where
  "parse_bound D s =
     (case from_iso D (replace_Z s) of Some t \<Rightarrow> Inr t
      | None \<Rightarrow> raise_exn ValueError ''Invalid isoformat string'')"

definition truthy_snapshot :: "iceberg_source_config \<Rightarrow> int option" where
  "truthy_snapshot c = (if is_snapshot_id c = Some 0 then None else is_snapshot_id c)"

text \<open>The filter expression is only logged.\<close>

definition query_table :: "decoders \<Rightarrow> iceberg_source_config \<Rightarrow> iceberg_world \<Rightarrow> pydict list result" where
  "query_table D c w =
     rbind (ensure_source ''PyIceberg not installed'' ''Failed to load Iceberg table: '' (iw_load w)) (\<lambda>_.
     rbind (parse_bound D (is_start_timestamp c)) (\<lambda>start_dt.
     rbind (parse_bound D (is_end_timestamp c)) (\<lambda>end_dt.
       let timestamp_col = find (\<lambda>col. col \<in> set (iw_columns w)) [''timestamp'', ''event_time'', ''created_at'', ''ts'']
       in iw_scan w (truthy_snapshot c) (map_option (\<lambda>col. (col, start_dt, end_dt)) timestamp_col))))"

text \<open>
  A snapshot comes with what its summary holds under \<open>total-records\<close>, as it is: PyIceberg gives the text of
  the number, or None where it is missing.
\<close>

definition iceberg_event_count :: "decoders \<Rightarrow> iceberg_source_config \<Rightarrow> iceberg_world \<Rightarrow> pyval" where
  "iceberg_event_count D c w =
     (let by_query = (case query_table D c w of Inl e \<Rightarrow> PInt 0 | Inr rows \<Rightarrow> PInt (int (length rows))) in
      case ensure_source ''PyIceberg not installed'' ''Failed to load Iceberg table: '' (iw_load w) of
        Inl e \<Rightarrow> PInt 0
      | Inr _ \<Rightarrow>
          (case truthy_snapshot c of
             None \<Rightarrow> by_query
           | Some sid \<Rightarrow>
               (case iw_snapshots w of
                  Inl e \<Rightarrow> PInt 0
                | Inr ss \<Rightarrow> (case find (\<lambda>s. fst s = sid) ss of Some s \<Rightarrow> snd s | None \<Rightarrow> by_query))))"

text \<open>\<open>iso_text\<close> is the identity except on a datetime.\<close>

definition row_to_event :: "decoders \<Rightarrow> (pyval \<Rightarrow> pyval) \<Rightarrow> iceberg_source_config \<Rightarrow> pydict \<Rightarrow> pydict" where
  "row_to_event D iso_text c row =
     [(''event_id'', PStr (py_str (str_other D) (dget_or row ''transaction_id''
          (dget_or row ''id'' (dget_or row ''event_id'' (PStr [])))))),
      (''timestamp'', iso_text (dget_or row ''timestamp'' (dget_or row ''event_time'' (dget row ''created_at'')))),
      (''payload'', PDict row), (''source'', PStr ''iceberg''), (''table'', PStr (is_table_name c))]"

definition iceberg_iter :: "decoders \<Rightarrow> (pyval \<Rightarrow> pyval) \<Rightarrow> iceberg_source_config \<Rightarrow> iceberg_world \<Rightarrow> event_stream" where
  "iceberg_iter D iso_text c w =
     (case query_table D c w of
        Inl e \<Rightarrow> raises_at_once e
      | Inr rows \<Rightarrow>
          generator (\<lambda>rest. case rest of
              [] \<Rightarrow> Some (Stopped, [])
            | row # rest' \<Rightarrow> Some (Yielded (row_to_event D iso_text c row), rest')) rows)"

section \<open>Kafka\<close>

record kafka_world =
  kw_create :: "exn option"
  kw_high :: "int option result"
  kw_polls :: "nat \<Rightarrow> poll"

definition kafka_consumer :: "kafka_world \<Rightarrow> unit result" where
  "kafka_consumer w = ensure_source ''confluent-kafka not installed'' ''Failed to create Kafka consumer: '' (kw_create w)"

text \<open>The end of the range: a negative one stands for the high watermark, where there is one.\<close>

definition resolve_end :: "kafka_source_config \<Rightarrow> kafka_world \<Rightarrow> int result" where
  "resolve_end c w =
     (if ks_end_offset c < 0
      then rbind (kw_high w) (\<lambda>h. Inr (case h of Some x \<Rightarrow> x | None \<Rightarrow> ks_end_offset c))
      else Inr (ks_end_offset c))"

definition kafka_event_count :: "kafka_source_config \<Rightarrow> kafka_world \<Rightarrow> int" where
  "kafka_event_count c w =
     (case (if ks_end_offset c < 0 then rbind (kafka_consumer w) (\<lambda>_. resolve_end c w) else Inr (ks_end_offset c)) of
        Inl e \<Rightarrow> 0
      | Inr end_offset \<Rightarrow> max 0 (end_offset - ks_start_offset c))"

definition decode_value :: "decoders \<Rightarrow> 8 word list \<Rightarrow> pyval" where
  "decode_value D bs = (case json_value D bs of Some v \<Rightarrow> v | None \<Rightarrow> PDict [(''raw'', PStr (decode_replace D bs))])"

definition kafka_event :: "decoders \<Rightarrow> kafka_source_config \<Rightarrow> poll_message \<Rightarrow> pydict result" where
  "kafka_event D c m =
     (case pm_value m of
        None \<Rightarrow> raise_exn AttributeError ''NoneType object has no attribute decode''
      | Some bs \<Rightarrow>
          (let key = (case pm_key m of Some (b # ks) \<Rightarrow> Some (decode_replace D (b # ks)) | _ \<Rightarrow> None) in
           Inr [(''event_id'', PStr (case key of Some k \<Rightarrow> k
                   | None \<Rightarrow> ks_topic c @ ''-'' @ show_int (pm_partition m) @ ''-'' @ show_int (pm_offset m))),
                (''timestamp'', PStr (now_iso D)), (''payload'', decode_value D bs), (''source'', PStr ''kafka''),
                (''topic'', PStr (ks_topic c)), (''partition'', PInt (pm_partition m)),
                (''offset'', PInt (pm_offset m)),
                (''key'', case key of Some k \<Rightarrow> PStr k | None \<Rightarrow> PNone)]))"

text \<open>The loop of \<open>iter_events\<close> up to its next \<open>yield\<close>, from \<open>current_offset\<close> and the number of polls made.\<close>

definition kafka_loop ::
  "decoders \<Rightarrow> kafka_source_config \<Rightarrow> int \<Rightarrow> (nat \<Rightarrow> poll) \<Rightarrow> int \<times> nat \<Rightarrow> (gen_step \<times> int \<times> nat) option" where
  "kafka_loop D c end_offset polls st =
     (case st of (current, i) \<Rightarrow>
        if \<not> current < end_offset then Some (Stopped, st)
        else case polls i of
          No_message \<Rightarrow> Some (Stopped, current, Suc i)
        | Poll_error \<Rightarrow> Some (Stopped, current, Suc i)
        | Message m \<Rightarrow>
            (if pm_offset m \<ge> end_offset then Some (Stopped, pm_offset m, Suc i)
             else case kafka_event D c m of
               Inl e \<Rightarrow> Some (Raised e, pm_offset m, Suc i)
             | Inr ev \<Rightarrow> Some (Yielded ev, pm_offset m, Suc i)))"

definition kafka_iter :: "decoders \<Rightarrow> kafka_source_config \<Rightarrow> kafka_world \<Rightarrow> event_stream" where
  "kafka_iter D c w =
     (case rbind (kafka_consumer w) (\<lambda>_. resolve_end c w) of
        Inl e \<Rightarrow> raises_at_once e
      | Inr end_offset \<Rightarrow> generator (kafka_loop D c end_offset (kw_polls w)) (ks_start_offset c, 0))"

section \<open>Dead letters\<close>

record dlq_world =
  dw_create :: "exn option"
  dw_total :: "int result"
  dw_polls :: "nat \<Rightarrow> poll"

definition dlq_consumer :: "dlq_world \<Rightarrow> unit result" where
  "dlq_consumer w = ensure_source ''confluent-kafka not installed'' ''Failed to create DLQ consumer: '' (dw_create w)"

text \<open>Counting polls once, for the assignment, and drops what that poll returns.\<close>

definition dlq_event_count :: "dlq_source_config \<Rightarrow> dlq_world \<Rightarrow> int \<times> dlq_world" where
  "dlq_event_count c w =
     (case dlq_consumer w of
        Inl e \<Rightarrow> (min (ds_max_messages c) 0, w)
      | Inr _ \<Rightarrow>
          (min (ds_max_messages c) (case dw_total w of Inl e \<Rightarrow> 0 | Inr n \<Rightarrow> n),
           w\<lparr>dw_polls := (\<lambda>i. dw_polls w (Suc i))\<rparr>))"

definition source_matches :: "dlq_source_config \<Rightarrow> pydict \<Rightarrow> bool" where
  "source_matches c v =
     (let s = dget_or v ''source_topic'' (dget_or v ''original_topic'' (PStr []))
      in \<not> (truthy s \<and> \<not> py_eq s (PStr (ds_source_topic c))))"

definition time_matches :: "decoders \<Rightarrow> int option \<Rightarrow> int option \<Rightarrow> pydict \<Rightarrow> bool" where
  "time_matches D start_time end_time v =
     (if start_time = None \<and> end_time = None then True
      else let t = dget_or v ''timestamp'' (dget v ''error_time'') in
        if \<not> truthy t then True
        else case from_iso D (replace_Z (py_str (str_other D) t)) of
          None \<Rightarrow> True
        | Some dt \<Rightarrow> \<not> ((case start_time of Some s \<Rightarrow> dt < s | None \<Rightarrow> False)
                     \<or> (case end_time of Some x \<Rightarrow> x < dt | None \<Rightarrow> False)))"

definition dlq_replay_event :: "decoders \<Rightarrow> dlq_source_config \<Rightarrow> poll_message \<Rightarrow> pydict \<Rightarrow> pydict" where
  "dlq_replay_event D c m v =
     [(''event_id'', dget_or v ''original_id'' (PStr (''dlq-'' @ show_int (pm_offset m)))),
      (''timestamp'', dget_or v ''original_timestamp'' (PStr (now_iso D))),
      (''payload'', dget_or v ''original_payload'' (PDict v)), (''source'', PStr ''dlq''),
      (''dlq_topic'', PStr (ds_dlq_topic c)), (''source_topic'', PStr (ds_source_topic c)),
      (''error_reason'', dget_or v ''error_reason'' (dget_or v ''error'' (PStr ''unknown''))),
      (''retry_count'', dget_or v ''retry_count'' (PInt 0)), (''dlq_timestamp'', dget v ''timestamp''),
      (''offset'', PInt (pm_offset m))]"

text \<open>
  The loop up to its next \<open>yield\<close>, from \<open>count\<close> and the number of polls made. An error and a message that is
  filtered out \<open>continue\<close> without being counted, so the loop may never end. A value that is not an object
  has no \<open>get\<close>, and the generator ends with the exception.
\<close>

partial_function (option) dlq_loop ::
  "decoders \<Rightarrow> dlq_source_config \<Rightarrow> int option \<Rightarrow> int option \<Rightarrow> (nat \<Rightarrow> poll) \<Rightarrow> int \<Rightarrow> nat \<Rightarrow> (gen_step \<times> int \<times> nat) option" where
  "dlq_loop D c start_time end_time polls cnt i =
     (if \<not> cnt < ds_max_messages c then Some (Stopped, cnt, i)
      else case polls i of
        No_message \<Rightarrow> Some (Stopped, cnt, Suc i)
      | Poll_error \<Rightarrow> dlq_loop D c start_time end_time polls cnt (Suc i)
      | Message m \<Rightarrow>
          (case map_option (decode_value D) (pm_value m) of
             Some (PDict v) \<Rightarrow>
               (if source_matches c v \<and> time_matches D start_time end_time v
                then Some (Yielded (dlq_replay_event D c m v), cnt + 1, Suc i)
                else dlq_loop D c start_time end_time polls cnt (Suc i))
           | _ \<Rightarrow> Some (Raised (Exn AttributeError ''object has no attribute get''), cnt, Suc i)))"

definition opt_bound :: "decoders \<Rightarrow> string option \<Rightarrow> int option result" where
  "opt_bound D s = (case s of None \<Rightarrow> Inr None | Some t \<Rightarrow>
     if t = [] then Inr None else rbind (parse_bound D t) (\<lambda>x. Inr (Some x)))"

definition dlq_iter :: "decoders \<Rightarrow> dlq_source_config \<Rightarrow> dlq_world \<Rightarrow> event_stream" where
  "dlq_iter D c w =
     (case rbind (dlq_consumer w) (\<lambda>_. rbind (opt_bound D (ds_start_time c)) (\<lambda>s.
            rbind (opt_bound D (ds_end_time c)) (\<lambda>e. Inr (s, e)))) of
        Inl x \<Rightarrow> raises_at_once x
      | Inr (s, e) \<Rightarrow> generator (\<lambda>(cnt, i). dlq_loop D c s e (dw_polls w) cnt i) (0, 0))"

section \<open>Choosing a source\<close>

datatype source_config = Cfg_iceberg iceberg_source_config | Cfg_kafka kafka_source_config | Cfg_dlq dlq_source_config | Cfg_none

definition create_source_adapter :: "replay_source \<Rightarrow> source_config \<Rightarrow> source_config result" where
  "create_source_adapter source cfg =
     (case (source, cfg) of
        (Src_iceberg, Cfg_iceberg c) \<Rightarrow> Inr cfg
      | (Src_iceberg, _) \<Rightarrow> raise_exn TypeError ''config must be IcebergSourceConfig for iceberg source''
      | (Src_kafka, Cfg_kafka c) \<Rightarrow> Inr cfg
      | (Src_kafka, _) \<Rightarrow> raise_exn TypeError ''config must be KafkaSourceConfig for kafka source''
      | (Src_dlq, Cfg_dlq c) \<Rightarrow> Inr cfg
      | (Src_dlq, _) \<Rightarrow> raise_exn TypeError ''config must be DLQSourceConfig for dlq source'')"

section \<open>The contract of a source\<close>

text \<open>
  What \<open>ReplaySourceAdapter\<close> promises of \<open>iter_events\<close>: each event carries an id, a timestamp and a
  payload. The job reads these with defaults, which the contract makes superfluous.
\<close>

locale event_source =
  fixes events :: "'c \<Rightarrow> 'w \<Rightarrow> event_stream"
  assumes fields: "events c w i = Some (Yielded ev) \<Longrightarrow> k \<in> {''event_id'', ''timestamp'', ''payload''} \<Longrightarrow> has_key ev k"
begin

lemma no_default:
  "events c w i = Some (Yielded ev) \<Longrightarrow> k \<in> {''event_id'', ''timestamp'', ''payload''} \<Longrightarrow> dget_or ev k v = dget ev k"
  using fields [of c w i ev k] by (auto simp: has_key_def dget_or_def dget_def split: option.splits)

end

section \<open>Lemmas\<close>

lemma raises_at_once_yields [simp]: "raises_at_once e k \<noteq> Some (Yielded ev)"
  by (simp add: raises_at_once_def)

text \<open>What a generator yields, one of its bodies has yielded.\<close>

lemma generator_yields:
  "generator body s k = Some (Yielded ev) \<Longrightarrow> \<exists>t t'. body t = Some (Yielded ev, t')"
proof (induction body s k rule: generator.induct)
  case (2 body s k)
  then show ?case by (auto split: option.splits prod.splits gen_step.splits)
qed (force split: option.splits)

lemma kafka_loop_event: "kafka_loop D c e polls st = Some (Yielded ev, st') \<Longrightarrow> \<exists>m. kafka_event D c m = Inr ev"
  by (auto simp: kafka_loop_def split: prod.splits if_splits poll.splits sum.splits)

lemma dlq_loop_event:
  assumes "dlq_loop D c s e polls cnt i = Some (x, cnt', i')"
  shows "x = Yielded ev \<longrightarrow> cnt < ds_max_messages c \<and> cnt' = cnt + 1 \<and>
    (\<exists>m v. ev = dlq_replay_event D c m v \<and> source_matches c v \<and> time_matches D s e v)"
proof (rule dlq_loop.raw_induct [where P = "\<lambda>D c s e polls cnt i r. \<forall>x cnt' i'. r = (x, cnt', i') \<longrightarrow> x = Yielded ev \<longrightarrow>
    cnt < ds_max_messages c \<and> cnt' = cnt + 1 \<and>
    (\<exists>m v. ev = dlq_replay_event D c m v \<and> source_matches c v \<and> time_matches D s e v)",
    OF _ assms, THEN spec, THEN spec, THEN spec, THEN mp, OF _ refl])
qed (auto split: if_splits poll.splits option.splits pyval.splits)

interpretation iceberg_source: event_source "iceberg_iter D iso_text"
proof
  fix c w i ev k
  assume a: "iceberg_iter D iso_text c w i = Some (Yielded ev)" "k \<in> {''event_id'', ''timestamp'', ''payload''}"
  then obtain row where "ev = row_to_event D iso_text c row"
    by (auto simp: iceberg_iter_def split: sum.splits list.splits dest!: generator_yields)
  with a(2) show "has_key ev k" by (auto simp: row_to_event_def has_key_def)
qed

interpretation kafka_source: event_source "kafka_iter D"
proof
  fix c w i ev k
  assume a: "kafka_iter D c w i = Some (Yielded ev)" "k \<in> {''event_id'', ''timestamp'', ''payload''}"
  then obtain m where "kafka_event D c m = Inr ev"
    by (auto simp: kafka_iter_def split: sum.splits dest!: generator_yields kafka_loop_event)
  with a(2) show "has_key ev k"
    by (auto simp: kafka_event_def Let_def has_key_def split: option.splits)
qed

interpretation dlq_source: event_source "dlq_iter D"
proof
  fix c w i ev k
  assume a: "dlq_iter D c w i = Some (Yielded ev)" "k \<in> {''event_id'', ''timestamp'', ''payload''}"
  from a(1) obtain s e cnt i x where "dlq_loop D c s e (dw_polls w) cnt i = Some (Yielded ev, x)"
    by (auto simp: dlq_iter_def split: sum.splits prod.splits dest!: generator_yields)
  then obtain m v where "ev = dlq_replay_event D c m v" using dlq_loop_event by (cases x) blast
  with a(2) show "has_key ev k" by (auto simp: dlq_replay_event_def has_key_def)
qed

lemma runs_to_Nil: "runs_to g [] e \<longleftrightarrow> g 0 = Some (case e of None \<Rightarrow> Stopped | Some x \<Rightarrow> Raised x)"
  by (simp add: runs_to_def)

lemma runs_to_generator_Cons:
  assumes "body s = Some (Yielded ev, s')" "runs_to (generator body s') evs e"
  shows "runs_to (generator body s) (ev # evs) e"
  unfolding runs_to_def
proof
  show "list_all (\<lambda>k. generator body s k = Some (Yielded ((ev # evs) ! k))) [0..<length (ev # evs)]"
    unfolding list_all_iff
  proof
    fix k assume k: "k \<in> set [0..<length (ev # evs)]"
    show "generator body s k = Some (Yielded ((ev # evs) ! k))"
      using assms k by (cases k) (auto simp: runs_to_def list_all_iff)
  qed
qed (use assms in \<open>simp add: runs_to_def\<close>)

text \<open>A generator runs to one list of events only.\<close>

lemma runs_to_unique:
  assumes "runs_to g evs e" "runs_to g evs' e'"
  shows "evs = evs'" "e = e'"
proof -
  have y: "g k = Some (Yielded (xs ! k))" if "runs_to g xs x" "k < length xs" for xs x k
    using that by (simp add: runs_to_def list_all_iff)
  have stop: "g (length xs) \<noteq> Some (Yielded ev)" if "runs_to g xs x" for xs x ev
    using that by (simp add: runs_to_def split: option.split)
  have len: "length evs = length evs'"
    using y [OF assms(1), of "length evs'"] y [OF assms(2), of "length evs"] stop [OF assms(1)] stop [OF assms(2)]
    by (metis linorder_neqE_nat)
  show "evs = evs'"
  proof (rule nth_equalityI [OF len])
    fix i assume i: "i < length evs"
    then have "Some (Yielded (evs ! i)) = Some (Yielded (evs' ! i))"
      using y [OF assms(1) i] y [OF assms(2), of i] len by metis
    then show "evs ! i = evs' ! i" by simp
  qed
  then show "e = e'" using assms by (auto simp: runs_to_def split: option.splits)
qed

lemma kafka_event_Inr: "pm_value m \<noteq> None \<Longrightarrow> \<exists>ev. kafka_event D c m = Inr ev"
  by (auto simp: kafka_event_def Let_def split: option.splits)

lemma kafka_event_offset: "kafka_event D c m = Inr ev \<Longrightarrow> dget ev ''offset'' = PInt (pm_offset m)"
  by (auto simp: kafka_event_def Let_def dget_def split: option.splits)

lemma kafka_loop_range:
  assumes "sorted (current # map pm_offset ms)" "list_all (\<lambda>m. pm_value m \<noteq> None) ms"
    and "\<And>j. j < length ms \<Longrightarrow> polls (i + j) = Message (ms ! j)" "polls (i + length ms) = No_message"
  shows "\<exists>evs. runs_to (generator (kafka_loop D c end_offset polls) (current, i)) evs None \<and>
    list_all2 (\<lambda>m ev. kafka_event D c m = Inr ev) (filter (\<lambda>m. pm_offset m < end_offset) ms) evs"
  using assms
proof (induction ms arbitrary: current i)
  case Nil
  then show ?case by (intro exI [of _ "[]"]) (simp add: runs_to_Nil kafka_loop_def)
next
  case (Cons m ms)
  have m: "polls i = Message m" using Cons.prems(3) [of 0] by simp
  show ?case
  proof (cases "current < end_offset \<and> pm_offset m < end_offset")
    case True
    obtain ev where ev: "kafka_event D c m = Inr ev" using Cons.prems kafka_event_Inr [of m D c] by auto
    have "polls (Suc i + j) = Message (ms ! j)" if "j < length ms" for j using Cons.prems(3) [of "Suc j"] that by simp
    then obtain evs where evs: "runs_to (generator (kafka_loop D c end_offset polls) (pm_offset m, Suc i)) evs None"
        "list_all2 (\<lambda>m ev. kafka_event D c m = Inr ev) (filter (\<lambda>m. pm_offset m < end_offset) ms) evs"
      using Cons.IH [of "pm_offset m" "Suc i"] Cons.prems by auto
    have "kafka_loop D c end_offset polls (current, i) = Some (Yielded ev, pm_offset m, Suc i)"
      using True m ev by (simp add: kafka_loop_def)
    from runs_to_generator_Cons [of "kafka_loop D c end_offset polls", OF this evs(1)] evs(2) ev True
    show ?thesis by (intro exI [of _ "ev # evs"]) simp
  next
    case False
    with Cons.prems(1) have "\<forall>x\<in>set (m # ms). \<not> pm_offset x < end_offset" by fastforce
    then have "filter (\<lambda>m. pm_offset m < end_offset) (m # ms) = []" by (simp add: filter_empty_conv)
    with False m show ?thesis by (intro exI [of _ "[]"]) (auto simp: runs_to_Nil kafka_loop_def)
  qed
qed

text \<open>Polls that return a list of messages and then nothing.\<close>

definition polls_of :: "poll_message list \<Rightarrow> nat \<Rightarrow> poll" where
  "polls_of ms i = (if i < length ms then Message (ms ! i) else No_message)"

section \<open>Properties\<close>

text \<open>C26: The Kafka source replays a half-open range. Assumed: the consumer can be created, the end offset is
  not negative, the polls return messages in offset order, the first at or after the first offset asked
  for, each with a value, and then time out (no poll before that is empty or an error, and no message is a
  tombstone, which would end the source early or raise). Then the source yields one event for each of these
  messages below the end offset, in order and with its offset, and ends without an error. The message at
  the end offset is not replayed, although the configuration documents the end as inclusive.\<close>

theorem kafka_replays_half_open_range:
  assumes "kw_create w = None" "0 \<le> ks_end_offset c"
    and "\<And>i. i < length ms \<Longrightarrow> kw_polls w i = Message (ms ! i)" "kw_polls w (length ms) = No_message"
    and "sorted (ks_start_offset c # map pm_offset ms)" "list_all (\<lambda>m. pm_value m \<noteq> None) ms"
  shows "\<exists>evs. runs_to (kafka_iter D c w) evs None \<and>
    map (\<lambda>ev. dget ev ''offset'') evs = map (\<lambda>m. PInt (pm_offset m)) (filter (\<lambda>m. pm_offset m < ks_end_offset c) ms)"
proof -
  obtain evs where e: "runs_to (generator (kafka_loop D c (ks_end_offset c) (kw_polls w)) (ks_start_offset c, 0)) evs None"
      "list_all2 (\<lambda>m ev. kafka_event D c m = Inr ev) (filter (\<lambda>m. pm_offset m < ks_end_offset c) ms) evs"
    using kafka_loop_range [OF assms(5,6), of "kw_polls w" 0 D c "ks_end_offset c"] assms(3,4) by auto
  have "map (\<lambda>ev. dget ev ''offset'') evs
      = map (\<lambda>m. PInt (pm_offset m)) (filter (\<lambda>m. pm_offset m < ks_end_offset c) ms)"
    using e(2) by (induction rule: list_all2_induct) (auto dest: kafka_event_offset)
  then show ?thesis
    using assms(1,2) e(1) by (auto simp: kafka_iter_def kafka_consumer_def ensure_source_def resolve_end_def)
qed

definition sample_message :: "int \<Rightarrow> poll_message" where
  "sample_message n = \<lparr>pm_key = None, pm_value = Some [], pm_partition = 0, pm_offset = n\<rparr>"

lemma kafka_replays_half_open_range_witness:
  "\<exists>c w D evs. ks_end_offset c = 2 \<and> kw_polls w = polls_of (map sample_message [0, 1, 2]) \<and>
     runs_to (kafka_iter D c w) evs None \<and> map (\<lambda>ev. dget ev ''offset'') evs = [PInt 0, PInt 1]"
proof -
  define c where "c = \<lparr>ks_topic = ''t'', ks_start_offset = 0, ks_end_offset = 2, ks_partition = 0, ks_consumer_group = None\<rparr>"
  define w where "w = \<lparr>kw_create = None, kw_high = Inr None, kw_polls = polls_of (map sample_message [0, 1, 2])\<rparr>"
  have "kw_create w = None" "0 \<le> ks_end_offset c"
    "\<And>i. i < length (map sample_message [0, 1, 2]) \<Longrightarrow> kw_polls w i = Message (map sample_message [0, 1, 2] ! i)"
    "kw_polls w (length (map sample_message [0, 1, 2])) = No_message"
    "sorted (ks_start_offset c # map pm_offset (map sample_message [0, 1, 2]))"
    "list_all (\<lambda>m. pm_value m \<noteq> None) (map sample_message [0, 1, 2])"
    by (simp_all add: c_def w_def sample_message_def polls_of_def)
  from kafka_replays_half_open_range [OF this]
  show ?thesis
    by (intro exI [of _ c] exI [of _ w]) (simp add: c_def w_def sample_message_def)
qed

text \<open>A dead-letter replay is bounded and selective, whatever the topic holds: every event it yields is from a
  message of the configured source topic or of none, and there are at most as many as configured.\<close>

lemma dlq_generator_bounded:
  "generator (\<lambda>(cnt, i). dlq_loop D c s e polls cnt i) (cnt, i) k = Some (Yielded ev) \<Longrightarrow> cnt + int k < ds_max_messages c"
proof (induction k arbitrary: cnt i)
  case 0
  then show ?case by (auto dest: dlq_loop_event)
next
  case (Suc k)
  then obtain ev' cnt' i' where b: "dlq_loop D c s e polls cnt i = Some (Yielded ev', cnt', i')"
    "generator (\<lambda>(cnt, i). dlq_loop D c s e polls cnt i) (cnt', i') k = Some (Yielded ev)"
    by (auto split: option.splits prod.splits gen_step.splits)
  then show ?case using Suc.IH [OF b(2)] dlq_loop_event [OF b(1), of ev'] by simp
qed

theorem dlq_replay_bounded:
  assumes "dlq_iter D c w k = Some (Yielded ev)"
  shows "int k < ds_max_messages c \<and> (\<exists>m v. ev = dlq_replay_event D c m v \<and> source_matches c v)"
proof -
  obtain s e where g: "generator (\<lambda>(cnt, i). dlq_loop D c s e (dw_polls w) cnt i) (0, 0) k = Some (Yielded ev)"
    using assms by (auto simp: dlq_iter_def split: sum.splits prod.splits)
  obtain cnt i x where "dlq_loop D c s e (dw_polls w) cnt i = Some (Yielded ev, x)"
    using generator_yields [OF g] by auto
  then show ?thesis using dlq_generator_bounded [OF g] dlq_loop_event by (cases x) fastforce
qed

text \<open>A consumer that reports an error at every poll, or only messages of other topics, keeps the source busy
  for ever: neither counts, and neither ends the loop.\<close>

definition skipped :: "decoders \<Rightarrow> dlq_source_config \<Rightarrow> int option \<Rightarrow> int option \<Rightarrow> poll \<Rightarrow> bool" where
  "skipped D c s e p \<longleftrightarrow>
     (case p of
        No_message \<Rightarrow> False
      | Poll_error \<Rightarrow> True
      | Message m \<Rightarrow>
          (case map_option (decode_value D) (pm_value m) of
             Some (PDict v) \<Rightarrow> \<not> (source_matches c v \<and> time_matches D s e v)
           | _ \<Rightarrow> False))"

lemma dlq_loop_skips:
  "skipped D c s e (polls i) \<Longrightarrow> cnt < ds_max_messages c \<Longrightarrow>
   dlq_loop D c s e polls cnt i = dlq_loop D c s e polls cnt (Suc i)"
  by (subst dlq_loop.simps) (auto simp: skipped_def split: poll.splits option.splits pyval.splits)

lemma dlq_loop_hangs:
  assumes "\<And>i. skipped D c s e (polls i)" "cnt < ds_max_messages c"
  shows "dlq_loop D c s e polls cnt i = None"
proof (rule ccontr)
  assume "dlq_loop D c s e polls cnt i \<noteq> None"
  then obtain r where "dlq_loop D c s e polls cnt i = Some r" by auto
  then have "\<not> ((\<forall>i. skipped D c s e (polls i)) \<and> cnt < ds_max_messages c)"
  proof (rule dlq_loop.raw_induct [where P = "\<lambda>D c s e polls cnt i r. \<not> ((\<forall>i. skipped D c s e (polls i)) \<and> cnt < ds_max_messages c)", rotated])
    fix f D c s e polls cnt i r
    assume IH: "\<And>D c s e polls cnt i r. f D c s e polls cnt i = Some r \<Longrightarrow> \<not> ((\<forall>i. skipped D c s e (polls i)) \<and> cnt < ds_max_messages c)"
      and eq: "(if \<not> cnt < ds_max_messages c then Some (Stopped, cnt, i)
         else case polls i of No_message \<Rightarrow> Some (Stopped, cnt, Suc i) | Poll_error \<Rightarrow> f D c s e polls cnt (Suc i)
              | Message m \<Rightarrow>
                  (case map_option (decode_value D) (pm_value m) of
                     Some (PDict v) \<Rightarrow>
                       (if source_matches c v \<and> time_matches D s e v
                        then Some (Yielded (dlq_replay_event D c m v), cnt + 1, Suc i)
                        else f D c s e polls cnt (Suc i))
                   | _ \<Rightarrow> Some (Raised (Exn AttributeError ''object has no attribute get''), cnt, Suc i))) = Some r"
    show "\<not> ((\<forall>i. skipped D c s e (polls i)) \<and> cnt < ds_max_messages c)"
    proof
      assume a: "(\<forall>i. skipped D c s e (polls i)) \<and> cnt < ds_max_messages c"
      then have "skipped D c s e (polls i)" "cnt < ds_max_messages c" by simp_all
      then have "f D c s e polls cnt (Suc i) = Some r"
        using eq by (auto simp: skipped_def split: poll.splits option.splits pyval.splits)
      with IH a show False by blast
    qed
  qed
  with assms show False by blast
qed

text \<open>A poll that times out later on ends it.\<close>

lemma dlq_loop_returns:
  assumes "polls n = No_message" "i \<le> n"
  shows "\<exists>x cnt' i'. dlq_loop D c s e polls cnt i = Some (x, cnt', i') \<and> (\<forall>ev. x = Yielded ev \<longrightarrow> i' \<le> n)"
  using assms(2)
proof (induction "n - i" arbitrary: i)
  case 0
  then show ?case using assms(1) by (subst dlq_loop.simps) auto
next
  case (Suc k)
  have "i < n" "k = n - Suc i" using Suc.hyps(2) by auto
  then obtain x cnt' i' where "dlq_loop D c s e polls cnt (Suc i) = Some (x, cnt', i')" "\<forall>ev. x = Yielded ev \<longrightarrow> i' \<le> n"
    using Suc.hyps(1) [of "Suc i"] by auto
  then show ?case using \<open>i < n\<close> by (subst dlq_loop.simps) (auto split: poll.split option.split pyval.split)
qed

text \<open>A generator whose body always returns, and yields only so often, runs to its end.\<close>

lemma generator_runs:
  fixes m :: "'s \<Rightarrow> nat"
  assumes "\<And>s. P s \<Longrightarrow> \<exists>x s'. body s = Some (x, s') \<and> (\<forall>ev. x = Yielded ev \<longrightarrow> P s' \<and> m s' < m s)" "P s"
  shows "\<exists>evs e. runs_to (generator body s) evs e"
  using assms(2)
proof (induction "m s" arbitrary: s rule: less_induct)
  case less
  obtain x s' where b: "body s = Some (x, s')" "\<forall>ev. x = Yielded ev \<longrightarrow> P s' \<and> m s' < m s"
    using assms(1) [OF less.prems] by auto
  show ?case
  proof (cases x)
    case (Yielded ev)
    with b(2) have "m s' < m s" "P s'" by simp_all
    from less.hyps [OF this] obtain evs e where r: "runs_to (generator body s') evs e" by auto
    have "runs_to (generator body s) (ev # evs) e"
      by (rule runs_to_generator_Cons [OF _ r]) (simp add: b(1) Yielded)
    then show ?thesis by (intro exI)
  next
    case Stopped
    with b(1) have "runs_to (generator body s) [] None" by (simp add: runs_to_Nil)
    then show ?thesis by blast
  next
    case (Raised e)
    with b(1) have "runs_to (generator body s) [] (Some e)" by (simp add: runs_to_Nil)
    then show ?thesis by blast
  qed
qed

lemma raises_at_once_runs: "runs_to (raises_at_once e) [] (Some e)"
  by (simp add: runs_to_Nil raises_at_once_def)

lemma iceberg_runs: "\<exists>evs e. runs_to (iceberg_iter D iso_text c w) evs e"
proof (cases "query_table D c w")
  case (Inr rows)
  have "\<exists>evs e. runs_to (generator (\<lambda>rest. case rest of [] \<Rightarrow> Some (Stopped, [])
      | row # rest' \<Rightarrow> Some (Yielded (row_to_event D iso_text c row), rest')) rows) evs e"
    by (rule generator_runs [where P = "\<lambda>_. True" and m = length]) (simp_all split: list.split)
  with Inr show ?thesis by (simp add: iceberg_iter_def)
qed (auto simp: iceberg_iter_def intro: raises_at_once_runs)

lemma kafka_runs:
  assumes "kw_polls w n \<in> {No_message, Poll_error}"
  shows "\<exists>evs e. runs_to (kafka_iter D c w) evs e"
proof (cases "rbind (kafka_consumer w) (\<lambda>_. resolve_end c w)")
  case (Inr end_offset)
  have "\<exists>evs e. runs_to (generator (kafka_loop D c end_offset (kw_polls w)) (ks_start_offset c, 0)) evs e"
  proof (rule generator_runs [where P = "\<lambda>(current, i). i \<le> n" and m = "\<lambda>(current, i). n - i"])
    fix st :: "int \<times> nat" assume "case st of (current, i) \<Rightarrow> i \<le> n"
    moreover obtain current i where "st = (current, i)" by (cases st)
    moreover have "i < n" if "kw_polls w i = Message m" "i \<le> n" for m
      using that assms by (metis insertE le_neq_implies_less poll.distinct(3,5) singletonD)
    ultimately show "\<exists>x s'. kafka_loop D c end_offset (kw_polls w) st = Some (x, s') \<and>
        (\<forall>ev. x = Yielded ev \<longrightarrow> (case s' of (current, i) \<Rightarrow> i \<le> n)
          \<and> (case s' of (current, i) \<Rightarrow> n - i) < (case st of (current, i) \<Rightarrow> n - i))"
      by (auto simp: kafka_loop_def Suc_leI diff_less_mono2 split: poll.split sum.split)
  qed simp
  with Inr show ?thesis by (simp add: kafka_iter_def)
qed (auto simp: kafka_iter_def intro: raises_at_once_runs)

lemma dlq_runs:
  assumes "dw_polls w n = No_message"
  shows "\<exists>evs e. runs_to (dlq_iter D c w) evs e"
proof (cases "rbind (dlq_consumer w) (\<lambda>_. rbind (opt_bound D (ds_start_time c)) (\<lambda>s.
            rbind (opt_bound D (ds_end_time c)) (\<lambda>e. Inr (s, e))))")
  case (Inr se)
  obtain s e where se: "se = (s, e)" by (cases se)
  have "\<exists>evs x. runs_to (generator (\<lambda>(cnt, i). dlq_loop D c s e (dw_polls w) cnt i) (0, 0)) evs x"
  proof (rule generator_runs [where P = "\<lambda>(cnt, i). i \<le> n" and m = "\<lambda>(cnt, i). nat (ds_max_messages c - cnt)"])
    fix st :: "int \<times> nat" assume "case st of (cnt, i) \<Rightarrow> i \<le> n"
    moreover obtain cnt i where st: "st = (cnt, i)" by (cases st)
    ultimately obtain x cnt' i' where r: "dlq_loop D c s e (dw_polls w) cnt i = Some (x, cnt', i')"
      "\<forall>ev. x = Yielded ev \<longrightarrow> i' \<le> n"
      using dlq_loop_returns [of "dw_polls w" n i D c s e cnt] assms by auto
    have "x = Yielded ev \<longrightarrow> nat (ds_max_messages c - cnt') < nat (ds_max_messages c - cnt)" for ev
      using dlq_loop_event [OF r(1), of ev] by auto
    with r st show "\<exists>x s'. (case st of (cnt, i) \<Rightarrow> dlq_loop D c s e (dw_polls w) cnt i) = Some (x, s') \<and>
        (\<forall>ev. x = Yielded ev \<longrightarrow> (case s' of (cnt, i) \<Rightarrow> i \<le> n)
          \<and> (case s' of (cnt, i) \<Rightarrow> nat (ds_max_messages c - cnt)) < (case st of (cnt, i) \<Rightarrow> nat (ds_max_messages c - cnt)))"
      by auto
  qed simp
  with Inr se show ?thesis by (simp add: dlq_iter_def)
qed (auto simp: dlq_iter_def intro: raises_at_once_runs)

text \<open>The messages of a topic that all decode to objects of the wanted source.\<close>

definition wanted :: "decoders \<Rightarrow> dlq_source_config \<Rightarrow> poll_message \<Rightarrow> bool" where
  "wanted D c m \<longleftrightarrow>
     (case map_option (decode_value D) (pm_value m) of Some (PDict v) \<Rightarrow> source_matches c v | _ \<Rightarrow> False)"

lemma dlq_loop_wanted:
  assumes "list_all (wanted D c) ms" "cnt + int (length ms) \<le> ds_max_messages c"
    and "\<And>j. j < length ms \<Longrightarrow> polls (i + j) = Message (ms ! j)" "polls (i + length ms) = No_message"
  shows "\<exists>evs. runs_to (generator (\<lambda>(cnt, i). dlq_loop D c None None polls cnt i) (cnt, i)) evs None \<and> length evs = length ms"
  using assms
proof (induction ms arbitrary: cnt i)
  case Nil
  then show ?case by (intro exI [of _ "[]"]) (simp add: runs_to_Nil dlq_loop.simps)
next
  case (Cons m ms)
  obtain bs v where v: "pm_value m = Some bs" "decode_value D bs = PDict v" "source_matches c v"
    using Cons.prems(1) by (auto simp: wanted_def split: option.splits pyval.splits)
  have "polls (Suc i + j) = Message (ms ! j)" if "j < length ms" for j using Cons.prems(3) [of "Suc j"] that by simp
  then obtain evs where evs: "runs_to (generator (\<lambda>(cnt, i). dlq_loop D c None None polls cnt i) (cnt + 1, Suc i)) evs None"
    "length evs = length ms"
    using Cons.IH [of "cnt + 1" "Suc i"] Cons.prems by auto
  have "dlq_loop D c None None polls cnt i = Some (Yielded (dlq_replay_event D c m v), cnt + 1, Suc i)"
    using Cons.prems(2) Cons.prems(3) [of 0] v by (subst dlq_loop.simps) (simp add: time_matches_def)
  then have "runs_to (generator (\<lambda>(cnt, i). dlq_loop D c None None polls cnt i) (cnt, i)) (dlq_replay_event D c m v # evs) None"
    using evs(1) by (intro runs_to_generator_Cons [of _ _ _ "(cnt + 1, Suc i)"]) simp_all
  then show ?case using evs(2) by force
qed

text \<open>Asking for the number of dead letters loses one of them: the count polls the consumer for its
  assignment and drops the message it gets, so a job, which counts before it reads, replays one
  message fewer than the topic holds.\<close>

theorem dlq_count_loses_message:
  assumes "dw_create w = None" "ds_start_time c = None" "ds_end_time c = None"
    and "dw_polls w = polls_of (m # ms)" "list_all (wanted D c) (m # ms)"
    and "int (length (m # ms)) \<le> ds_max_messages c"
  shows "(\<exists>evs. runs_to (dlq_iter D c w) evs None \<and> length evs = Suc (length ms))
    \<and> (\<exists>evs. runs_to (dlq_iter D c (snd (dlq_event_count c w))) evs None \<and> length evs = length ms)"
  using assms dlq_loop_wanted [of D c "m # ms" 0 "polls_of (m # ms)" 0]
    dlq_loop_wanted [of D c ms 0 "\<lambda>i. polls_of (m # ms) (Suc i)" 0]
  by (simp add: dlq_iter_def dlq_event_count_def dlq_consumer_def ensure_source_def opt_bound_def polls_of_def)

lemma dlq_count_loses_message_witness:
  "\<exists>D c w evs evs'. runs_to (dlq_iter D c w) evs None \<and> length evs = 2 \<and>
     runs_to (dlq_iter D c (snd (dlq_event_count c w))) evs' None \<and> length evs' = 1"
proof -
  define D where "D = \<lparr>json_value = (\<lambda>bs. Some (PDict [])), decode_replace = (\<lambda>bs. []), now_iso = [],
    from_iso = (\<lambda>s. None), str_other = (\<lambda>v. [])\<rparr>"
  define c where "c = \<lparr>ds_source_topic = ''txn.api'', ds_dlq_topic = ''txn.api.dlq'', ds_start_time = None,
    ds_end_time = None, ds_max_messages = 1000\<rparr>"
  define w where "w = \<lparr>dw_create = None, dw_total = Inr 2, dw_polls = polls_of (map sample_message [0, 1])\<rparr>"
  have "dw_create w = None" "ds_start_time c = None" "ds_end_time c = None"
    "dw_polls w = polls_of (sample_message 0 # [sample_message 1])"
    "list_all (wanted D c) (sample_message 0 # [sample_message 1])"
    "int (length (sample_message 0 # [sample_message 1])) \<le> ds_max_messages c"
    by (simp_all add: D_def c_def w_def sample_message_def wanted_def decode_value_def source_matches_def
        dget_or_def Let_def)
  from dlq_count_loses_message [OF this] obtain evs evs' where "runs_to (dlq_iter D c w) evs None" "length evs = 2"
    "runs_to (dlq_iter D c (snd (dlq_event_count c w))) evs' None" "length evs' = 1"
    by auto
  then show ?thesis by blast
qed

end
