(* ===== verification/Replay.thy ===== *)
theory Replay
  imports Replay_Sources "HOL-Library.Multiset"
begin

text \<open>
  \<open>pipelines/replay/result_sink.py\<close> and \<open>replay_job.py\<close>: the sink of the results, with its queue and
  its buffer, and the job that reads a source, scores each event and collects the results. Which
  messages Kafka takes and how an Iceberg write ends are arguments. The background thread of the
  sink only flushes the buffer; its rounds are steps of their own, which may fall between any two
  results. The job never suspends between events, so it is one sequential loop; the flag set by
  \<open>cancel\<close> from outside is an argument, read before each event. The loop asks the source for one event
  after the other: where the source never answers, or never stops yielding, the job does not return
  (\<open>None\<close>).
\<close>

section \<open>The sink\<close>

text \<open>An append that raises may have been committed before it did; the flag of a failed batch says so.\<close>

datatype iceberg_outcome = Batch_written | Iceberg_missing | Batch_failed bool

record result_sink =
  sk_queue :: "replay_result list"
  sk_maxsize :: int
  sk_buffer :: "replay_result list"
  sk_has_producer :: bool
  sk_produced :: "replay_result list"
  sk_iceberg_table :: "string option"
  sk_batches :: "replay_result list list"

definition ReplayResultSink_init :: "bool \<Rightarrow> string option \<Rightarrow> int \<Rightarrow> result_sink" where
  "ReplayResultSink_init has_producer iceberg_table max_queue_size =
     \<lparr>sk_queue = [], sk_maxsize = max_queue_size, sk_buffer = [], sk_has_producer = has_producer, sk_produced = [],
      sk_iceberg_table = iceberg_table, sk_batches = []\<rparr>"

text \<open>\<open>takes r\<close>: the result serialises and the producer accepts it; otherwise it is logged and lost.\<close>

definition send_to_kafka :: "(replay_result \<Rightarrow> bool) \<Rightarrow> replay_result \<Rightarrow> result_sink \<Rightarrow> result_sink" where
  "send_to_kafka takes r s =
     (if sk_has_producer s \<and> takes r then s\<lparr>sk_produced := sk_produced s @ [r]\<rparr> else s)"

text \<open>A queue of size zero or less is unbounded; a full one makes \<open>put\<close> time out.\<close>

definition queue_full :: "result_sink \<Rightarrow> bool" where
  "queue_full s \<longleftrightarrow> 0 < sk_maxsize s \<and> sk_maxsize s \<le> int (length (sk_queue s))"

definition send_result :: "(replay_result \<Rightarrow> bool) \<Rightarrow> replay_result \<Rightarrow> result_sink \<Rightarrow> result_sink" where
  "send_result takes r s =
     (let s1 = (if queue_full s then send_to_kafka takes r s else s\<lparr>sk_queue := sk_queue s @ [r]\<rparr>)
      in s1\<lparr>sk_buffer := sk_buffer s1 @ [r]\<rparr>)"

definition process_queue :: "(replay_result \<Rightarrow> bool) \<Rightarrow> result_sink \<Rightarrow> result_sink" where
  "process_queue takes s = fold (send_to_kafka takes) (sk_queue s) (s\<lparr>sk_queue := []\<rparr>)"

text \<open>A missing library counts as a success, although nothing is written.\<close>

definition flush_buffer :: "iceberg_outcome \<Rightarrow> result_sink \<Rightarrow> result_sink" where
  "flush_buffer outcome s =
     (if sk_iceberg_table s = None \<or> sk_buffer s = [] then s
      else let batch = sk_buffer s; s1 = s\<lparr>sk_buffer := []\<rparr> in
        case outcome of
          Batch_written \<Rightarrow> s1\<lparr>sk_batches := sk_batches s1 @ [batch]\<rparr>
        | Iceberg_missing \<Rightarrow> s1
        | Batch_failed landed \<Rightarrow>
            s1\<lparr>sk_buffer := sk_buffer s1 @ batch, sk_batches := sk_batches s1 @ (if landed then [batch] else [])\<rparr>)"

text \<open>
  \<open>flush\<close>: an exception of the producer's own flush leaves the method before the buffer is written, and
  leaves \<open>close\<close> with the producer in place; only the second flush of \<open>close\<close> is in a \<open>try\<close>.
\<close>

definition sink_flush ::
  "(replay_result \<Rightarrow> bool) \<Rightarrow> exn option \<Rightarrow> iceberg_outcome \<Rightarrow> result_sink \<Rightarrow> result_sink \<times> unit result" where
  "sink_flush takes flush_error outcome s =
     (let s1 = process_queue takes s in
      case (if sk_has_producer s1 then flush_error else None) of
        Some e \<Rightarrow> (s1, Inl e)
      | None \<Rightarrow> (flush_buffer outcome s1, Inr ()))"

definition sink_close ::
  "(replay_result \<Rightarrow> bool) \<Rightarrow> exn option \<Rightarrow> iceberg_outcome \<Rightarrow> result_sink \<Rightarrow> result_sink \<times> unit result" where
  "sink_close takes flush_error outcome s =
     (case sink_flush takes flush_error outcome s of
        (s1, Inl e) \<Rightarrow> (s1, Inl e)
      | (s1, Inr _) \<Rightarrow> (s1\<lparr>sk_has_producer := False\<rparr>, Inr ()))"

datatype sink_event = Send replay_result | Round iceberg_outcome

fun sink_step :: "(replay_result \<Rightarrow> bool) \<Rightarrow> sink_event \<Rightarrow> result_sink \<Rightarrow> result_sink" where
  "sink_step takes (Send r) s = send_result takes r s"
| "sink_step takes (Round outcome) s = flush_buffer outcome s"

fun sent :: "sink_event list \<Rightarrow> replay_result list" where
  "sent [] = []"
| "sent (Send r # xs) = r # sent xs"
| "sent (Round q # xs) = sent xs"

definition sink_stats :: "result_sink \<Rightarrow> nat \<times> nat" where
  "sink_stats s = (length (sk_queue s), length (sk_buffer s))"

section \<open>One event\<close>

record replay_env =
  re_decoders :: decoders
  re_now :: int
  re_uuid :: string
  re_elapsed_ms :: rat

fun py_get :: "pyval \<Rightarrow> string \<Rightarrow> pyval \<Rightarrow> pyval result" where
  "py_get (PDict d) k v = Inr (dget_or d k v)"
| "py_get v k w = raise_exn AttributeError ''object has no attribute get''"

definition original_timestamp :: "replay_env \<Rightarrow> pyval \<Rightarrow> stamp" where
  "original_timestamp env v =
     (case v of
        PStr s \<Rightarrow> (case from_iso (re_decoders env) (replace_Z s) of Some t \<Rightarrow> Instant t | None \<Rightarrow> Instant (re_now env))
      | _ \<Rightarrow> Raw v)"

definition process_event ::
  "replay_env \<Rightarrow> string \<Rightarrow> (pyval \<Rightarrow> pydict result) \<Rightarrow> pydict \<Rightarrow> replay_result result" where
  "process_event env job_id scoring_fn event =
     (let payload = dget_or event ''payload'' (PDict []) in
      rbind (py_get payload ''fraud_decision'' PNone) (\<lambda>original_decision.
      rbind (py_get payload ''fraud_score'' PNone) (\<lambda>original_score.
      rbind (py_get payload ''triggered_rules'' (PList [])) (\<lambda>rules_original.
      rbind (scoring_fn payload) (\<lambda>replay.
      ReplayResult_post_init
        \<lparr>rr_job_id = job_id,
         rr_event_id = dget_or event ''event_id'' (PStr (re_uuid env)),
         rr_original_timestamp = original_timestamp env
            (dget_or event ''timestamp'' (PStr (now_iso (re_decoders env)))),
         rr_replay_timestamp = re_now env,
         rr_original_decision = original_decision,
         rr_replay_decision = dget replay ''decision'',
         rr_original_score = (if is_score original_score then original_score else PNone),
         rr_replay_score = dget replay ''score'',
         rr_rules_original = (case rules_original of PList xs \<Rightarrow> xs | _ \<Rightarrow> []),
         rr_rules_replay = dget_or replay ''triggered_rules'' (PList []),
         rr_score_delta = PFloat (Fin 0), rr_decision_changed = False,
         rr_processing_time_ms = re_elapsed_ms env,
         rr_metadata = [(''source'', dget event ''source''), (''table'', dget event ''table''),
                        (''topic'', dget event ''topic''), (''offset'', dget event ''offset'')]\<rparr>)))))"

section \<open>The job\<close>

record replay_job =
  jb_config :: replay_config
  jb_id :: string
  jb_status :: job_status
  jb_cancelled :: bool
  jb_results :: "replay_result list"
  jb_sink :: "result_sink option"

definition ReplayJob_init :: "int \<Rightarrow> string \<Rightarrow> replay_config \<Rightarrow> replay_job" where
  "ReplayJob_init now job_id config =
     \<lparr>jb_config = config, jb_id = job_id,
      jb_status = \<lparr>js_job_id = job_id, js_config = Some config, js_status = Job_pending, js_created_at = now,
        js_started_at = None, js_completed_at = None, js_total_events = PInt 0, js_processed_events = 0,
        js_failed_events = 0, js_results_summary = [], js_error_message = None\<rparr>,
      jb_cancelled = False, jb_results = [], jb_sink = None\<rparr>"

definition job_cancel :: "replay_job \<Rightarrow> replay_job" where
  "job_cancel j = j\<lparr>jb_cancelled := True\<rparr>"

definition get_source_config :: "replay_config \<Rightarrow> source_config" where
  "get_source_config c =
     (case rc_source_type c of
        Src_iceberg \<Rightarrow> (case rc_iceberg c of Some x \<Rightarrow> Cfg_iceberg x | None \<Rightarrow> Cfg_none)
      | Src_kafka \<Rightarrow> (case rc_kafka c of Some x \<Rightarrow> Cfg_kafka x | None \<Rightarrow> Cfg_none)
      | Src_dlq \<Rightarrow> (case rc_dlq c of Some x \<Rightarrow> Cfg_dlq x | None \<Rightarrow> Cfg_none))"

text \<open>What the worlds of the three sources make of a configuration: a count, then the events.\<close>

record worlds =
  w_iceberg :: iceberg_world
  w_iso_text :: "pyval \<Rightarrow> pyval"
  w_kafka :: kafka_world
  w_dlq :: dlq_world

definition read_source :: "decoders \<Rightarrow> worlds \<Rightarrow> source_config \<Rightarrow> pyval \<times> event_stream" where
  "read_source D w c =
     (case c of
        Cfg_iceberg x \<Rightarrow> (iceberg_event_count D x (w_iceberg w), iceberg_iter D (w_iso_text w) x (w_iceberg w))
      | Cfg_kafka x \<Rightarrow> (PInt (kafka_event_count x (w_kafka w)), kafka_iter D x (w_kafka w))
      | Cfg_dlq x \<Rightarrow> (let (n, w') = dlq_event_count x (w_dlq w) in (PInt n, dlq_iter D x w'))
      | Cfg_none \<Rightarrow> (PInt 0, \<lambda>k. Some Stopped))"

text \<open>
  What the caller supplies for one run: the environment of each event, the scoring function, the
  callback (the exception it raises, if any), the broker, what \<open>cancel\<close> has set by each event, and what the
  flush of the producer raises at the end.
\<close>

record run_env =
  ru_env :: "nat \<Rightarrow> replay_env"
  ru_scoring :: "pyval \<Rightarrow> pydict result"
  ru_callback :: "replay_result \<Rightarrow> exn option"
  ru_takes :: "replay_result \<Rightarrow> bool"
  ru_cancel :: "nat \<Rightarrow> bool"
  ru_flush :: "exn option"

definition step_result :: "run_env \<Rightarrow> replay_result \<Rightarrow> replay_job \<Rightarrow> replay_job" where
  "step_result R r j =
     j\<lparr>jb_results := jb_results j @ [r], jb_sink := map_option (send_result (ru_takes R) r) (jb_sink j)\<rparr>"

text \<open>The body of the loop: one event, with the counters of the processed and the failed ones.\<close>

definition turn :: "run_env \<Rightarrow> nat \<Rightarrow> pydict \<Rightarrow> int \<Rightarrow> int \<Rightarrow> replay_job \<Rightarrow> int \<times> int \<times> replay_job" where
  "turn R i event processed failed j =
     (case process_event (ru_env R i) (jb_id j) (ru_scoring R) event of
        Inl e \<Rightarrow> (processed, failed + 1, j)
      | Inr r \<Rightarrow>
          (let j1 = step_result R r j in
           case ru_callback R r of
             Some e \<Rightarrow> (processed, failed + 1, j1)
           | None \<Rightarrow>
               (let p = processed + 1
                in (p, failed,
                    if p mod 100 = 0 then j1\<lparr>jb_status := (jb_status j1)\<lparr>js_processed_events := p\<rparr>\<rparr> else j1))))"

datatype loop_end = Loop_done int int | Loop_raised exn | Loop_cancelled

partial_function (option) replay_loop ::
  "run_env \<Rightarrow> event_stream \<Rightarrow> nat \<Rightarrow> int \<Rightarrow> int \<Rightarrow> replay_job \<Rightarrow> (replay_job \<times> loop_end) option" where
  "replay_loop R events i processed failed j =
     (case events i of
        None \<Rightarrow> None
      | Some Stopped \<Rightarrow> Some (j, Loop_done processed failed)
      | Some (Raised e) \<Rightarrow> Some (j, Loop_raised e)
      | Some (Yielded event) \<Rightarrow>
          (if jb_cancelled j \<or> ru_cancel R i
           then Some (j\<lparr>jb_status := (jb_status j)\<lparr>js_status := Job_cancelled\<rparr>\<rparr>, Loop_cancelled)
           else (case turn R i event processed failed j of
                   (p, f, j') \<Rightarrow> replay_loop R events (Suc i) p f j')))"

declare replay_loop.simps [code]

definition mean_time :: "replay_result list \<Rightarrow> rat" where
  "mean_time rs = fl (fold (\<lambda>r s. fl (s + rr_processing_time_ms r)) rs 0 / of_nat (length rs))"

definition compute_summary :: "(pyval list \<Rightarrow> pyval list) \<Rightarrow> replay_result list \<Rightarrow> pydict \<Rightarrow> pydict result" where
  "compute_summary set_order rs old =
     (if rs = [] then Inr old
      else let n_changed = length (filter rr_decision_changed rs); ds = score_deltas rs in
        rbind (mean_delta ds) (\<lambda>avg_score_delta.
        rbind (max_delta ds) (\<lambda>max_score_delta.
        rbind (rule_changes set_order rs) (\<lambda>changes. Inr
          [(''total_compared'', PInt (int (length rs))),
           (''decisions_changed'', PInt (int n_changed)),
           (''decision_change_rate'', PFloat (fl_round 2 (Fin (change_rate n_changed (length rs))))),
           (''avg_score_delta'', py_round 4 avg_score_delta),
           (''max_score_delta'', py_round 4 max_score_delta),
           (''rules_changed_most'', PList (map (\<lambda>(k, n). PList [k, PInt (int n)]) (most_changed changes))),
           (''avg_processing_time_ms'', PFloat (fl_round 2 (Fin (mean_time rs))))]))))"

definition set_status :: "(job_status \<Rightarrow> job_status) \<Rightarrow> replay_job \<Rightarrow> replay_job" where
  "set_status f j = j\<lparr>jb_status := f (jb_status j)\<rparr>"

definition run_replay ::
  "(pyval list \<Rightarrow> pyval list) \<Rightarrow> run_env \<Rightarrow> pyval \<times> event_stream \<Rightarrow> replay_job \<Rightarrow> (replay_job \<times> exn option) option" where
  "run_replay set_order R source j =
     (let (n, events) = source;
          j1 = set_status (\<lambda>s. s\<lparr>js_total_events := n\<rparr>) j
      in case replay_loop R events 0 0 0 j1 of
           None \<Rightarrow> None
         | Some (j2, Loop_cancelled) \<Rightarrow> Some (j2, None)
         | Some (j2, Loop_raised e) \<Rightarrow> Some (j2, Some e)
         | Some (j2, Loop_done processed failed) \<Rightarrow>
             (let j3 = set_status (\<lambda>s. s\<lparr>js_processed_events := processed, js_failed_events := failed\<rparr>) j2 in
              case compute_summary set_order (jb_results j3) (js_results_summary (jb_status j3)) of
                Inl e \<Rightarrow> Some (j3, Some e)
              | Inr summary \<Rightarrow>
                  Some (set_status (\<lambda>s. s\<lparr>js_results_summary := summary, js_status := Job_completed\<rparr>) j3, None)))"

text \<open>
  The \<open>finally\<close> of \<open>start\<close> closes the sink, whose exception replaces the status that would be returned.
\<close>

definition finish_job :: "run_env \<Rightarrow> int \<Rightarrow> replay_job \<Rightarrow> exn option \<Rightarrow> replay_job \<times> job_status result" where
  "finish_job R t1 j2 r =
     (let j3 = (case r of None \<Rightarrow> j2
              | Some e \<Rightarrow> set_status (\<lambda>s. s\<lparr>js_status := Job_failed, js_error_message := Some (exn_msg e)\<rparr>) j2);
          closed = map_option (sink_close (ru_takes R) (ru_flush R) Batch_written) (jb_sink j3);
          j4 = (set_status (\<lambda>s. s\<lparr>js_completed_at := Some t1\<rparr>) j3)\<lparr>jb_sink := map_option fst closed\<rparr>
      in (j4, case closed of Some (s, Inl e) \<Rightarrow> Inl e | _ \<Rightarrow> Inr (jb_status j4)))"

definition job_start ::
  "(pyval list \<Rightarrow> pyval list) \<Rightarrow> run_env \<Rightarrow> decoders \<Rightarrow> worlds \<Rightarrow> bool \<Rightarrow> int \<Rightarrow> int \<Rightarrow> replay_job \<Rightarrow>
   (replay_job \<times> job_status result) option" where
  "job_start set_order R D w has_producer t0 t1 j =
     (if js_status (jb_status j) \<noteq> Job_pending
      then Some (j, raise_exn RuntimeError (''Job already started (status: ReplayStatus.'' @ status_value (js_status (jb_status j)) @ '')''))
      else let
        j1 = (set_status (\<lambda>s. s\<lparr>js_status := Job_running, js_started_at := Some t0\<rparr>) j)
             \<lparr>jb_sink := Some (ReplayResultSink_init has_producer None 10000)\<rparr>
      in map_option (\<lambda>(j2, r). finish_job R t1 j2 r)
           (case create_source_adapter (rc_source_type (jb_config j)) (get_source_config (jb_config j)) of
              Inl e \<Rightarrow> Some (j1, Some e)
            | Inr c \<Rightarrow> run_replay set_order R (read_source D w c) j1))"

section \<open>Lemmas on the sink\<close>

lemma send_to_kafka_fold:
  "sk_has_producer s \<Longrightarrow> fold (send_to_kafka takes) rs s = s\<lparr>sk_produced := sk_produced s @ filter takes rs\<rparr>"
  by (induction rs arbitrary: s) (simp_all add: send_to_kafka_def)

lemma close_produced:
  "sk_has_producer s \<Longrightarrow>
   sk_produced (fst (sink_close takes fe q s)) = sk_produced s @ filter takes (sk_queue s)"
  by (simp add: sink_close_def sink_flush_def process_queue_def send_to_kafka_fold flush_buffer_def Let_def
      split: iceberg_outcome.split option.split)

definition produced_or_queued :: "(replay_result \<Rightarrow> bool) \<Rightarrow> result_sink \<Rightarrow> replay_result multiset" where
  "produced_or_queued takes s = mset (sk_produced s) + mset (filter takes (sk_queue s))"

lemma sink_step_keeps:
  "sk_has_producer (sink_step takes x s) = sk_has_producer s" "sk_maxsize (sink_step takes x s) = sk_maxsize s"
  "sk_iceberg_table (sink_step takes x s) = sk_iceberg_table s"
  by (cases x; auto simp: send_result_def send_to_kafka_def flush_buffer_def Let_def split: iceberg_outcome.splits)+

lemma sink_step_mset:
  "sk_has_producer s \<Longrightarrow>
   produced_or_queued takes (sink_step takes x s) = produced_or_queued takes s + mset (filter takes (sent [x]))"
  by (cases x) (auto simp: produced_or_queued_def send_result_def send_to_kafka_def flush_buffer_def Let_def
      split: iceberg_outcome.splits)

lemma sent_Cons: "sent (x # xs) = sent [x] @ sent xs"
  by (cases x) simp_all

lemma sink_run_mset:
  "sk_has_producer s \<Longrightarrow>
   produced_or_queued takes (fold (sink_step takes) xs s) = produced_or_queued takes s + mset (filter takes (sent xs))
   \<and> sk_has_producer (fold (sink_step takes) xs s)"
proof (induction xs arbitrary: s)
  case (Cons x xs)
  then show ?case using sink_step_mset [of s takes x]
    by (subst sent_Cons) (simp add: sink_step_keeps ac_simps)
qed simp

lemma sink_run_order:
  "0 < sk_maxsize s \<longrightarrow> int (length (sk_queue s) + length (sent xs)) \<le> sk_maxsize s \<Longrightarrow>
   sk_queue (fold (sink_step takes) xs s) = sk_queue s @ sent xs
   \<and> sk_produced (fold (sink_step takes) xs s) = sk_produced s"
proof (induction xs arbitrary: s)
  case (Cons x xs)
  show ?case
  proof (cases x)
    case (Send r)
    then have "\<not> queue_full s" using Cons.prems by (auto simp: queue_full_def)
    then show ?thesis using Cons.IH [of "send_result takes r s"] Cons.prems Send
      by (simp add: send_result_def)
  next
    case (Round q)
    have "sk_queue (flush_buffer q s) = sk_queue s" "sk_produced (flush_buffer q s) = sk_produced s"
      "sk_maxsize (flush_buffer q s) = sk_maxsize s"
      by (simp_all add: flush_buffer_def Let_def split: iceberg_outcome.split)
    then show ?thesis using Cons.IH [of "flush_buffer q s"] Cons.prems Round by simp
  qed
qed simp

section \<open>Properties of the sink\<close>

lemma sink_without_producer:
  assumes "\<not> sk_has_producer s"
  shows "\<not> sk_has_producer (fold (sink_step takes) xs s) \<and> sk_produced (fold (sink_step takes) xs s) = sk_produced s"
  using assms
proof (induction xs arbitrary: s)
  case (Cons x xs)
  have "sk_produced (sink_step takes x s) = sk_produced s" using Cons.prems
    by (cases x) (auto simp: send_result_def send_to_kafka_def flush_buffer_def Let_def split: iceberg_outcome.splits)
  then show ?case using Cons.IH [of "sink_step takes x s"] Cons.prems by (simp add: sink_step_keeps)
qed simp

lemma close_without_producer: "\<not> sk_has_producer s \<Longrightarrow> sk_produced (fst (sink_close takes fe q s)) = sk_produced s"
proof -
  assume n: "\<not> sk_has_producer s"
  have "\<not> sk_has_producer t \<Longrightarrow> fold (send_to_kafka takes) rs t = t" for rs t
    by (induction rs) (simp_all add: send_to_kafka_def)
  then show ?thesis using n
    by (simp add: sink_close_def sink_flush_def process_queue_def flush_buffer_def Let_def split: iceberg_outcome.split)
qed

text \<open>C25: The result sink hands every result to its Kafka producer exactly once, whatever the size of its
  queue, however the rounds of the flush thread fall between the results, and even if the final flush of the
  producer raises: once close is over, what was produced is what was sent, less what the producer refuses
  (or cannot be serialised), and in the order of sending if the queue is unbounded or never filled up.
  A sink whose producer could not be created (confluent_kafka missing, or its constructor failed)
  produces nothing: all its results are lost to Kafka.\<close>

theorem replay_sink_exactly_once:
  "mset (sk_produced (fst (sink_close takes fe q
       (fold (sink_step takes) xs (ReplayResultSink_init has_producer table n))))) =
     (if has_producer then mset (filter takes (sent xs)) else {#})
   \<and> (if has_producer \<and> (n \<le> 0 \<or> int (length (sent xs)) \<le> n)
      then sk_produced (fst (sink_close takes fe q (fold (sink_step takes) xs (ReplayResultSink_init has_producer table n))))
          = filter takes (sent xs)
      else True)"
proof (cases has_producer)
  case True
  let ?s = "ReplayResultSink_init has_producer table n"
  let ?t = "fold (sink_step takes) xs ?s"
  have r: "produced_or_queued takes ?t = mset (filter takes (sent xs))" "sk_has_producer ?t"
    using sink_run_mset [of ?s takes xs] True by (simp_all add: ReplayResultSink_init_def produced_or_queued_def)
  have "n \<le> 0 \<or> int (length (sent xs)) \<le> n \<Longrightarrow>
      sk_queue ?t = sent xs \<and> sk_produced ?t = []"
    using sink_run_order [of ?s xs takes] by (auto simp: ReplayResultSink_init_def)
  with r True show ?thesis by (auto simp: close_produced produced_or_queued_def)
next
  case False
  then have "\<not> sk_has_producer (ReplayResultSink_init has_producer table n)"
    "sk_produced (ReplayResultSink_init has_producer table n) = []"
    by (simp_all add: ReplayResultSink_init_def)
  with False show ?thesis
    using sink_without_producer [of "ReplayResultSink_init has_producer table n" takes xs] close_without_producer by simp
qed

text \<open>The buffer for Iceberg only grows in a job: the job gives its sink no table, so no round and
  not even the end of the job empties it, and every result of the run stays in memory twice.\<close>

theorem replay_sink_buffer_never_emptied:
  "sk_buffer (fst (sink_close takes fe q (fold (sink_step takes) xs (ReplayResultSink_init p None n)))) = sent xs"
proof -
  have "sk_iceberg_table s = None \<Longrightarrow>
      sk_buffer (fold (sink_step takes) xs s) = sk_buffer s @ sent xs
      \<and> sk_iceberg_table (fold (sink_step takes) xs s) = None" for s
  proof (induction xs arbitrary: s)
    case (Cons x xs)
    have "sk_buffer (sink_step takes x s) = sk_buffer s @ sent [x]" using Cons.prems
      by (cases x) (auto simp: send_result_def send_to_kafka_def flush_buffer_def Let_def)
    then show ?case using Cons.IH [of "sink_step takes x s"] Cons.prems
      by (subst sent_Cons) (simp add: sink_step_keeps)
  qed simp
  from this [of "ReplayResultSink_init p None n"]
  have b: "sk_buffer (fold (sink_step takes) xs (ReplayResultSink_init p None n)) = sent xs"
    "sk_iceberg_table (fold (sink_step takes) xs (ReplayResultSink_init p None n)) = None"
    by (simp_all add: ReplayResultSink_init_def)
  have f: "sk_buffer (fold (send_to_kafka takes) rs s) = sk_buffer s
      \<and> sk_iceberg_table (fold (send_to_kafka takes) rs s) = sk_iceberg_table s" for rs s
    by (induction rs arbitrary: s) (simp_all add: send_to_kafka_def)
  show ?thesis using b by (simp add: sink_close_def sink_flush_def process_queue_def flush_buffer_def f Let_def split: option.split)
qed

section \<open>Lemmas on the job\<close>

text \<open>The results of the events that score, in order.\<close>

fun scored :: "run_env \<Rightarrow> string \<Rightarrow> nat \<Rightarrow> pydict list \<Rightarrow> replay_result list" where
  "scored R jid i [] = []"
| "scored R jid i (ev # evs) =
     (case process_event (ru_env R i) jid (ru_scoring R) ev of
        Inl e \<Rightarrow> scored R jid (Suc i) evs | Inr r \<Rightarrow> r # scored R jid (Suc i) evs)"

lemma step_result_fields [effect_simps]:
  "jb_results (step_result R r j) = jb_results j @ [r]" "jb_status (step_result R r j) = jb_status j"
  "jb_id (step_result R r j) = jb_id j" "jb_cancelled (step_result R r j) = jb_cancelled j"
  "jb_sink (step_result R r j) = map_option (send_result (ru_takes R) r) (jb_sink j)"
  by (simp_all add: step_result_def)

text \<open>What a turn does to the job: it scores one event, counts it, and changes nothing else that lasts.\<close>

lemma turn_spec:
  assumes "turn R i ev p f j = (p', f', j')"
  shows "p' + f' = p + f + 1 \<and> p \<le> p' \<and> f \<le> f'" "jb_results j' = jb_results j @ scored R (jb_id j) i [ev]"
    "js_status (jb_status j') = js_status (jb_status j)" "jb_id j' = jb_id j" "jb_cancelled j' = jb_cancelled j"
    "map_option sk_has_producer (jb_sink j') = map_option sk_has_producer (jb_sink j)"
proof -
  have k: "map_option (sk_has_producer \<circ> send_result t r) s = map_option sk_has_producer s" for t r s
    using sink_step_keeps(1) [of t "Send r"] by (cases s) simp_all
  show "p' + f' = p + f + 1 \<and> p \<le> p' \<and> f \<le> f'" "jb_results j' = jb_results j @ scored R (jb_id j) i [ev]"
    "js_status (jb_status j') = js_status (jb_status j)" "jb_id j' = jb_id j" "jb_cancelled j' = jb_cancelled j"
    "map_option sk_has_producer (jb_sink j') = map_option sk_has_producer (jb_sink j)"
    using assms by (auto simp: turn_def Let_def effect_simps option.map_comp k split: sum.splits option.splits if_splits)
qed

lemma scored_Cons: "scored R jid i (ev # evs) = scored R jid i [ev] @ scored R jid (Suc i) evs"
  by (simp split: sum.split)

text \<open>What the loop leaves, at whichever end it comes to.\<close>

definition loop_left :: "run_env \<Rightarrow> event_stream \<Rightarrow> nat \<Rightarrow> int \<Rightarrow> int \<Rightarrow> replay_job \<Rightarrow> replay_job \<times> loop_end \<Rightarrow> bool" where
  "loop_left R events i p f j r \<longleftrightarrow>
     (case r of (j', x) \<Rightarrow>
        jb_id j' = jb_id j \<and> (jb_cancelled j \<longrightarrow> jb_results j' = jb_results j) \<and>
        map_option sk_has_producer (jb_sink j') = map_option sk_has_producer (jb_sink j) \<and>
        js_status (jb_status j') = (if x = Loop_cancelled then Job_cancelled else js_status (jb_status j)) \<and>
        (\<forall>p' f'. x = Loop_done p' f' \<longrightarrow>
           (\<exists>evs. (\<forall>k<length evs. events (i + k) = Some (Yielded (evs ! k))) \<and> events (i + length evs) = Some Stopped
              \<and> p' + f' = p + f + int (length evs) \<and> p \<le> p' \<and> f \<le> f'
              \<and> jb_results j' = jb_results j @ scored R (jb_id j) i evs)))"

lemma loop_left_done:
  assumes "loop_left R events i p f j (j', x)" "x = Loop_done p' f'"
  obtains evs where "\<forall>k<length evs. events (i + k) = Some (Yielded (evs ! k))" "events (i + length evs) = Some Stopped"
    "p' + f' = p + f + int (length evs)" "p \<le> p'" "f \<le> f'" "jb_results j' = jb_results j @ scored R (jb_id j) i evs"
proof -
  have "\<exists>evs. (\<forall>k<length evs. events (i + k) = Some (Yielded (evs ! k))) \<and> events (i + length evs) = Some Stopped
    \<and> p' + f' = p + f + int (length evs) \<and> p \<le> p' \<and> f \<le> f' \<and> jb_results j' = jb_results j @ scored R (jb_id j) i evs"
    using assms by (simp add: loop_left_def)
  then show thesis by (elim exE conjE) (rule that)
qed

lemma loop_left_turn:
  assumes "events i = Some (Yielded ev)" "\<not> jb_cancelled j" "turn R i ev p f j = (p2, f2, j2)"
    and "loop_left R events (Suc i) p2 f2 j2 (j', x)"
  shows "loop_left R events i p f j (j', x)"
proof -
  note t = turn_spec [OF assms(3)]
  have "\<exists>evs. (\<forall>k<length evs. events (i + k) = Some (Yielded (evs ! k))) \<and> events (i + length evs) = Some Stopped
      \<and> p' + f' = p + f + int (length evs) \<and> p \<le> p' \<and> f \<le> f' \<and> jb_results j' = jb_results j @ scored R (jb_id j) i evs"
    if x: "x = Loop_done p' f'" for p' f'
  proof -
    obtain evs where e: "\<forall>k<length evs. events (Suc i + k) = Some (Yielded (evs ! k))" "events (Suc i + length evs) = Some Stopped"
      "p' + f' = p2 + f2 + int (length evs)" "p2 \<le> p'" "f2 \<le> f'" "jb_results j' = jb_results j2 @ scored R (jb_id j2) (Suc i) evs"
      by (rule loop_left_done [OF assms(4) x])
    have "\<forall>k<length (ev # evs). events (i + k) = Some (Yielded ((ev # evs) ! k))"
      using e(1) assms(1) by (auto simp: less_Suc_eq_0_disj)
    moreover have "jb_results j' = jb_results j @ scored R (jb_id j) i (ev # evs)"
      using e(6) t(2,4) scored_Cons [of R "jb_id j" i ev evs] by simp
    moreover have "p' + f' = p + f + int (length (ev # evs))" "p \<le> p'" "f \<le> f'" using e(3-5) t(1) by auto
    moreover have "events (i + length (ev # evs)) = Some Stopped" using e(2) by simp
    ultimately show ?thesis by blast
  qed
  then show ?thesis using assms(2,4) t by (simp add: loop_left_def)
qed

lemma replay_loop_left:
  assumes "replay_loop R events i p f j = Some r"
  shows "loop_left R events i p f j r"
proof (rule replay_loop.raw_induct [OF _ assms])
  fix loop R events i p f j r
  assume IH: "\<And>R events i p f j r. loop R events i p f j = Some r \<Longrightarrow> loop_left R events i p f j r"
    and eq: "(case events i of
        None \<Rightarrow> None
      | Some (Yielded event) \<Rightarrow>
          if jb_cancelled j \<or> ru_cancel R i
          then Some (j\<lparr>jb_status := jb_status j\<lparr>js_status := Job_cancelled\<rparr>\<rparr>, Loop_cancelled)
          else case turn R i event p f j of (p, f, j') \<Rightarrow> loop R events (Suc i) p f j'
      | Some Stopped \<Rightarrow> Some (j, Loop_done p f) | Some (Raised e) \<Rightarrow> Some (j, Loop_raised e)) = Some r"
  show "loop_left R events i p f j r"
  proof (cases "events i")
    case (Some x)
    show ?thesis
    proof (cases x)
      case (Yielded ev)
      show ?thesis
      proof (cases "jb_cancelled j \<or> ru_cancel R i")
        case False
        obtain p2 f2 j2 where t: "turn R i ev p f j = (p2, f2, j2)" by (metis prod_cases3)
        have l: "loop R events (Suc i) p2 f2 j2 = Some r" using eq Some Yielded False t by simp
        obtain j' y where r: "r = (j', y)" by (cases r)
        show ?thesis unfolding r
          by (rule loop_left_turn [OF _ _ t]) (use Some Yielded False IH [OF l] r in auto)
      next
        case True
        then have "r = (j\<lparr>jb_status := jb_status j\<lparr>js_status := Job_cancelled\<rparr>\<rparr>, Loop_cancelled)"
          using eq Some Yielded by auto
        then show ?thesis by (simp add: loop_left_def)
      qed
    next
      case Stopped
      then have "r = (j, Loop_done p f)" using eq Some by simp
      then show ?thesis using Some Stopped by (auto simp: loop_left_def intro!: exI [of _ "[]"])
    next
      case (Raised e)
      then have "r = (j, Loop_raised e)" using eq Some by simp
      then show ?thesis by (simp add: loop_left_def)
    qed
  qed (use eq in simp)
qed

text \<open>The loop returns on a source that comes to an end.\<close>

lemma replay_loop_returns:
  assumes "\<forall>k<n. events (i + k) \<noteq> None" "events (i + n) = Some x" "\<And>ev. x \<noteq> Yielded ev"
  shows "\<exists>r. replay_loop R events i p f j = Some r"
  using assms
proof (induction n arbitrary: i p f j)
  case 0
  then show ?case by (subst replay_loop.simps) (simp split: gen_step.split)
next
  case (Suc n)
  have "\<forall>k<n. events (Suc i + k) \<noteq> None" "events (Suc i + n) = Some x" using Suc.prems(1,2) by force+
  note IH = Suc.IH [OF this Suc.prems(3)]
  have "events i \<noteq> None" using Suc.prems(1) by force
  then show ?case using IH by (subst replay_loop.simps) (auto split: gen_step.split prod.split)
qed

lemma replay_loop_runs:
  assumes "runs_to events evs e"
  shows "\<exists>r. replay_loop R events 0 p f j = Some r"
proof (rule replay_loop_returns)
  show "\<forall>k<length evs. events (0 + k) \<noteq> None" using assms by (simp add: runs_to_def list_all_iff)
  show "events (0 + length evs) = Some (case e of None \<Rightarrow> Stopped | Some x \<Rightarrow> Raised x)" using assms by (simp add: runs_to_def)
  show "(case e of None \<Rightarrow> Stopped | Some x \<Rightarrow> Raised x) \<noteq> Yielded ev" for ev by (cases e) simp_all
qed

lemma set_status_fields [simp]:
  "jb_results (set_status g j) = jb_results j" "jb_id (set_status g j) = jb_id j" "jb_sink (set_status g j) = jb_sink j"
  "jb_cancelled (set_status g j) = jb_cancelled j" "jb_status (set_status g j) = g (jb_status j)"
  "jb_config (set_status g j) = jb_config j"
  by (simp_all add: set_status_def)

lemma run_replay_runs:
  assumes "runs_to events evs e"
  shows "\<exists>r. run_replay so R (n, events) j = Some r"
proof -
  obtain j2 x where "replay_loop R events 0 0 0 (set_status (\<lambda>s. s\<lparr>js_total_events := n\<rparr>) j) = Some (j2, x)"
    using replay_loop_runs [OF assms] by fastforce
  then show ?thesis by (cases x) (auto simp: run_replay_def Let_def split: sum.split)
qed

lemma summary_fresh: "rs \<noteq> [] \<Longrightarrow> compute_summary so rs old = compute_summary so rs []"
  by (simp add: compute_summary_def)

lemma run_replay_left:
  assumes "run_replay so R (n, events) j = Some (j', r)"
  shows "jb_id j' = jb_id j" "jb_cancelled j \<Longrightarrow> jb_results j' = jb_results j"
    "map_option sk_has_producer (jb_sink j') = map_option sk_has_producer (jb_sink j)"
    "r = None \<Longrightarrow> js_status (jb_status j') \<in> {Job_completed, Job_cancelled}"
    "r = None \<Longrightarrow> js_status (jb_status j') = Job_completed \<Longrightarrow>
      \<exists>evs. runs_to events evs None
        \<and> js_processed_events (jb_status j') + js_failed_events (jb_status j') = int (length evs)
        \<and> 0 \<le> js_processed_events (jb_status j') \<and> 0 \<le> js_failed_events (jb_status j')
        \<and> jb_results j' = jb_results j @ scored R (jb_id j) 0 evs
        \<and> (jb_results j' \<noteq> [] \<longrightarrow> compute_summary so (jb_results j') [] = Inr (js_results_summary (jb_status j')))"
proof -
  let ?j1 = "set_status (\<lambda>s. s\<lparr>js_total_events := n\<rparr>) j"
  obtain j2 x where l: "replay_loop R events 0 0 0 ?j1 = Some (j2, x)"
    using assms by (auto simp: run_replay_def Let_def split: option.splits)
  note left = replay_loop_left [OF l]
  have keep: "jb_id j' = jb_id j2 \<and> jb_results j' = jb_results j2 \<and> jb_sink j' = jb_sink j2"
    using assms l by (auto simp: run_replay_def Let_def split: loop_end.splits sum.splits)
  show "jb_id j' = jb_id j" "jb_cancelled j \<Longrightarrow> jb_results j' = jb_results j"
    "map_option sk_has_producer (jb_sink j') = map_option sk_has_producer (jb_sink j)"
    using left keep by (simp_all add: loop_left_def)
  show "r = None \<Longrightarrow> js_status (jb_status j') \<in> {Job_completed, Job_cancelled}"
    using assms l left by (auto simp: run_replay_def loop_left_def Let_def split: loop_end.splits sum.splits)
  assume r: "r = None" "js_status (jb_status j') = Job_completed"
  obtain p f where x: "x = Loop_done p f"
    using assms l left r by (cases x) (auto simp: run_replay_def loop_left_def)
  obtain evs where e: "\<forall>k<length evs. events k = Some (Yielded (evs ! k))" "events (length evs) = Some Stopped"
    "p + f = int (length evs)" "0 \<le> p" "0 \<le> f" "jb_results j2 = jb_results j @ scored R (jb_id j) 0 evs"
    using left x by (auto simp: loop_left_def)
  let ?j3 = "set_status (\<lambda>s. s\<lparr>js_processed_events := p, js_failed_events := f\<rparr>) j2"
  obtain summary where summary: "compute_summary so (jb_results ?j3) (js_results_summary (jb_status ?j3)) = Inr summary"
    and j': "j' = set_status (\<lambda>s. s\<lparr>js_results_summary := summary, js_status := Job_completed\<rparr>) ?j3"
    using l x assms r by (auto simp: run_replay_def Let_def split: sum.splits)
  have "jb_results j' \<noteq> [] \<longrightarrow> compute_summary so (jb_results j') [] = Inr (js_results_summary (jb_status j'))"
    using summary summary_fresh [of "jb_results j2" so "js_results_summary (jb_status j2)"] by (simp add: j')
  moreover have "runs_to events evs None" using e(1,2) by (simp add: runs_to_def list_all_iff)
  ultimately show "\<exists>evs. runs_to events evs None
        \<and> js_processed_events (jb_status j') + js_failed_events (jb_status j') = int (length evs)
        \<and> 0 \<le> js_processed_events (jb_status j') \<and> 0 \<le> js_failed_events (jb_status j')
        \<and> jb_results j' = jb_results j @ scored R (jb_id j) 0 evs
        \<and> (jb_results j' \<noteq> [] \<longrightarrow> compute_summary so (jb_results j') [] = Inr (js_results_summary (jb_status j')))"
    using e keep by (intro exI [of _ evs]) (simp add: j')
qed

text \<open>What \<open>finish_job\<close> makes of the outcome of the run.\<close>

lemma finish_job_fields:
  assumes "finish_job R t1 j2 x = (j', r)"
  shows "jb_id j' = jb_id j2" "jb_results j' = jb_results j2" "js_completed_at (jb_status j') = Some t1"
    "jb_status j' = (case x of None \<Rightarrow> jb_status j2
       | Some e \<Rightarrow> (jb_status j2)\<lparr>js_status := Job_failed, js_error_message := Some (exn_msg e)\<rparr>)\<lparr>js_completed_at := Some t1\<rparr>"
  using assms by (auto simp: finish_job_def Let_def split: option.splits)

lemma close_raises:
  "snd (sink_close takes fe q s) = (if sk_has_producer s then case fe of Some e \<Rightarrow> Inl e | None \<Rightarrow> Inr () else Inr ())"
proof -
  have "sk_has_producer (fold (send_to_kafka takes) rs t) = sk_has_producer t" for rs t
    by (induction rs arbitrary: t) (simp_all add: send_to_kafka_def)
  then show ?thesis by (simp add: sink_close_def sink_flush_def process_queue_def split: option.split)
qed

lemma finish_job_answer:
  assumes "finish_job R t1 j2 x = (j', r)" "map_option sk_has_producer (jb_sink j2) = Some hp"
  shows "r = (case (if hp then ru_flush R else None) of Some e \<Rightarrow> Inl e | None \<Rightarrow> Inr (jb_status j'))"
proof -
  let ?j3 = "case x of None \<Rightarrow> j2
    | Some e \<Rightarrow> set_status (\<lambda>s. s\<lparr>js_status := Job_failed, js_error_message := Some (exn_msg e)\<rparr>) j2"
  obtain s where s: "jb_sink j2 = Some s" "sk_has_producer s = hp" using assms(2) by auto
  then have "jb_sink ?j3 = Some s" by (simp split: option.split)
  moreover obtain s' y where c: "sink_close (ru_takes R) (ru_flush R) Batch_written s = (s', y)" by (metis surj_pair)
  moreover have "y = (case (if hp then ru_flush R else None) of Some e \<Rightarrow> Inl e | None \<Rightarrow> Inr ())"
    using close_raises [of "ru_takes R" "ru_flush R" Batch_written s] c s(2) by (simp split: option.split)
  ultimately show ?thesis using assms(1) by (auto simp: finish_job_def Let_def split: option.splits if_splits)
qed

lemma job_start_unfold:
  assumes "js_status (jb_status j) = Job_pending" "job_start so R D w hp t0 t1 j = Some (j', r)"
  obtains j1 j2 x where
    "j1 = (set_status (\<lambda>s. s\<lparr>js_status := Job_running, js_started_at := Some t0\<rparr>) j)
       \<lparr>jb_sink := Some (ReplayResultSink_init hp None 10000)\<rparr>"
    and "(case create_source_adapter (rc_source_type (jb_config j)) (get_source_config (jb_config j)) of
            Inl e \<Rightarrow> Some (j1, Some e) | Inr c \<Rightarrow> run_replay so R (read_source D w c) j1) = Some (j2, x)"
    and "finish_job R t1 j2 x = (j', r)"
proof -
  let ?j1 = "(set_status (\<lambda>s. s\<lparr>js_status := Job_running, js_started_at := Some t0\<rparr>) j)
       \<lparr>jb_sink := Some (ReplayResultSink_init hp None 10000)\<rparr>"
  obtain j2 x where "(case create_source_adapter (rc_source_type (jb_config j)) (get_source_config (jb_config j)) of
            Inl e \<Rightarrow> Some (?j1, Some e) | Inr c \<Rightarrow> run_replay so R (read_source D w c) ?j1) = Some (j2, x)"
      "finish_job R t1 j2 x = (j', r)"
    using assms(2) unfolding job_start_def Let_def by (auto simp: assms(1))
  from that [OF refl this] show thesis .
qed

lemma job_start_ends:
  assumes "js_status (jb_status j) = Job_pending" "job_start so R D w hp t0 t1 j = Some (j', r)"
  shows "js_completed_at (jb_status j') = Some t1"
    "js_status (jb_status j') \<in> {Job_completed, Job_failed, Job_cancelled}" "jb_id j' = jb_id j"
    "jb_cancelled j \<Longrightarrow> jb_results j' = jb_results j"
    "r = (case (if hp then ru_flush R else None) of Some e \<Rightarrow> Inl e | None \<Rightarrow> Inr (jb_status j'))"
proof -
  obtain j1 j2 x where s: "j1 = (set_status (\<lambda>s. s\<lparr>js_status := Job_running, js_started_at := Some t0\<rparr>) j)
       \<lparr>jb_sink := Some (ReplayResultSink_init hp None 10000)\<rparr>"
    "(case create_source_adapter (rc_source_type (jb_config j)) (get_source_config (jb_config j)) of
            Inl e \<Rightarrow> Some (j1, Some e) | Inr c \<Rightarrow> run_replay so R (read_source D w c) j1) = Some (j2, x)"
    "finish_job R t1 j2 x = (j', r)"
    by (rule job_start_unfold [OF assms])
  note f = finish_job_fields [OF s(3)]
  have j1: "jb_id j1 = jb_id j" "jb_results j1 = jb_results j" "jb_cancelled j1 = jb_cancelled j"
    "map_option sk_has_producer (jb_sink j1) = Some hp"
    by (simp_all add: s(1) ReplayResultSink_init_def)
  have run: "jb_id j2 = jb_id j1 \<and> (jb_cancelled j1 \<longrightarrow> jb_results j2 = jb_results j1)
    \<and> map_option sk_has_producer (jb_sink j2) = map_option sk_has_producer (jb_sink j1)
    \<and> (x = None \<longrightarrow> js_status (jb_status j2) \<in> {Job_completed, Job_cancelled})"
  proof (cases "create_source_adapter (rc_source_type (jb_config j)) (get_source_config (jb_config j))")
    case (Inr c)
    obtain n events where "read_source D w c = (n, events)" by (metis surj_pair)
    with s(2) Inr have "run_replay so R (n, events) j1 = Some (j2, x)" by simp
    from run_replay_left [OF this] show ?thesis by blast
  qed (use s(2) in auto)
  show "js_completed_at (jb_status j') = Some t1" "jb_id j' = jb_id j" "jb_cancelled j \<Longrightarrow> jb_results j' = jb_results j"
    using f(1-3) run j1 by simp_all
  show "js_status (jb_status j') \<in> {Job_completed, Job_failed, Job_cancelled}"
    using f(4) run by (cases x) auto
  show "r = (case (if hp then ru_flush R else None) of Some e \<Rightarrow> Inl e | None \<Rightarrow> Inr (jb_status j'))"
    by (rule finish_job_answer [OF s(3)]) (simp add: run j1)
qed

lemma job_start_again:
  assumes "js_status (jb_status j) \<noteq> Job_pending"
  shows "job_start so R D w hp t0 t1 j =
    Some (j, raise_exn RuntimeError (''Job already started (status: ReplayStatus.'' @ status_value (js_status (jb_status j)) @ '')''))"
  using assms by (simp add: job_start_def)

text \<open>A source ends unless a consumer neither times out nor, for the topic itself, reports an error.\<close>

lemma read_source_runs:
  assumes "\<exists>n. kw_polls (w_kafka w) n \<in> {No_message, Poll_error}" "\<exists>n. dw_polls (w_dlq w) (Suc n) = No_message"
    and "read_source D w c = (n, events)"
  shows "\<exists>evs e. runs_to events evs e"
proof (cases c)
  case (Cfg_dlq x)
  obtain k where k: "dw_polls (w_dlq w) (Suc k) = No_message" using assms(2) by auto
  have "\<exists>i. dw_polls (snd (dlq_event_count x (w_dlq w))) i = No_message"
    using k by (auto simp: dlq_event_count_def split: sum.split)
  then show ?thesis using assms(3) Cfg_dlq dlq_runs by (auto simp: read_source_def split: prod.splits)
next
  case Cfg_none
  then have "runs_to events [] None" using assms(3) by (auto simp: read_source_def runs_to_def)
  then show ?thesis by blast
next
  case (Cfg_kafka x)
  then show ?thesis using assms(1,3) kafka_runs [of "w_kafka w" _ D x] by (auto simp: read_source_def)
qed (use assms(3) iceberg_runs in \<open>auto simp: read_source_def\<close>)

section \<open>A concrete run\<close>

definition sample_decoders :: decoders where
  "sample_decoders = \<lparr>json_value = (\<lambda>bs. Some (PDict [])), decode_replace = (\<lambda>bs. []), now_iso = ''2026'',
     from_iso = (\<lambda>s. Some 0), str_other = (\<lambda>v. [])\<rparr>"

definition sample_kafka :: kafka_source_config where
  "sample_kafka = \<lparr>ks_topic = ''t'', ks_start_offset = 0, ks_end_offset = 2, ks_partition = 0, ks_consumer_group = None\<rparr>"

definition sample_worlds :: worlds where
  "sample_worlds =
     \<lparr>w_iceberg = \<lparr>iw_load = None, iw_snapshots = Inr [], iw_columns = [], iw_scan = (\<lambda>s f. Inr [])\<rparr>,
      w_iso_text = id,
      w_kafka = \<lparr>kw_create = None, kw_high = Inr None, kw_polls = polls_of (map sample_message [0, 1, 2])\<rparr>,
      w_dlq = \<lparr>dw_create = None, dw_total = Inr 0, dw_polls = (\<lambda>i. No_message)\<rparr>\<rparr>"

definition sample_job :: replay_job where
  "sample_job = ReplayJob_init 5 ''job''
     \<lparr>rc_source_type = Src_kafka, rc_iceberg = None, rc_kafka = Some sample_kafka, rc_dlq = None,
      rc_rule_set_version = None, rc_use_shadow_rules = False, rc_output_topic = ''out'', rc_description = []\<rparr>"

definition sample_run :: run_env where
  "sample_run =
     \<lparr>ru_env = (\<lambda>i. \<lparr>re_decoders = sample_decoders, re_now = 7, re_uuid = ''u'', re_elapsed_ms = 0\<rparr>),
      ru_scoring = (\<lambda>p. Inr [(''decision'', PStr ''ALLOW'')]), ru_callback = (\<lambda>r. None),
      ru_takes = (\<lambda>r. True), ru_cancel = (\<lambda>i. False), ru_flush = None\<rparr>"

lemma sample_run_completes:
  "map_option (\<lambda>(j, r). js_status (jb_status j)) (job_start id sample_run sample_decoders sample_worlds False 8 9 sample_job)
     = Some Job_completed"
  by code_simp

lemma sample_job_pending: "js_status (jb_status sample_job) = Job_pending" "jb_results sample_job = []"
  by (simp_all add: sample_job_def ReplayJob_init_def)

lemma post_init_keeps:
  "ReplayResult_post_init r = Inr r' \<Longrightarrow> rr_event_id r' = rr_event_id r \<and> rr_job_id r' = rr_job_id r"
  by (cases "rr_original_score r \<noteq> PNone \<and> rr_replay_score r \<noteq> PNone")
    (auto simp: ReplayResult_post_init_def result_simps)

lemma process_event_ids:
  assumes "process_event env jid scoring_fn ev = Inr r"
  shows "rr_event_id r = dget_or ev ''event_id'' (PStr (re_uuid env)) \<and> rr_job_id r = jid"
  using assms unfolding process_event_def Let_def rbind_eq_Inr
  by (elim exE conjE) (drule post_init_keeps, simp)

text \<open>The result of an event names it by the id its source gave it.\<close>

context event_source
begin

lemma result_keeps_id:
  assumes "events c w k = Some (Yielded ev)" "process_event env jid scoring_fn ev = Inr r"
  shows "rr_event_id r = dget ev ''event_id'' \<and> rr_job_id r = jid"
  using process_event_ids [OF assms(2)] no_default [OF assms(1), of "''event_id''"] by simp

end

lemma read_source_event_ids:
  assumes "read_source D w c = (n, events)" "events k = Some (Yielded ev)" "process_event env jid scoring_fn ev = Inr r"
  shows "rr_event_id r = dget ev ''event_id''"
proof (cases c)
  case (Cfg_iceberg x)
  then have "iceberg_iter D (w_iso_text w) x (w_iceberg w) k = Some (Yielded ev)" using assms by (auto simp: read_source_def)
  then show ?thesis using iceberg_source.result_keeps_id assms(3) by blast
next
  case (Cfg_kafka x)
  then have "kafka_iter D x (w_kafka w) k = Some (Yielded ev)" using assms by (auto simp: read_source_def)
  then show ?thesis using kafka_source.result_keeps_id assms(3) by blast
next
  case (Cfg_dlq x)
  then have "dlq_iter D x (snd (dlq_event_count x (w_dlq w))) k = Some (Yielded ev)" using assms
    by (auto simp: read_source_def split: prod.splits)
  then show ?thesis using dlq_source.result_keeps_id assms(3) by blast
qed (use assms in \<open>auto simp: read_source_def\<close>)

section \<open>Properties of the job\<close>


lemma sample_worlds_end:
  "\<exists>n. kw_polls (w_kafka sample_worlds) n \<in> {No_message, Poll_error}"
  "\<exists>n. dw_polls (w_dlq sample_worlds) (Suc n) = No_message"
  by (auto simp: sample_worlds_def polls_of_def intro: exI [of _ 3])


text \<open>The exception is real: a dead-letter job whose consumer reports an error at every poll, or sees only
  messages of other topics, never returns, and no limit on the number of messages stops it.\<close>

theorem dead_letter_job_never_returns:
  assumes "js_status (jb_status j) = Job_pending" "rc_source_type (jb_config j) = Src_dlq" "rc_dlq (jb_config j) = Some c"
    and "dw_create (w_dlq w) = None" "ds_start_time c = None" "ds_end_time c = None" "0 < ds_max_messages c"
    and "\<And>i. skipped D c None None (dw_polls (w_dlq w) i)"
  shows "job_start so R D w hp t0 t1 j = None"
proof -
  have "dlq_iter D c (snd (dlq_event_count c (w_dlq w))) 0 = None"
    using assms dlq_loop_hangs by (simp add: dlq_iter_def dlq_event_count_def dlq_consumer_def ensure_source_def opt_bound_def)
  moreover obtain n events where s: "read_source D w (Cfg_dlq c) = (n, events)" by (metis surj_pair)
  ultimately have "events 0 = None" by (auto simp: read_source_def split: prod.splits)
  have "replay_loop R events 0 p f j1 = None" for p f j1 using \<open>events 0 = None\<close> by (subst replay_loop.simps) simp
  with s assms(1-3) show ?thesis
    by (simp add: job_start_def get_source_config_def create_source_adapter_def run_replay_def)
qed

lemma dead_letter_job_never_returns_witness:
  "job_start id sample_run sample_decoders
     (sample_worlds\<lparr>w_dlq := \<lparr>dw_create = None, dw_total = Inr 0, dw_polls = (\<lambda>i. Poll_error)\<rparr>\<rparr>) False 8 9
     (ReplayJob_init 5 ''job'' ((jb_config sample_job)\<lparr>rc_source_type := Src_dlq, rc_dlq := Some
        \<lparr>ds_source_topic = ''txn.api'', ds_dlq_topic = ''txn.api.dlq'', ds_start_time = None, ds_end_time = None,
         ds_max_messages = 1000\<rparr>\<rparr>)) = None"
  by (rule dead_letter_job_never_returns [where c = "\<lparr>ds_source_topic = ''txn.api'', ds_dlq_topic = ''txn.api.dlq'',
        ds_start_time = None, ds_end_time = None, ds_max_messages = 1000\<rparr>"])
    (simp_all add: ReplayJob_init_def skipped_def)

text \<open>C12: A completed job accounts for every event of its source: the processed and the failed events
  add up to the number of events read, the source ended without an error, the results are those of
  the events that could be scored, in order, and the summary reported is computed from them.\<close>

theorem job_accounts_for_events:
  assumes "js_status (jb_status j) = Job_pending" "jb_results j = []"
    and "job_start so R D w hp t0 t1 j = Some (j', r)" "js_status (jb_status j') = Job_completed"
  shows "\<exists>n source events. read_source D w (get_source_config (jb_config j)) = (n, source) \<and> runs_to source events None
    \<and> js_processed_events (jb_status j') + js_failed_events (jb_status j') = int (length events)
    \<and> 0 \<le> js_processed_events (jb_status j') \<and> 0 \<le> js_failed_events (jb_status j')
    \<and> jb_results j' = scored R (jb_id j) 0 events
    \<and> (jb_results j' \<noteq> [] \<longrightarrow>
        compute_summary so (jb_results j') [] = Inr (js_results_summary (jb_status j')))"
proof -
  obtain j1 j2 x where s: "j1 = (set_status (\<lambda>s. s\<lparr>js_status := Job_running, js_started_at := Some t0\<rparr>) j)
       \<lparr>jb_sink := Some (ReplayResultSink_init hp None 10000)\<rparr>"
    "(case create_source_adapter (rc_source_type (jb_config j)) (get_source_config (jb_config j)) of
            Inl e \<Rightarrow> Some (j1, Some e) | Inr c \<Rightarrow> run_replay so R (read_source D w c) j1) = Some (j2, x)"
    "finish_job R t1 j2 x = (j', r)"
    by (rule job_start_unfold [OF assms(1,3)])
  note f = finish_job_fields [OF s(3)]
  have x: "x = None" using f(4) assms(4) by (cases x) auto
  then obtain c where c: "create_source_adapter (rc_source_type (jb_config j)) (get_source_config (jb_config j)) = Inr c"
      "run_replay so R (read_source D w c) j1 = Some (j2, None)"
    using s(2) by (auto split: sum.splits)
  have cc: "c = get_source_config (jb_config j)"
    using c(1) by (auto simp: create_source_adapter_def split: replay_source.splits source_config.splits)
  obtain n source where src: "read_source D w c = (n, source)" by (metis surj_pair)
  have st: "js_status (jb_status j2) = Job_completed" using f(4) x assms(4) by simp
  have j1: "jb_results j1 = []" "jb_id j1 = jb_id j" using assms(2) s(1) by simp_all
  obtain evs where "runs_to source evs None"
      "js_processed_events (jb_status j2) + js_failed_events (jb_status j2) = int (length evs)"
      "0 \<le> js_processed_events (jb_status j2)" "0 \<le> js_failed_events (jb_status j2)"
      "jb_results j2 = jb_results j1 @ scored R (jb_id j1) 0 evs"
      "jb_results j2 \<noteq> [] \<longrightarrow> compute_summary so (jb_results j2) [] = Inr (js_results_summary (jb_status j2))"
    using run_replay_left(5) [OF c(2) [unfolded src] refl st] by blast
  with src cc j1 f x show ?thesis by (intro exI [of _ n] exI [of _ source] exI [of _ evs]) simp
qed

lemma job_accounts_for_events_witness:
  "\<exists>n source events j' r. read_source sample_decoders sample_worlds (Cfg_kafka sample_kafka) = (n, source)
     \<and> runs_to source events None
     \<and> job_start id sample_run sample_decoders sample_worlds False 8 9 sample_job = Some (j', r)
     \<and> length (jb_results j') = length (scored sample_run ''job'' 0 events)"
proof -
  obtain j' r where e: "job_start id sample_run sample_decoders sample_worlds False 8 9 sample_job = Some (j', r)"
    "js_status (jb_status j') = Job_completed"
    using sample_run_completes by auto
  have "get_source_config (jb_config sample_job) = Cfg_kafka sample_kafka" "jb_id sample_job = ''job''"
    by (simp_all add: sample_job_def ReplayJob_init_def get_source_config_def)
  with job_accounts_for_events [OF sample_job_pending e] e(1) show ?thesis by fastforce
qed

text \<open>Replaying the engine against its own decisions shows no change: when the scoring function gives
  an event the decision, the score and the rules recorded in its payload, its result has no decision
  change, a score delta of zero and no rule that triggered on one side only.\<close>

theorem replay_of_same_engine_unchanged:
  assumes "dget event ''payload'' = PDict d" "dget d ''fraud_decision'' = PStr v"
    and "dget d ''fraud_score'' = PFloat (Fin x)" "dget d ''triggered_rules'' = PList rules"
    and "scoring_fn (PDict d) = Inr [(''decision'', PStr v), (''score'', PFloat (Fin x)), (''triggered_rules'', PList rules)]"
  shows "\<exists>r. process_event env job_id scoring_fn event = Inr r \<and> \<not> rr_decision_changed r
    \<and> rr_score_delta r = PFloat (Fin 0) \<and> changed_rules id r = (if list_all hashable rules then Inr []
        else raise_exn TypeError ''unhashable type'')"
proof -
  let ?R = "[(''decision'', PStr v), (''score'', PFloat (Fin x)), (''triggered_rules'', PList rules)]"
  have or: "dget e k = w \<Longrightarrow> w \<noteq> PNone \<Longrightarrow> dget_or e k u = w" for e k w u
    by (auto simp: dget_def dget_or_def split: option.splits)
  have q: "dget ?R ''decision'' = PStr v" "dget ?R ''score'' = PFloat (Fin x)"
    "dget_or ?R ''triggered_rules'' (PList []) = PList rules"
    by (simp_all add: dget_def dget_or_def)
  have z: "to_double 0 = Fin 0" by (simp add: to_double_def double_limit_def)
  note g = or [OF assms(1)] or [OF assms(2)] or [OF assms(3)] or [OF assms(4)]
  show ?thesis
    using z by (simp add: process_event_def g q assms(5) ReplayResult_post_init_def py_sub_def py_arith_def
        changed_rules_def symmetric_difference_def raise_exn_def)
qed

lemma replay_of_same_engine_unchanged_witness:
  "\<exists>event score r. process_event (ru_env sample_run 0) ''job'' score event = Inr r \<and> \<not> rr_decision_changed r
     \<and> dget event ''payload'' \<noteq> PNone"
proof -
  define d where "d = [(''fraud_decision'', PStr ''BLOCK''), (''fraud_score'', PFloat (Fin (1/2))),
    (''triggered_rules'', PList [PStr ''LA-001''])]"
  define event where "event = [(''payload'', PDict d)]"
  define score where "score = (\<lambda>p::pyval. Inr [(''decision'', PStr ''BLOCK''), (''score'', PFloat (Fin (1/2))),
    (''triggered_rules'', PList [PStr ''LA-001''])] :: pydict result)"
  have h: "dget event ''payload'' = PDict d" "dget d ''fraud_decision'' = PStr ''BLOCK''"
    "dget d ''fraud_score'' = PFloat (Fin (1/2))" "dget d ''triggered_rules'' = PList [PStr ''LA-001'']"
    "score (PDict d) = Inr [(''decision'', PStr ''BLOCK''), (''score'', PFloat (Fin (1/2))),
      (''triggered_rules'', PList [PStr ''LA-001''])]"
    by (simp_all add: event_def d_def score_def dget_def)
  from replay_of_same_engine_unchanged [of event d "''BLOCK''" "1/2" "[PStr ''LA-001'']" score, OF h,
      of "ru_env sample_run 0" "''job''"] show ?thesis
    by (intro exI [of _ event] exI [of _ score]) (auto simp: event_def dget_def)
qed

end
