(* ===== verification/Replay_Store.thy ===== *)
theory Replay_Store
  imports Replay
begin

text \<open>
  The Iceberg side of \<open>pipelines/replay/result_sink.py\<close>: the columns a batch is written as, and the flushes of
  the background thread and of \<open>flush\<close>, which take the buffer, write outside the lock and put a failed batch back.
  Results arrive in between; the steps below interleave freely. Arrow, the catalog and \<open>json.dumps\<close> are
  arguments; an append that raises comes with the word whether it was committed all the same.
\<close>

section \<open>Writing a batch\<close>

text \<open>Name, Arrow type, and whether the cells go through \<open>json.dumps\<close>.\<close>

definition REPLAY_COLUMNS :: "(string \<times> string \<times> bool) list" where
  "REPLAY_COLUMNS =
     [(''replay_job_id'', ''string'', False), (''original_event_id'', ''string'', False),
      (''original_timestamp'', ''string'', False), (''replay_timestamp'', ''string'', False),
      (''original_decision'', ''string'', False), (''replay_decision'', ''string'', False),
      (''original_score'', ''double'', False), (''replay_score'', ''double'', False),
      (''triggered_rules_original'', ''string'', True), (''triggered_rules_replay'', ''string'', True),
      (''score_delta'', ''double'', False), (''decision_changed'', ''bool'', False),
      (''processing_time_ms'', ''double'', False)]"

record store_env =
  se_libraries :: bool
  se_table :: "exn option"
  se_isoformat :: "int \<Rightarrow> string"
  se_json :: "pyval \<Rightarrow> string result"
  se_array :: "string \<Rightarrow> pyval list \<Rightarrow> exn option"
  se_append :: "(exn \<times> bool) option"

definition raise_opt :: "exn option \<Rightarrow> 'a \<Rightarrow> 'a result" where
  "raise_opt e x = (case e of None \<Rightarrow> Inr x | Some e \<Rightarrow> Inl e)"

definition replay_column :: "store_env \<Rightarrow> pydict list \<Rightarrow> string \<times> string \<times> bool \<Rightarrow> (string \<times> pyval list) result" where
  "replay_column env data = (\<lambda>(name, ty, dumped).
     rbind (rmap (\<lambda>d. if dumped then rbind (se_json env (dget d name)) (\<lambda>t. Inr (PStr t)) else Inr (dget d name)) data) (\<lambda>cells.
     raise_opt (se_array env ty cells) (name, cells)))"

definition iceberg_columns :: "store_env \<Rightarrow> replay_result list \<Rightarrow> (string \<times> pyval list) list result" where
  "iceberg_columns env rs =
     rbind (raise_opt (se_table env) ()) (\<lambda>_.
     rbind (rmap (result_to_dict (se_isoformat env)) rs) (\<lambda>data. rmap (replay_column env data) REPLAY_COLUMNS))"

text \<open>An \<open>ImportError\<close> from anywhere in the write counts as a missing library; the rest becomes a \<open>RuntimeError\<close>.\<close>

definition write_error :: "exn \<Rightarrow> unit result" where
  "write_error e =
     (if isinstance e ImportError then Inr () else raise_exn RuntimeError (''Failed to write to Iceberg: '' @ exn_msg e))"

text \<open>The columns the table has received, and how the call ends.\<close>

definition write_to_iceberg :: "store_env \<Rightarrow> replay_result list \<Rightarrow> (string \<times> pyval list) list option \<times> unit result" where
  "write_to_iceberg env rs =
     (if \<not> se_libraries env then (None, Inr ())
      else case iceberg_columns env rs of
        Inl e \<Rightarrow> (None, write_error e)
      | Inr cols \<Rightarrow>
          (case se_append env of
             None \<Rightarrow> (Some cols, Inr ())
           | Some (e, landed) \<Rightarrow> (if landed then Some cols else None, write_error e)))"

definition store_outcome :: "store_env \<Rightarrow> replay_result list \<Rightarrow> iceberg_outcome" where
  "store_outcome env rs =
     (case write_to_iceberg env rs of
        (received, Inl e) \<Rightarrow> Batch_failed (received \<noteq> None)
      | (None, Inr _) \<Rightarrow> Iceberg_missing
      | (Some cols, Inr _) \<Rightarrow> Batch_written)"

section \<open>The flushes as steps\<close>

text \<open>The buffer, the batches being written, those in the table and those dropped.\<close>

record store_state =
  st_buffer :: "replay_result list"
  st_flying :: "replay_result list list"
  st_table :: "replay_result list list"
  st_dropped :: "replay_result list list"

definition take_batch :: "store_state \<Rightarrow> store_state" where
  "take_batch s = (if st_buffer s = [] then s else s\<lparr>st_buffer := [], st_flying := st_flying s @ [st_buffer s]\<rparr>)"

definition finish_batch :: "store_env \<Rightarrow> nat \<Rightarrow> store_state \<Rightarrow> store_state" where
  "finish_batch env i s =
     (if length (st_flying s) \<le> i then s
      else let b = st_flying s ! i; s1 = s\<lparr>st_flying := take i (st_flying s) @ drop (Suc i) (st_flying s)\<rparr> in
        case store_outcome env b of
          Batch_written \<Rightarrow> s1\<lparr>st_table := st_table s1 @ [b]\<rparr>
        | Iceberg_missing \<Rightarrow> s1\<lparr>st_dropped := st_dropped s1 @ [b]\<rparr>
        | Batch_failed landed \<Rightarrow>
            s1\<lparr>st_buffer := st_buffer s1 @ b, st_table := st_table s1 @ (if landed then [b] else [])\<rparr>)"

datatype store_event = Arrive replay_result | Take | Finish store_env nat

fun store_step :: "store_event \<Rightarrow> store_state \<Rightarrow> store_state" where
  "store_step (Arrive r) s = s\<lparr>st_buffer := st_buffer s @ [r]\<rparr>"
| "store_step Take s = take_batch s"
| "store_step (Finish env i) s = finish_batch env i s"

definition store_run :: "store_event list \<Rightarrow> store_state" where
  "store_run xs = fold store_step xs \<lparr>st_buffer = [], st_flying = [], st_table = [], st_dropped = []\<rparr>"

fun arrived :: "store_event list \<Rightarrow> replay_result list" where
  "arrived [] = []"
| "arrived (Arrive r # xs) = r # arrived xs"
| "arrived (Take # xs) = arrived xs"
| "arrived (Finish env i # xs) = arrived xs"

text \<open>With one thread, a flush is a take and the finish of that batch; this is the round of Replay.\<close>

definition flush_round :: "store_env \<Rightarrow> store_state \<Rightarrow> store_state" where
  "flush_round env s = (if st_buffer s = [] then s else finish_batch env 0 (take_batch s))"

lemma flush_round_refines:
  assumes "sk_iceberg_table k \<noteq> None" "st_buffer s = sk_buffer k" "st_table s = sk_batches k" "st_flying s = []"
  shows "st_buffer (flush_round env s) = sk_buffer (flush_buffer (store_outcome env (sk_buffer k)) k) \<and>
    st_table (flush_round env s) = sk_batches (flush_buffer (store_outcome env (sk_buffer k)) k) \<and>
    st_flying (flush_round env s) = []"
  using assms
  by (auto simp: flush_round_def flush_buffer_def finish_batch_def take_batch_def Let_def split: iceberg_outcome.splits)

section \<open>Lemmas\<close>

definition held :: "store_state \<Rightarrow> replay_result multiset" where
  "held s = mset (st_buffer s) + mset (concat (st_flying s)) + mset (concat (st_table s)) + mset (concat (st_dropped s))"

lemma mset_concat_remove:
  "i < length bs \<Longrightarrow> mset (concat bs) = mset (bs ! i) + mset (concat (take i bs @ drop (Suc i) bs))"
  by (subst id_take_nth_drop [of i bs]) simp_all

text \<open>A batch is held a second time when its append raised after it was committed, and only then.\<close>

definition lands_and_raises :: "store_event \<Rightarrow> bool" where
  "lands_and_raises x \<longleftrightarrow>
     (case x of Finish env i \<Rightarrow> (case se_append env of Some (e, landed) \<Rightarrow> landed | None \<Rightarrow> False) | _ \<Rightarrow> False)"

lemma failed_landed: "store_outcome env b = Batch_failed True \<Longrightarrow> lands_and_raises (Finish env i)"
  by (auto simp: store_outcome_def write_to_iceberg_def lands_and_raises_def
      split: prod.splits sum.splits option.splits if_splits)

lemma store_step_held:
  "held s + mset (arrived [x]) \<subseteq># held (store_step x s)"
  "\<not> lands_and_raises x \<Longrightarrow> held (store_step x s) = held s + mset (arrived [x])"
  "set_mset (held (store_step x s)) = set_mset (held s) \<union> set (arrived [x])"
proof -
  have "held s + mset (arrived [x]) \<subseteq># held (store_step x s) \<and>
    (\<not> lands_and_raises x \<longrightarrow> held (store_step x s) = held s + mset (arrived [x])) \<and>
    set_mset (held (store_step x s)) = set_mset (held s) \<union> set (arrived [x])"
  proof (cases x)
    case (Finish env i)
    show ?thesis
    proof (cases "i < length (st_flying s)")
      case True
      let ?b = "st_flying s ! i"
      have split: "mset (concat (st_flying s)) = mset ?b + mset (concat (take i (st_flying s) @ drop (Suc i) (st_flying s)))"
        by (rule mset_concat_remove [OF True])
      have h: "held (finish_batch env i s) = held s + (if store_outcome env ?b = Batch_failed True then mset ?b else {#})"
        using True split by (cases "store_outcome env ?b") (simp_all add: finish_batch_def held_def Let_def)
      have "set ?b \<subseteq> set_mset (held s)" using True by (auto simp: held_def intro!: bexI [of _ ?b])
      then show ?thesis using h failed_landed [of env ?b i] Finish by auto
    qed (simp add: Finish finish_batch_def)
  qed (auto simp: held_def take_batch_def)
  then show "held s + mset (arrived [x]) \<subseteq># held (store_step x s)"
    "\<not> lands_and_raises x \<Longrightarrow> held (store_step x s) = held s + mset (arrived [x])"
    "set_mset (held (store_step x s)) = set_mset (held s) \<union> set (arrived [x])" by blast+
qed

lemma arrived_Cons: "arrived (x # xs) = arrived [x] @ arrived xs"
  by (cases x) simp_all

lemma store_fold_held:
  "held s + mset (arrived xs) \<subseteq># held (fold store_step xs s) \<and>
   (list_all (\<lambda>x. \<not> lands_and_raises x) xs \<longrightarrow> held (fold store_step xs s) = held s + mset (arrived xs)) \<and>
   set_mset (held (fold store_step xs s)) = set_mset (held s) \<union> set (arrived xs)"
proof (induction xs arbitrary: s)
  case (Cons x xs)
  let ?t = "store_step x s"
  have m: "held s + mset (arrived (x # xs)) = held s + mset (arrived [x]) + mset (arrived xs)"
    by (subst arrived_Cons) simp
  have "held s + mset (arrived [x]) + mset (arrived xs) \<subseteq># held (fold store_step xs ?t)"
    by (rule subset_mset.order_trans [OF subset_mset.add_right_mono [OF store_step_held(1) [of s x]]]) (use Cons [of ?t] in blast)
  moreover have "set (arrived (x # xs)) = set (arrived [x]) \<union> set (arrived xs)" by (subst arrived_Cons) simp
  ultimately show ?case using Cons [of ?t] store_step_held(2,3) [of x s] by (simp add: m Un_assoc)
qed simp

text \<open>A result whose timestamp is no datetime cannot be serialised, and no batch with it can be written.\<close>

definition unserialisable :: "replay_result \<Rightarrow> bool" where
  "unserialisable r \<longleftrightarrow> (case rr_original_timestamp r of Raw v \<Rightarrow> True | Instant t \<Rightarrow> False)"

lemma rmap_unserialisable:
  "r \<in> set rs \<Longrightarrow> unserialisable r \<Longrightarrow> \<exists>m. rmap (result_to_dict fmt) rs = Inl (Exn AttributeError m)"
proof (induction rs)
  case (Cons x rs)
  show ?case
  proof (cases "unserialisable x")
    case True
    then show ?thesis by (auto simp: unserialisable_def result_to_dict_def raise_exn_def split: stamp.splits)
  next
    case False
    then obtain d where "result_to_dict fmt x = Inr d"
      by (auto simp: unserialisable_def result_to_dict_def split: stamp.splits)
    moreover from False Cons.prems have "r \<in> set rs" by auto
    ultimately show ?thesis using Cons.IH Cons.prems(2) by fastforce
  qed
qed simp

definition reachable_table :: "store_env \<Rightarrow> bool" where
  "reachable_table env \<longleftrightarrow> se_libraries env \<and> (\<forall>e. se_table env = Some e \<longrightarrow> \<not> isinstance e ImportError)"

lemma poisoned_batch_fails:
  "r \<in> set rs \<Longrightarrow> unserialisable r \<Longrightarrow> reachable_table env \<Longrightarrow> store_outcome env rs = Batch_failed False"
  using rmap_unserialisable [of r rs "se_isoformat env"]
  by (auto simp: store_outcome_def write_to_iceberg_def write_error_def iceberg_columns_def reachable_table_def raise_opt_def
      raise_exn_def isinstance_def split: option.splits)

lemma poisoned_buffer_stays:
  assumes "r \<in> set (st_buffer s)" "unserialisable r" "st_flying s = []" "reachable_table env"
  shows "flush_round env s = s"
proof -
  have "store_outcome env (st_buffer s) = Batch_failed False" by (rule poisoned_batch_fails [OF assms(1,2,4)])
  moreover have "st_buffer s \<noteq> []" using assms(1) by auto
  ultimately show ?thesis using assms(3) by (simp add: flush_round_def take_batch_def finish_batch_def)
qed

section \<open>Properties\<close>

text \<open>C36: No replay result is lost, however arrivals, takes and the ends of the writes of several threads
  interleave and however the writes fail: every result that arrived is, as often as it arrived, in the table,
  in the buffer, being written, or among those dropped because a library is missing, and nothing else is.
  Each is there exactly as often as it arrived unless some append raised although it had been committed:
  that batch is put back all the same and can come to be stored twice. Nothing is dropped as long as the
  libraries are there and no write raises an ImportError.\<close>

theorem replay_store_accounts:
  "mset (arrived xs) \<subseteq># mset (st_buffer (store_run xs)) + mset (concat (st_flying (store_run xs)))
       + mset (concat (st_table (store_run xs))) + mset (concat (st_dropped (store_run xs))) \<and>
   set (arrived xs) = set (st_buffer (store_run xs)) \<union> set (concat (st_flying (store_run xs)))
       \<union> set (concat (st_table (store_run xs))) \<union> set (concat (st_dropped (store_run xs))) \<and>
   (list_all (\<lambda>x. \<not> lands_and_raises x) xs \<longrightarrow>
      mset (st_buffer (store_run xs)) + mset (concat (st_flying (store_run xs)))
        + mset (concat (st_table (store_run xs))) + mset (concat (st_dropped (store_run xs))) = mset (arrived xs)) \<and>
   ((\<forall>env i b. Finish env i \<in> set xs \<longrightarrow> store_outcome env b \<noteq> Iceberg_missing) \<longrightarrow> st_dropped (store_run xs) = [])"
proof -
  let ?init = "\<lparr>st_buffer = [], st_flying = [], st_table = [], st_dropped = []\<rparr>"
  have "held ?init = {#}" by (simp add: held_def)
  note h = store_fold_held [of ?init xs, unfolded this]
  have step: "st_dropped (store_step x s) = st_dropped s"
    if "\<And>env i b. x = Finish env i \<Longrightarrow> store_outcome env b \<noteq> Iceberg_missing" for x s
    using that by (cases x) (auto simp: take_batch_def finish_batch_def Let_def split: iceberg_outcome.splits)
  have "(\<forall>env i b. Finish env i \<in> set xs \<longrightarrow> store_outcome env b \<noteq> Iceberg_missing) \<Longrightarrow>
      st_dropped (fold store_step xs s) = st_dropped s" for s
  proof (induction xs arbitrary: s)
    case (Cons x xs)
    have "st_dropped (store_step x s) = st_dropped s" by (rule step) (use Cons.prems in auto)
    then show ?case using Cons.IH [of "store_step x s"] Cons.prems by auto
  qed simp
  then have "(\<forall>env i b. Finish env i \<in> set xs \<longrightarrow> store_outcome env b \<noteq> Iceberg_missing) \<longrightarrow> st_dropped (store_run xs) = []"
    by (auto simp: store_run_def)
  with h show ?thesis by (simp add: held_def store_run_def)
qed

definition offline :: store_env where
  "offline = \<lparr>se_libraries = True, se_table = Some (Exn ConnectionError ''refused''), se_isoformat = (\<lambda>t. []), se_json = (\<lambda>v. Inr []),
     se_array = (\<lambda>t vs. None), se_append = None\<rparr>"

definition undated_result :: replay_result where
  "undated_result =
     \<lparr>rr_job_id = ''j1'', rr_event_id = PStr ''e1'', rr_original_timestamp = Raw PNone, rr_replay_timestamp = 5,
      rr_original_decision = PStr ''ALLOW'', rr_replay_decision = PStr ''BLOCK'', rr_original_score = PNone, rr_replay_score = PNone,
      rr_rules_original = [], rr_rules_replay = PList [], rr_score_delta = PFloat (Fin 0), rr_decision_changed = True,
      rr_processing_time_ms = 1, rr_metadata = []\<rparr>"

lemma offline_fails: "store_outcome offline b = Batch_failed False"
  by (simp add: store_outcome_def write_to_iceberg_def write_error_def iceberg_columns_def raise_opt_def raise_exn_def isinstance_def offline_def)

lemma offline_append: "se_append offline = None"
  by (simp add: offline_def)

text \<open>An append whose commit went through although the client saw a timeout.\<close>

definition uncertain :: store_env where
  "uncertain = \<lparr>se_libraries = True, se_table = None, se_isoformat = (\<lambda>t. []), se_json = (\<lambda>v. Inr []),
     se_array = (\<lambda>t vs. None), se_append = Some (Exn RuntimeError ''commit state unknown'', True)\<rparr>"

lemma replay_store_accounts_witness:
  "st_buffer (store_run [Arrive undated_result, Take, Finish offline 0]) = [undated_result] \<and>
   st_dropped (store_run [Arrive undated_result, Take, Finish offline 0]) = []"
  using replay_store_accounts [of "[Arrive undated_result, Take, Finish offline 0]"]
  by (simp add: offline_fails store_run_def take_batch_def finish_batch_def lands_and_raises_def offline_append)

text \<open>Such an append leaves its results in the table and in the buffer, and the next flush stores them again.\<close>

lemma uncertain_append_stores_twice:
  assumes "\<not> unserialisable r"
  shows "st_table (store_run [Arrive r, Take, Finish uncertain 0, Take, Finish (uncertain\<lparr>se_append := None\<rparr>) 0]) = [[r], [r]]"
proof -
  obtain d where d: "result_to_dict (\<lambda>t. []) r = Inr d"
    using assms by (auto simp: unserialisable_def result_to_dict_def split: stamp.splits)
  have "\<exists>cols. iceberg_columns (uncertain\<lparr>se_append := a\<rparr>) [r] = Inr cols" for a
    using d by (simp add: iceberg_columns_def uncertain_def raise_opt_def replay_column_def REPLAY_COLUMNS_def)
  from this [of "se_append uncertain"] this [of None]
  have "store_outcome uncertain [r] = Batch_failed True" "store_outcome (uncertain\<lparr>se_append := None\<rparr>) [r] = Batch_written"
    by (auto simp: store_outcome_def write_to_iceberg_def write_error_def uncertain_def raise_exn_def isinstance_def)
  then show ?thesis by (simp add: store_run_def take_batch_def finish_batch_def Let_def)
qed

definition thread_run :: "(replay_result + store_env) list \<Rightarrow> store_state \<Rightarrow> store_state" where
  "thread_run xs s = fold (\<lambda>x s. case x of Inl r \<Rightarrow> store_step (Arrive r) s | Inr env \<Rightarrow> flush_round env s) xs s"

text \<open>One result without a datetime blocks the table. With a single flush thread, once such a result is in the
  buffer, no round writes anything any more, whatever arrives: the buffer only grows.\<close>

theorem poisoned_store_blocked:
  assumes "r \<in> set (st_buffer s)" "unserialisable r" "st_flying s = []"
    and "list_all (\<lambda>x. case x of Inl _ \<Rightarrow> True | Inr env \<Rightarrow> reachable_table env) xs"
  shows "st_table (thread_run xs s) = st_table s \<and> (\<exists>news. st_buffer (thread_run xs s) = st_buffer s @ news)"
  using assms
proof (induction xs arbitrary: s)
  case (Cons x xs)
  show ?case
  proof (cases x)
    case (Inl a)
    then show ?thesis using Cons.IH [of "store_step (Arrive a) s"] Cons.prems by (auto simp: thread_run_def)
  next
    case (Inr env)
    then have "flush_round env s = s" using poisoned_buffer_stays Cons.prems by auto
    then show ?thesis using Cons.IH [of s] Cons.prems Inr by (simp add: thread_run_def)
  qed
qed (simp add: thread_run_def)

lemma poisoned_store_blocked_witness:
  "st_table (thread_run [Inr (offline\<lparr>se_table := None\<rparr>), Inl undated_result]
     \<lparr>st_buffer = [undated_result], st_flying = [], st_table = [], st_dropped = []\<rparr>) = []"
  using poisoned_store_blocked [of undated_result "\<lparr>st_buffer = [undated_result], st_flying = [], st_table = [], st_dropped = []\<rparr>"
      "[Inr (offline\<lparr>se_table := None\<rparr>), Inl undated_result]"]
  by (simp add: unserialisable_def undated_result_def reachable_table_def offline_def)

text \<open>Such results come from every source whose events carry no timestamp text, like the table of the decisions.\<close>

lemma undated_event_unserialisable:
  assumes "process_event env jid f event = Inr r" "map_of event ''timestamp'' = Some PNone"
  shows "unserialisable r"
proof -
  have keep: "ReplayResult_post_init q = Inr r' \<Longrightarrow> rr_original_timestamp r' = rr_original_timestamp q" for q r'
    by (cases "rr_original_score q \<noteq> PNone \<and> rr_replay_score q \<noteq> PNone") (auto simp: ReplayResult_post_init_def result_simps)
  show ?thesis
    using assms by (auto simp: process_event_def Let_def result_simps original_timestamp_def dget_or_def unserialisable_def dest!: keep)
qed

end
