(* ===== verification/Management.thy ===== *)
theory Management
  imports Rules Replay
begin

text \<open>
  \<open>pipelines/scoring/management_api.py\<close>: the HTTP service that demotes and promotes rules, reports
  the circuit breaker and runs replay jobs. Its module-level state is the record \<open>api_state\<close>,
  together with the rules file. PyYAML, the JSON form pydantic gives to the conditions of a rule, the
  operating system's answer to a write, the rate limiter's verdict and the clock are arguments. An
  endpoint returns its reply, or the exception it raises: \<open>HTTPException n\<close> becomes a reply of status
  \<open>n\<close>, any other one the server's 500. FastAPI runs the API key dependency before it reports a bad
  parameter, and the limiter wraps the endpoint itself; it reads and parses a body before either
  (Management_App has the routes).
\<close>

section \<open>State\<close>

record breaker_view =
  bv_state :: "string option"
  bv_fail_counter :: "int option"
  bv_reset_timeout :: pyval
  bv_last_failure_time :: "int option"
  bv_opened_at :: "int option"

record api_state =
  ap_rules :: "(string \<times> rule_definition) list"
  ap_file :: string
  ap_breaker :: "breaker_view option"
  ap_jobs :: "(string \<times> replay_job) list"

section \<open>Who may call\<close>

definition rate_limit_key :: "string option \<Rightarrow> string option \<Rightarrow> string" where
  "rate_limit_key x_real_ip client_host =
     (case x_real_ip of
        Some (c # cs) \<Rightarrow> c # cs
      | _ \<Rightarrow> (case client_host of Some h \<Rightarrow> h | None \<Rightarrow> ''unknown''))"

text \<open>\<open>secrets.compare_digest\<close> refuses strings with characters outside ASCII.\<close>

definition ascii :: "string \<Rightarrow> bool" where
  "ascii s \<longleftrightarrow> list_all (\<lambda>c. code c < 128) s"

definition compare_digest :: "string \<Rightarrow> string \<Rightarrow> bool result" where
  "compare_digest a b =
     (if ascii a \<and> ascii b then Inr (a = b)
      else raise_exn TypeError ''comparing strings with non-ASCII characters is not supported'')"

definition require_api_key :: "string option \<Rightarrow> string option \<Rightarrow> unit result" where
  "require_api_key expected api_key =
     (case expected of
        Some (c # cs) \<Rightarrow>
          (case api_key of
             None \<Rightarrow> raise_exn (HTTPException 401) ''Unauthorized''
           | Some k \<Rightarrow> rbind (compare_digest (c # cs) k) (\<lambda>same.
               if same then Inr () else raise_exn (HTTPException 401) ''Unauthorized''))
      | _ \<Rightarrow> Inr ())"

text \<open>The order of the checks around an endpoint that depends on the key, once its body, if it takes one, is parsed.\<close>

definition guarded ::
  "string option \<Rightarrow> string option \<Rightarrow> bool \<Rightarrow> bool \<Rightarrow> ('s \<Rightarrow> 's \<times> 'a result) \<Rightarrow> 's \<Rightarrow> 's \<times> 'a result" where
  "guarded expected api_key valid limited endpoint st =
     (case require_api_key expected api_key of
        Inl e \<Rightarrow> (st, Inl e)
      | Inr _ \<Rightarrow>
          (if \<not> valid then (st, raise_exn (HTTPException 422) ''validation error'')
           else if limited then (st, raise_exn (HTTPException 429) ''Rate limit exceeded'')
           else endpoint st))"

definition security_headers :: "(string \<times> string) list \<Rightarrow> (string \<times> string) list" where
  "security_headers h =
     dset (dset (dset (dset h ''X-Content-Type-Options'' ''nosniff'') ''X-Frame-Options'' ''DENY'')
       ''Strict-Transport-Security'' ''max-age=31536000; includeSubDomains'')
       ''Content-Security-Policy'' (''default-src '' @ repr_str ''none'')"

section \<open>The rules file\<close>

text \<open>A bad entry leaves the entries before it in memory.\<close>

fun load_items :: "pydantic \<Rightarrow> pyval list \<Rightarrow> (string \<times> rule_definition) list \<Rightarrow>
    (string \<times> rule_definition) list \<times> unit result" where
  "load_items P [] d = (d, Inr ())"
| "load_items P (item # items) d =
     (case model_validate P item of
        Inl e \<Rightarrow> (d, Inl e)
      | Inr rule \<Rightarrow> load_items P items (dset d (rule_id rule) rule))"

definition load_rules_from_yaml ::
  "pydantic \<Rightarrow> (string \<Rightarrow> string result) \<Rightarrow> (string \<Rightarrow> pyval result) \<Rightarrow> string \<Rightarrow> api_state \<Rightarrow> api_state \<times> unit result" where
  "load_rules_from_yaml P read_file safe_load path st =
     (case read_file path of
        Inl e \<Rightarrow> (st, if isinstance e FileNotFoundError then raise_exn FileNotFoundError path else Inl e)
      | Inr content \<Rightarrow>
          (case safe_load content of
             Inl e \<Rightarrow> (st, if isinstance e YAMLError then raise_exn YAMLError (exn_msg e) else Inl e)
           | Inr data \<Rightarrow>
               (case data of
                  PList items \<Rightarrow>
                    (let (d, r) = load_items P items [] in (st\<lparr>ap_rules := d\<rparr>, r))
                | _ \<Rightarrow> (st, raise_exn ValueError ''Rules config must be a YAML list''))))"

text \<open>\<open>json_conditions\<close>: the conditions after \<open>model_dump_json\<close> and \<open>json.loads\<close>, or its failure.\<close>

definition dump_rule :: "(pydict \<Rightarrow> pydict result) \<Rightarrow> rule_definition \<Rightarrow> pyval result" where
  "dump_rule json_conditions r =
     rbind (json_conditions (conditions r)) (\<lambda>c. Inr (PDict
       [(''rule_id'', PStr (rule_id r)), (''name'', PStr (rule_name r)),
        (''family'', PStr (family_value (family r))), (''conditions'', PDict c),
        (''severity'', PInt (severity_value (severity r))), (''enabled'', PBool (enabled r)),
        (''mode'', PStr (mode_value (mode r)))]))"

text \<open>
  How the write ends: completely; the file cannot be opened; the device fails after the file was
  truncated and some text written; the text is written and \<open>chmod\<close> fails.
\<close>

datatype write_outcome = Written | Open_failed string | Partly_written string string | Chmod_failed string

definition write_rules_to_yaml ::
  "(pydict \<Rightarrow> pydict result) \<Rightarrow> (pyval \<Rightarrow> string) \<Rightarrow> write_outcome \<Rightarrow> api_state \<Rightarrow> api_state \<times> unit result" where
  "write_rules_to_yaml json_conditions yaml_dump outcome st =
     (case rmap (dump_rule json_conditions) (map snd (ap_rules st)) of
        Inl e \<Rightarrow> (st, Inl e)
      | Inr rules_data \<Rightarrow>
          (case outcome of
             Written \<Rightarrow> (st\<lparr>ap_file := yaml_dump (PList rules_data)\<rparr>, Inr ())
           | Open_failed msg \<Rightarrow> (st, raise_exn OSError msg)
           | Partly_written txt msg \<Rightarrow> (st\<lparr>ap_file := txt\<rparr>, raise_exn OSError msg)
           | Chmod_failed msg \<Rightarrow> (st\<lparr>ap_file := yaml_dump (PList rules_data)\<rparr>, raise_exn OSError msg)))"

section \<open>Demote and promote\<close>

record mode_response =
  mr_rule_id :: string
  mr_previous_mode :: string
  mr_new_mode :: string
  mr_config_event_published :: bool

definition set_rule_mode :: "string \<Rightarrow> rule_mode \<Rightarrow> api_state \<Rightarrow> api_state" where
  "set_rule_mode rid m st =
     st\<lparr>ap_rules := map (\<lambda>(k, r). (k, if k = rid then r\<lparr>mode := m\<rparr> else r)) (ap_rules st)\<rparr>"

definition change_mode ::
  "rule_mode \<Rightarrow> (pydict \<Rightarrow> pydict result) \<Rightarrow> (pyval \<Rightarrow> string) \<Rightarrow> write_outcome \<Rightarrow> string \<Rightarrow> api_state \<Rightarrow>
   api_state \<times> mode_response result" where
  "change_mode new json_conditions yaml_dump outcome rid st =
     (case map_of (ap_rules st) rid of
        None \<Rightarrow> (st, raise_exn (HTTPException 404) (''Rule '' @ rid @ '' not found''))
      | Some rule \<Rightarrow>
          (if mode rule = new
           then (st, raise_exn (HTTPException 409) (''Rule '' @ rid @ '' is already in '' @ mode_value new @ '' mode''))
           else
             (case write_rules_to_yaml json_conditions yaml_dump outcome (set_rule_mode rid new st) of
                (st1, Inr _) \<Rightarrow>
                  (st1, Inr \<lparr>mr_rule_id = rid, mr_previous_mode = mode_value (mode rule),
                             mr_new_mode = mode_value new, mr_config_event_published = False\<rparr>)
              | (st1, Inl e) \<Rightarrow>
                  (if isinstance e OSError
                   then (set_rule_mode rid (mode rule) st1, raise_exn (HTTPException 500) ''Internal server error'')
                   else (st1, Inl e)))))"

definition demote_rule ::
  "(pydict \<Rightarrow> pydict result) \<Rightarrow> (pyval \<Rightarrow> string) \<Rightarrow> write_outcome \<Rightarrow> string \<Rightarrow> api_state \<Rightarrow>
   api_state \<times> mode_response result" where
  "demote_rule = change_mode Shadow"

definition promote_rule ::
  "(pydict \<Rightarrow> pydict result) \<Rightarrow> (pyval \<Rightarrow> string) \<Rightarrow> write_outcome \<Rightarrow> string \<Rightarrow> api_state \<Rightarrow>
   api_state \<times> mode_response result" where
  "promote_rule = change_mode Active"

section \<open>The circuit breaker\<close>

record breaker_response =
  br_state :: string
  br_failure_count :: int
  br_last_failure_time :: "string option"
  br_next_probe_time :: "string option"

text \<open>Instants are microseconds; \<open>timestamp()\<close> is the nearest double number of seconds.\<close>

definition timestamp :: "int \<Rightarrow> pyfloat" where
  "timestamp t = to_double (of_int t / 1000000)"

definition next_probe :: "(pyfloat \<Rightarrow> string result) \<Rightarrow> int \<Rightarrow> breaker_view \<Rightarrow> string option result" where
  "next_probe iso_of_timestamp now b =
     (case bv_opened_at b of
        Some opened_at \<Rightarrow>
          (if bv_state b = Some ''open'' \<and> bv_reset_timeout b \<noteq> PNone
           then (case rbind (py_float (bv_reset_timeout b)) (\<lambda>t.
                        let probe_ts = fl_add (timestamp opened_at) t in
                        if fl_less (timestamp now) probe_ts
                        then rbind (iso_of_timestamp probe_ts) (\<lambda>s. Inr (Some s)) else Inr None) of
                   Inr s \<Rightarrow> Inr s
                 | Inl e \<Rightarrow>
                     (if isinstance e OSError \<or> isinstance e ValueError \<or> isinstance e TypeError
                      then Inr None else Inl e))
           else Inr None)
      | None \<Rightarrow> Inr None)"

definition get_circuit_breaker_state ::
  "(int \<Rightarrow> string) \<Rightarrow> (pyfloat \<Rightarrow> string result) \<Rightarrow> int \<Rightarrow> api_state \<Rightarrow> breaker_response result" where
  "get_circuit_breaker_state isoformat iso_of_timestamp now st =
     (case ap_breaker st of
        None \<Rightarrow> Inr \<lparr>br_state = ''unknown'', br_failure_count = 0, br_last_failure_time = None, br_next_probe_time = None\<rparr>
      | Some b \<Rightarrow>
          rbind (next_probe iso_of_timestamp now b) (\<lambda>p.
            Inr \<lparr>br_state = (case bv_state b of Some s \<Rightarrow> s | None \<Rightarrow> ''unknown''),
                 br_failure_count = (case bv_fail_counter b of Some n \<Rightarrow> n | None \<Rightarrow> 0),
                 br_last_failure_time = map_option isoformat (bv_last_failure_time b),
                 br_next_probe_time = p\<rparr>))"

definition healthz :: pydict where
  "healthz = [(''status'', PStr ''ok'')]"
section \<open>Replay jobs\<close>

text \<open>The request models carry the same fields as the configurations they are copied into.\<close>

record create_request =
  cr_source_type :: string
  cr_iceberg :: "iceberg_source_config option"
  cr_kafka :: "kafka_source_config option"
  cr_dlq :: "dlq_source_config option"
  cr_rule_set_version :: "string option"
  cr_use_shadow_rules :: bool
  cr_output_topic :: string
  cr_description :: string

definition config_for ::
  "create_request \<Rightarrow> replay_source \<Rightarrow> iceberg_source_config option \<Rightarrow> kafka_source_config option \<Rightarrow>
   dlq_source_config option \<Rightarrow> replay_config result" where
  "config_for q src i k d =
     ReplayConfig_post_init
       \<lparr>rc_source_type = src, rc_iceberg = i, rc_kafka = k, rc_dlq = d,
        rc_rule_set_version = cr_rule_set_version q, rc_use_shadow_rules = cr_use_shadow_rules q,
        rc_output_topic = cr_output_topic q, rc_description = cr_description q\<rparr>"

definition build_replay_config :: "create_request \<Rightarrow> replay_config result" where
  "build_replay_config q =
     rbind (source_of_value (cr_source_type q)) (\<lambda>src.
       case src of
         Src_iceberg \<Rightarrow>
           (if cr_iceberg q = None then raise_exn (HTTPException 422) ''iceberg_config required''
            else config_for q src (cr_iceberg q) None None)
       | Src_kafka \<Rightarrow>
           (if cr_kafka q = None then raise_exn (HTTPException 422) ''kafka_config required''
            else config_for q src None (cr_kafka q) None)
       | Src_dlq \<Rightarrow>
           (if cr_dlq q = None then raise_exn (HTTPException 422) ''dlq_config required''
            else config_for q src None None (cr_dlq q)))"

text \<open>The task that runs the job is only scheduled: the reply shows the job as created.\<close>

definition create_replay_job ::
  "(int \<Rightarrow> string) \<Rightarrow> int \<Rightarrow> string \<Rightarrow> create_request \<Rightarrow> api_state \<Rightarrow> api_state \<times> pydict result" where
  "create_replay_job isoformat now uuid body st =
     (case build_replay_config body of
        Inl e \<Rightarrow> (st, if isinstance e ValueError then raise_exn (HTTPException 422) (exn_msg e) else Inl e)
      | Inr config \<Rightarrow>
          (let job = ReplayJob_init now uuid config
           in (st\<lparr>ap_jobs := dset (ap_jobs st) (jb_id job) job\<rparr>, status_to_dict isoformat (jb_status job))))"

definition dummy_scoring :: "pyval \<Rightarrow> pydict result" where
  "dummy_scoring event =
     Inr [(''decision'', PStr ''review''), (''score'', PFloat (Fin (1/2))),
          (''triggered_rules'', PList [PStr ''rule_001''])]"

text \<open>
  The scheduled task. \<open>start\<close> suspends nowhere: its lock is free and \<open>_process_event\<close> awaits
  nothing, so once begun it runs to its end before the server handles another request; where it has
  no end, the server handles none any more. The environment is that of the run with the scoring function fixed and no callback.
\<close>

definition run_job ::
  "(pyval list \<Rightarrow> pyval list) \<Rightarrow> run_env \<Rightarrow> decoders \<Rightarrow> worlds \<Rightarrow> bool \<Rightarrow> int \<Rightarrow> int \<Rightarrow> replay_job \<Rightarrow>
   (replay_job \<times> job_status result) option" where
  "run_job set_order R D w has_producer t0 t1 job =
     job_start set_order (R\<lparr>ru_scoring := dummy_scoring, ru_callback := (\<lambda>r. None), ru_cancel := (\<lambda>i. False)\<rparr>)
       D w has_producer t0 t1 job"

definition run_job_task ::
  "(pyval list \<Rightarrow> pyval list) \<Rightarrow> run_env \<Rightarrow> decoders \<Rightarrow> worlds \<Rightarrow> bool \<Rightarrow> int \<Rightarrow> int \<Rightarrow> string \<Rightarrow> api_state \<Rightarrow>
   api_state option" where
  "run_job_task set_order R D w has_producer t0 t1 jid st =
     (case map_of (ap_jobs st) jid of
        None \<Rightarrow> Some st
      | Some job \<Rightarrow>
          map_option (\<lambda>(job', r). st\<lparr>ap_jobs := dset (ap_jobs st) jid job'\<rparr>)
            (run_job set_order R D w has_producer t0 t1 job))"

definition find_job :: "string \<Rightarrow> api_state \<Rightarrow> replay_job result" where
  "find_job jid st =
     (case map_of (ap_jobs st) jid of
        None \<Rightarrow> raise_exn (HTTPException 404) (''Replay job '' @ jid @ '' not found'')
      | Some job \<Rightarrow> Inr job)"

definition get_replay_job :: "(int \<Rightarrow> string) \<Rightarrow> string \<Rightarrow> api_state \<Rightarrow> pydict result" where
  "get_replay_job isoformat jid st =
     rbind (find_job jid st) (\<lambda>job. status_to_dict isoformat (jb_status job))"

text \<open>\<open>xs[a:b]\<close>: a negative bound counts from the end, and both are clipped to the list.\<close>

definition slice_bound :: "int \<Rightarrow> int \<Rightarrow> nat" where
  "slice_bound n i = nat (min n (if i < 0 then max 0 (n + i) else i))"

definition py_slice :: "'a list \<Rightarrow> int \<Rightarrow> int \<Rightarrow> 'a list" where
  "py_slice xs a b =
     (let n = int (length xs); i = slice_bound n a; k = slice_bound n b in take (k - i) (drop i xs))"

text \<open>\<open>validate\<close> is pydantic's check of the item; a timestamp that is not a datetime has no \<open>isoformat\<close>.\<close>

definition result_item :: "(int \<Rightarrow> string) \<Rightarrow> (pydict \<Rightarrow> pydict result) \<Rightarrow> replay_result \<Rightarrow> pydict result" where
  "result_item isoformat validate r = rbind (result_to_dict isoformat r) validate"

definition get_replay_results ::
  "(int \<Rightarrow> string) \<Rightarrow> (pydict \<Rightarrow> pydict result) \<Rightarrow> string \<Rightarrow> int \<Rightarrow> int \<Rightarrow> api_state \<Rightarrow> (nat \<times> pydict list) result" where
  "get_replay_results isoformat validate jid limit offset st =
     rbind (find_job jid st) (\<lambda>job.
     rbind (rmap (result_item isoformat validate) (py_slice (jb_results job) offset (offset + limit))) (\<lambda>items.
       Inr (length (jb_results job), items)))"

definition cancel_replay_job :: "(int \<Rightarrow> string) \<Rightarrow> string \<Rightarrow> api_state \<Rightarrow> api_state \<times> pydict result" where
  "cancel_replay_job isoformat jid st =
     (case find_job jid st of
        Inl e \<Rightarrow> (st, Inl e)
      | Inr job \<Rightarrow>
          (if js_status (jb_status job) \<in> {Job_completed, Job_failed, Job_cancelled}
           then (st, raise_exn (HTTPException 409)
                       (''Job '' @ jid @ '' is already '' @ status_value (js_status (jb_status job))))
           else (st\<lparr>ap_jobs := dset (ap_jobs st) jid (job_cancel job)\<rparr>,
                 status_to_dict isoformat (jb_status (job_cancel job)))))"

section \<open>The service as a state machine\<close>

inductive api_step :: "api_state \<Rightarrow> api_state \<Rightarrow> bool" where
  demoted: "demote_rule jc yd out rid st = (st', r) \<Longrightarrow> api_step st st'"
| promoted: "promote_rule jc yd out rid st = (st', r) \<Longrightarrow> api_step st st'"
| created: "create_replay_job isof now uuid body st = (st', r) \<Longrightarrow> uuid \<notin> fst ` set (ap_jobs st) \<Longrightarrow> api_step st st'"
| task_run: "run_job_task so R D w hp t0 t1 jid st = Some st' \<Longrightarrow> api_step st st'"
| cancelled: "cancel_replay_job isof jid st = (st', r) \<Longrightarrow> api_step st st'"

inductive_cases api_stepE: "api_step st st'"

inductive reachable :: "api_state \<Rightarrow> api_state \<Rightarrow> bool" for st0 where
  start: "reachable st0 st0"
| step: "reachable st0 st \<Longrightarrow> api_step st st' \<Longrightarrow> reachable st0 st'"
section \<open>What YAML and JSON keep\<close>

text \<open>
  The values both formats hold without loss, and how PyYAML reads back what it wrote: keys sorted,
  nothing else changed.
\<close>

fun plain :: "pyval \<Rightarrow> bool"
  and plain_list :: "pyval list \<Rightarrow> bool"
  and plain_items :: "(string \<times> pyval) list \<Rightarrow> bool" where
  "plain (PBytes b) = False"
| "plain (PDec d) = False"
| "plain (PFloat f) = (case f of Fin x \<Rightarrow> True | _ \<Rightarrow> False)"
| "plain (PList xs) = plain_list xs"
| "plain (PDict d) = plain_items d"
| "plain v = True"
| "plain_list [] = True"
| "plain_list (x # xs) = (plain x \<and> plain_list xs)"
| "plain_items [] = True"
| "plain_items (kv # d) = (plain (snd kv) \<and> plain_items d)"

fun insert_item :: "string \<times> pyval \<Rightarrow> pydict \<Rightarrow> pydict" where
  "insert_item x [] = [x]"
| "insert_item x (y # ys) = (if str_less (fst y) (fst x) then y # insert_item x ys else x # y # ys)"

fun canon :: "pyval \<Rightarrow> pyval"
  and canon_list :: "pyval list \<Rightarrow> pyval list"
  and canon_items :: "pydict \<Rightarrow> pydict" where
  "canon (PList xs) = PList (canon_list xs)"
| "canon (PDict d) = PDict (canon_items d)"
| "canon v = v"
| "canon_list [] = []"
| "canon_list (x # xs) = canon x # canon_list xs"
| "canon_items [] = []"
| "canon_items (kv # d) = insert_item (fst kv, canon (snd kv)) (canon_items d)"

lemma str_less_irrefl [simp]: "\<not> str_less s s"
  by (induction s) auto

lemma map_of_insert_item: "map_of (insert_item x d) = (map_of d)(fst x \<mapsto> snd x)"
  by (induction x d rule: insert_item.induct) (auto simp: fun_eq_iff)

text \<open>Sorting the keys leaves every lookup as it was.\<close>

lemma map_of_canon_items: "map_of (canon_items d) k = map_option canon (map_of d k)"
  by (induction d) (auto simp: map_of_insert_item)

lemma canon_list_map: "canon_list xs = map canon xs"
  by (induction xs) simp_all

section \<open>Rules in memory and on disk\<close>

definition rules_wf :: "(string \<times> rule_definition) list \<Rightarrow> bool" where
  "rules_wf rules \<longleftrightarrow> distinct (map fst rules) \<and>
     list_all (\<lambda>(k, r). k = rule_id r \<and> rule_id_match k \<and> plain (PDict (conditions r))) rules"

definition reloaded :: "rule_definition \<Rightarrow> rule_definition" where
  "reloaded r = r\<lparr>conditions := canon_items (conditions r)\<rparr>"

definition pydantic_accepts :: "pydantic \<Rightarrow> bool" where
  "pydantic_accepts P \<longleftrightarrow>
     (\<forall>s. pyd_str P (PStr s) = Some s) \<and> (\<forall>b. pyd_bool P (PBool b) = Some b) \<and>
     (\<forall>d. pyd_dict P (PDict d) = Some d) \<and> (\<forall>f. pyd_family P (PStr (family_value f)) = Some f) \<and>
     (\<forall>v. pyd_severity P (PInt (severity_value v)) = Some v) \<and> (\<forall>m. pyd_mode P (PStr (mode_value m)) = Some m)"

lemma pydantic_exact_accepts: "pydantic_accepts pydantic_exact"
  by (simp add: pydantic_accepts_def pydantic_exact_def)

definition rule_doc :: "rule_definition \<Rightarrow> pyval" where
  "rule_doc r = PDict
     [(''rule_id'', PStr (rule_id r)), (''name'', PStr (rule_name r)),
      (''family'', PStr (family_value (family r))), (''conditions'', PDict (conditions r)),
      (''severity'', PInt (severity_value (severity r))), (''enabled'', PBool (enabled r)),
      (''mode'', PStr (mode_value (mode r)))]"

lemma dump_rule_doc: "jc (conditions r) = Inr (conditions r) \<Longrightarrow> dump_rule jc r = Inr (rule_doc r)"
  by (simp add: dump_rule_def rule_doc_def)

lemma canon_rule_doc:
  "canon (rule_doc r) = PDict
     [(''conditions'', PDict (canon_items (conditions r))), (''enabled'', PBool (enabled r)),
      (''family'', PStr (family_value (family r))), (''mode'', PStr (mode_value (mode r))),
      (''name'', PStr (rule_name r)), (''rule_id'', PStr (rule_id r)),
      (''severity'', PInt (severity_value (severity r)))]"
  by (simp add: rule_doc_def code_def)

lemma validate_canon_doc:
  assumes "pydantic_accepts P" "rule_id_match (rule_id r)"
  shows "model_validate P (canon (rule_doc r)) = Inr (reloaded r)"
  unfolding canon_rule_doc using assms
  by (simp add: model_validate_def rule_field_names_def has_key_def dget_def validate_rule_id_def
      coerce_severity_def pydantic_accepts_def reloaded_def need_def)

lemma load_items_docs:
  assumes "pydantic_accepts P" "list_all (\<lambda>(k, r). k = rule_id r \<and> rule_id_match k) rules"
    and "distinct (map fst d @ map fst rules)"
  shows "load_items P (map (canon \<circ> rule_doc \<circ> snd) rules) d = (d @ map (\<lambda>(k, r). (k, reloaded r)) rules, Inr ())"
  using assms(2,3)
proof (induction rules arbitrary: d)
  case (Cons x rules)
  obtain k r where x: "x = (k, r)" "k = rule_id r" "rule_id_match (rule_id r)" using Cons.prems(1) by (cases x) auto
  have new: "dset d k (reloaded r) = d @ [(k, reloaded r)]"
    using Cons.prems(2) x(1) by (simp add: dset_new)
  have "rule_id (reloaded r) = k" by (simp add: reloaded_def x)
  then show ?case
    using Cons.IH [of "d @ [(k, reloaded r)]"] Cons.prems x new
    by (simp add: validate_canon_doc [OF assms(1)])
qed simp
text \<open>Changing the mode of one rule.\<close>

lemma set_rule_mode_fields [simp]:
  "ap_file (set_rule_mode rid m st) = ap_file st" "ap_jobs (set_rule_mode rid m st) = ap_jobs st"
  "ap_breaker (set_rule_mode rid m st) = ap_breaker st"
  by (simp_all add: set_rule_mode_def)

lemma set_rule_mode_keys: "map fst (ap_rules (set_rule_mode rid m st)) = map fst (ap_rules st)"
  by (simp add: set_rule_mode_def comp_def split_def)

lemma set_rule_mode_twice: "set_rule_mode rid m (set_rule_mode rid m' st) = set_rule_mode rid m st"
  by (simp add: set_rule_mode_def comp_def split_def)

lemma set_rule_mode_same:
  assumes "distinct (map fst (ap_rules st))" "map_of (ap_rules st) rid = Some rule"
  shows "set_rule_mode rid (mode rule) st = st"
proof -
  have same: "(rid, r) \<in> set (ap_rules st) \<Longrightarrow> r = rule" for r
    using assms by (metis map_of_is_SomeI option.inject)
  have "map (\<lambda>(k, r). (k, if k = rid then r\<lparr>mode := mode rule\<rparr> else r)) (ap_rules st) = ap_rules st"
    by (intro map_idI) (auto dest!: same)
  then show ?thesis by (simp add: set_rule_mode_def)
qed

lemma rules_wf_set_mode: "rules_wf (ap_rules st) \<Longrightarrow> rules_wf (ap_rules (set_rule_mode rid m st))"
  unfolding rules_wf_def set_rule_mode_keys by (auto simp: set_rule_mode_def list_all_iff)

lemma rmap_dump_docs:
  assumes "rules_wf rules" "\<And>c. plain (PDict c) \<Longrightarrow> jc c = Inr c"
  shows "rmap (dump_rule jc) (map snd rules) = Inr (map (rule_doc \<circ> snd) rules)"
  using assms(1) unfolding rules_wf_def
  by (induction rules) (auto simp: assms(2) dump_rule_doc)

lemma change_mode_ok:
  assumes "change_mode new jc yd out rid st = (st', Inr resp)"
  shows "\<exists>rule docs. map_of (ap_rules st) rid = Some rule \<and> mode rule \<noteq> new \<and> out = Written
    \<and> rmap (dump_rule jc) (map snd (ap_rules (set_rule_mode rid new st))) = Inr docs
    \<and> st' = (set_rule_mode rid new st)\<lparr>ap_file := yd (PList docs)\<rparr>
    \<and> resp = \<lparr>mr_rule_id = rid, mr_previous_mode = mode_value (mode rule), mr_new_mode = mode_value new,
              mr_config_event_published = False\<rparr>"
  using assms
  by (auto simp: change_mode_def write_rules_to_yaml_def raise_exn_def
      split: option.splits if_splits sum.splits prod.splits write_outcome.splits)

lemma write_rules_to_yaml_rules: "ap_rules (fst (write_rules_to_yaml jc yd out st)) = ap_rules st"
  by (simp add: write_rules_to_yaml_def split: sum.split write_outcome.split)

text \<open>The conditions of the rules in memory have a JSON form.\<close>

definition dumpable :: "(pydict \<Rightarrow> pydict result) \<Rightarrow> api_state \<Rightarrow> bool" where
  "dumpable jc st \<longleftrightarrow> list_all (\<lambda>(k, r). \<not> isl (jc (conditions r))) (ap_rules st)"

lemma dumpable_set_mode: "dumpable jc (set_rule_mode rid m st) = dumpable jc st"
  by (simp add: dumpable_def set_rule_mode_def list.pred_map comp_def split_def if_distrib [of conditions] cong: if_cong)

lemma dumpable_docs:
  assumes "dumpable jc st"
  shows "\<exists>docs. rmap (dump_rule jc) (map snd (ap_rules st)) = Inr docs"
proof (rule rmap_total)
  fix r assume "r \<in> set (map snd (ap_rules st))"
  then have "\<not> isl (jc (conditions r))" using assms by (auto simp: dumpable_def list_all_iff)
  then show "\<exists>y. dump_rule jc r = Inr y" by (cases "jc (conditions r)") (simp_all add: dump_rule_def)
qed

lemma change_mode_rollback:
  assumes "distinct (map fst (ap_rules st))" "dumpable jc st" "change_mode new jc yd out rid st = (st', Inl e)"
  shows "ap_rules st' = ap_rules st"
proof -
  have os: "isinstance e' OSError" if "snd (write_rules_to_yaml jc yd out (set_rule_mode rid new st)) = Inl e'" for e'
  proof -
    have "dumpable jc (set_rule_mode rid new st)" using assms(2) by (simp add: dumpable_set_mode)
    then obtain docs where "rmap (dump_rule jc) (map snd (ap_rules (set_rule_mode rid new st))) = Inr docs"
      using dumpable_docs by blast
    with that show ?thesis
      by (auto simp: write_rules_to_yaml_def raise_exn_def isinstance_def split: write_outcome.splits)
  qed
  have undo: "ap_rules (set_rule_mode rid (mode rule) st1) = ap_rules st"
    if "map_of (ap_rules st) rid = Some rule" "ap_rules st1 = ap_rules (set_rule_mode rid new st)" for rule st1
  proof -
    have "ap_rules (set_rule_mode rid (mode rule) st1) =
        ap_rules (set_rule_mode rid (mode rule) (set_rule_mode rid new st))"
      using that(2) by (simp add: set_rule_mode_def)
    then show ?thesis by (simp add: set_rule_mode_twice set_rule_mode_same [OF assms(1) that(1)])
  qed
  obtain st1 r where w: "write_rules_to_yaml jc yd out (set_rule_mode rid new st) = (st1, r)" by force
  have "ap_rules st1 = ap_rules (set_rule_mode rid new st)"
    using write_rules_to_yaml_rules [of jc yd out "set_rule_mode rid new st"] w by simp
  then show ?thesis
    using assms(3) w os undo
    by (auto simp: change_mode_def raise_exn_def split: option.splits if_splits sum.splits)
qed

lemma demotion_reload:
  assumes "pydantic_accepts P" "\<And>c. plain (PDict c) \<Longrightarrow> jc c = Inr c"
    and "rules_wf (ap_rules st)" "demote_rule jc yaml_dump out rid st = (st', Inr resp)"
    and "safe_load (yaml_dump (PList (map (rule_doc \<circ> snd) (ap_rules st')))) =
      Inr (PList (canon_list (map (rule_doc \<circ> snd) (ap_rules st'))))"
  shows "ap_rules st' = map (\<lambda>(k, r). (k, if k = rid then r\<lparr>mode := Shadow\<rparr> else r)) (ap_rules st)
    \<and> load_rules_from_yaml P (\<lambda>_. Inr (ap_file st')) safe_load path st0 =
        (st0\<lparr>ap_rules := map (\<lambda>(k, r). (k, reloaded r)) (ap_rules st')\<rparr>, Inr ())
    \<and> RuleLoader_load P (\<lambda>_. Inr (ap_file st')) safe_load path =
        Inr (filter enabled (map (reloaded \<circ> snd) (ap_rules st')))"
proof -
  let ?st1 = "set_rule_mode rid Shadow st"
  let ?docs = "map (rule_doc \<circ> snd) (ap_rules ?st1)"
  have wf: "rules_wf (ap_rules ?st1)" using rules_wf_set_mode assms(3) .
  have st': "st' = ?st1\<lparr>ap_file := yaml_dump (PList ?docs)\<rparr>"
    using change_mode_ok [OF assms(4) [unfolded demote_rule_def]] rmap_dump_docs [OF wf assms(2)] by auto
  have "ap_rules st' = ap_rules ?st1" by (simp add: st')
  then have load: "safe_load (ap_file st') = Inr (PList (map (canon \<circ> rule_doc \<circ> snd) (ap_rules ?st1)))"
    using assms(5) by (simp add: st' canon_list_map comp_assoc)
  have ids: "list_all (\<lambda>(k, r). k = rule_id r \<and> rule_id_match k) (ap_rules ?st1)" "distinct (map fst (ap_rules ?st1))"
    using wf by (auto simp: rules_wf_def list_all_iff)
  have l: "load_items P (map (canon \<circ> rule_doc \<circ> snd) (ap_rules ?st1)) [] =
      (map (\<lambda>(k, r). (k, reloaded r)) (ap_rules ?st1), Inr ())"
    using load_items_docs [OF assms(1) ids(1), of "[]"] ids(2) by simp
  have "list_all2 (\<lambda>x r. model_validate P x = Inr r) (map (canon \<circ> rule_doc \<circ> snd) (ap_rules ?st1))
      (map (reloaded \<circ> snd) (ap_rules ?st1))"
    using ids(1) by (auto simp: list_all2_conv_all_nth list_all_length split_def validate_canon_doc [OF assms(1)])
  then have v: "validate_entries P 0 (map (canon \<circ> rule_doc \<circ> snd) (ap_rules ?st1)) =
      Inr (map (reloaded \<circ> snd) (ap_rules ?st1))"
    by (simp only: validate_entries_Inr)
  show ?thesis
    using load l v by (simp add: load_rules_from_yaml_def RuleLoader_load_def st' set_rule_mode_def)
qed

section \<open>Properties of the rules\<close>

text \<open>C13: A mode change survives a restart and reaches the scoring engine: after a demotion that was answered
  with success, memory differs by the mode of the one rule only, and a service that starts from the rules
  file finds exactly the rules in memory, disabled ones included, with the keys of their conditions sorted,
  while an engine that loads the file finds the enabled ones among them. Assumed: the rules are well formed
  and their conditions are plain (None, booleans, integers, finite floats, texts, and lists and objects of
  these; not .nan, .inf, bytes or decimals, which the JSON form changes or refuses), pydantic gives plain
  conditions back unchanged and accepts its own values, and PyYAML reads back the document it wrote, with
  sorted keys.\<close>

theorem demotion_survives_restart:
  assumes "pydantic_accepts P" "\<And>c. plain (PDict c) \<Longrightarrow> jc c = Inr c"
    and "rules_wf (ap_rules st)" "demote_rule jc yaml_dump out rid st = (st', Inr resp)"
    and "safe_load (yaml_dump (PList (map (rule_doc \<circ> snd) (ap_rules st')))) =
      Inr (PList (canon_list (map (rule_doc \<circ> snd) (ap_rules st'))))"
  shows "ap_rules st' = map (\<lambda>(k, r). (k, if k = rid then r\<lparr>mode := Shadow\<rparr> else r)) (ap_rules st)
    \<and> load_rules_from_yaml P (\<lambda>_. Inr (ap_file st')) safe_load path st0 =
        (st0\<lparr>ap_rules := map (\<lambda>(k, r). (k, reloaded r)) (ap_rules st')\<rparr>, Inr ())
    \<and> RuleLoader_load P (\<lambda>_. Inr (ap_file st')) safe_load path =
        Inr (filter enabled (map (reloaded \<circ> snd) (ap_rules st')))"
  using demotion_reload [where safe_load = safe_load and P = P, OF assms] .

definition sample_rule :: "string \<Rightarrow> rule_mode \<Rightarrow> rule_definition" where
  "sample_rule rid m =
     \<lparr>rule_id = rid, rule_name = ''velocity'', family = Velocity,
      conditions = [(''field'', PStr ''vel_count_1m''), (''count'', PInt 5)],
      severity = High, enabled = True, mode = m\<rparr>"

definition sample_api :: api_state where
  "sample_api =
     \<lparr>ap_rules = map (\<lambda>rid. (rid, sample_rule rid Active)) [''VEL-001'', ''VEL-002''], ap_file = [],
      ap_breaker = None, ap_jobs = []\<rparr>"

text \<open>A stand-in for PyYAML that knows the one document of the example.\<close>

definition sample_docs :: "pyval list" where
  "sample_docs = map rule_doc [sample_rule ''VEL-001'' Shadow, sample_rule ''VEL-002'' Active]"

lemma sample_rules_wf: "rules_wf (ap_rules sample_api)"
  by code_simp

lemma sample_demote:
  "demote_rule Inr (\<lambda>_. ''yaml'') Written ''VEL-001'' sample_api =
     ((set_rule_mode ''VEL-001'' Shadow sample_api)\<lparr>ap_file := ''yaml''\<rparr>,
      Inr \<lparr>mr_rule_id = ''VEL-001'', mr_previous_mode = ''active'', mr_new_mode = ''shadow'', mr_config_event_published = False\<rparr>)"
  by (simp add: demote_rule_def change_mode_def sample_api_def sample_rule_def write_rules_to_yaml_def
      set_rule_mode_def dump_rule_def)

lemma demotion_survives_restart_witness:
  "RuleLoader_load pydantic_exact (\<lambda>_. Inr ''yaml'') (\<lambda>_. Inr (PList (canon_list sample_docs))) ''rules.yaml'' =
     Inr [reloaded (sample_rule ''VEL-001'' Shadow), reloaded (sample_rule ''VEL-002'' Active)]"
proof -
  let ?st' = "(set_rule_mode ''VEL-001'' Shadow sample_api)\<lparr>ap_file := ''yaml''\<rparr>"
  have docs: "map (rule_doc \<circ> snd) (ap_rules ?st') = sample_docs"
    by (simp add: sample_docs_def set_rule_mode_def sample_api_def sample_rule_def)
  have rules: "map snd (ap_rules ?st') = [sample_rule ''VEL-001'' Shadow, sample_rule ''VEL-002'' Active]"
    by (simp add: set_rule_mode_def sample_api_def sample_rule_def)
  have "RuleLoader_load pydantic_exact (\<lambda>_. Inr (ap_file ?st')) (\<lambda>_. Inr (PList (canon_list sample_docs))) ''rules.yaml'' =
      Inr (filter enabled (map (reloaded \<circ> snd) (ap_rules ?st')))"
    using demotion_survives_restart [OF pydantic_exact_accepts _ sample_rules_wf sample_demote,
        of "\<lambda>_. Inr (PList (canon_list sample_docs))" "''rules.yaml''"]
    unfolding docs by blast
  then show ?thesis
    unfolding map_map [symmetric] rules by (simp add: reloaded_def sample_rule_def)
qed

text \<open>Whatever stops a mode change short of success leaves the rules in memory as they were, as long as their
  conditions have a JSON form: an unknown rule, a rule already in that mode, or a failed write, which is
  rolled back.\<close>

theorem failed_mode_change_keeps_rules:
  assumes "distinct (map fst (ap_rules st))" "dumpable jc st"
    and "demote_rule jc yaml_dump out rid st = (st', Inl e) \<or> promote_rule jc yaml_dump out rid st = (st', Inl e)"
  shows "ap_rules st' = ap_rules st"
  using assms(3) by (auto simp: demote_rule_def promote_rule_def dest: change_mode_rollback [OF assms(1,2)])

lemma failed_mode_change_keeps_rules_witness:
  "ap_rules (fst (demote_rule Inr (\<lambda>_. ''yaml'') (Open_failed ''read-only'') ''VEL-001'' sample_api)) = ap_rules sample_api"
proof -
  obtain st' r where d: "demote_rule Inr (\<lambda>_. ''yaml'') (Open_failed ''read-only'') ''VEL-001'' sample_api = (st', r)"
    by force
  then obtain e where "r = Inl e"
    using change_mode_ok [of Shadow Inr "\<lambda>_. ''yaml''" "Open_failed ''read-only''" "''VEL-001''" sample_api st']
    by (cases r) (auto simp: demote_rule_def)
  moreover have "distinct (map fst (ap_rules sample_api))" "dumpable Inr sample_api"
    by (simp_all add: sample_api_def dumpable_def)
  ultimately show ?thesis using failed_mode_change_keeps_rules [of sample_api Inr] d by fastforce
qed

text \<open>A mode change that is refused can still take effect: when the permissions of the rules file
  cannot be set after it was written, the client is told 500 and the rules in memory are rolled
  back, but the file holds the new mode, so the next start finds the rule demoted.\<close>

theorem refused_demotion_is_on_disk:
  assumes "rules_wf (ap_rules st)" "\<And>c. plain (PDict c) \<Longrightarrow> jc c = Inr c"
    and "map_of (ap_rules st) rid = Some rule" "mode rule = Active"
  shows "\<exists>st1 st2 resp.
      demote_rule jc yaml_dump Written rid st = (st1, Inr resp)
    \<and> demote_rule jc yaml_dump (Chmod_failed msg) rid st = (st2, raise_exn (HTTPException 500) ''Internal server error'')
    \<and> ap_rules st2 = ap_rules st \<and> ap_file st2 = ap_file st1"
proof -
  let ?st1 = "set_rule_mode rid Shadow st"
  note docs = rmap_dump_docs [OF rules_wf_set_mode [OF assms(1), of rid Shadow] assms(2)]
  have "ap_rules (set_rule_mode rid Active (?st1\<lparr>ap_file := x\<rparr>)) = ap_rules st" for x
  proof -
    have "ap_rules (set_rule_mode rid Active (?st1\<lparr>ap_file := x\<rparr>)) = ap_rules (set_rule_mode rid Active ?st1)"
      by (simp add: set_rule_mode_def)
    then show ?thesis
      using set_rule_mode_same [of st rid rule] assms by (simp add: set_rule_mode_twice rules_wf_def)
  qed
  then show ?thesis
    using assms(3,4) docs
    by (simp add: demote_rule_def change_mode_def write_rules_to_yaml_def raise_exn_def isinstance_def)
qed

lemma refused_demotion_is_on_disk_witness:
  "ap_rules (fst (demote_rule Inr (\<lambda>_. ''yaml'') (Chmod_failed ''denied'') ''VEL-001'' sample_api)) = ap_rules sample_api
   \<and> ap_file (fst (demote_rule Inr (\<lambda>_. ''yaml'') (Chmod_failed ''denied'') ''VEL-001'' sample_api)) = ''yaml''"
proof -
  have "map_of (ap_rules sample_api) ''VEL-001'' = Some (sample_rule ''VEL-001'' Active)"
    "mode (sample_rule ''VEL-001'' Active) = Active"
    by (simp_all add: sample_api_def sample_rule_def)
  from refused_demotion_is_on_disk [OF sample_rules_wf _ this, of Inr "\<lambda>_. ''yaml''" "''denied''"]
  show ?thesis by (auto simp: sample_demote)
qed
section \<open>Pages\<close>

lemma slice_bound_nat: "slice_bound (int k) (int a) = min k a"
  by (simp add: slice_bound_def min_def)

lemma py_slice_page: "py_slice xs (int a) (int a + int n) = take n (drop a xs)"
proof -
  have "int a + int n = int (a + n)" by simp
  then show ?thesis by (simp only: py_slice_def Let_def slice_bound_nat) (simp add: min_def)
qed

lemma concat_pages: "concat (map (\<lambda>i. take n (drop (i * n) xs)) [0..<k]) = take (k * n) xs"
  by (induction k) (simp_all add: take_add add.commute [of n])

lemma rmap_take_drop: "rmap f xs = Inr ys \<Longrightarrow> rmap f (take n (drop m xs)) = Inr (take n (drop m ys))"
  by (auto simp: rmap_Inr_iff list_all2_conv_all_nth)

definition page_items :: "(nat \<times> pydict list) result \<Rightarrow> pydict list" where
  "page_items r = (case r of Inr (k, items) \<Rightarrow> items | Inl e \<Rightarrow> [])"

text \<open>Reading the results of a job page by page loses and repeats nothing: the pages of a positive
  size, from offset zero on until the total is reached, put together are all the results of the job.\<close>

theorem result_pages_complete:
  assumes "map_of (ap_jobs st) jid = Some job"
    and "rmap (result_item isoformat validate) (jb_results job) = Inr items"
    and "length (jb_results job) \<le> k * n"
  shows "concat (map (\<lambda>i. page_items (get_replay_results isoformat validate jid (int n) (int (i * n)) st)) [0..<k]) = items"
proof -
  have "page_items (get_replay_results isoformat validate jid (int n) (int (i * n)) st) = take n (drop (i * n) items)" for i
    using assms(1) rmap_take_drop [OF assms(2), of n "i * n"] py_slice_page [of "jb_results job" "i * n" n]
    by (simp add: get_replay_results_def find_job_def page_items_def)
  moreover have "length items \<le> k * n" using rmap_length [OF assms(2)] assms(3) by simp
  ultimately show ?thesis by (simp add: concat_pages)
qed

section \<open>Jobs of the service\<close>

lemma map_of_job: "\<lbrakk>distinct (map fst d); (k, v) \<in> set d\<rbrakk> \<Longrightarrow> map_of d k = Some v"
  by (rule map_of_is_SomeI)

text \<open>What holds of each job between two requests.\<close>

definition job_ok :: "string \<times> replay_job \<Rightarrow> bool" where
  "job_ok x \<longleftrightarrow> jb_id (snd x) = fst x \<and>
     (if js_status (jb_status (snd x)) = Job_pending
      then jb_results (snd x) = [] \<and> js_started_at (jb_status (snd x)) = None
      else js_status (jb_status (snd x)) \<in> {Job_completed, Job_failed, Job_cancelled}
           \<and> js_completed_at (jb_status (snd x)) \<noteq> None)"

lemma set_dset: "x \<in> set (dset d k v) \<Longrightarrow> x = (k, v) \<or> x \<in> set d"
  by (induction d) (auto simp: dset_def split: if_splits)

lemma run_job_ok: "job_ok (k, j) \<Longrightarrow> run_job so R D w hp t0 t1 j = Some (j', r) \<Longrightarrow> job_ok (k, j')"
proof (cases "js_status (jb_status j) = Job_pending")
  case True
  assume j: "job_ok (k, j)" "run_job so R D w hp t0 t1 j = Some (j', r)"
  show ?thesis
    using job_start_ends [OF True j(2) [unfolded run_job_def]] j(1) by (auto simp: job_ok_def)
qed (simp add: run_job_def job_start_again)

definition jobs_ok :: "api_state \<Rightarrow> bool" where
  "jobs_ok st \<longleftrightarrow> distinct (map fst (ap_jobs st)) \<and> list_all job_ok (ap_jobs st)"

lemma jobs_ok_dset:
  "jobs_ok st \<Longrightarrow> job_ok (k, j) \<Longrightarrow> jobs_ok (st\<lparr>ap_jobs := dset (ap_jobs st) k j\<rparr>)"
  using set_dset by (fastforce simp: jobs_ok_def distinct_dset list_all_iff)

lemma jobs_ok_lookup: "jobs_ok st \<Longrightarrow> map_of (ap_jobs st) k = Some j \<Longrightarrow> job_ok (k, j)"
  by (auto simp: jobs_ok_def list_all_iff dest: map_of_SomeD)

lemma change_mode_jobs: "change_mode new jc yd out rid st = (st', r) \<Longrightarrow> ap_jobs st' = ap_jobs st"
  by (auto simp: change_mode_def write_rules_to_yaml_def split: option.splits if_splits sum.splits prod.splits write_outcome.splits)

lemma api_step_jobs: "api_step st st' \<Longrightarrow> jobs_ok st \<Longrightarrow> jobs_ok st'"
proof (induction rule: api_step.induct)
  case (demoted jc yd out rid st st' r)
  then show ?case using change_mode_jobs by (auto simp: demote_rule_def jobs_ok_def)
next
  case (promoted jc yd out rid st st' r)
  then show ?case using change_mode_jobs by (auto simp: promote_rule_def jobs_ok_def)
next
  case (created isof now uuid body st st' r)
  have "job_ok (uuid, ReplayJob_init now uuid c)" for c by (simp add: job_ok_def ReplayJob_init_def)
  then show ?case
    using created jobs_ok_dset [of st uuid] by (auto simp: create_replay_job_def Let_def ReplayJob_init_def split: sum.splits)
next
  case (task_run so R D w hp t0 t1 jid st st')
  then show ?case
    using jobs_ok_dset [of st jid] run_job_ok jobs_ok_lookup [of st jid]
    by (auto simp: run_job_task_def split: option.splits)
next
  case (cancelled isof jid st st' r)
  have "job_ok (jid, j) \<Longrightarrow> js_status (jb_status j) \<notin> {Job_completed, Job_failed, Job_cancelled} \<Longrightarrow>
      job_ok (jid, job_cancel j)" for j
    by (auto simp: job_ok_def job_cancel_def split: if_splits)
  then show ?case
    using cancelled jobs_ok_dset [of st jid] jobs_ok_lookup [of st jid]
    by (auto simp: cancel_replay_job_def find_job_def raise_exn_def split: option.splits if_splits)
qed

lemma reachable_jobs: "reachable st0 st \<Longrightarrow> ap_jobs st0 = [] \<Longrightarrow> jobs_ok st"
  by (induction rule: reachable.induct) (auto simp: jobs_ok_def [of st0] intro: api_step_jobs)

text \<open>No request ever sees a job running: in every state the service can reach, each job is filed under
  its own id and is either pending, untouched and without results, or has ended with a completion
  time as completed, failed or cancelled.\<close>

theorem no_job_seen_running:
  assumes "reachable st0 st" "ap_jobs st0 = []" "map_of (ap_jobs st) jid = Some job"
  shows "jb_id job = jid \<and> js_status (jb_status job) \<noteq> Job_running
    \<and> (if js_status (jb_status job) = Job_pending then jb_results job = [] \<and> js_started_at (jb_status job) = None
       else js_completed_at (jb_status job) \<noteq> None)"
  using jobs_ok_lookup [OF reachable_jobs [OF assms(1,2)] assms(3)] by (auto simp: job_ok_def split: if_splits)
definition sample_request :: create_request where
  "sample_request =
     \<lparr>cr_source_type = ''kafka'', cr_iceberg = None, cr_kafka = Some sample_kafka, cr_dlq = None,
      cr_rule_set_version = None, cr_use_shadow_rules = True, cr_output_topic = ''out'', cr_description = []\<rparr>"

definition sample_created :: api_state where
  "sample_created = fst (create_replay_job (\<lambda>t. []) 5 ''j1'' sample_request sample_api)"

lemma sample_created_reachable: "reachable sample_api sample_created"
proof -
  have "api_step sample_api sample_created"
    by (rule created [of "\<lambda>t. []" 5 "''j1''" sample_request _ _ "snd (create_replay_job (\<lambda>t. []) 5 ''j1'' sample_request sample_api)"])
       (simp_all add: sample_created_def sample_api_def)
  with reachable.start show ?thesis by (rule reachable.step)
qed

lemma sample_created_job: "\<exists>job. map_of (ap_jobs sample_created) ''j1'' = Some job \<and> js_status (jb_status job) = Job_pending"
  by (simp add: sample_created_def create_replay_job_def build_replay_config_def sample_request_def source_of_value_def
      config_for_def ReplayConfig_post_init_def ReplayJob_init_def sample_api_def dset_def)

lemma sample_api_jobs: "ap_jobs sample_api = []"
  by (simp add: sample_api_def)

lemma no_job_seen_running_witness:
  "\<exists>job. map_of (ap_jobs sample_created) ''j1'' = Some job \<and> jb_results job = []"
  using sample_created_job no_job_seen_running [OF sample_created_reachable sample_api_jobs, of "''j1''"] by auto

text \<open>A cancellation that is accepted comes before the job has begun: the job was pending, and when its
  task then runs to an end, it has scored no event and has no results. A job that began can no longer be
  cancelled, since its task leaves the server no request to handle.\<close>

theorem cancelled_job_scores_nothing:
  assumes "reachable st0 st" "ap_jobs st0 = []" "cancel_replay_job isof jid st = (st1, Inr reply)"
    and "run_job_task so R D w hp t0 t1 jid st1 = Some st2"
  shows "\<exists>job job'. map_of (ap_jobs st) jid = Some job \<and> js_status (jb_status job) = Job_pending
    \<and> map_of (ap_jobs st2) jid = Some job' \<and> jb_results job' = [] \<and> js_completed_at (jb_status job') = Some t1"
proof -
  obtain job where job: "map_of (ap_jobs st) jid = Some job"
      "js_status (jb_status job) \<notin> {Job_completed, Job_failed, Job_cancelled}"
      "st1 = st\<lparr>ap_jobs := dset (ap_jobs st) jid (job_cancel job)\<rparr>"
    using assms(3) by (auto simp: cancel_replay_job_def find_job_def raise_exn_def split: option.splits if_splits)
  have pending: "js_status (jb_status job) = Job_pending" "jb_results job = []"
    using jobs_ok_lookup [OF reachable_jobs [OF assms(1,2)] job(1)] job(2) by (auto simp: job_ok_def split: if_splits)
  have p: "js_status (jb_status (job_cancel job)) = Job_pending" "jb_cancelled (job_cancel job)"
    using pending by (simp_all add: job_cancel_def)
  obtain job' r where run: "run_job so R D w hp t0 t1 (job_cancel job) = Some (job', r)"
      "st2 = st1\<lparr>ap_jobs := dset (ap_jobs st1) jid job'\<rparr>"
    using assms(4) by (auto simp: run_job_task_def job(3) dict_simps)
  note e = job_start_ends [OF p(1) run(1) [unfolded run_job_def]]
  have "jb_results job' = []" using e(4) [OF p(2)] pending by (simp add: job_cancel_def)
  moreover have "map_of (ap_jobs st2) jid = Some job'" by (simp add: run(2) dict_simps)
  ultimately show ?thesis using job(1) pending(1) e(1) by auto
qed

lemma cancelled_job_scores_nothing_witness:
  "\<exists>st2 job'. run_job_task id sample_run sample_decoders sample_worlds False 8 9 ''j1''
       (fst (cancel_replay_job (\<lambda>t. []) ''j1'' sample_created)) = Some st2
     \<and> map_of (ap_jobs st2) ''j1'' = Some job' \<and> jb_results job' = []"
proof -
  let ?c = "cancel_replay_job (\<lambda>t. []) ''j1'' sample_created"
  have "case snd ?c of Inl e \<Rightarrow> False | Inr d \<Rightarrow> True" by code_simp
  then obtain reply where c: "?c = (fst ?c, Inr reply)" by (cases ?c) (auto split: sum.splits)
  have "run_job_task id sample_run sample_decoders sample_worlds False 8 9 ''j1'' (fst ?c) \<noteq> None" by code_simp
  then obtain st2 where "run_job_task id sample_run sample_decoders sample_worlds False 8 9 ''j1'' (fst ?c) = Some st2"
    by blast
  with cancelled_job_scores_nothing [OF sample_created_reachable sample_api_jobs c this] show ?thesis by blast
qed

lemma result_pages_complete_witness:
  "\<exists>st items. concat (map (\<lambda>i. page_items (get_replay_results (\<lambda>t. []) Inr ''j1'' (int 1) (int (i * 1)) st)) [0..<2]) = items
     \<and> length items = 2"
proof -
  define job where "job = fst (the (job_start id sample_run sample_decoders sample_worlds False 8 9 sample_job))"
  define st where "st = sample_api\<lparr>ap_jobs := [(''j1'', job)]\<rparr>"
  have "isl (rmap (result_item (\<lambda>t. []) Inr) (jb_results job)) = False" "length (jb_results job) = 2"
    unfolding job_def by code_simp+
  then obtain items where items: "rmap (result_item (\<lambda>t. []) Inr) (jb_results job) = Inr items" "length (jb_results job) = 2"
    by (cases "rmap (result_item (\<lambda>t. []) Inr) (jb_results job)") auto
  have "map_of (ap_jobs st) ''j1'' = Some job" by (simp add: st_def)
  from result_pages_complete [OF this items(1), of 2 1] items rmap_length [OF items(1)] show ?thesis by auto
qed

text \<open>Without the key the endpoint is not reached and nothing changes.\<close>

definition key_error :: "string \<Rightarrow> string option \<Rightarrow> exn_class" where
  "key_error expected api_key =
     (case api_key of
        None \<Rightarrow> HTTPException 401
      | Some k \<Rightarrow> if ascii k \<and> ascii expected then HTTPException 401 else TypeError)"

lemma guarded_without_key:
  assumes "expected = Some (c # cs)" "api_key \<noteq> expected"
  shows "\<exists>e. guarded expected api_key valid limited endpoint st = (st, Inl e) \<and> exn_cls e = key_error (c # cs) api_key"
  using assms
  by (auto simp: guarded_def require_api_key_def compare_digest_def key_error_def raise_exn_def split: option.split)

text \<open>Every reply the middleware handles carries the four headers.\<close>

lemma security_headers_present:
  "map_of (security_headers h) ''X-Content-Type-Options'' = Some ''nosniff''"
  "map_of (security_headers h) ''X-Frame-Options'' = Some ''DENY''"
  by (simp_all add: security_headers_def dict_simps)

end
