(* ===== verification/Tracing.thy ===== *)
theory Tracing
  imports Pyval Config
begin

text \<open>
  Trace context: \<open>shared/tracing.py\<close>, \<open>shared/telemetry.py\<close>, \<open>processing/telemetry.py\<close>,
  \<open>scoring/telemetry.py\<close> and \<open>ingestion/api/telemetry.py\<close>. OpenTelemetry is an argument: what it does
  with a provider, how it samples, exports and ends a span. The model keeps what the code hands to it
  and reads from it: span contexts with their 128-bit and 64-bit identifiers, attributes, status, and
  the W3C header texts with their UTF-8 bytes.
\<close>

section \<open>UTF-8\<close>

text \<open>\<open>str.encode("utf-8")\<close> on code points; a surrogate is refused.\<close>

definition surrogate :: "nat \<Rightarrow> bool" where
  "surrogate c \<longleftrightarrow> 0xD800 \<le> c \<and> c \<le> 0xDFFF"

definition code_point_bytes :: "nat \<Rightarrow> nat list" where
  "code_point_bytes c =
     (if c < 0x80 then [c]
      else if c < 0x800 then [0xC0 + c div 64, 0x80 + c mod 64]
      else if c < 0x10000 then [0xE0 + c div 4096, 0x80 + c div 64 mod 64, 0x80 + c mod 64]
      else [0xF0 + c div 262144, 0x80 + c div 4096 mod 64, 0x80 + c div 64 mod 64, 0x80 + c mod 64])"

definition encode_text :: "nat list \<Rightarrow> 8 word list result" where
  "encode_text cs =
     (if list_ex surrogate cs then raise_exn ValueError ''surrogates not allowed''
      else Inr (map of_nat (concat (map code_point_bytes cs))))"

text \<open>
  \<open>bytes.decode("utf-8", errors="replace")\<close>: each maximal prefix of a sequence that is not valid
  becomes U+FFFD. The second byte of a sequence has the range that excludes overlong forms,
  surrogates and code points above U+10FFFF.
\<close>

definition cont :: "nat \<Rightarrow> bool" where
  "cont b \<longleftrightarrow> 0x80 \<le> b \<and> b \<le> 0xBF"

definition second_ok :: "nat \<Rightarrow> nat \<Rightarrow> bool" where
  "second_ok lead b \<longleftrightarrow>
     (if lead = 0xE0 then 0xA0 \<le> b \<and> b \<le> 0xBF
      else if lead = 0xED then 0x80 \<le> b \<and> b \<le> 0x9F
      else if lead = 0xF0 then 0x90 \<le> b \<and> b \<le> 0xBF
      else if lead = 0xF4 then 0x80 \<le> b \<and> b \<le> 0x8F
      else cont b)"

fun decode_replace :: "nat list \<Rightarrow> nat list" where
  "decode_replace [] = []"
| "decode_replace (a # bs) =
     (if a < 0x80 then a # decode_replace bs
      else if a < 0xC2 \<or> 0xF4 < a then 0xFFFD # decode_replace bs
      else (case bs of
         [] \<Rightarrow> [0xFFFD]
       | b # bs2 \<Rightarrow>
           (if \<not> second_ok a b then 0xFFFD # decode_replace bs
            else if a < 0xE0 then ((a - 0xC0) * 64 + (b - 0x80)) # decode_replace bs2
            else (case bs2 of
               [] \<Rightarrow> [0xFFFD]
             | c # bs3 \<Rightarrow>
                 (if \<not> cont c then 0xFFFD # decode_replace bs2
                  else if a < 0xF0
                  then ((a - 0xE0) * 4096 + (b - 0x80) * 64 + (c - 0x80)) # decode_replace bs3
                  else (case bs3 of
                     [] \<Rightarrow> [0xFFFD]
                   | d # bs4 \<Rightarrow>
                       (if \<not> cont d then 0xFFFD # decode_replace bs3
                        else ((a - 0xF0) * 262144 + (b - 0x80) * 4096 + (c - 0x80) * 64 + (d - 0x80)) # decode_replace bs4)))))))"

declare decode_replace.simps(2) [simp del]

definition scalar :: "nat \<Rightarrow> bool" where
  "scalar c \<longleftrightarrow> c < 0x110000 \<and> \<not> surrogate c"

lemma code_point_bytes_bytes: "scalar c \<Longrightarrow> b \<in> set (code_point_bytes c) \<Longrightarrow> b < 256"
  by (auto simp: code_point_bytes_def scalar_def split: if_splits)

text \<open>The digits of a code point in base 64.\<close>

lemma base64:
  fixes c :: nat
  obtains d e f g where "c mod 64 = d" "c div 64 mod 64 = e" "c div 4096 mod 64 = f" "c div 262144 = g"
    "c div 64 = e + 64 * (f + 64 * g)" "c div 4096 = f + 64 * g" "c = d + 64 * (e + 64 * (f + 64 * g))"
    "d < 64" "e < 64" "f < 64"
proof -
  have q: "c div 4096 = c div 64 div 64" "c div 262144 = c div 4096 div 64"
    using div_mult2_eq [of c 64 64] div_mult2_eq [of c 4096 64] by simp_all
  have e: "c mod 64 + 64 * (c div 64) = c" "c div 64 mod 64 + 64 * (c div 4096) = c div 64"
    "c div 4096 mod 64 + 64 * (c div 262144) = c div 4096"
    unfolding q by (rule mod_mult_div_eq)+
  show ?thesis
    by (rule that [of "c mod 64" "c div 64 mod 64" "c div 4096 mod 64" "c div 262144"]) (simp_all add: e)
qed

lemma decode_replace_char:
  assumes "scalar c"
  shows "decode_replace (code_point_bytes c @ bs) = c # decode_replace bs"
proof -
  obtain d e f g where digits: "c mod 64 = d" "c div 64 mod 64 = e" "c div 4096 mod 64 = f" "c div 262144 = g"
    "c div 64 = e + 64 * (f + 64 * g)" "c div 4096 = f + 64 * g"
    and c: "c = d + 64 * (e + 64 * (f + 64 * g))" and small: "d < 64" "e < 64" "f < 64"
    by (rule base64)
  consider "c < 0x80" | "0x80 \<le> c" "c < 0x800" | "0x800 \<le> c" "c < 0x10000" | "0x10000 \<le> c" by linarith
  then show ?thesis
  proof cases
    case 1
    then show ?thesis by (simp add: code_point_bytes_def decode_replace.simps)
  next
    case 2
    then have z: "f = 0" "g = 0" using c by simp_all
    then have "code_point_bytes c = [0xC0 + e, 0x80 + d]" using 2 digits by (simp add: code_point_bytes_def)
    moreover have "2 \<le> e" "e < 32" using 2 c z small by simp_all
    ultimately show ?thesis using small z c by (simp add: decode_replace.simps second_ok_def cont_def)
  next
    case 3
    then have z: "g = 0" using c by simp
    then have "code_point_bytes c = [0xE0 + f, 0x80 + e, 0x80 + d]" using 3 digits by (simp add: code_point_bytes_def)
    moreover have "f < 16" "f = 0 \<Longrightarrow> 32 \<le> e" using 3 c z small by simp_all
    moreover have "f = 13 \<Longrightarrow> e \<le> 31" using assms c z small by (simp add: scalar_def surrogate_def)
    ultimately show ?thesis using small z c by (simp add: decode_replace.simps second_ok_def cont_def)
  next
    case 4
    then have "code_point_bytes c = [0xF0 + g, 0x80 + f, 0x80 + e, 0x80 + d]" using digits by (simp add: code_point_bytes_def)
    moreover have "c < 0x110000" using assms by (simp add: scalar_def)
    moreover have "g < 5" "g = 0 \<Longrightarrow> 16 \<le> f" "g = 4 \<Longrightarrow> f < 16" using 4 \<open>c < 0x110000\<close> c small by simp_all
    ultimately show ?thesis using small c by (simp add: decode_replace.simps second_ok_def cont_def)
  qed
qed

lemma decode_replace_all:
  "list_all scalar cs \<Longrightarrow> decode_replace (concat (map code_point_bytes cs) @ bs) = cs @ decode_replace bs"
  by (induction cs) (simp_all add: decode_replace_char)

lemma utf8_roundtrip:
  assumes "list_all scalar cs"
  shows "\<exists>bytes. encode_text cs = Inr bytes \<and> decode_replace (map unat bytes) = cs"
proof -
  let ?bs = "concat (map code_point_bytes cs)"
  have "map (\<lambda>n. unat (of_nat n :: 8 word)) ?bs = ?bs"
  proof (rule map_idI)
    fix n assume "n \<in> set ?bs"
    then obtain c where "c \<in> set cs" "n \<in> set (code_point_bytes c)" by auto
    then have "n < 256" using assms code_point_bytes_bytes [of c n] by (simp add: list_all_iff)
    then show "unat (of_nat n :: 8 word) = n" by (simp add: unat_of_nat)
  qed
  moreover have "\<not> list_ex surrogate cs" using assms by (auto simp: list_ex_iff list_all_iff scalar_def)
  ultimately show ?thesis using decode_replace_all [OF assms, of "[]"] by (simp add: encode_text_def o_def)
qed

section \<open>Span contexts and their identifiers\<close>

record span_context =
  tc_trace_id :: "128 word"
  tc_span_id :: "64 word"
  tc_sampled :: bool
  tc_valid :: bool

record span_view =
  sv_recording :: bool
  sv_context :: "span_context option"

text \<open>\<open>format(k, "032x")\<close>: lower-case hexadecimal, padded with zeros on the left to a width.\<close>

definition pad_hex :: "nat \<Rightarrow> nat \<Rightarrow> string" where
  "pad_hex width k = (let s = show_hex k in replicate (width - length s) CHR ''0'' @ s)"

text \<open>What \<open>get_current_span\<close> returns, or raises, is the argument of the next two.\<close>

definition get_current_trace_id :: "span_view option result \<Rightarrow> string option" where
  "get_current_trace_id current =
     (case current of
        Inr (Some sp) \<Rightarrow>
          (if sv_recording sp
           then (case sv_context sp of
                   Some ctx \<Rightarrow> if tc_valid ctx then Some (pad_hex 32 (unat (tc_trace_id ctx))) else None
                 | None \<Rightarrow> None)
           else None)
      | _ \<Rightarrow> None)"

definition get_current_span_context :: "span_view option result \<Rightarrow> span_context option" where
  "get_current_span_context current =
     (case current of
        Inr (Some sp) \<Rightarrow>
          (case sv_context sp of Some ctx \<Rightarrow> if tc_valid ctx then Some ctx else None | None \<Rightarrow> None)
      | _ \<Rightarrow> None)"

text \<open>\<open>extract_context\<close>: the context the propagator reads, and the span found in it.\<close>

definition extract_context ::
  "('carrier \<Rightarrow> 'ctx option result) \<Rightarrow> ('ctx \<Rightarrow> span_view option result) \<Rightarrow> 'carrier \<Rightarrow> span_context option" where
  "extract_context extract span_of carrier =
     (case extract carrier of
        Inr (Some context) \<Rightarrow> get_current_span_context (span_of context)
      | _ \<Rightarrow> None)"

section \<open>Kafka headers\<close>

definition TRACEPARENT :: string where "TRACEPARENT = ''traceparent''"
definition TRACESTATE :: string where "TRACESTATE = ''tracestate''"

text \<open>The values of a carrier are texts, here by their code points.\<close>

type_synonym carrier = "(string \<times> nat list) list"

definition extract_trace_context :: "(string \<times> 8 word list) list option \<Rightarrow> carrier" where
  "extract_trace_context headers =
     (case headers of
        None \<Rightarrow> []
      | Some hs \<Rightarrow>
          fold (\<lambda>(k, v) c. if k = TRACEPARENT \<or> k = TRACESTATE then dset c k (decode_replace (map unat v)) else c) hs [])"

definition traceparent :: "span_context \<Rightarrow> string" where
  "traceparent ctx =
     ''00-'' @ pad_hex 32 (unat (tc_trace_id ctx)) @ ''-'' @ pad_hex 16 (unat (tc_span_id ctx)) @ ''-01''"

text \<open>\<open>inject_trace_context\<close> changes the carrier and returns the headers made of it.\<close>

definition inject_trace_context ::
  "bool \<Rightarrow> span_context \<Rightarrow> carrier \<Rightarrow> carrier \<times> (string \<times> 8 word list) list result" where
  "inject_trace_context recording ctx c =
     (let c' = (if recording \<and> tc_sampled ctx then dset c TRACEPARENT (map code (traceparent ctx)) else c)
      in (c', rmap (\<lambda>k. rbind (encode_text (the (map_of c' k))) (\<lambda>bytes. Inr (k, bytes)))
                (filter (\<lambda>k. has_key c' k) [TRACEPARENT, TRACESTATE])))"

text \<open>The default getter of the Kafka propagator; \<open>decode\<close> is the strict \<open>bytes.decode\<close>.\<close>

definition decoded_header :: "(8 word list \<Rightarrow> string result) \<Rightarrow> pyval \<Rightarrow> pyval result" where
  "decoded_header decode v = (case v of PBytes b \<Rightarrow> rbind (decode b) (\<lambda>s. Inr (PStr s)) | _ \<Rightarrow> Inr v)"

definition propagator_getter ::
  "(8 word list \<Rightarrow> string result) \<Rightarrow> pydict \<Rightarrow> string \<Rightarrow> pyval list option result" where
  "propagator_getter decode carrier key =
     (case dget carrier key of
        PNone \<Rightarrow> Inr None
      | PList vs \<Rightarrow> rbind (rmap (decoded_header decode) vs) (\<lambda>xs. Inr (Some xs))
      | v \<Rightarrow> rbind (decoded_header decode v) (\<lambda>x. Inr (Some [x])))"

definition propagator_fields :: "string list" where
  "propagator_fields = [TRACEPARENT, TRACESTATE]"

text \<open>
  What the Kafka propagator hands to the standard one, whose \<open>extract\<close> takes a carrier, a context and a
  getter, and whose \<open>inject\<close> takes a carrier, a context and a setter. \<open>'o\<close> are the objects passed,
  \<open>own_getter\<close> the getter above.
\<close>

definition kafka_extract :: "('c \<Rightarrow> 'o option \<Rightarrow> 'o option \<Rightarrow> 'r) \<Rightarrow> 'o \<Rightarrow> 'c \<Rightarrow> 'o option \<Rightarrow> 'r" where
  "kafka_extract extract own_getter carrier getter =
     extract carrier (Some (case getter of None \<Rightarrow> own_getter | Some g \<Rightarrow> g)) None"

definition kafka_inject :: "('c \<Rightarrow> 'o option \<Rightarrow> 'o option \<Rightarrow> 'r) \<Rightarrow> 'c \<Rightarrow> 'o option \<Rightarrow> 'o option \<Rightarrow> 'r" where
  "kafka_inject inject carrier context setter = inject carrier context setter"

section \<open>Providers\<close>

datatype exporter = OTLP string | Custom | Console | In_memory

record provider =
  pv_service :: "string option"
  pv_version :: "string option"
  pv_environment :: "string option"
  pv_sample_rate :: "pyfloat option"
  pv_exporters :: "exporter list"

text \<open>
  What OpenTelemetry does: the registration of a provider as the global one, the check of a sampling
  rate, the import of the OTLP exporter and its construction.
\<close>

record otel =
  og_set_global :: "provider \<Rightarrow> provider option \<Rightarrow> provider option"
  og_sampler :: "pyfloat \<Rightarrow> exn option"
  og_otlp_import :: "exn option"
  og_otlp :: "string \<Rightarrow> exn option"

record tracing_state =
  ts_provider :: "provider option"
  ts_global :: "provider option"
  ts_textmap :: bool

definition otlp_exporters :: "otel \<Rightarrow> bool \<Rightarrow> string option \<Rightarrow> exporter list result" where
  "otlp_exporters og custom endpoint =
     (case endpoint of
        None \<Rightarrow> Inr []
      | Some e \<Rightarrow>
          (if e = [] then Inr []
           else case og_otlp_import og of
                  Some x \<Rightarrow> Inl x
                | None \<Rightarrow>
                    (if custom then Inr [Custom]
                     else case og_otlp og e of Some x \<Rightarrow> Inl x | None \<Rightarrow> Inr [OTLP e])))"

definition init_tracer_provider ::
  "otel \<Rightarrow> environ \<Rightarrow> string \<Rightarrow> string option \<Rightarrow> pyfloat \<Rightarrow> bool \<Rightarrow> tracing_state \<Rightarrow> (tracing_state \<times> provider) result" where
  "init_tracer_provider og env service_name endpoint sample_rate custom_exporter st =
     (case ts_provider st of
        Some p \<Rightarrow> Inr (st, p)
      | None \<Rightarrow>
          (case og_sampler og sample_rate of
             Some e \<Rightarrow> Inl e
           | None \<Rightarrow>
               (let ep = (case endpoint of None \<Rightarrow> env ''OTEL_EXPORTER_OTLP_ENDPOINT'' | Some e \<Rightarrow> Some e);
                    p = \<lparr>pv_service = Some service_name,
                         pv_version = Some (env_get env ''SERVICE_VERSION'' ''0.1.0''),
                         pv_environment = Some (env_get env ''DEPLOYMENT_ENV'' ''development''),
                         pv_sample_rate = Some sample_rate,
                         pv_exporters = (case otlp_exporters og custom_exporter ep of Inl e \<Rightarrow> [] | Inr xs \<Rightarrow> xs)\<rparr>
                in Inr (\<lparr>ts_provider = Some p, ts_global = og_set_global og p (ts_global st), ts_textmap = True\<rparr>, p))))"

text \<open>\<open>get_tracer\<close> keeps one tracer per name; \<open>create\<close> is OpenTelemetry's \<open>get_tracer\<close>.\<close>

definition get_tracer :: "(string \<Rightarrow> 't) \<Rightarrow> string \<Rightarrow> (string \<times> 't) list \<Rightarrow> (string \<times> 't) list \<times> 't" where
  "get_tracer create name tracers =
     (case map_of tracers name of
        Some t \<Rightarrow> (tracers, t)
      | None \<Rightarrow> (dset tracers name (create name), create name))"

text \<open>\<open>shared/telemetry.py\<close>: a provider of its own; here a failing exporter is not caught.\<close>

definition build_tracer :: "otel \<Rightarrow> environ \<Rightarrow> string \<Rightarrow> pyfloat option \<Rightarrow> provider option \<Rightarrow> (provider option \<times> provider) result" where
  "build_tracer og env service_name sampler global_provider =
     rbind (otlp_exporters og False (env ''OTEL_EXPORTER_OTLP_ENDPOINT'')) (\<lambda>xs.
       let p = \<lparr>pv_service = Some service_name, pv_version = None, pv_environment = None,
                pv_sample_rate = sampler, pv_exporters = xs\<rparr>
       in Inr (og_set_global og p global_provider, p))"

text \<open>\<open>ingestion/api/telemetry.py\<close>: idempotent, \<open>tracer\<close> is whether one is there already.\<close>

definition ingestion_init_tracer ::
  "otel \<Rightarrow> environ \<Rightarrow> string \<Rightarrow> bool \<Rightarrow> provider option \<Rightarrow> (bool \<times> provider option) result" where
  "ingestion_init_tracer og env service_name initialised global_provider =
     (if initialised then Inr (True, global_provider)
      else rbind (otlp_exporters og False (env ''OTEL_EXPORTER_OTLP_ENDPOINT'')) (\<lambda>xs.
        Inr (True, og_set_global og
          \<lparr>pv_service = (if xs = [] then None else Some service_name), pv_version = None, pv_environment = None,
           pv_sample_rate = None, pv_exporters = xs\<rparr> global_provider)))"

definition ingestion_get_tracer :: "otel \<Rightarrow> environ \<Rightarrow> bool \<Rightarrow> provider option \<Rightarrow> (bool \<times> provider option) result" where
  "ingestion_get_tracer og env initialised global_provider =
     (if \<not> initialised then ingestion_init_tracer og env ''api-producer'' initialised global_provider
      else Inr (True, global_provider))"

text \<open>
  \<open>scoring/telemetry.py\<close>: the state is the tracer's presence, the global provider, and the gauge of
  the sampling rates by decision type.
\<close>

record scoring_tracing =
  sg_tracer :: bool
  sg_global :: "provider option"
  sg_rates :: "(string \<times> pyfloat) list"

definition scoring_init_tracer :: "otel \<Rightarrow> bool \<Rightarrow> pyfloat \<Rightarrow> scoring_tracing \<Rightarrow> scoring_tracing result" where
  "scoring_init_tracer og has_otel allow_sample_rate st =
     (if \<not> has_otel then Inr st
      else case og_sampler og allow_sample_rate of
             Some e \<Rightarrow> Inl e
           | None \<Rightarrow>
               (let p = \<lparr>pv_service = Some ''fraudstream-scoring'', pv_version = None, pv_environment = None,
                         pv_sample_rate = Some allow_sample_rate, pv_exporters = [Console]\<rparr>
                in Inr \<lparr>sg_tracer = True, sg_global = og_set_global og p (sg_global st),
                        sg_rates = dset (dset (dset (sg_rates st) ''ALLOW'' allow_sample_rate) ''BLOCK'' (Fin 1)) ''error'' (Fin 1)\<rparr>))"

definition scoring_get_tracer :: "otel \<Rightarrow> bool \<Rightarrow> scoring_tracing \<Rightarrow> scoring_tracing result" where
  "scoring_get_tracer og has_otel st =
     (if sg_tracer st then Inr st else scoring_init_tracer og has_otel (to_double (1/100)) st)"

section \<open>Spans around calls\<close>

text \<open>
  An operation on a span changes it. \<open>so_start\<close> opens a span by its name and the context of its parent,
  when one is given; \<open>so_exit\<close> is the end of \<open>start_as_current_span\<close> with the exception that left the
  block, if any.
\<close>

record 'sp span_ops =
  so_start :: "string \<Rightarrow> span_context option \<Rightarrow> 'sp"
  so_set :: "string \<Rightarrow> pyval \<Rightarrow> 'sp \<Rightarrow> 'sp"
  so_error :: "string \<Rightarrow> 'sp \<Rightarrow> 'sp"
  so_record :: "exn \<Rightarrow> 'sp \<Rightarrow> 'sp"
  so_exit :: "exn option \<Rightarrow> 'sp \<Rightarrow> 'sp"

definition set_attributes :: "'sp span_ops \<Rightarrow> pydict \<Rightarrow> 'sp \<Rightarrow> 'sp" where
  "set_attributes ops attributes sp = fold (\<lambda>(k, v). so_set ops k v) attributes sp"

text \<open>The decorated function, called with a body whose outcome is \<open>outcome\<close>.\<close>

definition trace_span ::
  "'sp span_ops \<Rightarrow> string option \<Rightarrow> pydict \<Rightarrow> bool \<Rightarrow> string \<Rightarrow> string \<Rightarrow> 'r result \<Rightarrow> 'sp \<times> 'r result" where
  "trace_span ops span_name attributes set_error_on_exception func_name func_module outcome =
     (let name = (case span_name of Some n \<Rightarrow> (if n = [] then func_name else n) | None \<Rightarrow> func_name);
          sp = set_attributes ops (attributes @ [(''function.name'', PStr func_name), (''function.module'', PStr func_module)])
                 (so_start ops name None)
      in case outcome of
           Inr r \<Rightarrow> (so_exit ops None sp, Inr r)
         | Inl e \<Rightarrow>
             (so_exit ops (Some e)
                (if set_error_on_exception then so_record ops e (so_error ops (exn_msg e) sp) else sp), Inl e))"

definition start_span ::
  "'sp span_ops \<Rightarrow> string \<Rightarrow> pydict \<Rightarrow> span_context option \<Rightarrow> ('sp \<Rightarrow> 'sp \<times> 'r result) \<Rightarrow> 'sp \<times> 'r result" where
  "start_span ops name attributes parent_context body =
     (let (sp, r) = body (set_attributes ops attributes (so_start ops name parent_context))
      in (so_exit ops (case r of Inl e \<Rightarrow> Some e | Inr x \<Rightarrow> None) sp, r))"

text \<open>The span around a rule evaluation; without OpenTelemetry there is none.\<close>

definition fraud_rule_evaluation_span ::
  "'sp span_ops \<Rightarrow> bool \<Rightarrow> string \<Rightarrow> string \<Rightarrow> int \<Rightarrow> ('sp option \<Rightarrow> 'sp option \<times> 'r result) \<Rightarrow> 'sp option \<times> 'r result" where
  "fraud_rule_evaluation_span ops has_otel transaction_id channel rule_count body =
     (if \<not> has_otel then body None
      else (let sp = set_attributes ops [(''fraud.transaction_id'', PStr transaction_id), (''fraud.channel'', PStr channel),
                       (''fraud.rule_count'', PInt rule_count)] (so_start ops ''fraud.rule_evaluation'' None);
                (sp', r) = body (Some sp)
            in (map_option (so_exit ops (case r of Inl e \<Rightarrow> Some e | Inr x \<Rightarrow> None)) sp', r)))"

text \<open>
  The three helpers on the current span: they do nothing when there is none or it does not record,
  and swallow whatever an operation raises, keeping what it had changed.
\<close>

type_synonym 'sp op = "'sp \<Rightarrow> 'sp \<times> exn option"

definition then_op :: "'sp op \<Rightarrow> 'sp op \<Rightarrow> 'sp op" where
  "then_op f g sp = (case f sp of (sp', None) \<Rightarrow> g sp' | (sp', Some e) \<Rightarrow> (sp', Some e))"

definition on_current :: "('sp \<Rightarrow> bool result) \<Rightarrow> 'sp op \<Rightarrow> 'sp option result \<Rightarrow> 'sp option result" where
  "on_current recording f current =
     (case current of
        Inr (Some sp) \<Rightarrow> (case recording sp of Inr True \<Rightarrow> Inr (Some (fst (f sp))) | _ \<Rightarrow> current)
      | _ \<Rightarrow> current)"

definition set_span_attribute ::
  "('sp \<Rightarrow> bool result) \<Rightarrow> (string \<Rightarrow> pyval \<Rightarrow> 'sp op) \<Rightarrow> string \<Rightarrow> pyval \<Rightarrow> 'sp option result \<Rightarrow> 'sp option result" where
  "set_span_attribute recording set_attr k v = on_current recording (set_attr k v)"

definition record_exception ::
  "('sp \<Rightarrow> bool result) \<Rightarrow> (exn \<Rightarrow> 'sp op) \<Rightarrow> (string \<Rightarrow> 'sp op) \<Rightarrow> exn \<Rightarrow> 'sp option result \<Rightarrow> 'sp option result" where
  "record_exception recording note_exn set_error e =
     on_current recording (then_op (note_exn e) (set_error (exn_msg e)))"

definition add_event ::
  "('sp \<Rightarrow> bool result) \<Rightarrow> (string \<Rightarrow> pydict option \<Rightarrow> 'sp op) \<Rightarrow> string \<Rightarrow> pydict option \<Rightarrow> 'sp option result \<Rightarrow> 'sp option result" where
  "add_event recording add_ev name attributes = on_current recording (add_ev name attributes)"

section \<open>Lemmas\<close>

definition hex_value :: "string \<Rightarrow> nat" where
  "hex_value s = foldl (\<lambda>a c. 16 * a + (if code c < 58 then code c - 48 else code c - 87)) 0 s"

definition lower_hex :: "char \<Rightarrow> bool" where
  "lower_hex c \<longleftrightarrow> dec_digit c \<or> (97 \<le> code c \<and> code c \<le> 102)"

lemma code_hex_digit: "n < 16 \<Longrightarrow> code (hex_digit n) = (if n < 10 then 48 + n else 87 + n)"
  by (simp add: hex_digit_def code_def)

lemma lower_hex_digit: "n < 16 \<Longrightarrow> lower_hex (hex_digit n)"
  using code_hex_digit [of n] by (auto simp: lower_hex_def dec_digit_def)

lemma show_hex_step:
  "show_hex n = (if n < 16 then [hex_digit n] else show_hex (n div 16) @ [hex_digit (n mod 16)])"
  by (rule show_hex.simps)

lemma show_hex_value: "hex_value (show_hex n) = n"
proof (induction n rule: show_hex.induct)
  case (1 n)
  show ?case
  proof (cases "n < 16")
    case True
    then show ?thesis by (subst show_hex_step) (simp add: hex_value_def code_hex_digit)
  next
    case False
    then show ?thesis using 1 by (subst show_hex_step) (simp add: hex_value_def code_hex_digit)
  qed
qed

lemma show_hex_digits: "list_all lower_hex (show_hex n)"
proof (induction n rule: show_hex.induct)
  case (1 n)
  then show ?case by (subst show_hex_step) (simp add: lower_hex_digit)
qed

lemma show_hex_length: "n < 16 ^ Suc k \<Longrightarrow> length (show_hex n) \<le> Suc k"
proof (induction k arbitrary: n)
  case 0
  then show ?case by (subst show_hex_step) simp
next
  case (Suc k)
  have "n div 16 < 16 ^ Suc k" using Suc.prems by (simp add: less_mult_imp_div_less mult.commute)
  from Suc.IH [OF this] show ?case by (subst show_hex_step) simp
qed

lemma hex_value_zeros: "hex_value (replicate k CHR ''0'' @ s) = hex_value s"
  by (induction k) (simp_all add: hex_value_def code_def)

lemma pad_hex_facts:
  assumes "n < 16 ^ Suc k"
  shows "length (pad_hex (Suc k) n) = Suc k" "list_all lower_hex (pad_hex (Suc k) n)" "hex_value (pad_hex (Suc k) n) = n"
proof -
  show "length (pad_hex (Suc k) n) = Suc k"
    using show_hex_length [OF assms] by (simp add: pad_hex_def Let_def)
  show "list_all lower_hex (pad_hex (Suc k) n)"
    using show_hex_digits [of n]
    by (simp add: pad_hex_def Let_def list_all_length lower_hex_def dec_digit_def code_def)
      (simp add: list_all_iff nth_append)
  show "hex_value (pad_hex (Suc k) n) = n"
    by (simp add: pad_hex_def Let_def hex_value_zeros show_hex_value)
qed

lemma trace_id_facts:
  fixes w :: "128 word"
  shows "length (pad_hex 32 (unat w)) = 32" "list_all lower_hex (pad_hex 32 (unat w))" "hex_value (pad_hex 32 (unat w)) = unat w"
proof -
  have "unat w < 16 ^ Suc 31" using unsigned_less [of w] by simp
  from pad_hex_facts [OF this]
  show "length (pad_hex 32 (unat w)) = 32" "list_all lower_hex (pad_hex 32 (unat w))" "hex_value (pad_hex 32 (unat w)) = unat w"
    by simp_all
qed

lemma span_id_facts:
  fixes w :: "64 word"
  shows "length (pad_hex 16 (unat w)) = 16" "list_all lower_hex (pad_hex 16 (unat w))" "hex_value (pad_hex 16 (unat w)) = unat w"
proof -
  have "unat w < 16 ^ Suc 15" using unsigned_less [of w] by simp
  from pad_hex_facts [OF this]
  show "length (pad_hex 16 (unat w)) = 16" "list_all lower_hex (pad_hex 16 (unat w))" "hex_value (pad_hex 16 (unat w)) = unat w"
    by simp_all
qed

text \<open>The headers made of a carrier whose values can be encoded.\<close>

lemma inject_headers:
  assumes "\<forall>k v. map_of c' k = Some v \<longrightarrow> list_all scalar v"
  shows "\<exists>hs. rmap (\<lambda>k. rbind (encode_text (the (map_of c' k))) (\<lambda>bytes. Inr (k, bytes))) (filter (has_key c') ks) = Inr hs
    \<and> map fst hs = filter (has_key c') ks \<and> (\<forall>(k, b) \<in> set hs. map_of c' k = Some (decode_replace (map unat b)))"
proof (induction ks)
  case (Cons k ks)
  then obtain hs where hs: "rmap (\<lambda>k. rbind (encode_text (the (map_of c' k))) (\<lambda>bytes. Inr (k, bytes))) (filter (has_key c') ks) = Inr hs"
    "map fst hs = filter (has_key c') ks" "\<forall>(k, b) \<in> set hs. map_of c' k = Some (decode_replace (map unat b))"
    by blast
  show ?case
  proof (cases "has_key c' k")
    case False
    then show ?thesis using hs by simp
  next
    case True
    then obtain v where v: "map_of c' k = Some v" by (auto simp: has_key_def)
    then obtain b where b: "encode_text v = Inr b" "decode_replace (map unat b) = v"
      using utf8_roundtrip assms by blast
    then show ?thesis using hs True v by simp
  qed
qed simp

lemma extract_fold:
  assumes "fst ` set hs \<subseteq> {TRACEPARENT, TRACESTATE}" "\<forall>(k, b) \<in> set hs. f k = Some (decode_replace (map unat b))"
  shows "map_of (fold (\<lambda>(k, v) c. if k = TRACEPARENT \<or> k = TRACESTATE then dset c k (decode_replace (map unat v)) else c) hs c0) i =
    (if i \<in> fst ` set hs then f i else map_of c0 i)"
  using assms
  by (induction hs arbitrary: c0) (auto simp: dict_simps split: prod.splits)

lemma code_scalar: "scalar (code ch)"
  using nat_of_char_less_256 [of ch] unfolding scalar_def surrogate_def code_def by linarith

text \<open>What is logged for correlation: 32 lower-case hexadecimal digits with the value of the identifier.\<close>

lemma get_current_trace_id_digits:
  "get_current_trace_id current = Some s \<Longrightarrow>
     length s = 32 \<and> list_all lower_hex s \<and> (\<exists>sp ctx. current = Inr (Some sp) \<and> sv_context sp = Some ctx \<and>
       hex_value s = unat (tc_trace_id ctx))"
  by (auto simp: get_current_trace_id_def trace_id_facts split: sum.splits option.splits if_splits)

text \<open>A decorated function returns and raises what the function does.\<close>

lemma trace_span_transparent: "snd (trace_span ops span_name attributes err func_name func_module outcome) = outcome"
  by (simp add: trace_span_def Let_def split: sum.split)

text \<open>A second provider changes nothing: the first one initialised stays.\<close>

lemma init_tracer_provider_once:
  assumes "init_tracer_provider og env name endpoint rate custom st = Inr (st', p)"
  shows "init_tracer_provider og env' name' endpoint' rate' custom' st' = Inr (st', p)"
  using assms by (cases "ts_provider st"; cases "og_sampler og rate") (auto simp: init_tracer_provider_def Let_def)

text \<open>
  OpenTelemetry keeps the provider that was registered first. The scoring tracer then reports sampling
  rates that are not those of the provider it samples with.
\<close>

lemma scoring_rates_not_applied:
  assumes "og_set_global og = (\<lambda>p g. case g of None \<Rightarrow> Some p | Some q \<Rightarrow> Some q)" "sg_global st = Some q"
    and "scoring_init_tracer og True rate st = Inr st'"
  shows "map_of (sg_rates st') ''ALLOW'' = Some rate \<and> sg_global st' = Some q"
  using assms by (auto simp: scoring_init_tracer_def Let_def dict_simps split: option.splits)

section \<open>Properties\<close>

text \<open>C33: The trace context survives the Kafka headers. Whatever the carrier held, injecting the context of
  a sampled span and extracting from the resulting headers gives a traceparent of 55 characters from
  which both identifiers are read back exactly, and the tracestate unchanged.\<close>

theorem trace_context_roundtrip:
  assumes "tc_sampled ctx" "\<forall>k v. map_of c k = Some v \<longrightarrow> list_all scalar v"
  shows "\<exists>c' headers. inject_trace_context True ctx c = (c', Inr headers) \<and>
    (let got = extract_trace_context (Some headers); tp = traceparent ctx in
     map_of got TRACEPARENT = Some (map code tp) \<and> map_of got TRACESTATE = map_of c TRACESTATE \<and>
     length tp = 55 \<and> hex_value (take 32 (drop 3 tp)) = unat (tc_trace_id ctx) \<and>
     hex_value (take 16 (drop 36 tp)) = unat (tc_span_id ctx))"
proof -
  let ?tp = "traceparent ctx"
  let ?c = "dset c TRACEPARENT (map code ?tp)"
  have neq: "TRACESTATE \<noteq> TRACEPARENT" by (simp add: TRACESTATE_def TRACEPARENT_def)
  have "\<forall>k v. map_of ?c k = Some v \<longrightarrow> list_all scalar v"
    using assms(2) by (auto simp: dict_simps list_all_iff code_scalar split: if_splits)
  from inject_headers [of ?c, OF this, where ks = "[TRACEPARENT, TRACESTATE]"]
  obtain hs where hs: "rmap (\<lambda>k. rbind (encode_text (the (map_of ?c k))) (\<lambda>bytes. Inr (k, bytes)))
      (filter (has_key ?c) [TRACEPARENT, TRACESTATE]) = Inr hs"
    "map fst hs = filter (has_key ?c) [TRACEPARENT, TRACESTATE]"
    "\<forall>(k, b) \<in> set hs. map_of ?c k = Some (decode_replace (map unat b))" by blast
  have keys: "fst ` set hs = {k \<in> {TRACEPARENT, TRACESTATE}. has_key ?c k}"
    using arg_cong [OF hs(2), of set] by auto
  then have sub: "fst ` set hs \<subseteq> {TRACEPARENT, TRACESTATE}" by blast
  have "map_of (extract_trace_context (Some hs)) i = (if i \<in> fst ` set hs then map_of ?c i else None)" for i
    using extract_fold [OF sub hs(3), of "[]" i] by (simp add: extract_trace_context_def)
  then have "map_of (extract_trace_context (Some hs)) TRACEPARENT = Some (map code ?tp)"
    "map_of (extract_trace_context (Some hs)) TRACESTATE = map_of c TRACESTATE"
    using neq by (auto simp: keys has_key_def dict_simps)
  moreover have "inject_trace_context True ctx c = (?c, Inr hs)"
    using hs(1) assms(1) by (simp add: inject_trace_context_def Let_def)
  ultimately show ?thesis
    by (auto simp: Let_def traceparent_def trace_id_facts span_id_facts)
qed

lemma trace_context_roundtrip_witness:
  "\<exists>c' headers. inject_trace_context True \<lparr>tc_trace_id = 0xABC, tc_span_id = 7, tc_sampled = True, tc_valid = True\<rparr>
      [(TRACESTATE, [97, 0x20AC])] = (c', Inr headers) \<and>
    map_of (extract_trace_context (Some headers)) TRACESTATE = Some [97, 0x20AC]"
proof -
  have "\<forall>k v. map_of [(TRACESTATE, [97, 0x20AC])] k = Some v \<longrightarrow> list_all scalar v"
    by (auto simp: scalar_def surrogate_def split: if_splits)
  from trace_context_roundtrip [where c = "[(TRACESTATE, [97, 0x20AC])]"
      and ctx = "\<lparr>tc_trace_id = 0xABC, tc_span_id = 7, tc_sampled = True, tc_valid = True\<rparr>", OF _ this]
  show ?thesis by (auto simp: Let_def)
qed

end
