(* ===== verification/Management_App.thy ===== *)
theory Management_App
  imports Management Tracing
begin

text \<open>
  The service around the endpoints of Management (\<open>pipelines/scoring/management_api.py\<close>): what its import and
  its start do, the middleware a reply passes, the pattern of a rule id in a path, the structured log of a
  change of mode, and the routes with the checks before each. The first lemmas say what the start establishes;
  the theorem on the log says that the log tells every change of mode and nothing else.
\<close>

section \<open>Import and start\<close>

text \<open>The services initialise their tracer when the module is imported; the sample rate is read by \<open>float\<close>.\<close>

definition import_tracer :: "otel \<Rightarrow> environ \<Rightarrow> string \<Rightarrow> tracing_state \<Rightarrow> (tracing_state \<times> provider) result" where
  "import_tracer og env service st =
     rbind (py_float (PStr (env_get env ''OTEL_SAMPLE_RATE'' ''1.0'')))
       (\<lambda>rate. init_tracer_provider og env service None rate False st)"

definition management_tracer :: "otel \<Rightarrow> environ \<Rightarrow> tracing_state \<Rightarrow> (tracing_state \<times> provider) result" where
  "management_tracer og env = import_tracer og env ''fraudstream-scoring''"

definition processing_tracer :: "otel \<Rightarrow> environ \<Rightarrow> tracing_state \<Rightarrow> (tracing_state \<times> provider) result" where
  "processing_tracer og env = import_tracer og env ''fraudstream-processing''"

record app_state =
  am_config :: "scoring_config option"
  am_api :: api_state
  am_log :: "pydict list"

definition set_circuit_breaker :: "breaker_view option \<Rightarrow> app_state \<Rightarrow> app_state" where
  "set_circuit_breaker cb am = am\<lparr>am_api := (am_api am)\<lparr>ap_breaker := cb\<rparr>\<rparr>"

text \<open>An exception during the start is final: the server does not come up.\<close>

definition lifespan ::
  "pydantic \<Rightarrow> environ \<Rightarrow> (string \<Rightarrow> string result) \<Rightarrow> (string \<Rightarrow> pyval result) \<Rightarrow> app_state \<Rightarrow> app_state \<times> unit result" where
  "lifespan P env read_file safe_load am =
     (case ScoringConfig_init env of
        Inl e \<Rightarrow> (am, Inl e)
      | Inr c \<Rightarrow>
          (let (api, r) = load_rules_from_yaml P read_file safe_load (sc_rules_yaml_path c) (am_api am)
           in (am\<lparr>am_config := Some c, am_api := api\<rparr>, r)))"

section \<open>Replies\<close>

definition cors_origins :: "environ \<Rightarrow> string list" where
  "cors_origins env =
     filter (\<lambda>x. x \<noteq> []) (map strip (split_on (CHR '','') (env_get env ''MANAGEMENT_CORS_ORIGINS'' [])))"

record http_reply =
  hr_status :: int
  hr_headers :: "(string \<times> string) list"

text \<open>
  An \<open>HTTPException\<close> becomes a reply next to the endpoint; any other exception passes through the middleware
  to the outermost handler of Starlette, whose reply nothing decorates. The middleware of CORS is a
  parameter; it is installed, inside that of the headers, only when an origin is configured.
\<close>

definition endpoint_reply :: "http_reply result \<Rightarrow> http_reply result" where
  "endpoint_reply r =
     (case r of
        Inl e \<Rightarrow> (case exn_cls e of HTTPException n \<Rightarrow> Inr \<lparr>hr_status = n, hr_headers = []\<rparr> | _ \<Rightarrow> Inl e)
      | Inr x \<Rightarrow> Inr x)"

definition app_reply ::
  "environ \<Rightarrow> (string list \<Rightarrow> http_reply result \<Rightarrow> http_reply result) \<Rightarrow> http_reply result \<Rightarrow> http_reply" where
  "app_reply env cors r =
     (let inner = endpoint_reply r;
          outer = (if cors_origins env = [] then inner else cors (cors_origins env) inner)
      in case outer of
           Inl e \<Rightarrow> \<lparr>hr_status = 500, hr_headers = []\<rparr>
         | Inr x \<Rightarrow> x\<lparr>hr_headers := security_headers (hr_headers x)\<rparr>)"

section \<open>Changing a mode\<close>

text \<open>\<open>Path(pattern=...)\<close>: in Rust a dollar stands for the end of the text only, in Python also before a last newline.\<close>

definition path_rule_id :: "string \<Rightarrow> bool" where
  "path_rule_id s \<longleftrightarrow> rule_id_core s"

definition emit_structured_log :: "string option \<Rightarrow> string \<Rightarrow> string \<Rightarrow> string \<Rightarrow> string \<Rightarrow> string \<Rightarrow> pydict" where
  "emit_structured_log trace event rid previous new triggered_by =
     [(''event'', PStr event), (''rule_id'', PStr rid), (''previous_mode'', PStr previous), (''new_mode'', PStr new),
      (''triggered_by'', PStr triggered_by),
      (''trace_id'', PStr (case trace of Some (c # cs) \<Rightarrow> c # cs | _ \<Rightarrow> ''none''))]"

text \<open>What a call brings: the mode asked for, the key, the verdict of the limiter, the trace, how the write ends.\<close>

record mode_call =
  mc_new :: rule_mode
  mc_rule_id :: string
  mc_key :: "string option"
  mc_limited :: bool
  mc_trace :: "string option"
  mc_outcome :: write_outcome

definition mode_endpoint ::
  "string option \<Rightarrow> (pydict \<Rightarrow> pydict result) \<Rightarrow> (pyval \<Rightarrow> string) \<Rightarrow> mode_call \<Rightarrow> app_state \<Rightarrow> app_state \<times> mode_response result" where
  "mode_endpoint expected jc yaml_dump c am =
     (case guarded expected (mc_key c) (path_rule_id (mc_rule_id c)) (mc_limited c)
        (change_mode (mc_new c) jc yaml_dump (mc_outcome c) (mc_rule_id c)) (am_api am) of
        (api, Inl e) \<Rightarrow> (am\<lparr>am_api := api\<rparr>, Inl e)
      | (api, Inr resp) \<Rightarrow>
          (am\<lparr>am_api := api,
              am_log := am_log am @ [emit_structured_log (mc_trace c) ''rule_mode_change'' (mc_rule_id c)
                (mr_previous_mode resp) (mr_new_mode resp) ''api'']\<rparr>, Inr resp))"

definition serve_calls ::
  "string option \<Rightarrow> (pydict \<Rightarrow> pydict result) \<Rightarrow> (pyval \<Rightarrow> string) \<Rightarrow> mode_call list \<Rightarrow> app_state \<Rightarrow> app_state" where
  "serve_calls expected jc yaml_dump calls am = fold (\<lambda>c am. fst (mode_endpoint expected jc yaml_dump c am)) calls am"

section \<open>The routes\<close>

text \<open>
  What a request asks for. FastAPI reads the body of \<open>POST /replay/jobs\<close> before it runs the dependencies: a text
  that is not JSON is refused with 422, one that cannot be read with 400. Only then come the key, the check
  of the parameters and of the parsed body (None: refused) and the limiter. Paths that the service does not
  declare, among them the documentation pages of FastAPI itself, reach none of this.
\<close>

datatype job_body = Not_json | Unreadable | Parsed "create_request option"

datatype route =
    Demote string | Promote string | Breaker_state | Healthz | Create_job job_body | Get_job string
  | Get_results string "(int \<times> int) option" | Cancel_job string

datatype reply_body =
    Mode_reply mode_response | Breaker_reply breaker_response | Health_reply pydict | Job_reply pydict
  | Results_reply nat "pydict list"

record service_env =
  sv_key :: "string option"
  sv_json_conditions :: "pydict \<Rightarrow> pydict result"
  sv_yaml_dump :: "pyval \<Rightarrow> string"
  sv_isoformat :: "int \<Rightarrow> string"
  sv_iso_of_timestamp :: "pyfloat \<Rightarrow> string result"
  sv_validate_item :: "pydict \<Rightarrow> pydict result"

record http_call =
  hc_key :: "string option"
  hc_limited :: bool
  hc_trace :: "string option"
  hc_outcome :: write_outcome
  hc_now :: int
  hc_uuid :: string

text \<open>An endpoint behind the key, and one that only reads.\<close>

definition keyed ::
  "service_env \<Rightarrow> http_call \<Rightarrow> bool \<Rightarrow> (api_state \<Rightarrow> api_state \<times> 'a result) \<Rightarrow> ('a \<Rightarrow> reply_body) \<Rightarrow> app_state \<Rightarrow>
   app_state \<times> reply_body result" where
  "keyed env call valid endpoint reply am =
     (case guarded (sv_key env) (hc_key call) valid (hc_limited call) endpoint (am_api am) of
        (api, r) \<Rightarrow> (am\<lparr>am_api := api\<rparr>, rbind r (\<lambda>x. Inr (reply x))))"

definition reading :: "(api_state \<Rightarrow> 'a result) \<Rightarrow> api_state \<Rightarrow> api_state \<times> 'a result" where
  "reading f st = (st, f st)"

definition change_route :: "service_env \<Rightarrow> http_call \<Rightarrow> rule_mode \<Rightarrow> string \<Rightarrow> app_state \<Rightarrow> app_state \<times> reply_body result" where
  "change_route env call new rid am =
     (case mode_endpoint (sv_key env) (sv_json_conditions env) (sv_yaml_dump env)
        \<lparr>mc_new = new, mc_rule_id = rid, mc_key = hc_key call, mc_limited = hc_limited call, mc_trace = hc_trace call,
         mc_outcome = hc_outcome call\<rparr> am of
        (am', r) \<Rightarrow> (am', rbind r (\<lambda>x. Inr (Mode_reply x))))"

fun handle :: "service_env \<Rightarrow> http_call \<Rightarrow> route \<Rightarrow> app_state \<Rightarrow> app_state \<times> reply_body result" where
  "handle env call (Demote rid) am = change_route env call Shadow rid am"
| "handle env call (Promote rid) am = change_route env call Active rid am"
| "handle env call Breaker_state am =
     keyed env call True (reading (get_circuit_breaker_state (sv_isoformat env) (sv_iso_of_timestamp env) (hc_now call)))
       Breaker_reply am"
| "handle env call Healthz am = (am, Inr (Health_reply healthz))"
| "handle env call (Create_job Not_json) am = (am, raise_exn (HTTPException 422) ''JSON decode error'')"
| "handle env call (Create_job Unreadable) am = (am, raise_exn (HTTPException 400) ''There was an error parsing the body'')"
| "handle env call (Create_job (Parsed None)) am =
     keyed env call False (reading (\<lambda>st. raise_exn (HTTPException 422) ''validation error'')) Job_reply am"
| "handle env call (Create_job (Parsed (Some body))) am =
     keyed env call True (create_replay_job (sv_isoformat env) (hc_now call) (hc_uuid call) body) Job_reply am"
| "handle env call (Get_job jid) am = keyed env call True (reading (get_replay_job (sv_isoformat env) jid)) Job_reply am"
| "handle env call (Get_results jid None) am =
     keyed env call False (reading (\<lambda>st. raise_exn (HTTPException 422) ''validation error'')) Job_reply am"
| "handle env call (Get_results jid (Some (limit, offset))) am =
     keyed env call True (reading (get_replay_results (sv_isoformat env) (sv_validate_item env) jid limit offset))
       (\<lambda>(total, items). Results_reply total items) am"
| "handle env call (Cancel_job jid) am = keyed env call True (cancel_replay_job (sv_isoformat env) jid) Job_reply am"

section \<open>What the start establishes\<close>

lemma load_items_keys:
  "load_items P items d = (d', r) \<Longrightarrow> distinct (map fst d) \<Longrightarrow> list_all (\<lambda>(k, r). k = rule_id r) d \<Longrightarrow>
   distinct (map fst d') \<and> list_all (\<lambda>(k, r). k = rule_id r) d'"
proof (induction items arbitrary: d)
  case (Cons item items)
  show ?case
  proof (cases "model_validate P item")
    case (Inr rule)
    have "list_all (\<lambda>(k, r). k = rule_id r) (dset d (rule_id rule) rule)"
      using Cons.prems(3) by (auto simp: list_all_iff dest!: set_dset)
    then show ?thesis using Cons.IH [of "dset d (rule_id rule) rule"] Cons.prems Inr by (simp add: distinct_dset)
  qed (use Cons.prems in simp)
qed simp

text \<open>The rules of a started service stand under their own identifiers, each once.\<close>

lemma lifespan_keys:
  assumes "lifespan P env read_file safe_load am = (am', Inr ())"
  shows "distinct (map fst (ap_rules (am_api am')))" "list_all (\<lambda>(k, r). k = rule_id r) (ap_rules (am_api am'))"
    "am_log am' = am_log am"
proof -
  obtain c api where c: "load_rules_from_yaml P read_file safe_load (sc_rules_yaml_path c) (am_api am) = (api, Inr ())"
    "am' = am\<lparr>am_config := Some c, am_api := api\<rparr>"
    using assms by (auto simp: lifespan_def split: sum.splits prod.splits)
  then obtain items where "load_items P items [] = (ap_rules api, Inr ())"
    by (auto simp: load_rules_from_yaml_def raise_exn_def split: sum.splits pyval.splits prod.splits if_splits)
  from load_items_keys [OF this] c(2)
  show "distinct (map fst (ap_rules (am_api am')))" "list_all (\<lambda>(k, r). k = rule_id r) (ap_rules (am_api am'))"
    "am_log am' = am_log am" by simp_all
qed

lemma validated_rule_id: "model_validate P item = Inr rule \<Longrightarrow> rule_id_match (rule_id rule)"
  by (auto simp: model_validate_def validate_rule_id_def result_simps split: pyval.splits if_splits sum.splits)

lemma load_items_ids:
  "load_items P items d = (d', r) \<Longrightarrow> list_all (\<lambda>(k, r). rule_id_match (rule_id r)) d \<Longrightarrow>
   list_all (\<lambda>(k, r). rule_id_match (rule_id r)) d'"
proof (induction items arbitrary: d)
  case (Cons item items)
  show ?case
  proof (cases "model_validate P item")
    case (Inr rule)
    then have "list_all (\<lambda>(k, r). rule_id_match (rule_id r)) (dset d (rule_id rule) rule)"
      using Cons.prems(2) validated_rule_id by (auto simp: list_all_iff dest!: set_dset)
    then show ?thesis using Cons.IH [of "dset d (rule_id rule) rule"] Cons.prems Inr by simp
  qed (use Cons.prems in simp)
qed simp

lemma lifespan_ids:
  assumes "lifespan P env read_file safe_load am = (am', Inr ())"
  shows "list_all (\<lambda>(k, r). rule_id_match (rule_id r)) (ap_rules (am_api am'))"
proof -
  obtain c api where c: "load_rules_from_yaml P read_file safe_load (sc_rules_yaml_path c) (am_api am) = (api, Inr ())"
    "am' = am\<lparr>am_config := Some c, am_api := api\<rparr>"
    using assms(1) by (auto simp: lifespan_def split: sum.splits prod.splits)
  then obtain items where "load_items P items [] = (ap_rules api, Inr ())"
    by (auto simp: load_rules_from_yaml_def raise_exn_def split: sum.splits pyval.splits prod.splits if_splits)
  then show ?thesis using load_items_ids c(2) by fastforce
qed

section \<open>The log\<close>

text \<open>The modes of the rules, and what a reader of the log makes of an entry.\<close>

definition modes_of :: "app_state \<Rightarrow> pydict" where
  "modes_of am = map (\<lambda>(k, r). (k, PStr (mode_value (mode r)))) (ap_rules (am_api am))"

definition read_entry :: "pydict \<Rightarrow> pydict \<Rightarrow> pydict" where
  "read_entry e ms = map (\<lambda>(k, m). (k, if dget e ''rule_id'' = PStr k then dget e ''new_mode'' else m)) ms"

definition entry_fits :: "pydict \<Rightarrow> pydict \<Rightarrow> bool" where
  "entry_fits e ms \<longleftrightarrow>
     list_ex (\<lambda>(k, m). dget e ''rule_id'' = PStr k) ms \<and>
     list_all (\<lambda>(k, m). dget e ''rule_id'' = PStr k \<longrightarrow> dget e ''previous_mode'' = m \<and> dget e ''new_mode'' \<noteq> m) ms"

fun log_fits :: "pydict list \<Rightarrow> pydict \<Rightarrow> bool" where
  "log_fits [] ms = True"
| "log_fits (e # es) ms = (entry_fits e ms \<and> log_fits es (read_entry e ms))"

lemma log_fits_append: "log_fits (es @ es') ms \<longleftrightarrow> log_fits es ms \<and> log_fits es' (fold read_entry es ms)"
  by (induction es arbitrary: ms) auto

lemma log_entry_fields [simp]:
  "dget (emit_structured_log t ev rid prev new by_whom) ''rule_id'' = PStr rid"
  "dget (emit_structured_log t ev rid prev new by_whom) ''previous_mode'' = PStr prev"
  "dget (emit_structured_log t ev rid prev new by_whom) ''new_mode'' = PStr new"
  by (simp_all add: emit_structured_log_def dget_def)

lemma mode_value_inject [simp]: "mode_value m = mode_value m' \<longleftrightarrow> m = m'"
  by (cases m; cases m') simp_all

text \<open>One call leaves rules and log alone, or changes one mode and adds the entry that says so.\<close>

lemma mode_endpoint_cases:
  assumes "mode_endpoint expected jc yd c am = (am', r)" "distinct (map fst (ap_rules (am_api am)))"
    and "dumpable jc (am_api am)"
  obtains (kept) e where "r = Inl e" "ap_rules (am_api am') = ap_rules (am_api am)" "am_log am' = am_log am"
  | (changed) e resp where "r = Inr resp" "am_log am' = am_log am @ [e]" "modes_of am' = read_entry e (modes_of am)"
      "entry_fits e (modes_of am)" "map fst (ap_rules (am_api am')) = map fst (ap_rules (am_api am))"
proof -
  let ?run = "change_mode (mc_new c) jc yd (mc_outcome c) (mc_rule_id c) (am_api am)"
  obtain api q where g: "guarded expected (mc_key c) (path_rule_id (mc_rule_id c)) (mc_limited c)
      (change_mode (mc_new c) jc yd (mc_outcome c) (mc_rule_id c)) (am_api am) = (api, q)" by force
  then have cases: "api = am_api am \<and> (\<exists>e. q = Inl e) \<or> ?run = (api, q)"
    by (auto simp: guarded_def raise_exn_def split: sum.splits if_splits)
  show thesis
  proof (cases q)
    case (Inl e)
    have "?run = (api, Inl e) \<Longrightarrow> ap_rules api = ap_rules (am_api am)"
      by (rule change_mode_rollback [OF assms(2,3)])
    then have "ap_rules api = ap_rules (am_api am)" using cases Inl by blast
    then show ?thesis using kept [of e] assms(1) g Inl by (auto simp: mode_endpoint_def)
  next
    case (Inr resp)
    then have "?run = (api, Inr resp)" using cases by auto
    from change_mode_ok [OF this] obtain rule docs where ok: "map_of (ap_rules (am_api am)) (mc_rule_id c) = Some rule"
      "mode rule \<noteq> mc_new c" "api = (set_rule_mode (mc_rule_id c) (mc_new c) (am_api am))\<lparr>ap_file := yd (PList docs)\<rparr>"
      "mr_previous_mode resp = mode_value (mode rule)" "mr_new_mode resp = mode_value (mc_new c)"
      by auto
    let ?e = "emit_structured_log (mc_trace c) ''rule_mode_change'' (mc_rule_id c) (mode_value (mode rule))
      (mode_value (mc_new c)) ''api''"
    have am': "am' = am\<lparr>am_api := api, am_log := am_log am @ [?e]\<rparr>" "r = Inr resp"
      using assms(1) g Inr ok(4,5) by (simp_all add: mode_endpoint_def)
    have rule: "(mc_rule_id c, r0) \<in> set (ap_rules (am_api am)) \<Longrightarrow> r0 = rule" for r0
      using assms(2) ok(1) by (metis map_of_is_SomeI option.inject)
    have "modes_of am' = read_entry ?e (modes_of am)"
      by (auto simp: am'(1) ok(3) modes_of_def read_entry_def set_rule_mode_def)
    moreover have "list_all (\<lambda>(k, m). mc_rule_id c = k \<longrightarrow> PStr (mode_value (mode rule)) = m \<and> PStr (mode_value (mc_new c)) \<noteq> m) (modes_of am)"
      using ok(2) by (auto simp: modes_of_def list_all_iff dest!: rule)
    moreover have "list_ex (\<lambda>(k, m). mc_rule_id c = k) (modes_of am)"
      using map_of_SomeD [OF ok(1)] by (force simp: modes_of_def list_ex_iff)
    ultimately have "modes_of am' = read_entry ?e (modes_of am)" "entry_fits ?e (modes_of am)"
      by (simp_all add: entry_fits_def)
    moreover have "map fst (ap_rules (am_api am')) = map fst (ap_rules (am_api am))"
      by (simp add: am'(1) ok(3) set_rule_mode_keys)
    ultimately show ?thesis using changed [of resp ?e] am' by simp
  qed
qed

text \<open>No step touches the key, the identity or the conditions of a rule, only the modes.\<close>

definition same_rules :: "(string \<times> rule_definition) list \<Rightarrow> (string \<times> rule_definition) list \<Rightarrow> bool" where
  "same_rules = list_all2 (\<lambda>(k, r) (k0, r0). k = k0 \<and> r\<lparr>mode := mode r0\<rparr> = r0)"

lemma same_rules_refl: "same_rules d d"
  by (simp add: same_rules_def list_all2_conv_all_nth split_def)

lemma same_rules_set_mode: "same_rules (ap_rules st) d \<Longrightarrow> same_rules (ap_rules (set_rule_mode rid m st)) d"
  by (auto simp: same_rules_def set_rule_mode_def list_all2_conv_all_nth split_def)

lemma same_rules_change:
  assumes "same_rules (ap_rules st) d" "change_mode new jc yd out rid st = (st', r)"
  shows "same_rules (ap_rules st') d"
proof -
  have w: "same_rules (ap_rules st1) d" if "write_rules_to_yaml jc yd out (set_rule_mode i m st) = (st1, q)" for i m st1 q
    using write_rules_to_yaml_rules [of jc yd out "set_rule_mode i m st"] that same_rules_set_mode [OF assms(1)] by simp
  show ?thesis
    using assms w
    by (auto simp: change_mode_def raise_exn_def same_rules_set_mode split: option.splits if_splits sum.splits prod.splits)
qed

lemma same_rules_step: "api_step st st' \<Longrightarrow> same_rules (ap_rules st) d \<Longrightarrow> same_rules (ap_rules st') d"
proof (erule api_stepE)
  fix jc yd out rid r
  assume "same_rules (ap_rules st) d" "demote_rule jc yd out rid st = (st', r)"
  then show "same_rules (ap_rules st') d" unfolding demote_rule_def by (rule same_rules_change)
next
  fix jc yd out rid r
  assume "same_rules (ap_rules st) d" "promote_rule jc yd out rid st = (st', r)"
  then show "same_rules (ap_rules st') d" unfolding promote_rule_def by (rule same_rules_change)
qed (auto simp: create_replay_job_def run_job_task_def cancel_replay_job_def raise_exn_def Let_def
    split: sum.splits if_splits option.splits)

lemma same_rules_keys: "same_rules d d0 \<Longrightarrow> map fst d = map fst d0"
  by (auto simp: same_rules_def list_all2_conv_all_nth split_def intro!: nth_equalityI)

lemma same_rules_all:
  assumes "same_rules d d0" "list_all P d0" "\<And>k r r0. r\<lparr>mode := mode r0\<rparr> = r0 \<Longrightarrow> P (k, r0) \<Longrightarrow> P (k, r)"
  shows "list_all P d"
  using assms(1,2) unfolding same_rules_def
  by (induction d d0 rule: list_all2_induct) (auto intro: assms(3))

lemma same_rules_dumpable:
  assumes "same_rules (ap_rules st) (ap_rules st0)" "dumpable jc st0"
  shows "dumpable jc st"
  unfolding dumpable_def
  by (rule same_rules_all [OF assms(1) assms(2) [unfolded dumpable_def]]) (auto dest: arg_cong [of _ _ conditions])

lemma same_rules_endpoint: "same_rules (ap_rules (am_api am)) d \<Longrightarrow> same_rules (ap_rules (am_api (fst (mode_endpoint expected jc yd c am)))) d"
  using same_rules_change [of "am_api am" d]
  by (auto simp: mode_endpoint_def guarded_def raise_exn_def split: sum.splits prod.splits if_splits)

lemma same_rules_calls: "same_rules (ap_rules (am_api am)) d \<Longrightarrow> same_rules (ap_rules (am_api (serve_calls expected jc yd calls am))) d"
  by (induction calls arbitrary: am) (simp_all add: serve_calls_def same_rules_endpoint)

lemma serve_calls_log:
  assumes "dumpable jc (am_api am)" "distinct (map fst (ap_rules (am_api am)))"
  shows "\<exists>es. am_log (serve_calls expected jc yd calls am) = am_log am @ es \<and> log_fits es (modes_of am) \<and>
    modes_of (serve_calls expected jc yd calls am) = fold read_entry es (modes_of am)"
  using assms
proof (induction calls arbitrary: am)
  case Nil
  then show ?case by (simp add: serve_calls_def)
next
  case (Cons c calls)
  obtain am1 r where e: "mode_endpoint expected jc yd c am = (am1, r)" by force
  then have step: "serve_calls expected jc yd (c # calls) am = serve_calls expected jc yd calls am1"
    by (simp add: serve_calls_def)
  have d: "dumpable jc (am_api am1)"
    using same_rules_dumpable [OF same_rules_endpoint [OF same_rules_refl] Cons.prems(1)] e by (metis fst_conv)
  from e Cons.prems(2,1) show ?case
  proof (cases rule: mode_endpoint_cases)
    case kept
    then have "modes_of am1 = modes_of am" by (simp add: modes_of_def)
    then show ?thesis using Cons.IH [OF d] Cons.prems kept step by simp
  next
    case (changed en resp)
    then obtain es where "am_log (serve_calls expected jc yd calls am1) = am_log am1 @ es" "log_fits es (modes_of am1)"
      "modes_of (serve_calls expected jc yd calls am1) = fold read_entry es (modes_of am1)"
      using Cons.IH [OF d] Cons.prems by auto
    then show ?thesis using changed step by (intro exI [of _ "en # es"]) simp
  qed
qed

section \<open>Properties\<close>


text \<open>C23: The log of the mode changes is a complete history of memory. Once the service has started with rules
  whose conditions have a JSON form, the entries that any sequence of demotions and promotions leaves behind,
  read in order from the modes at the start, give the modes in memory; each entry names a rule, the mode it
  had and another one. A call that is answered with success adds one entry; one that is refused or whose
  write fails adds none and leaves the rules in memory as they were (the rules file may change even then).\<close>

theorem mode_log_complete:
  assumes "lifespan P env read_file safe_load am0 = (am, Inr ())" "am_log am0 = []"
    and "dumpable jc (am_api am)"
  shows "log_fits (am_log (serve_calls expected jc yd calls am)) (modes_of am) \<and>
    modes_of (serve_calls expected jc yd calls am) = fold read_entry (am_log (serve_calls expected jc yd calls am)) (modes_of am) \<and>
    (case mode_endpoint expected jc yd c (serve_calls expected jc yd calls am) of
       (am', Inr resp) \<Rightarrow> length (am_log am') = Suc (length (am_log (serve_calls expected jc yd calls am)))
     | (am', Inl e) \<Rightarrow> am_log am' = am_log (serve_calls expected jc yd calls am) \<and>
         ap_rules (am_api am') = ap_rules (am_api (serve_calls expected jc yd calls am)))"
proof -
  let ?am = "serve_calls expected jc yd calls am"
  have same: "same_rules (ap_rules (am_api ?am)) (ap_rules (am_api am))" by (rule same_rules_calls [OF same_rules_refl])
  have d: "distinct (map fst (ap_rules (am_api ?am)))"
    using same_rules_keys [OF same] lifespan_keys(1) [OF assms(1)] by simp
  obtain am' r where e: "mode_endpoint expected jc yd c ?am = (am', r)" by force
  have "case (am', r) of (am', Inr resp) \<Rightarrow> length (am_log am') = Suc (length (am_log ?am))
     | (am', Inl e) \<Rightarrow> am_log am' = am_log ?am \<and> ap_rules (am_api am') = ap_rules (am_api ?am)"
    using e d same_rules_dumpable [OF same assms(3)] by (cases rule: mode_endpoint_cases) simp_all
  then show ?thesis
    using serve_calls_log [OF assms(3) lifespan_keys(1) [OF assms(1)], of expected yd calls] lifespan_keys(3) [OF assms(1)]
      assms(2) e by auto
qed

lemma keyed_without_key:
  assumes "sv_key env = Some (c # cs)" "hc_key call \<noteq> sv_key env"
  shows "\<exists>e. keyed env call valid endpoint reply am = (am, Inl e) \<and> exn_cls e = key_error (c # cs) (hc_key call)"
  using guarded_without_key [OF assms, of valid "hc_limited call" endpoint "am_api am"] by (auto simp: keyed_def)

text \<open>C27: With an API key configured, a request without that key changes nothing, on every route the service
  declares except GET /healthz, and is answered with an error: 401, or the server's 500 where the
  presented key has a character outside ASCII, which the comparison refuses with a TypeError; this
  before its parameters and the rate limit are looked at. Only the body of POST /replay/jobs is parsed
  earlier: one that is not JSON gives 422 and one that cannot be read 400 whatever the key.\<close>

theorem api_key_enforced:
  assumes "sv_key env = Some (c # cs)" "hc_key call \<noteq> sv_key env" "route \<noteq> Healthz"
  shows "\<exists>e. handle env call route am = (am, Inl e) \<and> exn_cls e =
    (if route = Create_job Not_json then HTTPException 422
     else if route = Create_job Unreadable then HTTPException 400
     else case hc_key call of
       None \<Rightarrow> HTTPException 401
     | Some k \<Rightarrow> if ascii k \<and> ascii (c # cs) then HTTPException 401 else TypeError)"
proof -
  note keyed = keyed_without_key [OF assms(1,2)]
  have mode: "\<exists>e. change_route env call m rid am = (am, Inl e) \<and> exn_cls e = key_error (c # cs) (hc_key call)" for m rid
    using guarded_without_key [OF assms(1,2), of "path_rule_id rid" "hc_limited call"
        "change_mode m (sv_json_conditions env) (sv_yaml_dump env) (hc_outcome call) rid" "am_api am"]
    by (auto simp: change_route_def mode_endpoint_def)
  have "\<exists>e. handle env call route am = (am, Inl e) \<and> exn_cls e =
    (if route = Create_job Not_json then HTTPException 422
     else if route = Create_job Unreadable then HTTPException 400 else key_error (c # cs) (hc_key call))"
  proof (cases route)
    case (Create_job body)
    then show ?thesis
    proof (cases body)
      case (Parsed q)
      then show ?thesis using Create_job by (cases q) (simp_all add: keyed)
    qed (simp_all add: raise_exn_def)
  next
    case (Get_results jid page)
    then show ?thesis by (cases page) (auto simp: keyed)
  qed (simp_all add: keyed mode assms(3))
  then show ?thesis unfolding key_error_def .
qed

definition blank_app :: app_state where
  "blank_app = \<lparr>am_config = None, am_api = sample_api\<lparr>ap_rules := []\<rparr>, am_log = []\<rparr>"

definition demotion :: mode_call where
  "demotion = \<lparr>mc_new = Shadow, mc_rule_id = ''VEL-001'', mc_key = None, mc_limited = False, mc_trace = None, mc_outcome = Written\<rparr>"


lemma mode_log_complete_witness:
  "\<exists>am. lifespan pydantic_exact (\<lambda>_. None) (\<lambda>_. Inr []) (\<lambda>_. Inr (PList (canon_list sample_docs))) blank_app = (am, Inr ()) \<and>
     log_fits (am_log (serve_calls None Inr (\<lambda>_. []) [demotion, demotion] am)) (modes_of am)"
proof -
  let ?start = "lifespan pydantic_exact (\<lambda>_. None) (\<lambda>_. Inr []) (\<lambda>_. Inr (PList (canon_list sample_docs))) blank_app"
  have "case snd ?start of Inl e \<Rightarrow> False | Inr u \<Rightarrow> True" by code_simp
  then obtain am where "?start = (am, Inr ())" by (cases ?start) (auto split: sum.splits)
  with mode_log_complete [OF this, of Inr None "\<lambda>_. []" "[demotion, demotion]"] show ?thesis
    by (auto simp: blank_app_def dumpable_def list_all_iff)
qed

definition sample_service :: service_env where
  "sample_service =
     \<lparr>sv_key = Some ''secret'', sv_json_conditions = Inr, sv_yaml_dump = (\<lambda>_. []), sv_isoformat = (\<lambda>_. []),
      sv_iso_of_timestamp = (\<lambda>_. Inr []), sv_validate_item = Inr\<rparr>"

definition keyless_call :: http_call where
  "keyless_call = \<lparr>hc_key = None, hc_limited = False, hc_trace = None, hc_outcome = Written, hc_now = 5, hc_uuid = ''j1''\<rparr>"

lemma api_key_enforced_witness:
  "\<exists>e. handle sample_service keyless_call (Demote ''VEL-001'') blank_app = (blank_app, Inl e) \<and> exn_cls e = HTTPException 401"
  using api_key_enforced [of sample_service "CHR ''s''" "''ecret''" keyless_call "Demote ''VEL-001''" blank_app]
  by (simp add: sample_service_def keyless_call_def)

text \<open>Conditions that cannot be dumped: the exception is none of those the endpoint rolls back on, so the rule
  keeps the new mode in memory, without a log entry and without a word in the file.\<close>

lemma failed_dump_keeps_new_mode:
  assumes "map_of (ap_rules (am_api am)) (mc_rule_id c) = Some rule" "mode rule \<noteq> mc_new c" "path_rule_id (mc_rule_id c)"
    and "\<not> mc_limited c" "require_api_key expected (mc_key c) = Inr ()"
    and "\<And>cond. jc cond = Inl e" "\<not> isinstance e OSError"
  shows "fst (mode_endpoint expected jc yd c am) = am\<lparr>am_api := set_rule_mode (mc_rule_id c) (mc_new c) (am_api am)\<rparr>"
proof -
  have "\<exists>r rs. map snd (ap_rules (set_rule_mode i m (am_api am))) = r # rs" for i m
    using assms(1) by (cases "ap_rules (am_api am)") (auto simp: set_rule_mode_def)
  then have "rmap (dump_rule jc) (map snd (ap_rules (set_rule_mode i m (am_api am)))) = Inl e" for i m
    by (metis (no_types, lifting) assms(6) dump_rule_def rbind_simps(1) rmap.simps(2))
  then show ?thesis
    using assms by (simp add: mode_endpoint_def guarded_def change_mode_def write_rules_to_yaml_def)
qed

text \<open>A rule whose identifier ends with a newline is loaded, but no path names it: its mode is fixed.\<close>

lemma path_names_rule: "rule_id_match s \<Longrightarrow> path_rule_id s \<longleftrightarrow> last s \<noteq> char_of (10::nat)"
proof -
  assume m: "rule_id_match s"
  have "\<not> alnum_ascii (char_of (10::nat))" by code_simp
  then have "rule_id_core t \<Longrightarrow> last t \<noteq> char_of (10::nat)" for t by (auto simp: rule_id_core_def)
  with m show ?thesis by (auto simp: path_rule_id_def rule_id_match_def)
qed

lemma newline_rule_keeps_mode:
  assumes "last (mc_rule_id c) = char_of (10::nat)"
  shows "ap_rules (am_api (fst (mode_endpoint expected jc yd c am))) = ap_rules (am_api am)"
proof -
  have "\<not> path_rule_id (mc_rule_id c)"
    using assms path_names_rule [of "mc_rule_id c"] by (auto simp: path_rule_id_def rule_id_match_def)
  then show ?thesis
    by (simp add: mode_endpoint_def guarded_def raise_exn_def split: sum.split)
qed

text \<open>The headers are on every reply but that to an unexpected exception.\<close>

lemma reply_headers:
  "r = Inr x \<Longrightarrow> cors_origins env = [] \<Longrightarrow> hr_headers (app_reply env cors r) = security_headers (hr_headers x)"
  "r = Inl (Exn (HTTPException n) m) \<Longrightarrow> cors_origins env = [] \<Longrightarrow>
     app_reply env cors r = \<lparr>hr_status = n, hr_headers = security_headers []\<rparr>"
  by (simp_all add: app_reply_def endpoint_reply_def)

lemma foreign_key_reply_bare:
  assumes "cors_origins env = []" "\<not> ascii key"
  shows "app_reply env cors (rbind (snd (guarded (Some (c # cs)) (Some key) valid limited endpoint st)) ok) = \<lparr>hr_status = 500, hr_headers = []\<rparr>"
  using assms by (simp add: guarded_def require_api_key_def compare_digest_def raise_exn_def app_reply_def endpoint_reply_def)

end
