(* ===== verification/Ml_Client.thy ===== *)
theory Ml_Client
  imports Config Pyval
begin

text \<open>
  \<open>pipelines/scoring/ml_client.py\<close>, \<open>scoring/circuit_breaker.py\<close> and \<open>shared/circuit_breaker.py\<close>: the
  client of the ML model, the listeners that turn the events of the third-party circuit breaker into
  gauges and timestamps, and the scoring call with its timeout and its fallback. What the breaker
  does with one call is an argument; what the code adds around it is modelled: one worker thread,
  which a call occupies until it returns, however long the caller waited for it.
\<close>

section \<open>The client\<close>

record ml_score =
  fraud_probability :: rat
  model_version :: string
  latency_ms :: rat

record stub_client =
  stub_score :: rat
  fail_on_call :: bool

definition StubMLModelClient_score :: "stub_client \<Rightarrow> pydict \<Rightarrow> ml_score result" where
  "StubMLModelClient_score c features =
     (if fail_on_call c then raise_exn MLClientError ''StubMLModelClient configured to fail''
      else Inr \<lparr>fraud_probability = stub_score c, model_version = ''stub-v1'', latency_ms = 1/2\<rparr>)"

section \<open>The listeners\<close>

text \<open>A state reaches a listener as its name or as an object, whose text is given here.\<close>

datatype cb_state = Name string | State_object string

definition is_name :: "cb_state \<Rightarrow> string \<Rightarrow> bool" where
  "is_name s n \<longleftrightarrow> s = Name n"

fun str_of_state :: "cb_state \<Rightarrow> string" where
  "str_of_state (Name n) = n"
| "str_of_state (State_object t) = t"

definition gauge_states :: "string list" where
  "gauge_states = [''closed'', ''open'', ''half_open'']"

record listener =
  li_gauge :: "(string \<times> nat) list"
  li_opened_at :: "int option"
  li_last_failure_time :: "int option"
  li_open_calls :: nat

definition listener_init :: listener where
  "listener_init = \<lparr>li_gauge = map (\<lambda>s. (s, 0)) gauge_states, li_opened_at = None, li_last_failure_time = None, li_open_calls = 0\<rparr>"

definition set_gauges :: "(string \<Rightarrow> bool) \<Rightarrow> (string \<times> nat) list \<Rightarrow> (string \<times> nat) list" where
  "set_gauges is_new g = fold (\<lambda>s g. dset g s (if is_new s then 1 else 0)) gauge_states g"

definition state_change :: "int \<Rightarrow> cb_state \<Rightarrow> cb_state \<Rightarrow> listener \<Rightarrow> listener" where
  "state_change now old new l =
     (let l1 = l\<lparr>li_gauge := set_gauges (is_name new) (li_gauge l)\<rparr>
      in if is_name new ''open'' \<and> old \<noteq> new then l1\<lparr>li_opened_at := Some now\<rparr> else l1)"

definition cb_failure :: "int \<Rightarrow> listener \<Rightarrow> listener" where
  "cb_failure now l = l\<lparr>li_last_failure_time := Some now\<rparr>"

definition before_call :: "string \<Rightarrow> listener \<Rightarrow> listener" where
  "before_call current_state l = (if current_state = ''open'' then l\<lparr>li_open_calls := Suc (li_open_calls l)\<rparr> else l)"

record iceberg_listener =
  il_gauge :: "(string \<times> nat) list"
  il_open_total :: nat

definition iceberg_state_change :: "cb_state \<Rightarrow> iceberg_listener \<Rightarrow> iceberg_listener" where
  "iceberg_state_change new l =
     (let l1 = l\<lparr>il_gauge := set_gauges (\<lambda>s. str_of_state new = s) (il_gauge l)\<rparr>
      in if str_of_state new = ''open'' then l1\<lparr>il_open_total := Suc (il_open_total l1)\<rparr> else l1)"

text \<open>How the breakers are set up: the thresholds of the configuration, the listener, and for the ML client a pool
  of one worker. \<open>IcebergCircuitBreaker.call\<close> and \<open>fail_max\<close> hand on to the third-party breaker.\<close>

record breaker_setup =
  bs_fail_max :: int
  bs_reset_timeout :: pyfloat
  bs_workers :: nat

definition MLCircuitBreaker_init :: "scoring_config \<Rightarrow> breaker_setup \<times> listener" where
  "MLCircuitBreaker_init c =
     (\<lparr>bs_fail_max = sc_cb_error_threshold c, bs_reset_timeout = sc_cb_open_seconds c, bs_workers = 1\<rparr>, listener_init)"

definition IcebergCircuitBreaker_init :: "iceberg_sink_config \<Rightarrow> breaker_setup \<times> iceberg_listener" where
  "IcebergCircuitBreaker_init c =
     (\<lparr>bs_fail_max = ic_cb_fail_max c, bs_reset_timeout = ic_cb_reset_timeout_sec c, bs_workers = 0\<rparr>,
      \<lparr>il_gauge = map (\<lambda>s. (s, 0)) gauge_states, il_open_total = 0\<rparr>)"

definition IcebergCircuitBreaker_fail_max :: "breaker_setup \<Rightarrow> int" where
  "IcebergCircuitBreaker_fail_max b = bs_fail_max b"

definition IcebergCircuitBreaker_call ::
  "(('a \<Rightarrow> 'st \<Rightarrow> 'st \<times> 'b result) \<Rightarrow> 'a \<Rightarrow> 'st \<Rightarrow> 'st \<times> 'b result) \<Rightarrow> ('a \<Rightarrow> 'st \<Rightarrow> 'st \<times> 'b result) \<Rightarrow> 'a \<Rightarrow> 'st \<Rightarrow>
     'st \<times> 'b result" where
  "IcebergCircuitBreaker_call cb_call fn args = cb_call fn args"

section \<open>Scoring with a fallback\<close>

text \<open>
  One call as the caller sees it: when it is made, how long the wrapped call runs once the worker
  takes it up (never ending is \<open>None\<close>) and what it then returns or raises. Times are in microseconds.
\<close>

record scoring_call =
  sc_at :: int
  sc_runs :: "int option"
  sc_outcome :: "ml_score result"

text \<open>When the worker is free again: \<open>None\<close> for never.\<close>

definition worker_after :: "int option \<Rightarrow> scoring_call \<Rightarrow> int option" where
  "worker_after free c =
     (case (free, sc_runs c) of (Some t, Some d) \<Rightarrow> Some (max t (sc_at c) + d) | _ \<Rightarrow> None)"

text \<open>\<open>future.result(timeout=...)\<close>.\<close>

definition future_result :: "int \<Rightarrow> int option \<Rightarrow> scoring_call \<Rightarrow> ml_score result" where
  "future_result timeout free c =
     (case worker_after free c of
        Some t \<Rightarrow> (if t \<le> sc_at c + timeout then sc_outcome c else raise_exn TimeoutError [])
      | None \<Rightarrow> raise_exn TimeoutError [])"

definition score_with_fallback :: "int \<Rightarrow> rat \<Rightarrow> int option \<Rightarrow> scoring_call \<Rightarrow> (rat \<times> bool) result" where
  "score_with_fallback timeout fallback_score free c =
     (case future_result timeout free c of
        Inr score \<Rightarrow> Inr (fraud_probability score, False)
      | Inl e \<Rightarrow>
          (if isinstance e CircuitBreakerError \<or> isinstance e MLClientError \<or> isinstance e TimeoutError
           then Inr (fallback_score, True) else Inl e))"

text \<open>The calls of a job, one after the other on the same worker.\<close>

fun score_all :: "int \<Rightarrow> rat \<Rightarrow> int option \<Rightarrow> scoring_call list \<Rightarrow> (rat \<times> bool) result list" where
  "score_all timeout fallback free [] = []"
| "score_all timeout fallback free (c # cs) =
     score_with_fallback timeout fallback free c # score_all timeout fallback (worker_after free c) cs"

section \<open>Lemmas\<close>

lemma score_all_hung: "score_all timeout fb None cs = map (\<lambda>c. Inr (fb, True)) cs"
  by (induction cs)
     (simp_all add: score_with_fallback_def future_result_def worker_after_def raise_exn_def isinstance_def)

lemma gauges_lookup:
  "s \<in> set gauge_states \<Longrightarrow> map_of (set_gauges is_new g) s = Some (if is_new s then 1 else 0)"
  by (auto simp: set_gauges_def gauge_states_def dict_simps)

section \<open>Properties\<close>

text \<open>C39: One call that hangs takes the model away for good: from the first call that never returns on,
  every call of the process is answered with the fallback, whatever the model would say, because
  the single worker is never free again.\<close>

theorem hung_call_starves_later_calls:
  assumes "sc_runs c = None"
  shows "score_all timeout fb free (cs @ c # ds) =
    score_all timeout fb free cs @ map (\<lambda>x. Inr (fb, True)) (c # ds)"
proof (induction cs arbitrary: free)
  case Nil
  have "worker_after free c = None" using assms by (simp add: worker_after_def split: option.split)
  then show ?case
    by (simp add: score_all_hung score_with_fallback_def future_result_def raise_exn_def isinstance_def)
qed simp

definition sample_call :: "int option \<Rightarrow> scoring_call" where
  "sample_call d = \<lparr>sc_at = 0, sc_runs = d, sc_outcome = Inr \<lparr>fraud_probability = 9/10, model_version = ''v1'', latency_ms = 1\<rparr>\<rparr>"

lemma hung_call_starves_later_calls_witness:
  "score_all 50 0 (Some 0) [sample_call (Some 10), sample_call None, sample_call (Some 10)] =
     [Inr (9/10, False), Inr (0, True), Inr (0, True)]"
proof -
  have "sc_runs (sample_call None) = None" by (simp add: sample_call_def)
  from hung_call_starves_later_calls [OF this, of 50 0 "Some 0" "[sample_call (Some 10)]" "[sample_call (Some 10)]"]
  show ?thesis
    by (simp add: score_with_fallback_def future_result_def worker_after_def sample_call_def)
qed

text \<open>A score that arrives in time is the model's, a failure of the model or of the breaker the fallback;
  any other exception reaches the caller.\<close>

lemma score_with_fallback_in_time:
  assumes "worker_after free c = Some t" "t \<le> sc_at c + timeout"
  shows "score_with_fallback timeout fb free c =
    (case sc_outcome c of
       Inr s \<Rightarrow> Inr (fraud_probability s, False)
     | Inl e \<Rightarrow> if isinstance e CircuitBreakerError \<or> isinstance e MLClientError \<or> isinstance e TimeoutError
                then Inr (fb, True) else Inl e)"
  using assms by (simp add: score_with_fallback_def future_result_def)

text \<open>After a change to one of the three named states exactly its gauge is one, and the opening time
  is recorded exactly on entry to open. When the breaker hands its listeners state objects, as its
  documentation shows, or the name half-open, no gauge is set and no opening is recorded.\<close>

theorem listener_gauges:
  "(\<forall>s \<in> set gauge_states. map_of (li_gauge (state_change now old new l)) s = Some (if new = Name s then 1 else 0))
   \<and> li_opened_at (state_change now old new l) =
       (if new = Name ''open'' \<and> old \<noteq> new then Some now else li_opened_at l)"
  by (auto simp: state_change_def Let_def gauges_lookup is_name_def)

lemma listener_gauges_witness:
  "map_of (li_gauge (state_change 7 (Name ''closed'') (State_object ''CircuitOpenState'') listener_init)) ''open'' = Some 0
   \<and> li_opened_at (state_change 7 (Name ''closed'') (State_object ''CircuitOpenState'') listener_init) = None"
  using listener_gauges [of 7 "Name ''closed''" "State_object ''CircuitOpenState''" listener_init]
  by (simp add: gauge_states_def listener_init_def)

end
