(* ===== verification/Analytics.thy ===== *)
theory Analytics
  imports Replay_Sources Decision
begin

text \<open>
  \<open>analytics/consumers/kafka_consumer.py\<close>, \<open>analytics/consumers/metrics.py\<close> and
  \<open>analytics/app/_consumer.py\<close>: the consumer of fraud alerts behind the dashboard. Its queue is
  bounded and drops the oldest alert when full; the dashboard takes alerts from the front. What the
  broker's polls, watermarks and commits return, the Avro decoder and the clock are arguments. The
  daemon's loop is driven by the list of what its polls return, up to the stop signal.
\<close>

section \<open>Alerts on display\<close>

definition severity_to_decision :: "(string \<times> string) list" where
  "severity_to_decision = [(''critical'', ''BLOCK''), (''high'', ''BLOCK''), (''medium'', ''FLAG''), (''low'', ''ALLOW'')]"

definition display_decision :: "string \<Rightarrow> string" where
  "display_decision sev = (case map_of severity_to_decision sev of Some d \<Rightarrow> d | None \<Rightarrow> ''UNKNOWN'')"

record alert_display =
  ad_transaction_id :: pyval
  ad_account_id :: pyval
  ad_rule_triggers :: "pyval list"
  ad_severity :: string
  ad_decision :: string
  ad_evaluation_timestamp :: rat
  ad_received_at :: int

text \<open>
  The record \<open>fastavro\<close> decodes: the timestamp is a number of milliseconds or already a datetime,
  given here by its seconds; one without a zone is taken as UTC.
\<close>

record alert_record =
  ar_transaction_id :: pyval
  ar_account_id :: pyval
  ar_matched_rule_names :: "pyval list"
  ar_severity :: string
  ar_evaluation_timestamp :: "int + rat"

text \<open>
  \<open>datetime.fromtimestamp\<close> of a number of seconds: rounded to microseconds, and only from the year 1 to the
  year 9999. A 64-bit count of milliseconds stays below the bounds of the platform, so ValueError is its only
  exception.
\<close>

definition fromtimestamp :: "rat \<Rightarrow> rat result" where
  "fromtimestamp t =
     (let whole = (if t < 0 then \<lceil>t\<rceil> else \<lfloor>t\<rfloor>);
          us = round_half_even (fl ((t - of_int whole) * 1000000));
          s = of_int whole + of_int us / 1000000
      in if - 62135596800 \<le> s \<and> s < 253402300800 then Inr s
         else raise_exn ValueError ''year is out of range'')"

definition deserialize :: "(8 word list option \<Rightarrow> alert_record result) \<Rightarrow> int \<Rightarrow> 8 word list option \<Rightarrow> alert_display result" where
  "deserialize schemaless_reader now raw_bytes =
     rbind (schemaless_reader raw_bytes) (\<lambda>rec.
     rbind (case ar_evaluation_timestamp rec of
              Inl ms \<Rightarrow> fromtimestamp (fl (fl (of_int ms) / 1000)) | Inr t \<Rightarrow> Inr t) (\<lambda>eval_ts.
       Inr \<lparr>ad_transaction_id = ar_transaction_id rec, ad_account_id = ar_account_id rec,
            ad_rule_triggers = ar_matched_rule_names rec, ad_severity = ar_severity rec,
            ad_decision = display_decision (ar_severity rec),
            ad_evaluation_timestamp = eval_ts, ad_received_at = now\<rparr>))"

section \<open>The queue\<close>

text \<open>A size of zero or less is no bound.\<close>

definition q_full :: "int \<Rightarrow> 'a list \<Rightarrow> bool" where
  "q_full maxsize q \<longleftrightarrow> 0 < maxsize \<and> maxsize \<le> int (length q)"

definition put_nowait :: "int \<Rightarrow> 'a \<Rightarrow> 'a list \<Rightarrow> 'a list option" where
  "put_nowait maxsize x q = (if q_full maxsize q then None else Some (q @ [x]))"

text \<open>The second \<open>put_nowait\<close> may raise \<open>Full\<close> too, which the caller catches: the alert is lost.\<close>

definition offer :: "int \<Rightarrow> 'a \<Rightarrow> 'a list \<Rightarrow> 'a list \<times> bool" where
  "offer maxsize x q =
     (case put_nowait maxsize x q of
        Some q' \<Rightarrow> (q', True)
      | None \<Rightarrow> (case put_nowait maxsize x (tl q) of Some q' \<Rightarrow> (q', True) | None \<Rightarrow> (tl q, False)))"

section \<open>The consumer\<close>

record consumer =
  ac_maxsize :: int
  ac_queue :: "alert_display list"
  ac_alive :: bool
  ac_stopped :: bool
  ac_lag :: int
  ac_last_lag_refresh :: int
  ac_consumed :: nat
  ac_restarts :: nat

definition AnalyticsKafkaConsumer_init :: "int \<Rightarrow> consumer" where
  "AnalyticsKafkaConsumer_init queue_maxsize =
     \<lparr>ac_maxsize = queue_maxsize, ac_queue = [], ac_alive = False, ac_stopped = False, ac_lag = 0,
      ac_last_lag_refresh = 0, ac_consumed = 0, ac_restarts = 0\<rparr>"

definition consumer_start :: "consumer \<Rightarrow> consumer" where
  "consumer_start c = (if ac_alive c then c else c\<lparr>ac_stopped := False, ac_alive := True\<rparr>)"

definition consumer_stop :: "consumer \<Rightarrow> consumer" where
  "consumer_stop c = c\<lparr>ac_stopped := True\<rparr>"

text \<open>
  What the broker says of each partition: low and high watermark and the committed offset, negative
  when there is none; or the exception one of the calls raises, or no topic.
\<close>

datatype lag_answer = No_topic | Lag_error | Partitions "(int \<times> int \<times> int) list"

definition total_lag :: "(int \<times> int \<times> int) list \<Rightarrow> int" where
  "total_lag ps = fold (\<lambda>(low, high, committed) n. n + max 0 (high - (if committed < 0 then low else committed))) ps 0"

definition lag_refresh_us :: int where
  "lag_refresh_us = 5000000"

definition refresh_lag :: "int \<Rightarrow> lag_answer \<Rightarrow> consumer \<Rightarrow> consumer" where
  "refresh_lag now answer c =
     (if now - ac_last_lag_refresh c < lag_refresh_us then c
      else let c1 = c\<lparr>ac_last_lag_refresh := now\<rparr> in
        case answer of Partitions ps \<Rightarrow> c1\<lparr>ac_lag := total_lag ps\<rparr> | _ \<Rightarrow> c1)"

text \<open>One round of the loop; a consumer that cannot be built or whose poll fails is replaced by a new one.\<close>

record round =
  ro_poll :: "poll result"
  ro_now :: int
  ro_lag :: lag_answer

definition run_round :: "(8 word list option \<Rightarrow> alert_record result) \<Rightarrow> round \<Rightarrow> consumer \<Rightarrow> consumer" where
  "run_round schemaless_reader ro c =
     (case ro_poll ro of
        Inl e \<Rightarrow> c\<lparr>ac_restarts := Suc (ac_restarts c)\<rparr>
      | Inr No_message \<Rightarrow> refresh_lag (ro_now ro) (ro_lag ro) c
      | Inr Poll_error \<Rightarrow> c\<lparr>ac_restarts := Suc (ac_restarts c)\<rparr>
      | Inr (Message m) \<Rightarrow>
          refresh_lag (ro_now ro) (ro_lag ro)
            (case deserialize schemaless_reader (ro_now ro) (pm_value m) of
               Inl e \<Rightarrow> c
             | Inr alert \<Rightarrow>
                 (let (q, ok) = offer (ac_maxsize c) alert (ac_queue c)
                  in c\<lparr>ac_queue := q, ac_consumed := (if ok then Suc (ac_consumed c) else ac_consumed c)\<rparr>)))"

text \<open>The dashboard's side: \<open>queue.get_nowait()\<close>.\<close>

definition take_alert :: "consumer \<Rightarrow> consumer" where
  "take_alert c = c\<lparr>ac_queue := tl (ac_queue c)\<rparr>"

datatype consumer_event = Round round | Take

fun consumer_step :: "(8 word list option \<Rightarrow> alert_record result) \<Rightarrow> consumer_event \<Rightarrow> consumer \<Rightarrow> consumer" where
  "consumer_step reader (Round ro) c = run_round reader ro c"
| "consumer_step reader Take c = take_alert c"

text \<open>The environment of the app: the port of the metrics, and the server started once per process.\<close>

definition metrics_port :: "string option \<Rightarrow> int" where
  "metrics_port env = (case int_of_str (case env of Some s \<Rightarrow> s | None \<Rightarrow> ''8004'') of Some n \<Rightarrow> n | None \<Rightarrow> 8004)"

record process_env =
  pe_started :: bool
  pe_servers :: "int list"

definition start_metrics_server :: "bool \<Rightarrow> int \<Rightarrow> process_env \<Rightarrow> process_env" where
  "start_metrics_server port_free port p =
     (if pe_started p then p
      else p\<lparr>pe_servers := (if port_free then pe_servers p @ [port] else pe_servers p), pe_started := True\<rparr>)"

definition get_consumer :: "string option \<Rightarrow> bool \<Rightarrow> process_env \<times> consumer option \<Rightarrow> process_env \<times> consumer option" where
  "get_consumer env port_free pc =
     (case pc of
        (p, Some c) \<Rightarrow> (p, Some c)
      | (p, None) \<Rightarrow>
          (start_metrics_server port_free (metrics_port env) p, Some (consumer_start (AnalyticsKafkaConsumer_init 500))))"

section \<open>Lemmas\<close>

text \<open>The alerts the rounds deliver, in order.\<close>

fun delivered :: "(8 word list option \<Rightarrow> alert_record result) \<Rightarrow> consumer_event list \<Rightarrow> alert_display list" where
  "delivered reader [] = []"
| "delivered reader (Take # xs) = delivered reader xs"
| "delivered reader (Round ro # xs) =
     (case ro_poll ro of
        Inr (Message m) \<Rightarrow>
          (case deserialize reader (ro_now ro) (pm_value m) of
             Inr alert \<Rightarrow> alert # delivered reader xs | Inl e \<Rightarrow> delivered reader xs)
      | _ \<Rightarrow> delivered reader xs)"

lemma refresh_lag_queue [simp]:
  "ac_queue (refresh_lag now a c) = ac_queue c" "ac_maxsize (refresh_lag now a c) = ac_maxsize c"
  "ac_consumed (refresh_lag now a c) = ac_consumed c" "ac_restarts (refresh_lag now a c) = ac_restarts c"
  by (simp_all add: refresh_lag_def Let_def split: lag_answer.split)

lemma offer_cases:
  "0 < n \<Longrightarrow> int (length q) \<le> n \<Longrightarrow>
   \<exists>q'. offer n x q = (q', True) \<and> q' = (if int (length q) < n then q @ [x] else tl q @ [x]) \<and> int (length q') \<le> n"
  by (cases q) (auto simp: offer_def put_nowait_def q_full_def)

lemma suffix_tl_append: "suffix q xs \<Longrightarrow> suffix (tl q) xs"
  by (metis list.collapse list.sel(2) suffix_ConsD)

lemma consumer_run_queue:
  assumes "0 < ac_maxsize c" "int (length (ac_queue c)) \<le> ac_maxsize c" "suffix (ac_queue c) xs"
  shows "int (length (ac_queue (fold (consumer_step reader) evs c))) \<le> ac_maxsize c
    \<and> suffix (ac_queue (fold (consumer_step reader) evs c)) (xs @ delivered reader evs)
    \<and> ac_consumed (fold (consumer_step reader) evs c) = ac_consumed c + length (delivered reader evs)"
  using assms
proof (induction evs arbitrary: c xs)
  case (Cons ev evs)
  let ?c = "consumer_step reader ev c"
  have m: "ac_maxsize ?c = ac_maxsize c"
    by (cases ev) (auto simp: run_round_def take_alert_def split: sum.split poll.split prod.split)
  have step: "int (length (ac_queue ?c)) \<le> ac_maxsize c \<and> suffix (ac_queue ?c) (xs @ delivered reader [ev])
      \<and> ac_consumed ?c = ac_consumed c + length (delivered reader [ev])"
  proof (cases ev)
    case Take
    then show ?thesis using Cons.prems suffix_tl_append by (auto simp: take_alert_def)
  next
    case (Round ro)
    have o: "\<exists>q. offer (ac_maxsize c) x (ac_queue c) = (q, True) \<and> int (length q) \<le> ac_maxsize c
        \<and> suffix q (xs @ [x])" for x
      using offer_cases [OF Cons.prems(1,2), of x] Cons.prems(3) suffix_tl_append [OF Cons.prems(3)]
      by (auto simp: suffix_def)
    show ?thesis
    proof (cases "ro_poll ro")
      case (Inr p)
      show ?thesis
      proof (cases p)
        case (Message m)
        show ?thesis
        proof (cases "deserialize reader (ro_now ro) (pm_value m)")
          case (Inr alert)
          with o [of alert] Message \<open>ro_poll ro = Inr p\<close> Round Cons.prems show ?thesis by (auto simp: run_round_def)
        qed (use Cons.prems Message Inr Round in \<open>auto simp: run_round_def\<close>)
      qed (use Cons.prems Inr Round in \<open>auto simp: run_round_def\<close>)
    qed (use Cons.prems Round in \<open>auto simp: run_round_def\<close>)
  qed
  have d: "delivered reader (ev # evs) = delivered reader [ev] @ delivered reader evs"
    by (cases ev) (auto split: sum.split poll.split)
  show ?case using Cons.IH [of ?c "xs @ delivered reader [ev]"] Cons.prems step m d by simp
qed simp

section \<open>Properties\<close>

text \<open>C28: The dashboard's queue never exceeds its bound and always holds the newest alerts, in order: however
  polls, errors, restarts and reads by the dashboard interleave, what is queued is the end of the
  sequence of alerts delivered so far, so an alert is only dropped when every newer one is still
  there or was read. Each delivered alert is counted once.\<close>

theorem queue_keeps_newest:
  assumes "0 < n"
  shows "int (length (ac_queue (fold (consumer_step reader) evs (AnalyticsKafkaConsumer_init n)))) \<le> n
    \<and> suffix (ac_queue (fold (consumer_step reader) evs (AnalyticsKafkaConsumer_init n))) (delivered reader evs)
    \<and> ac_consumed (fold (consumer_step reader) evs (AnalyticsKafkaConsumer_init n)) = length (delivered reader evs)"
  using consumer_run_queue [of "AnalyticsKafkaConsumer_init n" "[]" reader evs] assms
  by (simp add: AnalyticsKafkaConsumer_init_def)

definition sample_reader :: "8 word list option \<Rightarrow> alert_record result" where
  "sample_reader b = Inr
     \<lparr>ar_transaction_id = PInt (case b of Some bs \<Rightarrow> int (length bs) | None \<Rightarrow> 0), ar_account_id = PNone,
      ar_matched_rule_names = [], ar_severity = ''high'', ar_evaluation_timestamp = Inr 1\<rparr>"

definition sample_round :: "nat \<Rightarrow> consumer_event" where
  "sample_round n = Round
     \<lparr>ro_poll = Inr (Message \<lparr>pm_key = None, pm_value = Some (replicate n 0), pm_partition = 0, pm_offset = 0\<rparr>),
      ro_now = 0, ro_lag = No_topic\<rparr>"

lemma queue_keeps_newest_witness:
  "ac_consumed (fold (consumer_step sample_reader) (map sample_round [1, 2, 3]) (AnalyticsKafkaConsumer_init 2)) = 3
   \<and> int (length (ac_queue (fold (consumer_step sample_reader) (map sample_round [1, 2, 3]) (AnalyticsKafkaConsumer_init 2)))) \<le> 2"
  using queue_keeps_newest [of 2 sample_reader "map sample_round [1, 2, 3]"]
  by (simp add: sample_round_def deserialize_def sample_reader_def)
text \<open>C29: The dashboard shows the decision that was made, except for severity low: an alert displays BLOCK
  or FLAG as the decision of its transaction, but a transaction flagged by rules of severity low
  only is displayed as allowed.\<close>

theorem dashboard_shows_decision:
  "(case alert_of rules t txn of
      None \<Rightarrow> fd_decision (decision_of rules t txn) = ALLOW
    | Some al \<Rightarrow>
        fd_decision (decision_of rules t txn) \<noteq> ALLOW \<and>
        display_decision (al_severity al) =
          (if al_severity al = ''low'' then ''ALLOW'' else verdict_name (fd_decision (decision_of rules t txn))))"
proof (cases "alert_of rules t txn")
  case None
  then show ?thesis using alert_None_iff [of rules t txn] by simp
next
  case (Some al)
  then have n: "first_error txn rules = None" and al: "build_alert txn (expected_result txn rules t) = Some al"
    by (auto simp: evaluate_txn_spec split: option.splits)
  then have "active_hits txn rules \<noteq> []" using build_alert_None by (metis option.distinct(1))
  then obtain v where v: "max_severity (map severity (active_hits txn rules)) = Some v"
    by (cases "max_severity (map severity (active_hits txn rules))") auto
  have sev: "al_severity al = severity_name v" "determination (expected_result txn rules t) = Suspicious"
    "highest_severity (expected_result txn rules t) = Some (severity_name v)"
    using al v by (auto simp: build_alert_def expected_result_def split: if_splits)
  have "decision_of rules t txn = build_fraud_decision txn (expected_result txn rules t)"
    by (simp add: evaluate_txn_spec n)
  then have "fd_decision (decision_of rules t txn) = (if severity_name v \<in> {''high'', ''critical''} then BLOCK else FLAG)"
    using sev by (simp add: build_fraud_decision_def Let_def)
  with Some sev show ?thesis
    by (cases v) (auto simp: display_decision_def severity_to_decision_def)
qed

end
