(* ===== verification/Metrics_Bridge.thy ===== *)
theory Metrics_Bridge
  imports Management Evaluator
begin

text \<open>
  \<open>pipelines/processing/kafka_metrics_bridge.py\<close> with the registry of
  \<open>pipelines/shared/interfaces/metrics_publisher.py\<close> and the implementations of
  \<open>pipelines/scoring/interfaces.py\<close>: the two threads of the main process that count rule evaluations
  and rule flags from what the topics carry, since the counters of the workers are out of reach. A
  counter is a dict from its labels to its value. A thread is the list of what its polls return, up
  to the stop signal.
\<close>

section \<open>Counters and their registry\<close>

record counters =
  ct_evaluations :: "((pyval \<times> pyval) \<times> nat) list"
  ct_flags :: "((string \<times> pyval \<times> string) \<times> nat) list"
  ct_threads_died :: "string list"

definition no_counts :: counters where
  "no_counts = \<lparr>ct_evaluations = [], ct_flags = [], ct_threads_died = []\<rparr>"

text \<open>
  The two globals of \<open>shared/interfaces/metrics_publisher.py\<close>: what was registered to make counters and
  to count rules, either the no-op objects or the ones over the scoring metrics
  (\<open>scoring/interfaces.py\<close>). Without a registration the getters answer with the no-op ones.
\<close>

datatype publisher = No_op | Scoring_metrics

record metric_registry =
  mr_provider :: "publisher option"
  mr_rules :: "publisher option"

definition nothing_registered :: metric_registry where
  "nothing_registered = \<lparr>mr_provider = None, mr_rules = None\<rparr>"

definition set_metrics_provider :: "publisher option \<Rightarrow> metric_registry \<Rightarrow> metric_registry" where
  "set_metrics_provider p reg = reg\<lparr>mr_provider := p\<rparr>"

definition get_metrics_provider :: "metric_registry \<Rightarrow> publisher" where
  "get_metrics_provider reg = (case mr_provider reg of None \<Rightarrow> No_op | Some p \<Rightarrow> p)"

definition set_rule_metrics_publisher :: "publisher option \<Rightarrow> metric_registry \<Rightarrow> metric_registry" where
  "set_rule_metrics_publisher p reg = reg\<lparr>mr_rules := p\<rparr>"

definition get_rule_metrics_publisher :: "metric_registry \<Rightarrow> publisher" where
  "get_rule_metrics_publisher reg = (case mr_rules reg of None \<Rightarrow> No_op | Some q \<Rightarrow> q)"

definition register_interface_implementations :: "metric_registry \<Rightarrow> metric_registry" where
  "register_interface_implementations reg =
     set_rule_metrics_publisher (Some Scoring_metrics) (set_metrics_provider (Some Scoring_metrics) reg)"

text \<open>
  \<open>get_counter\<close> of a provider, whose result counts or does not as the provider does; the bridge asks
  once, when its module is imported, for the counter of its dead threads.
\<close>

definition get_counter :: "publisher \<Rightarrow> string \<Rightarrow> string list \<Rightarrow> publisher \<times> string \<times> string list" where
  "get_counter provider name labelnames = (provider, name, labelnames)"

definition bridge_thread_died_total :: "metric_registry \<Rightarrow> publisher \<times> string \<times> string list" where
  "bridge_thread_died_total reg = get_counter (get_metrics_provider reg) ''bridge_thread_died_total'' [''thread_name'']"

fun count_death :: "publisher \<times> string \<times> string list \<Rightarrow> string \<Rightarrow> counters \<Rightarrow> counters" where
  "count_death (No_op, m) thread_name c = c"
| "count_death (Scoring_metrics, m) thread_name c = c\<lparr>ct_threads_died := ct_threads_died c @ [thread_name]\<rparr>"

fun record_rule_evaluation :: "publisher \<Rightarrow> pyval \<Rightarrow> pyval \<Rightarrow> counters \<Rightarrow> counters" where
  "record_rule_evaluation No_op rid fam c = c"
| "record_rule_evaluation Scoring_metrics rid fam c = c\<lparr>ct_evaluations := dbump (ct_evaluations c) (rid, fam)\<rparr>"

fun record_rule_flag :: "publisher \<Rightarrow> string \<Rightarrow> pyval \<Rightarrow> string \<Rightarrow> counters \<Rightarrow> counters" where
  "record_rule_flag No_op rid fam sev c = c"
| "record_rule_flag Scoring_metrics rid fam sev c = c\<lparr>ct_flags := dbump (ct_flags c) (rid, fam, sev)\<rparr>"

section \<open>The rules\<close>

text \<open>\<open>for r in (rules or [])\<close>, then one entry of the comprehension.\<close>

definition iter_rules :: "pyval \<Rightarrow> pyval list result" where
  "iter_rules v =
     (if \<not> truthy v then Inr []
      else case v of
        PList xs \<Rightarrow> Inr xs
      | PDict d \<Rightarrow> Inr (map (\<lambda>kv. PStr (fst kv)) d)
      | PStr s \<Rightarrow> Inr (map (\<lambda>c. PStr [c]) s)
      | PBytes bs \<Rightarrow> Inr (map (\<lambda>b. PInt (uint b)) bs)
      | _ \<Rightarrow> raise_exn TypeError ''object is not iterable'')"

fun family_entries :: "pyval list \<Rightarrow> (pyval \<times> pyval) list \<Rightarrow> (pyval \<times> pyval) list result" where
  "family_entries [] m = Inr m"
| "family_entries (PDict r # rs) m =
     (if truthy (dget_or r ''enabled'' (PBool True))
      then rbind (dsub r ''rule_id'') (\<lambda>k. rbind (dsub r ''family'') (\<lambda>v.
             if hashable k then family_entries rs (dset m k v) else raise_exn TypeError ''unhashable type''))
      else family_entries rs m)"
| "family_entries (x # rs) m = family_entries rs m"

definition build_rule_family_map :: "(string \<Rightarrow> pyval result) \<Rightarrow> string \<Rightarrow> (pyval \<times> pyval) list" where
  "build_rule_family_map load_file path =
     (case rbind (load_file path) (\<lambda>rules. rbind (iter_rules rules) (\<lambda>rs. family_entries rs [])) of
        Inr m \<Rightarrow> m | Inl e \<Rightarrow> [])"

section \<open>The threads\<close>

text \<open>\<open>s.endswith(":shadow")\<close>.\<close>

definition is_shadow_name :: "string \<Rightarrow> bool" where
  "is_shadow_name s \<longleftrightarrow> suffix '':shadow'' s"

fun flag_all :: "publisher \<Rightarrow> (pyval \<times> pyval) list \<Rightarrow> string \<Rightarrow> pyval list \<Rightarrow> counters \<Rightarrow> counters" where
  "flag_all p m sev [] c = c"
| "flag_all p m sev (PStr rid # names) c =
     (if is_shadow_name rid then flag_all p m sev names c
      else flag_all p m sev names
        (record_rule_flag p rid (case map_of m (PStr rid) of Some f \<Rightarrow> f | None \<Rightarrow> PStr ''unknown'') sev c))"
| "flag_all p m sev (x # names) c = c"

text \<open>A record that does not decode, or a name that is no string, ends the message only.\<close>

definition alerts_message ::
  "(8 word list option \<Rightarrow> pydict result) \<Rightarrow> (pyval \<Rightarrow> string) \<Rightarrow> publisher \<Rightarrow> (pyval \<times> pyval) list \<Rightarrow>
   poll_message \<Rightarrow> counters \<Rightarrow> counters" where
  "alerts_message schemaless_reader str p m msg c =
     (case schemaless_reader (pm_value msg) of
        Inl e \<Rightarrow> c
      | Inr rec \<Rightarrow>
          (let sv = dget_or rec ''severity'' (PStr ''low'');
               sev = lower_str (case sv of PStr s \<Rightarrow> s | _ \<Rightarrow> str sv)
           in case dget_or rec ''matched_rule_names'' (PList []) of
                PList names \<Rightarrow> flag_all p m sev names c
              | _ \<Rightarrow> c))"

fun alerts_loop ::
  "(8 word list option \<Rightarrow> pydict result) \<Rightarrow> (pyval \<Rightarrow> string) \<Rightarrow> publisher \<Rightarrow> (pyval \<times> pyval) list \<Rightarrow>
   poll list \<Rightarrow> counters \<Rightarrow> counters" where
  "alerts_loop reader str p m [] c = c"
| "alerts_loop reader str p m (Message msg # ps) c = alerts_loop reader str p m ps (alerts_message reader str p m msg c)"
| "alerts_loop reader str p m (x # ps) c = alerts_loop reader str p m ps c"

fun enriched_loop :: "publisher \<Rightarrow> (pyval \<times> pyval) list \<Rightarrow> poll list \<Rightarrow> counters \<Rightarrow> counters" where
  "enriched_loop p m [] c = c"
| "enriched_loop p m (Message msg # ps) c =
     enriched_loop p m ps (fold (\<lambda>(rid, fam). record_rule_evaluation p rid fam) m c)"
| "enriched_loop p m (x # ps) c = enriched_loop p m ps c"

text \<open>
  A thread's start may fail in two ways: a missing library, reported and not counted, or any other
  exception (the schema, the client), counted as a death of the thread.
\<close>

datatype thread_start = Started | Missing_library | Start_failed

definition alerts_consumer_thread ::
  "(8 word list option \<Rightarrow> pydict result) \<Rightarrow> (pyval \<Rightarrow> string) \<Rightarrow> metric_registry \<Rightarrow> publisher \<times> string \<times> string list \<Rightarrow>
   thread_start \<Rightarrow> (pyval \<times> pyval) list \<Rightarrow> poll list \<Rightarrow> counters \<Rightarrow> counters" where
  "alerts_consumer_thread reader str reg died st m ps c =
     (case st of
        Started \<Rightarrow> alerts_loop reader str (get_rule_metrics_publisher reg) m ps c
      | Missing_library \<Rightarrow> c
      | Start_failed \<Rightarrow> count_death died ''metrics-bridge-alerts'' c)"

definition enriched_consumer_thread ::
  "metric_registry \<Rightarrow> publisher \<times> string \<times> string list \<Rightarrow> thread_start \<Rightarrow> (pyval \<times> pyval) list \<Rightarrow> poll list \<Rightarrow>
   counters \<Rightarrow> counters" where
  "enriched_consumer_thread reg died st m ps c =
     (if m = [] then c
      else case st of
        Started \<Rightarrow> enriched_loop (get_rule_metrics_publisher reg) m ps c
      | Missing_library \<Rightarrow> c
      | Start_failed \<Rightarrow> count_death died ''metrics-bridge-enriched'' c)"

section \<open>Starting and stopping\<close>

text \<open>The threads, each alive or not; \<open>up\<close>: both can start their client.\<close>

record bridge =
  bg_stop :: bool
  bg_threads :: "bool list"

definition bridge_start :: "bool \<Rightarrow> (string \<Rightarrow> pyval result) \<Rightarrow> string \<Rightarrow> bridge \<Rightarrow> bridge" where
  "bridge_start up load_file path b =
     (if list_ex id (bg_threads b) then b
      else \<lparr>bg_stop = False, bg_threads = [up, up \<and> build_rule_family_map load_file path \<noteq> []]\<rparr>)"

definition bridge_stop :: "bridge \<Rightarrow> bridge" where
  "bridge_stop b = b\<lparr>bg_stop := True, bg_threads := []\<rparr>"

definition is_healthy :: "bridge \<Rightarrow> bool" where
  "is_healthy b = (if bg_threads b = [] then False else list_all id (bg_threads b))"

definition is_running :: "bridge \<Rightarrow> bool" where
  "is_running b \<longleftrightarrow> 0 < length (bg_threads b) \<and> list_all id (bg_threads b)"

section \<open>Lemmas\<close>

lemma registered:
  "get_rule_metrics_publisher (register_interface_implementations reg) = Scoring_metrics"
  "get_metrics_provider (register_interface_implementations reg) = Scoring_metrics"
  by (simp_all add: register_interface_implementations_def set_metrics_provider_def set_rule_metrics_publisher_def
      get_rule_metrics_publisher_def get_metrics_provider_def)

lemma unregistered: "get_rule_metrics_publisher nothing_registered = No_op" "get_metrics_provider nothing_registered = No_op"
  by (simp_all add: nothing_registered_def get_rule_metrics_publisher_def get_metrics_provider_def)

lemma is_healthy_is_running: "is_healthy b = is_running b"
  by (simp add: is_healthy_def is_running_def)

lemma record_fold:
  "ct_evaluations (fold (\<lambda>(rid, fam). record_rule_evaluation Scoring_metrics rid fam) m c) =
     fold (\<lambda>k d. dbump d k) m (ct_evaluations c)"
  by (induction m arbitrary: c) auto

definition messages :: "poll list \<Rightarrow> nat" where
  "messages ps = length (filter (\<lambda>p. case p of Message m \<Rightarrow> True | _ \<Rightarrow> False) ps)"

lemma enriched_loop_count:
  "dcount (ct_evaluations (enriched_loop Scoring_metrics m ps c)) k =
     dcount (ct_evaluations c) k + messages ps * count_list m k"
proof (induction ps arbitrary: c)
  case (Cons p ps)
  then show ?case
    by (cases p) (simp_all add: messages_def record_fold dcount_fold_dbump)
qed (simp add: messages_def)
text \<open>The map of a rules file the loader accepts, where the switch is written as a boolean and the family as a text.\<close>

definition rule_label :: "rule_definition \<Rightarrow> pyval \<times> pyval" where
  "rule_label r = (PStr (rule_id r), PStr (family_value (family r)))"

definition plainly_written :: "pyval \<Rightarrow> bool" where
  "plainly_written item \<longleftrightarrow>
     (case item of
        PDict d \<Rightarrow> (case dget d ''enabled'' of PBool b \<Rightarrow> True | _ \<Rightarrow> False) \<and> (case dget d ''family'' of PStr s \<Rightarrow> True | _ \<Rightarrow> False)
      | _ \<Rightarrow> False)"

definition pydantic_reads :: "pydantic \<Rightarrow> bool" where
  "pydantic_reads P \<longleftrightarrow> (\<forall>b. pyd_bool P (PBool b) = Some b) \<and> (\<forall>s. pyd_family P (PStr s) = family_of_value s)"

lemma family_of_value_Some: "family_of_value s = Some f \<Longrightarrow> s = family_value f"
  by (auto simp: family_of_value_def split: if_splits)

lemma dget_Some: "dget d k = v \<Longrightarrow> v \<noteq> PNone \<Longrightarrow> map_of d k = Some v"
  by (auto simp: dget_def split: option.splits)

lemma validated_item:
  assumes "pydantic_reads P" "model_validate P (PDict d) = Inr r" "plainly_written (PDict d)"
  shows "map_of d ''rule_id'' = Some (PStr (rule_id r))" "map_of d ''enabled'' = Some (PBool (enabled r))"
    "map_of d ''family'' = Some (PStr (family_value (family r)))"
proof -
  obtain b s where w: "dget d ''enabled'' = PBool b" "dget d ''family'' = PStr s"
    using assms(3) by (auto simp: plainly_written_def split: pyval.splits)
  have rid: "dget d ''rule_id'' = PStr (rule_id r)"
    using assms(2) by (auto simp: model_validate_def validate_rule_id_def raise_exn_def invalid_def result_simps
        split: pyval.splits if_splits)
  have "pyd_bool P (PBool b) = Some (enabled r)" "pyd_family P (PStr s) = Some (family r)"
    using assms(2) w by (auto simp: model_validate_def invalid_def raise_exn_def result_simps split: if_splits)
  then have "b = enabled r" "s = family_value (family r)"
    using assms(1) family_of_value_Some by (auto simp: pydantic_reads_def)
  with w rid show "map_of d ''rule_id'' = Some (PStr (rule_id r))" "map_of d ''enabled'' = Some (PBool (enabled r))"
    "map_of d ''family'' = Some (PStr (family_value (family r)))"
    using dget_Some by auto
qed

lemma family_entries_loaded:
  assumes "pydantic_reads P" "list_all2 (\<lambda>x r. model_validate P x = Inr r) items rules" "list_all plainly_written items"
    and "distinct (map fst m @ map (\<lambda>r. PStr (rule_id r)) (filter enabled rules))"
  shows "family_entries items m = Inr (m @ map rule_label (filter enabled rules))"
  using assms(2-4)
proof (induction items rules arbitrary: m rule: list_all2_induct)
  case (Cons x items r rules)
  obtain d where x: "x = PDict d" using Cons.prems(1) by (cases x) (auto simp: plainly_written_def)
  note v = validated_item [OF assms(1) Cons.hyps(1) [unfolded x]]
  have w: "plainly_written (PDict d)" "list_all plainly_written items" using Cons.prems(1) x by simp_all
  have e: "family_entries (x # items) m =
      (if enabled r then family_entries items (dset m (PStr (rule_id r)) (PStr (family_value (family r))))
       else family_entries items m)"
    using v [OF w(1)] by (simp add: x dget_or_def dsub_def)
  show ?case
  proof (cases "enabled r")
    case True
    then have new: "dset m (PStr (rule_id r)) (PStr (family_value (family r))) = m @ [rule_label r]"
      using Cons.prems(2) by (auto simp: dset_new rule_label_def)
    have "distinct (map fst (m @ [rule_label r]) @ map (\<lambda>r. PStr (rule_id r)) (filter enabled rules))"
      using Cons.prems(2) True by (auto simp: rule_label_def)
    then show ?thesis using Cons.IH [OF w(2)] True by (simp add: e new)
  next
    case False
    then show ?thesis using Cons.IH [OF w(2)] Cons.prems(2) by (simp add: e)
  qed
qed simp

lemma build_map_loaded:
  assumes "pydantic_reads P" "read_file path = Inr content" "safe_load content = Inr (PList items)"
    and "list_all plainly_written items" "RuleLoader_load P read_file safe_load path = Inr rules"
    and "distinct (map rule_id rules)"
  shows "build_rule_family_map (\<lambda>p. rbind (read_file p) safe_load) path = map rule_label rules \<and> filter enabled rules = rules"
proof -
  obtain all_rules where all: "list_all2 (\<lambda>x r. model_validate P x = Inr r) items all_rules" "rules = filter enabled all_rules"
    using assms(2,3,5) by (auto simp: RuleLoader_load_def result_simps validate_entries_Inr)
  have "distinct (map (\<lambda>r. PStr (rule_id r)) rules)" using assms(6) by (simp add: distinct_map inj_on_def)
  then have "family_entries items [] = Inr (map rule_label rules)"
    using family_entries_loaded [OF assms(1) all(1) assms(4), of "[]"] all(2) by simp
  moreover have "iter_rules (PList items) = Inr items" by (simp add: iter_rules_def)
  ultimately show ?thesis using assms(2,3) all(2) by (simp add: build_rule_family_map_def)
qed

text \<open>What the evaluator counts in its own process.\<close>

lemma eval_loop_evaluations:
  "snd (eval_loop txn rs s) = None \<Longrightarrow>
   count_list (Evaluator.metrics (fst (eval_loop txn rs s))) (MEvaluation i f) =
     count_list (Evaluator.metrics s) (MEvaluation i f)
     + count_list (map (\<lambda>r. (rule_id r, family_value (family r))) rs) (i, f)"
proof (induction rs arbitrary: s)
  case (Cons r rs)
  have rm: "count_list (Evaluator.metrics (record_match r s)) (MEvaluation i f) =
      count_list (Evaluator.metrics s) (MEvaluation i f)" for s
    by (simp add: record_match_def)
  show ?case
  proof (cases "family_dispatch (family r) txn (conditions r)")
    case (Inl e)
    with Cons.prems show ?thesis by (simp add: eval_loop.simps(2) Let_def)
  next
    case (Inr b)
    with Cons.prems Cons.IH show ?thesis by (auto simp: eval_loop.simps(2) Let_def rm)
  qed
qed simp

lemma dispatch_evaluations:
  assumes "first_error txn rs = None"
  shows "count_list (fst (RuleEvaluator_dispatch rs t txn)) (MEvaluation i f) =
    count_list (map (\<lambda>r. (rule_id r, family_value (family r))) rs) (i, f)"
proof -
  have n: "snd (eval_loop txn rs loop_init) = None" using assms eval_loop_error by simp
  have fp: "count_list (map MShadowFp xs) (MEvaluation i f) = 0" for xs by (induction xs) auto
  have "count_list (Evaluator.metrics loop_init) (MEvaluation i f) = 0" by (simp add: loop_init_def)
  with eval_loop_evaluations [OF n, of i f] n show ?thesis
    by (cases "eval_loop txn rs loop_init") (simp add: RuleEvaluator_dispatch_def Let_def fp)
qed

lemma count_labels:
  "count_list (map rule_label rs) (PStr i, PStr f) = count_list (map (\<lambda>r. (rule_id r, family_value (family r))) rs) (i, f)"
  by (induction rs) (simp_all add: rule_label_def)

section \<open>Properties\<close>

text \<open>C30: The bridge counts what the workers count. Let the scoring metrics be registered, let both read the same
  rules file, a list the loader accepts, whose enabled rules have distinct ids and whose entries write the
  switch as a boolean and the family as a text (as the rules file of the repository does), and let no rule raise on the
  transactions: after one enriched message per transaction the evaluations the bridge has counted for a rule
  are those the evaluators recorded in their own processes for these transactions.\<close>

theorem bridge_counts_evaluations:
  assumes "pydantic_reads P" "read_file path = Inr content" "safe_load content = Inr (PList items)"
    and "list_all plainly_written items" "RuleLoader_load P read_file safe_load path = Inr rules"
    and "distinct (map rule_id rules)"
    and "\<And>txn. txn \<in> set txns \<Longrightarrow> first_error txn rules = None"
    and "messages ps = length txns"
  shows "dcount (ct_evaluations (enriched_consumer_thread (register_interface_implementations reg) died Started
        (build_rule_family_map (\<lambda>p. rbind (read_file p) safe_load) path) ps no_counts)) (PStr i, PStr f) =
    count_list (concat (map (\<lambda>txn. fst (RuleEvaluator_dispatch (RuleEvaluator_init rules) t txn)) txns)) (MEvaluation i f)"
proof -
  have m: "build_rule_family_map (\<lambda>p. rbind (read_file p) safe_load) path = map rule_label rules" "filter enabled rules = rules"
    using build_map_loaded [OF assms(1-6)] by simp_all
  have "count_list (concat (map (\<lambda>txn. fst (RuleEvaluator_dispatch rules t txn)) txns)) (MEvaluation i f) =
      length txns * count_list (map rule_label rules) (PStr i, PStr f)"
    using assms(7) by (induction txns) (simp_all add: dispatch_evaluations count_labels)
  moreover have "dcount (ct_evaluations (enriched_consumer_thread (register_interface_implementations reg) died Started
        (map rule_label rules) ps no_counts)) (PStr i, PStr f) = messages ps * count_list (map rule_label rules) (PStr i, PStr f)"
    using enriched_loop_count [of "map rule_label rules" ps no_counts]
    by (simp add: enriched_consumer_thread_def registered no_counts_def)
  ultimately show ?thesis by (simp add: m assms(8) RuleEvaluator_init_def)
qed

text \<open>An entry as the rules file of the repository writes it.\<close>

definition yaml_entry :: pyval where
  "yaml_entry = PDict
     [(''rule_id'', PStr ''VEL-001''), (''name'', PStr ''high velocity''), (''family'', PStr ''velocity''),
      (''severity'', PStr ''high''), (''enabled'', PBool True), (''mode'', PStr ''active''),
      (''conditions'', PDict [(''field'', PStr ''vel_count_1m''), (''count'', PInt 5)])]"

lemma yaml_entry_loads:
  "RuleLoader_load pydantic_exact (\<lambda>_. Inr []) (\<lambda>_. Inr (PList [yaml_entry])) ''rules.yaml'' = Inr [high_velocity_rule]"
  by code_simp

lemma bridge_counts_evaluations_witness:
  "dcount (ct_evaluations (enriched_consumer_thread (register_interface_implementations nothing_registered)
      (bridge_thread_died_total nothing_registered) Started
      (build_rule_family_map (\<lambda>p. rbind ((\<lambda>_. Inr []) p) (\<lambda>_. Inr (PList [yaml_entry]))) ''rules.yaml'')
      [No_message, Message (sample_message 0)] no_counts)) (PStr ''VEL-001'', PStr ''velocity'') =
   count_list (fst (RuleEvaluator_dispatch [high_velocity_rule] 0 busy_txn)) (MEvaluation ''VEL-001'' ''velocity'')"
proof -
  have i: "RuleEvaluator_init [high_velocity_rule] = [high_velocity_rule]"
    by (simp add: RuleEvaluator_init_def high_velocity_rule_def)
  have e: "first_error txn [high_velocity_rule] = None" if "txn \<in> set [busy_txn]" for txn
    using that busy_hits by (simp add: first_error_None del: first_error.simps)
  have p: "pydantic_reads pydantic_exact" by (simp add: pydantic_reads_def pydantic_exact_def)
  have w: "list_all plainly_written [yaml_entry]" by (simp add: plainly_written_def yaml_entry_def dget_def)
  from bridge_counts_evaluations [OF p refl refl w yaml_entry_loads _ e,
      of "[busy_txn]" "[No_message, Message (sample_message 0)]" nothing_registered
      "bridge_thread_died_total nothing_registered" "''VEL-001''" "''velocity''" 0]
  show ?thesis by (simp add: messages_def i)
qed

text \<open>Without a registered implementation nothing is counted, and no code registers one.\<close>

lemma unregistered_bridge_counts_nothing:
  "enriched_consumer_thread nothing_registered died Started m ps c = c"
  "alerts_consumer_thread reader str nothing_registered died Started m ps c = c"
proof -
  have "fold (\<lambda>(rid, fam). record_rule_evaluation No_op rid fam) m c = c" for m c
    by (induction m) auto
  then have "enriched_loop No_op m ps c = c" for m c
    by (induction No_op m ps c rule: enriched_loop.induct) auto
  then show "enriched_consumer_thread nothing_registered died Started m ps c = c"
    by (simp add: enriched_consumer_thread_def unregistered)
  have "flag_all No_op m sev names c = c" for m sev names c
    by (induction No_op m sev names c rule: flag_all.induct) auto
  then have "alerts_message reader str No_op m msg c = c" for msg c
    by (simp add: alerts_message_def Let_def split: sum.split pyval.split)
  then have "alerts_loop reader str No_op m ps c = c" for c
    by (induction reader str No_op m ps c rule: alerts_loop.induct) auto
  then show "alerts_consumer_thread reader str nothing_registered died Started m ps c = c"
    by (simp add: alerts_consumer_thread_def unregistered)
qed

text \<open>Once started without rules, only the alerts thread lives: starting again does nothing, and the
  evaluations are never counted until the bridge is stopped.\<close>

lemma start_without_rules:
  assumes "build_rule_family_map load_file path = []" "\<not> list_ex id (bg_threads b)"
  shows "\<not> is_running (bridge_start True load_file path b)
    \<and> bridge_start True load_file' path' (bridge_start True load_file path b) = bridge_start True load_file path b"
  using assms by (simp add: bridge_start_def is_running_def)

text \<open>The counter of dead threads is bound when the module is imported. Imported before anything is
  registered, it counts nothing for good, also when the implementations are registered later.\<close>

lemma deaths_bound_at_import:
  "alerts_consumer_thread reader str (register_interface_implementations reg)
     (bridge_thread_died_total nothing_registered) Start_failed m ps c = c"
  "m \<noteq> [] \<Longrightarrow> ct_threads_died (enriched_consumer_thread reg'
     (bridge_thread_died_total (register_interface_implementations reg)) Start_failed m ps c) =
   ct_threads_died c @ [''metrics-bridge-enriched'']"
  by (simp_all add: alerts_consumer_thread_def enriched_consumer_thread_def bridge_thread_died_total_def get_counter_def
      registered unregistered)

end
