(* ===== verification/Job.thy ===== *)
theory Job
  imports Enrich Config Decision Metrics_Bridge
begin

text \<open>
  The job around the operators of Enrich, \<open>processing/job.py\<close>: the command line, the plan that
  \<open>build_job\<close> hands to Flink, the start sequence of \<open>main\<close>, and the run of a stream of payloads
  through the whole chain, from the bytes of Kafka to the decisions of the scoring stage. What the
  host supplies (PyFlink, the connector archives, the Prometheus server, threads, files) is the
  record \<open>job_host\<close>; of the Flink environment the model keeps the settings the job passes to it.
\<close>

section \<open>The command line\<close>

record job_args =
  ja_kafka_brokers :: "string option"
  ja_schema_registry :: "string option"
  ja_input_topic :: "string option"
  ja_output_topic :: "string option"
  ja_dlq_topic :: "string option"
  ja_checkpoint_dir :: "string option"
  ja_checkpoint_interval_ms :: "int option"
  ja_geoip_db_path :: "string option"
  ja_parallelism :: "int option"
  ja_watermark_ooo_seconds :: "int option"
  ja_allowed_lateness_seconds :: "int option"
  ja_processor_version :: "string option"

definition no_args :: job_args where
  "no_args = \<lparr>ja_kafka_brokers = None, ja_schema_registry = None, ja_input_topic = None, ja_output_topic = None,
     ja_dlq_topic = None, ja_checkpoint_dir = None, ja_checkpoint_interval_ms = None, ja_geoip_db_path = None,
     ja_parallelism = None, ja_watermark_ooo_seconds = None, ja_allowed_lateness_seconds = None,
     ja_processor_version = None\<rparr>"

text \<open>
  \<open>_parse_args\<close> from the options that argparse recognised, in their order: a later one overrides
  an earlier one, and a text that \<open>int\<close> refuses, or an unknown option, ends the process with
  status 2.
\<close>

definition int_option :: "string \<Rightarrow> (int option \<Rightarrow> job_args) \<Rightarrow> int + job_args" where
  "int_option raw f = (case int_of_str raw of None \<Rightarrow> Inl 2 | Some i \<Rightarrow> Inr (f (Some i)))"

definition set_option :: "string \<Rightarrow> string \<Rightarrow> job_args \<Rightarrow> int + job_args" where
  "set_option opt raw a =
     (if opt = ''--kafka-brokers'' then Inr (a\<lparr>ja_kafka_brokers := Some raw\<rparr>)
      else if opt = ''--schema-registry'' then Inr (a\<lparr>ja_schema_registry := Some raw\<rparr>)
      else if opt = ''--input-topic'' then Inr (a\<lparr>ja_input_topic := Some raw\<rparr>)
      else if opt = ''--output-topic'' then Inr (a\<lparr>ja_output_topic := Some raw\<rparr>)
      else if opt = ''--dlq-topic'' then Inr (a\<lparr>ja_dlq_topic := Some raw\<rparr>)
      else if opt = ''--checkpoint-dir'' then Inr (a\<lparr>ja_checkpoint_dir := Some raw\<rparr>)
      else if opt = ''--checkpoint-interval-ms'' then int_option raw (\<lambda>i. a\<lparr>ja_checkpoint_interval_ms := i\<rparr>)
      else if opt = ''--geoip-db-path'' then Inr (a\<lparr>ja_geoip_db_path := Some raw\<rparr>)
      else if opt = ''--parallelism'' then int_option raw (\<lambda>i. a\<lparr>ja_parallelism := i\<rparr>)
      else if opt = ''--watermark-ooo-seconds'' then int_option raw (\<lambda>i. a\<lparr>ja_watermark_ooo_seconds := i\<rparr>)
      else if opt = ''--allowed-lateness-seconds'' then int_option raw (\<lambda>i. a\<lparr>ja_allowed_lateness_seconds := i\<rparr>)
      else if opt = ''--processor-version'' then Inr (a\<lparr>ja_processor_version := Some raw\<rparr>)
      else Inl 2)"

fun parse_options :: "(string \<times> string) list \<Rightarrow> job_args \<Rightarrow> int + job_args" where
  "parse_options [] a = Inr a"
| "parse_options ((opt, raw) # rest) a = (case set_option opt raw a of Inl n \<Rightarrow> Inl n | Inr a' \<Rightarrow> parse_options rest a')"

definition parse_args :: "(string \<times> string) list \<Rightarrow> int + job_args" where
  "parse_args opts = parse_options opts no_args"

section \<open>Configuration of a run\<close>

text \<open>An argument overrides the setting when it is true: given, and neither empty nor zero.\<close>

definition str_override :: "string option \<Rightarrow> string \<Rightarrow> string" where
  "str_override arg old = (case arg of Some s \<Rightarrow> (if s = [] then old else s) | None \<Rightarrow> old)"

definition int_override :: "int option \<Rightarrow> int \<Rightarrow> int" where
  "int_override arg old = (case arg of Some i \<Rightarrow> (if i = 0 then old else i) | None \<Rightarrow> old)"

definition apply_overrides :: "job_args \<Rightarrow> processor_config \<Rightarrow> processor_config" where
  "apply_overrides a c =
     c\<lparr>pc_kafka_brokers := str_override (ja_kafka_brokers a) (pc_kafka_brokers c),
       pc_schema_registry_url := str_override (ja_schema_registry a) (pc_schema_registry_url c),
       pc_input_topic := str_override (ja_input_topic a) (pc_input_topic c),
       pc_output_topic := str_override (ja_output_topic a) (pc_output_topic c),
       pc_dlq_topic := str_override (ja_dlq_topic a) (pc_dlq_topic c),
       pc_checkpoint_dir := str_override (ja_checkpoint_dir a) (pc_checkpoint_dir c),
       pc_checkpoint_interval_ms := int_override (ja_checkpoint_interval_ms a) (pc_checkpoint_interval_ms c),
       pc_geoip_db_path := str_override (ja_geoip_db_path a) (pc_geoip_db_path c),
       pc_parallelism := int_override (ja_parallelism a) (pc_parallelism c),
       pc_watermark_ooo_seconds := int_override (ja_watermark_ooo_seconds a) (pc_watermark_ooo_seconds c),
       pc_allowed_lateness_seconds := int_override (ja_allowed_lateness_seconds a) (pc_allowed_lateness_seconds c),
       pc_processor_version := str_override (ja_processor_version a) (pc_processor_version c)\<rparr>"

definition set_version :: "job_args \<Rightarrow> environ \<Rightarrow> environ" where
  "set_version a env =
     (case ja_processor_version a of Some v \<Rightarrow> (if v = [] then env else env(''PROCESSOR_VERSION'' \<mapsto> v)) | None \<Rightarrow> env)"

definition job_config :: "environ \<Rightarrow> job_args \<Rightarrow> processor_config result" where
  "job_config env a = rbind (ProcessorConfig_init (set_version a env)) (\<lambda>c. Inr (apply_overrides a c))"

section \<open>The plan\<close>

record checkpoint_plan =
  cp_interval_ms :: int
  cp_exactly_once :: bool
  cp_min_pause_ms :: int
  cp_timeout_ms :: int
  cp_max_concurrent :: int
  cp_retain_on_cancellation :: bool

definition checkpoint_settings :: "processor_config \<Rightarrow> checkpoint_plan" where
  "checkpoint_settings c =
     \<lparr>cp_interval_ms = pc_checkpoint_interval_ms c, cp_exactly_once = True, cp_min_pause_ms = 10000,
      cp_timeout_ms = 30000, cp_max_concurrent = 1, cp_retain_on_cancellation = True\<rparr>"

record source_plan =
  so_brokers :: string
  so_topic :: string
  so_group_id :: string
  so_offsets :: string
  so_charset :: string
  so_properties :: "(string \<times> string) list"

definition kafka_source_settings :: "processor_config \<Rightarrow> source_plan" where
  "kafka_source_settings c =
     \<lparr>so_brokers = pc_kafka_brokers c, so_topic = pc_input_topic c, so_group_id = ''flink-enrichment-processor'',
      so_offsets = ''committed, else earliest'', so_charset = ''ISO-8859-1'',
      so_properties = [(''isolation.level'', ''read_committed''), (''enable.auto.commit'', ''false'')]\<rparr>"

record sink_plan =
  si_brokers :: string
  si_topic :: string
  si_guarantee :: string

definition kafka_sink_settings :: "processor_config \<Rightarrow> sink_plan" where
  "kafka_sink_settings c =
     \<lparr>si_brokers = pc_kafka_brokers c, si_topic = pc_output_topic c, si_guarantee = ''AT_LEAST_ONCE''\<rparr>"

record job_host =
  jh_logging :: "string \<Rightarrow> exn option"
  jh_http_server :: "exn option"
  jh_bridge_import :: "exn option"
  jh_threads_up :: bool
  jh_load_file :: "string \<Rightarrow> pyval result"
  jh_pyflink :: "exn option"
  jh_jars :: "string list"
  jh_scoring_import :: "exn option"
  jh_pydantic :: pydantic
  jh_read_file :: "string \<Rightarrow> string result"
  jh_safe_load :: "string \<Rightarrow> pyval result"
  jh_listener :: "exn option"

text \<open>
  The scoring stage. When one of the three imports fails, the name \<open>RuleConfigError\<close> that the first
  handler compares with is unbound, and the comparison itself raises.
\<close>

definition unbound_local :: exn where
  "unbound_local = Exn OtherException ''cannot access local variable 'RuleConfigError' where it is not associated with a value''"

definition scoring_rules :: "job_host \<Rightarrow> environ \<Rightarrow> rule_definition list option result" where
  "scoring_rules h env =
     (case jh_scoring_import h of
        Some e \<Rightarrow> Inl unbound_local
      | None \<Rightarrow>
          (case rbind (ScoringConfig_init env)
                  (\<lambda>sc. RuleLoader_load (jh_pydantic h) (jh_read_file h) (jh_safe_load h) (sc_rules_yaml_path sc)) of
             Inr rules \<Rightarrow> Inr (Some rules)
           | Inl e \<Rightarrow>
               (if isinstance e RuleConfigError then Inl e
                else if isinstance e ImportError then Inr None
                else Inl e)))"

record job_plan =
  jp_parallelism :: int
  jp_jars :: "string list"
  jp_checkpoints :: checkpoint_plan
  jp_source :: source_plan
  jp_input_topic :: string
  jp_allowed_lateness_ms :: int
  jp_geoip_db_path :: string
  jp_rules :: "rule_definition list option"
  jp_sink :: sink_plan
  jp_counts_aborted_checkpoints :: bool

text \<open>The registration of the checkpoint listener is given up on ImportError and AttributeError only.\<close>

definition register_listener :: "job_host \<Rightarrow> bool result" where
  "register_listener h =
     (case jh_listener h of
        None \<Rightarrow> Inr True
      | Some e \<Rightarrow> if isinstance e ImportError \<or> isinstance e AttributeError then Inr False else Inl e)"

definition build_job :: "job_host \<Rightarrow> environ \<Rightarrow> processor_config \<Rightarrow> job_plan result" where
  "build_job h env c =
     (case jh_pyflink h of
        Some e \<Rightarrow> Inl e
      | None \<Rightarrow>
          rbind (scoring_rules h env) (\<lambda>rules.
          rbind (register_listener h) (\<lambda>counts.
            Inr \<lparr>jp_parallelism = pc_parallelism c,
                 jp_jars = map (\<lambda>j. ''file://'' @ j) (jh_jars h),
                 jp_checkpoints = checkpoint_settings c,
                 jp_source = kafka_source_settings c,
                 jp_input_topic = pc_input_topic c,
                 jp_allowed_lateness_ms = pc_allowed_lateness_seconds c * 1000,
                 jp_geoip_db_path = pc_geoip_db_path c,
                 jp_rules = rules,
                 jp_sink = kafka_sink_settings c,
                 jp_counts_aborted_checkpoints = counts\<rparr>)))"

section \<open>The start sequence\<close>

datatype job_end = Finished | Exited int | Uncaught exn

record main_state =
  st_env :: environ
  st_metrics_up :: bool
  st_bridge :: bridge
  st_end :: job_end

text \<open>The configuration has no attribute \<open>rules_yaml_path\<close>, so \<open>getattr\<close> always gives its default.\<close>

definition bridge_rules_path :: "environ \<Rightarrow> string" where
  "bridge_rules_path env = env_get env ''RULES_YAML_PATH'' ''rules/rules.yaml''"

definition end_of :: "exn \<Rightarrow> job_end" where
  "end_of e = (if isinstance e ImportError then Exited 1 else Uncaught e)"

text \<open>\<open>execute\<close> is what Flink does with the plan: it ends, or raises.\<close>

definition main ::
  "job_host \<Rightarrow> (job_plan \<Rightarrow> exn option) \<Rightarrow> (string \<times> string) list \<Rightarrow> environ \<Rightarrow> bridge \<Rightarrow> main_state" where
  "main h execute opts env b =
     (let stopped = (\<lambda>env' r. \<lparr>st_env = env', st_metrics_up = False, st_bridge = b, st_end = r\<rparr>) in
      case jh_logging h (env_get env ''LOG_LEVEL'' ''INFO'') of
        Some e \<Rightarrow> stopped env (Uncaught e)
      | None \<Rightarrow>
          (case parse_args opts of
             Inl n \<Rightarrow> stopped env (Exited n)
           | Inr a \<Rightarrow>
               (let env1 = set_version a env in
                case job_config env a of
                  Inl e \<Rightarrow> stopped env1 (Uncaught e)
                | Inr c \<Rightarrow>
                    (let env2 = env1(''PROMETHEUS_MULTIPROC_DIR'' := None);
                         b' = (if jh_bridge_import h = None
                               then bridge_start (jh_threads_up h) (jh_load_file h) (bridge_rules_path env2) b else b)
                     in \<lparr>st_env = env2, st_metrics_up = (jh_http_server h = None), st_bridge = b',
                         st_end = (case build_job h env2 c of
                                     Inl e \<Rightarrow> end_of e
                                   | Inr p \<Rightarrow> (case execute p of None \<Rightarrow> Finished | Some e \<Rightarrow> end_of e))\<rparr>))))"

section \<open>The run\<close>

text \<open>
  Every element carries its context. The operators are applied in the order of arrival, as one task
  slot does; a payload that does not deserialise disappears.
\<close>

definition txn_stream ::
  "avro_reader \<Rightarrow> string \<Rightarrow> (element_context \<times> 8 word list) list \<Rightarrow> (element_context \<times> raw_transaction) list" where
  "txn_stream rd topic payloads =
     concat (map (\<lambda>(ec, p). map (Pair ec) (fst (deserialise_with_dlq rd (ec_dlq ec) topic p))) payloads)"

fun run_chain ::
  "string \<Rightarrow> int \<Rightarrow> geo_reader option \<Rightarrow> (element_context \<times> raw_transaction) list \<Rightarrow> pipeline_state \<Rightarrow>
     pipeline_state \<times> pipeline_output list" where
  "run_chain v allowed reader [] s = (s, [])"
| "run_chain v allowed reader ((ec, txn) # xs) s =
     (let (s1, out) = pipeline_step v allowed reader ec txn s; (s2, outs) = run_chain v allowed reader xs s1
      in (s2, out # outs))"

fun enriched_records :: "pipeline_output list \<Rightarrow> pydict list" where
  "enriched_records [] = []"
| "enriched_records (Enriched r # outs) = r # enriched_records outs"
| "enriched_records (_ # outs) = enriched_records outs"

record job_output =
  jo_published :: "string list"
  jo_alerts :: "fraud_alert list"
  jo_decisions :: "fraud_decision list"

text \<open>The late dead letters are a side output that no statement of the job reads.\<close>

definition run_enrichment_job ::
  "job_plan \<Rightarrow> string \<Rightarrow> avro_reader \<Rightarrow> geo_reader option \<Rightarrow> (pydict \<Rightarrow> string) \<Rightarrow> (nat \<Rightarrow> int) \<Rightarrow>
     (element_context \<times> 8 word list) list \<Rightarrow> job_output" where
  "run_enrichment_job p version rd reader dumps clock payloads =
     (let outs = snd (run_chain version (jp_allowed_lateness_ms p) reader
                        (txn_stream rd (jp_input_topic p) payloads) pipeline_init);
          enriched = enriched_records outs;
          (alerts, decisions) =
            (case jp_rules p of
               None \<Rightarrow> ([], [])
             | Some rules \<Rightarrow> wire_rule_evaluator rules (zip enriched (map clock [0..<length enriched])))
      in \<lparr>jo_published = map dumps enriched, jo_alerts = alerts, jo_decisions = decisions\<rparr>)"

section \<open>Lemmas\<close>

definition too_late :: "int \<Rightarrow> element_context \<Rightarrow> bool" where
  "too_late allowed ec \<longleftrightarrow> ec_watermark ec \<noteq> no_watermark \<and> ec_timestamp ec < ec_watermark ec - allowed"

lemma map_of_put_opt_Some: "map_of (put_opt m k (Some x)) k' = (if k' = k then Some x else map_of m k')"
  by (simp add: put_opt_def dict_simps)

lemma enrich_tail_seen: "ps_seen (fst (enrich_tail v reader ec txn vel s)) = ps_seen s"
  by (simp add: enrich_tail_def Let_def split: prod.split sum.split)

text \<open>An element seen within the lifetime changes nothing that is visible; any other is recorded.\<close>

lemma pipeline_step_dup:
  assumes "map_of (ps_seen s) (rt_transaction_id txn) = Some (e, w)" "ec_proc_now ec < w + dedup_ttl_ms"
  shows "snd (pipeline_step v allowed reader ec txn s) = Duplicate"
    "map_of (ps_seen (fst (pipeline_step v allowed reader ec txn s))) = map_of (ps_seen s)"
  using assms by (auto simp: pipeline_step_def dedup_process_element_def seen_value_def Let_def map_of_put_opt_Some)

lemma pipeline_step_fresh:
  assumes "map_of (ps_seen s) (rt_transaction_id txn) = None"
  shows "map_of (ps_seen (fst (pipeline_step v allowed reader ec txn s))) =
      (map_of (ps_seen s))(rt_transaction_id txn \<mapsto> (ec_timestamp ec, ec_proc_now ec))"
    "if too_late allowed ec then \<exists>r. snd (pipeline_step v allowed reader ec txn s) = Late r
     else \<exists>rec. snd (pipeline_step v allowed reader ec txn s) = Enriched rec \<and>
            dget rec ''transaction_id'' = PStr (rt_transaction_id txn) \<and> has_key rec ''transaction_id''"
proof -
  define bs where "bs = (case map_of (ps_velocity s) (rt_account_id txn) of None \<Rightarrow> [] | Some b \<Rightarrow> b)"
  let ?bk = "bucket_of (ec_timestamp ec)"
  let ?bs = "add_to_bucket bs ?bk (rt_amount txn)"
  let ?seen = "put_opt (ps_seen s) (rt_transaction_id txn) (Some (ec_timestamp ec, ec_proc_now ec))"
  define s2 where "s2 = s\<lparr>ps_seen := ?seen, ps_velocity := dset (ps_velocity s) (rt_account_id txn) ?bs\<rparr>"
  have step: "if too_late allowed ec
      then pipeline_step v allowed reader ec txn s =
        (s\<lparr>ps_seen := ?seen\<rparr>, Late (the (vs_dlq (velocity_process_element (ec_dlq ec) allowed (ec_timestamp ec) (ec_watermark ec) txn bs))))
      else pipeline_step v allowed reader ec txn s = enrich_tail v reader ec txn (compute_velocity ?bs ?bk) s2"
    using assms by (auto simp: pipeline_step_def dedup_process_element_def seen_value_def velocity_process_element_def
        bs_def [symmetric] s2_def too_late_def Let_def)
  have seen: "map_of ?seen = (map_of (ps_seen s))(rt_transaction_id txn \<mapsto> (ec_timestamp ec, ec_proc_now ec))"
    by (rule ext) (simp add: map_of_put_opt_Some)
  show "map_of (ps_seen (fst (pipeline_step v allowed reader ec txn s))) =
      (map_of (ps_seen s))(rt_transaction_id txn \<mapsto> (ec_timestamp ec, ec_proc_now ec))"
    using step seen by (simp add: enrich_tail_seen s2_def split: if_splits)
  obtain s' rec device et el where e: "enrich_tail v reader ec txn (compute_velocity ?bs ?bk) s2 = (s', Enriched rec)"
    "assemble_record v txn (compute_velocity ?bs ?bk) (snd (geo_map reader txn (ps_geo_cache s2))) device et el = Inr rec"
    using enrich_tail_enriched by blast
  then have "dget rec ''transaction_id'' = PStr (rt_transaction_id txn)"
    using assemble_record_Inr [of v txn ?bs ?bk "snd (geo_map reader txn (ps_geo_cache s2))" device et el] by auto
  then have "dget rec ''transaction_id'' = PStr (rt_transaction_id txn) \<and> has_key rec ''transaction_id''"
    by (auto simp: dget_def has_key_def split: option.splits)
  with e step show "if too_late allowed ec then \<exists>r. snd (pipeline_step v allowed reader ec txn s) = Late r
     else \<exists>rec. snd (pipeline_step v allowed reader ec txn s) = Enriched rec \<and>
            dget rec ''transaction_id'' = PStr (rt_transaction_id txn) \<and> has_key rec ''transaction_id''"
    by (auto split: if_splits)
qed

text \<open>Within one lifetime the chain emits a record for the first arrival of each identifier, unless it is late.\<close>

lemma run_chain_enriched:
  assumes "\<And>i. (map_of (ps_seen s) i \<noteq> None) = (i \<in> seen)"
    and "\<And>i e w. map_of (ps_seen s) i = Some (e, w) \<Longrightarrow> t0 \<le> w"
    and "\<forall>x \<in> set xs. t0 \<le> ec_proc_now (fst x) \<and> ec_proc_now (fst x) < t0 + dedup_ttl_ms"
  shows "map (\<lambda>r. dget_or r ''transaction_id'' (PStr [])) (enriched_records (snd (run_chain v allowed reader xs s))) =
    map (\<lambda>x. PStr (rt_transaction_id (snd x)))
      (filter (\<lambda>x. \<not> too_late allowed (fst x)) (keep_first (\<lambda>x. rt_transaction_id (snd x)) seen xs))"
  using assms
proof (induction xs arbitrary: s seen)
  case (Cons x xs)
  obtain ec txn where x: "x = (ec, txn)" by fastforce
  obtain s1 out where p: "pipeline_step v allowed reader ec txn s = (s1, out)" by fastforce
  have rest: "\<forall>y \<in> set xs. t0 \<le> ec_proc_now (fst y) \<and> ec_proc_now (fst y) < t0 + dedup_ttl_ms"
    and now: "t0 \<le> ec_proc_now ec" "ec_proc_now ec < t0 + dedup_ttl_ms"
    using Cons.prems(3) x by auto
  show ?case
  proof (cases "rt_transaction_id txn \<in> seen")
    case True
    then obtain e w where m: "map_of (ps_seen s) (rt_transaction_id txn) = Some (e, w)"
      using Cons.prems(1) by fastforce
    then have "ec_proc_now ec < w + dedup_ttl_ms" using Cons.prems(2) now by fastforce
    note d = pipeline_step_dup [OF m this, of v allowed reader, unfolded p, simplified]
    have "map (\<lambda>r. dget_or r ''transaction_id'' (PStr [])) (enriched_records (snd (run_chain v allowed reader xs s1))) =
      map (\<lambda>x. PStr (rt_transaction_id (snd x)))
        (filter (\<lambda>x. \<not> too_late allowed (fst x)) (keep_first (\<lambda>x. rt_transaction_id (snd x)) seen xs))"
      by (rule Cons.IH) (use Cons.prems rest d in auto)
    then show ?thesis using True by (simp add: x p d case_prod_unfold Let_def)
  next
    case False
    then have m: "map_of (ps_seen s) (rt_transaction_id txn) = None" using Cons.prems(1) by blast
    note f = pipeline_step_fresh [OF m, where v = v and allowed = allowed and reader = reader and ec = ec, unfolded p, simplified]
    have "map (\<lambda>r. dget_or r ''transaction_id'' (PStr [])) (enriched_records (snd (run_chain v allowed reader xs s1))) =
      map (\<lambda>x. PStr (rt_transaction_id (snd x)))
        (filter (\<lambda>x. \<not> too_late allowed (fst x))
          (keep_first (\<lambda>x. rt_transaction_id (snd x)) (insert (rt_transaction_id txn) seen) xs))"
    proof (rule Cons.IH [OF _ _ rest])
      show "(map_of (ps_seen s1) i \<noteq> None) = (i \<in> insert (rt_transaction_id txn) seen)" for i
        using Cons.prems(1) by (simp add: f(1))
      show "t0 \<le> w" if "map_of (ps_seen s1) i = Some (e, w)" for i e w
        using that Cons.prems(2) now(1) by (auto simp: f(1) split: if_splits)
    qed
    then show ?thesis using False f(2)
      by (auto simp: x p case_prod_unfold Let_def dget_or_def dget_def has_key_def split: if_splits option.splits)
  qed
qed simp

lemma wired_transaction_ids:
  "map fd_transaction_id (snd (wire_rule_evaluator rules stream)) =
     map (\<lambda>x. dget_or (fst x) ''transaction_id'' (PStr [])) stream"
  by (simp add: wire_rule_evaluator_def Let_def case_prod_unfold evaluate_txn_spec build_fraud_decision_def split: option.splits)

definition sample_plan :: job_plan where
  "sample_plan = \<lparr>jp_parallelism = 1, jp_jars = [], jp_checkpoints = \<lparr>cp_interval_ms = 60000, cp_exactly_once = True,
      cp_min_pause_ms = 10000, cp_timeout_ms = 30000, cp_max_concurrent = 1, cp_retain_on_cancellation = True\<rparr>,
     jp_source = \<lparr>so_brokers = [], so_topic = ''txn.api'', so_group_id = [], so_offsets = [], so_charset = [], so_properties = []\<rparr>,
     jp_input_topic = ''txn.api'', jp_allowed_lateness_ms = 30000, jp_geoip_db_path = [], jp_rules = Some [],
     jp_sink = \<lparr>si_brokers = [], si_topic = [], si_guarantee = []\<rparr>, jp_counts_aborted_checkpoints = False\<rparr>"

lemma zip_clock: "map (\<lambda>x. f (fst x)) (zip xs (map clock [0..<length xs])) = map f xs"
  by (rule nth_equalityI) simp_all

text \<open>
  Settings of the command line without effect: a zero, and everything the plan does not read, among
  it the out-of-orderness of the watermarks, the dead-letter topic and the checkpoint directory.
\<close>

lemma zero_option_ignored:
  "job_config env (a\<lparr>ja_allowed_lateness_seconds := Some 0\<rparr>) = job_config env (a\<lparr>ja_allowed_lateness_seconds := None\<rparr>)"
  by (simp add: job_config_def set_version_def apply_overrides_def int_override_def)

lemma plan_ignores_settings:
  "build_job h env (c\<lparr>pc_watermark_ooo_seconds := n, pc_dlq_topic := d, pc_checkpoint_dir := dir,
     pc_schema_registry_url := u, pc_processor_version := v\<rparr>) = build_job h env c"
  by (simp add: build_job_def checkpoint_settings_def kafka_source_settings_def kafka_sink_settings_def
      cong: option.case_cong)

text \<open>Without a setting the scoring stage and the metrics bridge read different rule files.\<close>

lemma rules_paths_differ:
  assumes "env ''RULES_YAML_PATH'' = None" "ScoringConfig_init env = Inr sc"
  shows "sc_rules_yaml_path sc = ''/opt/rules/rules.yaml'' \<and> bridge_rules_path env = ''rules/rules.yaml''"
  using assms by (auto simp: ScoringConfig_init_def ScoringConfig_post_init_def bridge_rules_path_def env_get_def
      result_simps split: if_splits)

text \<open>The fallback without the scoring package is never reached.\<close>

lemma missing_scoring_aborts:
  assumes "jh_pyflink h = None" "jh_scoring_import h = Some e"
  shows "build_job h env c = Inl unbound_local"
  using assms by (simp add: build_job_def scoring_rules_def)

text \<open>An invalid rules file stops the process with the loader's error.\<close>

lemma invalid_rules_stop_the_job:
  assumes "jh_logging h (env_get env ''LOG_LEVEL'' ''INFO'') = None" "parse_args opts = Inr a" "job_config env a = Inr c"
    and "jh_pyflink h = None" "jh_scoring_import h = None"
    and "ScoringConfig_init ((set_version a env)(''PROMETHEUS_MULTIPROC_DIR'' := None)) = Inr sc"
    and "RuleLoader_load (jh_pydantic h) (jh_read_file h) (jh_safe_load h) (sc_rules_yaml_path sc) = Inl e"
    and "exn_cls e = RuleConfigError"
  shows "st_end (main h execute opts env b) = Uncaught e"
  using assms by (simp add: main_def build_job_def scoring_rules_def isinstance_def end_of_def Let_def)

lemma deserialised_once: "length (txn_stream rd topic payloads) \<le> length payloads"
  by (induction payloads)
    (auto simp: txn_stream_def deserialise_with_dlq_def case_prod_unfold split: sum.splits)

lemma enriched_records_length: "length (enriched_records outs) \<le> length outs"
  by (induction outs rule: enriched_records.induct) auto

section \<open>Properties\<close>

text \<open>The job decides every transaction once. Over a run that fits into the lifetime of the
  deduplication state, the decisions are, in order, those of the payloads that deserialise, each
  transaction identifier at its first arrival only, without the arrivals behind the allowed lateness.\<close>

theorem job_decides_each_once:
  assumes "jp_rules p = Some rules"
    and "\<forall>x \<in> set payloads. t0 \<le> ec_proc_now (fst x) \<and> ec_proc_now (fst x) < t0 + dedup_ttl_ms"
  shows "map fd_transaction_id (jo_decisions (run_enrichment_job p version rd reader dumps clock payloads)) =
    map (\<lambda>x. PStr (rt_transaction_id (snd x)))
      (filter (\<lambda>x. \<not> too_late (jp_allowed_lateness_ms p) (fst x))
        (keep_first (\<lambda>x. rt_transaction_id (snd x)) {} (txn_stream rd (jp_input_topic p) payloads)))"
proof -
  let ?xs = "txn_stream rd (jp_input_topic p) payloads"
  let ?rs = "enriched_records (snd (run_chain version (jp_allowed_lateness_ms p) reader ?xs pipeline_init))"
  have "\<forall>x \<in> set ?xs. t0 \<le> ec_proc_now (fst x) \<and> ec_proc_now (fst x) < t0 + dedup_ttl_ms"
    using assms(2) by (fastforce simp: txn_stream_def)
  then have "map (\<lambda>r. dget_or r ''transaction_id'' (PStr [])) ?rs =
    map (\<lambda>x. PStr (rt_transaction_id (snd x)))
      (filter (\<lambda>x. \<not> too_late (jp_allowed_lateness_ms p) (fst x)) (keep_first (\<lambda>x. rt_transaction_id (snd x)) {} ?xs))"
    by (intro run_chain_enriched) (auto simp: pipeline_init_def)
  then show ?thesis
    by (simp add: run_enrichment_job_def assms(1) case_prod_unfold Let_def wired_transaction_ids
        zip_clock [of "\<lambda>r. dget_or r ''transaction_id'' (PStr [])"])
qed

lemma job_decides_each_once_witness:
  "map fd_transaction_id (jo_decisions (run_enrichment_job sample_plan ''v'' (\<lambda>_. Inr sample_decoded) None (\<lambda>_. []) (\<lambda>_. 0)
      [(idle_context, [0, 0, 0, 0, 7, 1]), (idle_context, [0]), (idle_context, [0, 0, 0, 0, 7, 1])])) =
    [PStr (rt_transaction_id sample_raw)]"
proof -
  have "deserialise_raw_transaction (\<lambda>_. Inr sample_decoded) None [0, 0, 0, 0, 7, 1] =
      Inr (sample_raw\<lparr>rt_event_time := 5, rt_processing_time := 6\<rparr>)"
    "deserialise_raw_transaction (\<lambda>_. Inr sample_decoded) None [0] = schema_error ''Payload too short: 1 bytes''"
    by code_simp+
  then have stream: "txn_stream (\<lambda>_. Inr sample_decoded) ''txn.api''
      [(idle_context, [0, 0, 0, 0, 7, 1]), (idle_context, [0]), (idle_context, [0, 0, 0, 0, 7, 1])] =
      replicate 2 (idle_context, sample_raw\<lparr>rt_event_time := 5, rt_processing_time := 6\<rparr>)"
    by (simp add: txn_stream_def deserialise_with_dlq_def schema_error_def raise_exn_def numeral_2_eq_2)
  have plan: "jp_rules sample_plan = Some []" "jp_input_topic sample_plan = ''txn.api''"
    and idle: "ec_proc_now idle_context = 2000" "ec_watermark idle_context = no_watermark"
    by (simp_all add: sample_plan_def idle_context_def)
  show ?thesis
    using job_decides_each_once [where p = sample_plan and rules = "[]" and ?t0.0 = 0 and version = "''v''"
        and rd = "\<lambda>_. Inr sample_decoded" and reader = None and dumps = "\<lambda>_. []" and clock = "\<lambda>_. 0"
        and payloads = "[(idle_context, [0, 0, 0, 0, 7, 1]), (idle_context, [0]), (idle_context, [0, 0, 0, 0, 7, 1])]"]
    by (simp add: plan stream idle dedup_ttl_ms_def too_late_def numeral_2_eq_2)
qed

text \<open>Monitoring never decides whether the job runs: the result of the process is the same whatever
  becomes of the metrics server and of the metrics bridge.\<close>

theorem monitoring_never_stops_the_job:
  "st_end (main (h\<lparr>jh_http_server := x, jh_bridge_import := y, jh_threads_up := z, jh_load_file := l\<rparr>) execute opts env b) =
   st_end (main h execute opts env b')"
proof -
  let ?h = "h\<lparr>jh_http_server := x, jh_bridge_import := y, jh_threads_up := z, jh_load_file := l\<rparr>"
  have "scoring_rules ?h = scoring_rules h" "register_listener ?h = register_listener h"
    by (simp_all add: scoring_rules_def register_listener_def fun_eq_iff cong: option.case_cong sum.case_cong)
  then have "build_job ?h = build_job h" by (simp add: build_job_def fun_eq_iff cong: option.case_cong)
  then show ?thesis by (simp add: main_def Let_def split: sum.split option.split)
qed

end
