(* ===== verification/Observability.thy ===== *)
theory Observability
  imports Pyval Config
begin

text \<open>
  What surrounds the pipeline without deciding anything: the null-safe metric proxies
  (\<open>shared/safe_metric.py\<close>, \<open>scoring/safe_metrics.py\<close>), the scrape endpoint that starts once per
  process (\<open>ingestion/api/metrics.py\<close>), metrics registered before (\<open>analytics/consumers/metrics.py\<close>), the logging set-up of the
  processor (\<open>processing/logging_config.py\<close>), and the Arrow tables of \<open>shared/arrow_utils.py\<close>.
  Prometheus, the logging framework and pyarrow are arguments.
\<close>

section \<open>The metric proxy\<close>

text \<open>
  A metric object is a handle \<open>'m\<close>; reading an attribute gives nothing, a value that is not callable,
  or a method, which changes the state of the metrics and returns an object, \<open>None\<close>, or raises.
\<close>

datatype ('m, 'st) attr =
    Absent
  | Plain pyval
  | Method "pyval list \<Rightarrow> 'st \<Rightarrow> 'st \<times> 'm option result"

datatype ('m, 'st) proxied =
    ProxyValue pyval
  | ProxyMethod "pyval list \<Rightarrow> 'st \<Rightarrow> 'st \<times> 'm option"

definition safe_getattr :: "('m \<Rightarrow> string \<Rightarrow> ('m, 'st) attr) \<Rightarrow> 'm option \<Rightarrow> string \<Rightarrow> ('m, 'st) proxied" where
  "safe_getattr attr_of m name =
     (case m of
        None \<Rightarrow> ProxyMethod (\<lambda>args st. (st, None))
      | Some h \<Rightarrow>
          (case attr_of h name of
             Absent \<Rightarrow> ProxyMethod (\<lambda>args st. (st, None))
           | Plain v \<Rightarrow> ProxyValue v
           | Method f \<Rightarrow>
               ProxyMethod (\<lambda>args st. case f args st of (st', Inr r) \<Rightarrow> (st', r) | (st', Inl e) \<Rightarrow> (st', None))))"

text \<open>A chain of calls \<open>m.labels(...).inc()\<close> on the proxy, and on the object itself.\<close>

fun safe_chain ::
  "('m \<Rightarrow> string \<Rightarrow> ('m, 'st) attr) \<Rightarrow> (string \<times> pyval list) list \<Rightarrow> 'm option \<Rightarrow> 'st \<Rightarrow> 'st \<times> 'm option result" where
  "safe_chain attr_of [] m st = (st, Inr m)"
| "safe_chain attr_of ((name, args) # calls) m st =
     (case safe_getattr attr_of m name of
        ProxyValue v \<Rightarrow> (st, raise_exn TypeError ''object is not callable'')
      | ProxyMethod f \<Rightarrow> (let (st', m') = f args st in safe_chain attr_of calls m' st'))"

fun direct_chain ::
  "('m \<Rightarrow> string \<Rightarrow> ('m, 'st) attr) \<Rightarrow> (string \<times> pyval list) list \<Rightarrow> 'm option \<Rightarrow> 'st \<Rightarrow> 'st \<times> 'm option result" where
  "direct_chain attr_of [] m st = (st, Inr m)"
| "direct_chain attr_of ((name, args) # calls) m st =
     (case m of
        None \<Rightarrow> (st, raise_exn AttributeError name)
      | Some h \<Rightarrow>
          (case attr_of h name of
             Absent \<Rightarrow> (st, raise_exn AttributeError name)
           | Plain v \<Rightarrow> (st, raise_exn TypeError ''object is not callable'')
           | Method f \<Rightarrow>
               (case f args st of (st', Inr r) \<Rightarrow> direct_chain attr_of calls r st' | (st', Inl e) \<Rightarrow> (st', Inl e))))"

section \<open>Metrics that may be absent\<close>

text \<open>
  \<open>SafeCounter\<close>, \<open>SafeGauge\<close> and \<open>SafeHistogram\<close>: the object of Prometheus, when its package is there.
  Their methods hand the call on, with whatever it raises, or do nothing.
\<close>

definition safe_init :: "bool \<Rightarrow> (string \<Rightarrow> string list \<Rightarrow> 'm result) \<Rightarrow> string \<Rightarrow> string list \<Rightarrow> 'm option result" where
  "safe_init has_prometheus mk name labelnames =
     (if has_prometheus then rbind (mk name labelnames) (\<lambda>m. Inr (Some m)) else Inr None)"

datatype 'c child = NoOp | Real 'c

definition safe_labels :: "'m option \<Rightarrow> ('m \<Rightarrow> 'c result) \<Rightarrow> 'c child result" where
  "safe_labels inner labels = (case inner of None \<Rightarrow> Inr NoOp | Some m \<Rightarrow> rbind (labels m) (\<lambda>c. Inr (Real c)))"

definition safe_update :: "'m option \<Rightarrow> ('m \<Rightarrow> 'st \<Rightarrow> 'st result) \<Rightarrow> 'st \<Rightarrow> 'st result" where
  "safe_update inner f st = (case inner of None \<Rightarrow> Inr st | Some m \<Rightarrow> f m st)"

definition child_update :: "'c child \<Rightarrow> ('c \<Rightarrow> 'st \<Rightarrow> 'st result) \<Rightarrow> 'st \<Rightarrow> 'st result" where
  "child_update ch f st = (case ch of NoOp \<Rightarrow> Inr st | Real c \<Rightarrow> f c st)"

definition safe_labelnames :: "'m option \<Rightarrow> ('m \<Rightarrow> string list) \<Rightarrow> string list" where
  "safe_labelnames inner names = (case inner of None \<Rightarrow> [] | Some m \<Rightarrow> names m)"

section \<open>Starting a scrape endpoint\<close>

text \<open>
  The environment remembers that the endpoint was started; a port that is taken counts as started.
  \<open>serve\<close> is \<open>start_http_server\<close>. The result carries the port that was asked for, if any.
\<close>

definition ingestion_metrics_key :: string where
  "ingestion_metrics_key = ''_FRAUDSTREAM_INGESTION_METRICS_STARTED''"

definition start_once :: "(int \<Rightarrow> exn option) \<Rightarrow> string \<Rightarrow> int \<Rightarrow> environ \<Rightarrow> (environ \<times> int option) result" where
  "start_once serve key port env =
     (case serve port of
        Some e \<Rightarrow> (if isinstance e OSError then Inr (env(key \<mapsto> ''1''), Some port) else Inl e)
      | None \<Rightarrow> Inr (env(key \<mapsto> ''1''), Some port))"

definition ingestion_start_metrics_server ::
  "(int \<Rightarrow> exn option) \<Rightarrow> int option \<Rightarrow> environ \<Rightarrow> (environ \<times> int option) result" where
  "ingestion_start_metrics_server serve port env =
     (if env_get env ingestion_metrics_key [] \<noteq> [] then Inr (env, None)
      else rbind (case port of Some p \<Rightarrow> (if p = 0 then env_int env ''PROMETHEUS_PORT'' ''8001'' else Inr p)
                  | None \<Rightarrow> env_int env ''PROMETHEUS_PORT'' ''8001'')
             (\<lambda>effective. start_once serve ingestion_metrics_key effective env))"

text \<open>\<open>_gauge\<close> and \<open>_counter\<close>: a metric registered before under the name is used again.\<close>

definition get_or_create :: "(string \<Rightarrow> string list \<Rightarrow> 'm result) \<Rightarrow> (string \<times> 'm) list \<Rightarrow> string \<Rightarrow> string list \<Rightarrow>
    ((string \<times> 'm) list \<times> 'm) result" where
  "get_or_create mk registered name labelnames =
     (case mk name labelnames of
        Inr m \<Rightarrow> Inr (dset registered name m, m)
      | Inl e \<Rightarrow>
          (if isinstance e ValueError
           then (case map_of registered name of
                   None \<Rightarrow> raise_exn KeyError (repr_str name)
                 | Some m \<Rightarrow> Inr (registered, m))
           else Inl e))"

section \<open>Logging\<close>

text \<open>The transaction of a thread, by the thread's name.\<close>

type_synonym thread_store = "(string \<times> string) list"

definition set_transaction_id :: "string \<Rightarrow> string option \<Rightarrow> thread_store \<Rightarrow> thread_store" where
  "set_transaction_id thread txn_id tls = dset tls thread (case txn_id of None \<Rightarrow> [] | Some t \<Rightarrow> t)"

definition get_transaction_id :: "string \<Rightarrow> thread_store \<Rightarrow> string" where
  "get_transaction_id thread tls = (case map_of tls thread of None \<Rightarrow> [] | Some t \<Rightarrow> t)"

record log_record =
  lr_created :: pyfloat
  lr_level :: string
  lr_name :: string
  lr_message :: string
  lr_transaction_id :: "string option"
  lr_exc_info :: bool
  lr_exc_text :: string

definition transaction_filter :: "string \<Rightarrow> thread_store \<Rightarrow> log_record \<Rightarrow> log_record \<times> bool" where
  "transaction_filter thread tls r = (r\<lparr>lr_transaction_id := Some (get_transaction_id thread tls)\<rparr>, True)"

text \<open>\<open>iso\<close> is the ISO text of the creation time, \<open>format_exception\<close> that of the exception.\<close>

definition format_exception_info :: "(log_record \<Rightarrow> string) \<Rightarrow> log_record \<Rightarrow> log_record" where
  "format_exception_info format_exception r =
     (if lr_exc_info r \<and> lr_exc_text r = [] then r\<lparr>lr_exc_text := format_exception r\<rparr> else r)"

definition json_payload :: "(pyfloat \<Rightarrow> string) \<Rightarrow> (log_record \<Rightarrow> string) \<Rightarrow> log_record \<Rightarrow> pydict" where
  "json_payload iso_of format_exception r =
     (let r' = format_exception_info format_exception r in
      [(''timestamp'', PStr (iso_of (lr_created r'))),
       (''level'', PStr (lr_level r')),
       (''component'', PStr (lr_name r')),
       (''transaction_id'', PStr (case lr_transaction_id r' of None \<Rightarrow> [] | Some t \<Rightarrow> t)),
       (''message'', PStr (lr_message r'))] @
      (if lr_exc_text r' = [] then [] else [(''exception'', PStr (lr_exc_text r'))]))"

text \<open>
  \<open>configure_logging\<close>: one handler at the root, which filters with the transaction and formats as JSON.
  \<open>emitted_line\<close> is what the handler makes of a record that reaches it.
\<close>

record log_setup =
  ls_version :: int
  ls_disable_existing :: bool
  ls_filters :: "string list"
  ls_formatter :: string
  ls_handler_class :: string
  ls_stream :: string
  ls_level :: string

definition configure_logging :: "string \<Rightarrow> log_setup" where
  "configure_logging level =
     \<lparr>ls_version = 1, ls_disable_existing = False, ls_filters = [''transaction_filter''], ls_formatter = ''json'',
      ls_handler_class = ''logging.StreamHandler'', ls_stream = ''ext://sys.stdout'', ls_level = level\<rparr>"

definition emitted_line ::
  "(pydict \<Rightarrow> string) \<Rightarrow> (pyfloat \<Rightarrow> string) \<Rightarrow> (log_record \<Rightarrow> string) \<Rightarrow> log_setup \<Rightarrow> string \<Rightarrow> thread_store \<Rightarrow>
     log_record \<Rightarrow> string option" where
  "emitted_line dumps iso_of format_exception setup thread tls r =
     (let (r', keep) = (if ''transaction_filter'' \<in> set (ls_filters setup) then transaction_filter thread tls r else (r, True))
      in if keep then Some (dumps (json_payload iso_of format_exception r')) else None)"

section \<open>Arrow tables\<close>

text \<open>
  The two nested loops of \<open>build_arrow_table\<close>, which append one cell at a time, and the table, whose
  columns pyarrow builds (\<open>arrow\<close>) from the collected cells.
\<close>

fun append_fields ::
  "(string \<Rightarrow> pyval \<Rightarrow> pyval result) \<Rightarrow> pydict \<Rightarrow> string list \<Rightarrow> (string \<times> pyval list) list \<Rightarrow> (string \<times> pyval list) list result" where
  "append_fields coerce record [] columns = Inr columns"
| "append_fields coerce record (name # names) columns =
     rbind (coerce name (dget record name)) (\<lambda>cell.
       append_fields coerce record names (dset columns name (the (map_of columns name) @ [cell])))"

fun append_records ::
  "(string \<Rightarrow> pyval \<Rightarrow> pyval result) \<Rightarrow> string list \<Rightarrow> pydict list \<Rightarrow> (string \<times> pyval list) list \<Rightarrow> (string \<times> pyval list) list result" where
  "append_records coerce names [] columns = Inr columns"
| "append_records coerce names (r # rs) columns =
     rbind (append_fields coerce r names columns) (append_records coerce names rs)"

definition build_arrow_table ::
  "(string \<Rightarrow> pyval list \<Rightarrow> 'a result) \<Rightarrow> string list \<Rightarrow> pydict list \<Rightarrow> (string \<Rightarrow> pyval \<Rightarrow> pyval result) \<Rightarrow> (string \<times> 'a) list result" where
  "build_arrow_table arrow names records coerce =
     rbind (append_records coerce names records (fold (\<lambda>n c. dset c n []) names [])) (\<lambda>columns.
       rbind (rmap (\<lambda>n. arrow n (the (map_of columns n))) names) (\<lambda>arrays.
         Inr (fold (\<lambda>(n, a) t. dset t n a) (zip names arrays) [])))"

section \<open>Lemmas\<close>

text \<open>Where the direct calls succeed, the proxy does the same.\<close>

lemma safe_chain_direct:
  "direct_chain attr_of calls m st = (st', Inr r) \<Longrightarrow> safe_chain attr_of calls m st = (st', Inr r)"
proof (induction attr_of calls m st rule: direct_chain.induct)
  case (2 attr_of name args calls m st)
  then obtain h f st1 r1 where "m = Some h" "attr_of h name = Method f" "f args st = (st1, Inr r1)"
    "direct_chain attr_of calls r1 st1 = (st', Inr r)"
    by (auto split: option.splits attr.splits prod.splits sum.splits)
  then show ?case using 2 by (simp add: safe_getattr_def)
qed simp

text \<open>On a metric all of whose attributes are methods, the proxy never raises.\<close>

lemma safe_chain_never_raises:
  assumes "\<And>h name v. attr_of h name \<noteq> Plain v"
  shows "\<exists>st' r. safe_chain attr_of calls m st = (st', Inr r)"
proof (induction calls arbitrary: m st)
  case (Cons call calls)
  obtain name args where "call = (name, args)" by fastforce
  then show ?case
    using Cons.IH assms
    by (auto simp: safe_getattr_def Let_def split: option.split attr.split prod.split sum.split)
qed simp

text \<open>Once started, the endpoint is not started again, on whatever port.\<close>

lemma started_once:
  assumes "ingestion_start_metrics_server serve port env = Inr (env', p)"
  shows "ingestion_start_metrics_server serve port' env' = Inr (env', None)"
  using assms
  by (auto simp: ingestion_start_metrics_server_def start_once_def env_get_def result_simps
      split: option.splits if_splits sum.splits)

text \<open>Every line of a thread carries the transaction the thread has set, whatever other threads set.\<close>

lemma logs_own_transaction:
  "dget (json_payload iso_of fe (fst (transaction_filter t (set_transaction_id t (Some i) (set_transaction_id u j tls)) r))) ''transaction_id'' = PStr i"
  by (simp add: json_payload_def transaction_filter_def get_transaction_id_def set_transaction_id_def
      format_exception_info_def dict_simps dget_def Let_def)

lemma configured_lines_carry_transaction:
  "emitted_line dumps iso_of fe (configure_logging level) t (set_transaction_id t (Some i) tls) r =
     Some (dumps (json_payload iso_of fe (r\<lparr>lr_transaction_id := Some i\<rparr>)))"
  by (simp add: emitted_line_def configure_logging_def transaction_filter_def get_transaction_id_def set_transaction_id_def
      dict_simps)

lemma dset_map: "distinct ns \<Longrightarrow> k \<in> set ns \<Longrightarrow>
    dset (map (\<lambda>n. (n, g n)) ns) k v = map (\<lambda>n. (n, if n = k then v else g n)) ns"
  by (induction ns) (auto simp: dset_def)

lemma map_of_columns: "n \<in> set ns \<Longrightarrow> map_of (map (\<lambda>n. (n, g n)) ns) n = Some (g n)"
  by (induction ns) auto

lemma append_fields_columns:
  assumes "distinct all" "\<And>n v. coerce n v = Inr (f n v)"
  shows "distinct ns \<Longrightarrow> set ns \<subseteq> set all \<Longrightarrow>
    append_fields coerce r ns (map (\<lambda>n. (n, g n)) all) =
      Inr (map (\<lambda>n. (n, if n \<in> set ns then g n @ [f n (dget r n)] else g n)) all)"
proof (induction ns arbitrary: g)
  case (Cons k ns)
  then have "append_fields coerce r (k # ns) (map (\<lambda>n. (n, g n)) all) =
      append_fields coerce r ns (map (\<lambda>n. (n, if n = k then g k @ [f k (dget r k)] else g n)) all)"
    by (simp add: assms map_of_columns dset_map)
  also have "\<dots> = Inr (map (\<lambda>n. (n, if n \<in> set (k # ns) then g n @ [f n (dget r n)] else g n)) all)"
    using Cons by (subst Cons.IH) (auto intro!: map_cong)
  finally show ?case .
qed simp

text \<open>The collected columns are the transposed records.\<close>

lemma append_records_columns:
  assumes "distinct names" "\<And>n v. coerce n v = Inr (f n v)"
  shows "append_records coerce names rs (map (\<lambda>n. (n, g n)) names) =
    Inr (map (\<lambda>n. (n, g n @ map (\<lambda>r. f n (dget r n)) rs)) names)"
proof (induction rs arbitrary: g)
  case (Cons r rs)
  have "append_fields coerce r names (map (\<lambda>n. (n, g n)) names) =
      Inr (map (\<lambda>n. (n, g n @ [f n (dget r n)])) names)"
    using append_fields_columns [OF assms assms(1) subset_refl] by (simp cong: map_cong)
  then show ?case using Cons.IH by simp
qed simp

lemma fold_dset_new:
  "distinct (map fst (m @ xs)) \<Longrightarrow> fold (\<lambda>(k, v) t. dset t k v) xs m = m @ xs"
  by (induction xs arbitrary: m) (auto simp: dset_new case_prod_unfold)

lemma empty_columns:
  assumes "distinct names"
  shows "fold (\<lambda>n c. dset c n []) names [] = map (\<lambda>n. (n, [])) names"
proof -
  have "fold (\<lambda>n c. dset c n []) names [] = fold (\<lambda>(k, v) t. dset t k v) (map (\<lambda>n. (n, [])) names) []"
    by (simp add: fold_map o_def)
  also have "\<dots> = map (\<lambda>n. (n, [])) names"
    using assms by (subst fold_dset_new) (simp_all add: o_def)
  finally show ?thesis .
qed

text \<open>The table has, per field of the schema and in its order, the coerced cells of all records.\<close>

lemma build_arrow_table_columns:
  assumes "distinct names" "\<And>n v. coerce n v = Inr (f n v)" "\<And>n cells. arrow n cells = Inr (g n cells)"
  shows "build_arrow_table arrow names records coerce =
    Inr (map (\<lambda>n. (n, g n (map (\<lambda>r. f n (dget r n)) records))) names)"
proof -
  let ?cols = "map (\<lambda>n. (n, map (\<lambda>r. f n (dget r n)) records)) names"
  let ?arrays = "map (\<lambda>n. g n (map (\<lambda>r. f n (dget r n)) records)) names"
  have "append_records coerce names records (fold (\<lambda>n c. dset c n []) names []) = Inr ?cols"
    using append_records_columns [where g = "\<lambda>_. []", OF assms(1,2)] by (simp add: empty_columns [OF assms(1)])
  moreover have "rmap (\<lambda>n. arrow n (the (map_of ?cols n))) names = Inr ?arrays"
    by (simp add: rmap_Inr_iff assms(3) list.rel_map list_all2_same map_of_columns)
  moreover have "fold (\<lambda>(k, v) t. dset t k v) (zip names ?arrays) [] = zip names ?arrays"
    using assms(1) by (subst fold_dset_new) simp_all
  moreover have "zip names ?arrays = map (\<lambda>n. (n, g n (map (\<lambda>r. f n (dget r n)) records))) names"
    by (simp add: zip_map2 zip_same_conv_map)
  ultimately show ?thesis by (simp add: build_arrow_table_def)
qed

end
