(* ===== verification/Dash_Base.thy ===== *)
theory Dash_Base
  imports Pyval Py_Float Py_Parse "HOL-Library.Multiset"
begin

text \<open>
  What the pages of the analytics app share: the outcome of an HTTP request, access to JSON whose
  shape is not known, the format \<open>.2f\<close>, sorting of a table, and the monotonicity of rounding, on which
  the thresholds of the pages rest.
\<close>

section \<open>Requests\<close>

text \<open>
  What a request gives: an error of the client, or a status and the body as JSON. A body that is
  not JSON is an error of the client as well.
\<close>

datatype http_reply = No_reply exn | Reply int "pyval result"

definition failed_status :: "int \<Rightarrow> bool" where
  "failed_status status \<longleftrightarrow> 400 \<le> status \<and> status < 600"

definition reply_json :: "http_reply \<Rightarrow> pyval option" where
  "reply_json r =
     (case r of
        No_reply e \<Rightarrow> None
      | Reply status body \<Rightarrow>
          (if failed_status status then None else case body of Inl e \<Rightarrow> None | Inr v \<Rightarrow> Some v))"

section \<open>JSON of unknown shape\<close>

text \<open>\<open>v.get(k, d)\<close> and \<open>for x in v\<close>.\<close>

definition pget :: "pyval \<Rightarrow> string \<Rightarrow> pyval \<Rightarrow> pyval result" where
  "pget v k d = (case v of PDict m \<Rightarrow> Inr (dget_or m k d) | _ \<Rightarrow> raise_exn AttributeError ''get'')"

definition py_iter :: "pyval \<Rightarrow> pyval list result" where
  "py_iter v =
     (case v of
        PList xs \<Rightarrow> Inr xs
      | PDict d \<Rightarrow> Inr (map (\<lambda>kv. PStr (fst kv)) d)
      | PStr s \<Rightarrow> Inr (map (\<lambda>c. PStr [c]) s)
      | PBytes bs \<Rightarrow> Inr (map (\<lambda>b. PInt (uint b)) bs)
      | _ \<Rightarrow> raise_exn TypeError ''object is not iterable'')"

definition index_error :: "'a result" where
  "index_error = raise_exn OtherException ''list index out of range''"

text \<open>\<open>v[i]\<close> for an index that is not negative.\<close>

definition pindex :: "pyval \<Rightarrow> nat \<Rightarrow> pyval result" where
  "pindex v i =
     (case v of
        PList xs \<Rightarrow> (if i < length xs then Inr (xs ! i) else index_error)
      | PStr s \<Rightarrow> (if i < length s then Inr (PStr [s ! i]) else index_error)
      | PBytes bs \<Rightarrow> (if i < length bs then Inr (PInt (uint (bs ! i))) else index_error)
      | PDict d \<Rightarrow> raise_exn KeyError (show_nat i)
      | _ \<Rightarrow> raise_exn TypeError ''object is not subscriptable'')"

section \<open>Tables\<close>

text \<open>
  Sorting by an order that says when a row comes before another; rows that neither comes before the
  other keep their order, which the libraries leave open. Largest key first is the common case.
\<close>

fun insert_by :: "('a \<Rightarrow> 'a \<Rightarrow> bool) \<Rightarrow> 'a \<Rightarrow> 'a list \<Rightarrow> 'a list" where
  "insert_by before x [] = [x]"
| "insert_by before x (y # ys) = (if before x y then x # y # ys else y # insert_by before x ys)"

definition sort_by :: "('a \<Rightarrow> 'a \<Rightarrow> bool) \<Rightarrow> 'a list \<Rightarrow> 'a list" where
  "sort_by before xs = fold (insert_by before) xs []"

definition sort_desc :: "('a \<Rightarrow> 'k::linorder) \<Rightarrow> 'a list \<Rightarrow> 'a list" where
  "sort_desc key xs = sort_by (\<lambda>a b. key b < key a) xs"

lemma insert_by_mset: "mset (insert_by before x ys) = add_mset x (mset ys)"
  by (induction ys) auto

lemma sort_by_mset: "mset (sort_by before xs) = mset xs"
proof -
  have "mset (fold (insert_by before) xs ys) = mset xs + mset ys" for ys
    by (induction xs arbitrary: ys) (simp_all add: insert_by_mset)
  then show ?thesis by (simp add: sort_by_def)
qed

lemma sort_by_set [simp]: "set (sort_by before xs) = set xs"
  using sort_by_mset [of before xs] by (metis set_mset_mset)

lemma sort_by_length [simp]: "length (sort_by before xs) = length xs"
  using sort_by_mset [of before xs] by (metis size_mset)

lemma sort_by_sum: "sum_list (map f (sort_by before xs)) = sum_list (map f xs)" for f :: "'a \<Rightarrow> nat"
  using sort_by_mset [of before xs] by (metis mset_map sum_mset_sum_list)

lemma sort_by_Nil [simp]: "sort_by before [] = []"
  by (simp add: sort_by_def)

lemma insert_desc_sorted:
  fixes key :: "'a \<Rightarrow> 'k::linorder"
  shows "sorted_wrt (\<lambda>a b. key b \<le> key a) ys \<Longrightarrow>
    sorted_wrt (\<lambda>a b. key b \<le> key a) (insert_by (\<lambda>a b. key b < key a) x ys)"
proof (induction ys)
  case (Cons y ys)
  have "set (insert_by (\<lambda>a b. key b < key a) x ys) = insert x (set ys)"
    by (metis insert_by_mset set_mset_add_mset_insert set_mset_mset)
  with Cons show ?case by auto
qed simp

lemma sort_desc_sorted: "sorted_wrt (\<lambda>a b. key b \<le> key a) (sort_desc key xs)"
proof -
  have "sorted_wrt (\<lambda>a b. key b \<le> key a) ys \<Longrightarrow>
      sorted_wrt (\<lambda>a b. key b \<le> key a) (fold (insert_by (\<lambda>a b. key b < key a)) xs ys)" for ys
    by (induction xs arbitrary: ys) (simp_all add: insert_desc_sorted)
  then show ?thesis by (simp add: sort_desc_def sort_by_def)
qed

lemma sort_desc_mset: "mset (sort_desc key xs) = mset xs"
  by (simp add: sort_desc_def sort_by_mset)

lemma sort_desc_simps [simp]:
  "set (sort_desc key xs) = set xs" "length (sort_desc key xs) = length xs" "sort_desc key [] = []"
  by (simp_all add: sort_desc_def)

section \<open>Groups\<close>

text \<open>The rows of each value of a key, one group per value.\<close>

definition group_by :: "('a \<Rightarrow> 'k) \<Rightarrow> 'a list \<Rightarrow> ('k \<times> 'a list) list" where
  "group_by key rows = map (\<lambda>k. (k, filter (\<lambda>r. key r = k) rows)) (remdups (map key rows))"

lemma group_by_keys: "map fst (group_by key rows) = remdups (map key rows)"
  by (simp add: group_by_def comp_def)

lemma group_by_member: "(k, g) \<in> set (group_by key rows) \<Longrightarrow> g = filter (\<lambda>r. key r = k) rows \<and> g \<noteq> []"
  by (auto simp: group_by_def filter_empty_conv)

lemma group_sizes:
  "distinct ks \<Longrightarrow> sum_list (map (\<lambda>k. length (filter (\<lambda>r. key r = k) rows)) ks) =
     length (filter (\<lambda>r. key r \<in> set ks) rows)"
proof (induction ks)
  case (Cons k ks)
  have "length (filter (\<lambda>r. key r = k) rows) + length (filter (\<lambda>r. key r \<in> set ks) rows) =
      length (filter (\<lambda>r. key r \<in> insert k (set ks)) rows)" if "k \<notin> set ks"
    using that by (induction rows) auto
  then show ?case using Cons by simp
qed simp

text \<open>No row is lost by grouping.\<close>

lemma group_by_total: "sum_list (map (\<lambda>g. length (snd g)) (group_by key rows)) = length rows"
  using group_sizes [of "remdups (map key rows)" key rows]
  by (simp add: group_by_def comp_def)

section \<open>Numbers as text\<close>

text \<open>The format \<open>.2f\<close> of a number that is not negative.\<close>

definition fixed2 :: "rat \<Rightarrow> string" where
  "fixed2 x =
     (let n = nat (round_half_even (x * 100)); c = n mod 100
      in show_nat (n div 100) @ ''.'' @ (if c < 10 then ''0'' else []) @ show_nat c)"

text \<open>\<open>a / b\<close> of doubles, for a divisor that is not zero.\<close>

fun fl_div_pos :: "pyfloat \<Rightarrow> pyfloat \<Rightarrow> pyfloat" where
  "fl_div_pos (Fin a) (Fin b) = to_double (a / b)"
| "fl_div_pos NaN b = NaN"
| "fl_div_pos a NaN = NaN"
| "fl_div_pos (Fin a) b = Fin 0"
| "fl_div_pos a (Fin b) = a"
| "fl_div_pos a b = NaN"

section \<open>Rounding is monotone\<close>

lemma round_half_even_mono: "x \<le> y \<Longrightarrow> round_half_even x \<le> round_half_even y"
proof -
  assume le: "x \<le> y"
  have bounds: "\<lfloor>z\<rfloor> \<le> round_half_even z" "round_half_even z \<le> \<lfloor>z\<rfloor> + 1" for z
    by (simp_all add: round_half_even_def Let_def)
  have fl: "\<lfloor>x\<rfloor> \<le> \<lfloor>y\<rfloor>" using le by (rule floor_mono)
  show ?thesis
  proof (cases "\<lfloor>x\<rfloor> = \<lfloor>y\<rfloor>")
    case True
    then show ?thesis using le by (auto simp: round_half_even_def Let_def)
  next
    case False
    then show ?thesis using fl bounds(2) [of x] bounds(1) [of y] by linarith
  qed
qed

lemma round_half_even_int: "round_half_even (of_int n) = n"
  by (rule round_half_even_unique) simp

lemma fl_mono:
  assumes "0 < x" "x \<le> y" shows "fl x \<le> fl y"
proof -
  let ?e = "ulp_exp x" and ?f = "ulp_exp y"
  have pos: "x \<noteq> 0" "y \<noteq> 0" "\<bar>x\<bar> = x" "\<bar>y\<bar> = y" using assms by auto
  have x: "pow2 (?e + 52) \<le> x" "x < pow2 (?e + 53)" and y: "pow2 (?f + 52) \<le> y" "y < pow2 (?f + 53)"
    using ulp_exp_lower [OF pos(1)] ulp_exp_upper [OF pos(1)] ulp_exp_lower [OF pos(2)] ulp_exp_upper [OF pos(2)]
    by (simp_all add: pos(3,4))
  have ef: "?e \<le> ?f" using x(1) y(2) assms(2) pow2_less_iff [of "?e + 52" "?f + 53"] by linarith
  have fl: "fl z = of_int (round_half_even (z / pow2 (ulp_exp z))) * pow2 (ulp_exp z)" if "z \<noteq> 0" for z
    using that by (simp add: fl_def)
  show ?thesis
  proof (cases "?e = ?f")
    case True
    have "x / pow2 ?e \<le> y / pow2 ?f" unfolding True by (intro divide_right_mono assms(2)) (simp add: less_imp_le)
    then show ?thesis
      unfolding fl [OF pos(1)] fl [OF pos(2)] True
      by (intro mult_right_mono) (simp_all add: True round_half_even_mono less_imp_le)
  next
    case False
    have p: "pow2 (k + 52) = 2 ^ 52 * pow2 k" "pow2 (k + 53) = 2 ^ 53 * pow2 k" for k
      using pow2_add [of k 52] pow2_add [of k 53] pow2_nat [of 52] pow2_nat [of 53] by simp_all
    have "x / pow2 ?e \<le> of_int (2 ^ 53)" using x(2) by (simp add: p divide_le_eq less_imp_le)
    then have "round_half_even (x / pow2 ?e) \<le> 2 ^ 53" using round_half_even_mono round_half_even_int by metis
    then have "of_int (round_half_even (x / pow2 ?e)) \<le> (2 ^ 53 :: rat)"
      by (metis of_int_le_iff of_int_numeral of_int_power)
    then have "fl x \<le> pow2 (?e + 53)"
      unfolding fl [OF pos(1)] p by (intro mult_right_mono) (simp_all add: less_imp_le)
    moreover have "of_int (2 ^ 52) \<le> y / pow2 ?f" using y(1) by (simp add: p le_divide_eq)
    then have "2 ^ 52 \<le> round_half_even (y / pow2 ?f)" using round_half_even_mono round_half_even_int by metis
    then have "(2 ^ 52 :: rat) \<le> of_int (round_half_even (y / pow2 ?f))"
      by (metis of_int_le_iff of_int_numeral of_int_power)
    then have "pow2 (?f + 52) \<le> fl y"
      unfolding fl [OF pos(2)] p by (intro mult_right_mono) (simp_all add: less_imp_le)
    moreover have "pow2 (?e + 53) \<le> pow2 (?f + 52)" using ef False by (intro pow2_mono) simp
    ultimately show ?thesis by linarith
  qed
qed

end
