(* ===== verification/Queries.thy ===== *)
theory Queries
  imports Dash_Base
begin

text \<open>
  The analytics queries, \<open>analytics/queries\<close>: loading the decisions and the enriched transactions of a
  window from Iceberg, and the SQL texts that DuckDB runs on them, read as functions on lists of rows:
  joins, groups with their aggregates, ordering and limits. The catalog, the scans, the sum and
  average of doubles and the percentiles are arguments. A column of timestamps is compared with an
  integer literal as the catalog reads it, which is an argument too.
\<close>

section \<open>Rows\<close>

record stored_decision =
  dr_transaction_id :: string
  dr_decision :: string
  dr_fraud_score :: pyfloat
  dr_latency_ms :: pyfloat
  dr_model_version :: string
  dr_time_us :: int
  dr_triggers :: "string list option"

record stored_txn =
  er_transaction_id :: string
  er_channel :: "string option"
  er_amount :: rat
  er_event_us :: int

text \<open>
  What the store answers: an error of the catalog, or each table with its rows; \<open>qs_literal_us\<close> is the
  point in time that the catalog takes an integer literal for.
\<close>

record store =
  qs_catalog :: "exn option"
  qs_decisions :: "stored_decision list result"
  qs_enriched :: "stored_txn list result"
  qs_literal_us :: "int \<Rightarrow> int"

definition MAX_HOURS :: int where
  "MAX_HOURS = 720"

definition capped :: "int \<Rightarrow> int" where
  "capped hours = min hours MAX_HOURS"

text \<open>\<open>start_ms\<close> is the start of the window, in milliseconds, for its length in hours.\<close>

definition scan_decisions :: "store \<Rightarrow> int \<Rightarrow> stored_decision list result" where
  "scan_decisions st start = rbind (qs_decisions st) (\<lambda>rows. Inr (filter (\<lambda>r. qs_literal_us st start \<le> dr_time_us r) rows))"

definition scan_enriched :: "store \<Rightarrow> int \<Rightarrow> stored_txn list result" where
  "scan_enriched st start = rbind (qs_enriched st) (\<lambda>rows. Inr (filter (\<lambda>r. qs_literal_us st start \<le> er_event_us r) rows))"

definition with_catalog :: "store \<Rightarrow> 'a result \<Rightarrow> 'a result" where
  "with_catalog st r =
     (case qs_catalog st of
        Some e \<Rightarrow> raise_exn RuntimeError (''Unable to connect to data store: '' @ exn_msg e)
      | None \<Rightarrow> r)"

text \<open>\<open>_load_decisions\<close> of the fraud rate, and \<open>_load_decisions_conn\<close> of the other two; no rows is \<open>None\<close>.\<close>

definition load_decisions :: "(int \<Rightarrow> int) \<Rightarrow> store \<Rightarrow> int \<Rightarrow> (stored_decision list \<times> stored_txn list) option result" where
  "load_decisions start_ms st hours =
     with_catalog st (rbind (scan_decisions st (start_ms hours)) (\<lambda>d.
                      rbind (scan_enriched st (start_ms hours)) (\<lambda>e.
                        Inr (if d = [] then None else Some (d, e)))))"

definition load_decisions_conn :: "(int \<Rightarrow> int) \<Rightarrow> store \<Rightarrow> int \<Rightarrow> stored_decision list option result" where
  "load_decisions_conn start_ms st hours =
     with_catalog st (rbind (scan_decisions st (start_ms hours)) (\<lambda>d. Inr (if d = [] then None else Some d)))"

section \<open>Aggregates\<close>

record aggregates =
  ag_sum :: "rat list \<Rightarrow> pyfloat"
  ag_avg :: "pyfloat list \<Rightarrow> pyfloat"
  ag_percentile :: "rat \<Rightarrow> pyfloat list \<Rightarrow> pyfloat"

text \<open>\<open>CAST(t AS DATE)\<close>: the day of a timestamp.\<close>

definition day_of :: "int \<Rightarrow> int" where
  "day_of us = us div 86400000000"

section \<open>Fraud rate\<close>

text \<open>\<open>decisions d LEFT JOIN enriched e ON d.transaction_id = e.transaction_id\<close>.\<close>

definition left_join :: "stored_decision list \<Rightarrow> stored_txn list \<Rightarrow> (stored_decision \<times> stored_txn option) list" where
  "left_join ds es =
     concat (map (\<lambda>d. case filter (\<lambda>e. er_transaction_id e = dr_transaction_id d) es of
                        [] \<Rightarrow> [(d, None)]
                      | e # es' \<Rightarrow> map (\<lambda>e. (d, Some e)) (e # es')) ds)"

definition channel_of :: "stored_decision \<times> stored_txn option \<Rightarrow> string option" where
  "channel_of x = (case snd x of None \<Rightarrow> None | Some e \<Rightarrow> er_channel e)"

definition unknown_if_null :: "string option \<Rightarrow> string" where
  "unknown_if_null c = (case c of None \<Rightarrow> ''unknown'' | Some s \<Rightarrow> s)"

definition amounts :: "(stored_decision \<times> stored_txn option) list \<Rightarrow> rat list" where
  "amounts g = concat (map (\<lambda>x. case snd x of None \<Rightarrow> [] | Some e \<Rightarrow> [er_amount e]) g)"

definition total_amount :: "aggregates \<Rightarrow> (stored_decision \<times> stored_txn option) list \<Rightarrow> pyfloat" where
  "total_amount ag g = (if amounts g = [] then Fin 0 else ag_sum ag (amounts g))"

record daily_row =
  dy_date :: int
  dy_channel :: string
  dy_decision :: string
  dy_count :: nat
  dy_amount :: pyfloat
  dy_avg_score :: pyfloat

definition daily_before :: "daily_row \<Rightarrow> daily_row \<Rightarrow> bool" where
  "daily_before a b \<longleftrightarrow>
     dy_date b < dy_date a \<or>
     (dy_date a = dy_date b \<and> (str_less (dy_channel a) (dy_channel b) \<or>
        (dy_channel a = dy_channel b \<and> str_less (dy_decision a) (dy_decision b))))"

definition daily_row_of :: "aggregates \<Rightarrow> (int \<times> string option \<times> string) \<times> (stored_decision \<times> stored_txn option) list \<Rightarrow> daily_row" where
  "daily_row_of ag g =
     (case g of ((date, ch, dec), rows) \<Rightarrow>
        \<lparr>dy_date = date, dy_channel = unknown_if_null ch, dy_decision = dec, dy_count = length rows,
         dy_amount = total_amount ag rows, dy_avg_score = ag_avg ag (map (\<lambda>x. dr_fraud_score (fst x)) rows)\<rparr>)"

definition fraud_rate_daily :: "aggregates \<Rightarrow> (int \<Rightarrow> int) \<Rightarrow> store \<Rightarrow> int \<Rightarrow> daily_row list result" where
  "fraud_rate_daily ag start_ms st hours =
     rbind (load_decisions start_ms st (capped hours)) (\<lambda>r. Inr (case r of
        None \<Rightarrow> []
      | Some (ds, es) \<Rightarrow>
          sort_by daily_before
            (map (daily_row_of ag)
              (group_by (\<lambda>x. (day_of (dr_time_us (fst x)), channel_of x, dr_decision (fst x))) (left_join ds es)))))"

record channel_row =
  cr_channel :: string
  cr_decision :: string
  cr_count :: nat
  cr_amount :: pyfloat
  cr_avg_score :: pyfloat

definition fraud_rate_by_channel :: "aggregates \<Rightarrow> (int \<Rightarrow> int) \<Rightarrow> store \<Rightarrow> int \<Rightarrow> channel_row list result" where
  "fraud_rate_by_channel ag start_ms st hours =
     rbind (load_decisions start_ms st (capped hours)) (\<lambda>r. Inr (case r of
        None \<Rightarrow> []
      | Some (ds, es) \<Rightarrow>
          sort_desc cr_count
            (map (\<lambda>((ch, dec), g).
                \<lparr>cr_channel = unknown_if_null ch, cr_decision = dec, cr_count = length g,
                 cr_amount = total_amount ag g, cr_avg_score = ag_avg ag (map (\<lambda>x. dr_fraud_score (fst x)) g)\<rparr>)
              (group_by (\<lambda>x. (channel_of x, dr_decision (fst x))) (left_join ds es)))))"

section \<open>Model versions\<close>

record version_row =
  vr_version :: string
  vr_count :: nat
  vr_avg_score :: pyfloat
  vr_median_score :: pyfloat
  vr_p95_score :: pyfloat
  vr_avg_latency :: pyfloat

definition model_version_summary :: "aggregates \<Rightarrow> (int \<Rightarrow> int) \<Rightarrow> store \<Rightarrow> int \<Rightarrow> version_row list result" where
  "model_version_summary ag start_ms st hours =
     rbind (load_decisions_conn start_ms st (capped hours)) (\<lambda>r. Inr (case r of
        None \<Rightarrow> []
      | Some ds \<Rightarrow>
          sort_by (\<lambda>a b. str_less (vr_version a) (vr_version b))
            (map (\<lambda>(v, g). let scores = map dr_fraud_score g in
                \<lparr>vr_version = v, vr_count = length g, vr_avg_score = ag_avg ag scores,
                 vr_median_score = ag_percentile ag (1/2) scores, vr_p95_score = ag_percentile ag (95/100) scores,
                 vr_avg_latency = ag_avg ag (map dr_latency_ms g)\<rparr>)
              (group_by dr_model_version ds))))"

record version_day =
  vd_date :: int
  vd_decision :: string
  vd_count :: nat
  vd_avg_score :: pyfloat
  vd_avg_latency :: pyfloat

definition model_version_daily :: "aggregates \<Rightarrow> (int \<Rightarrow> int) \<Rightarrow> store \<Rightarrow> string \<Rightarrow> int \<Rightarrow> version_day list result" where
  "model_version_daily ag start_ms st version hours =
     rbind (load_decisions_conn start_ms st (capped hours)) (\<lambda>r. Inr (case r of
        None \<Rightarrow> []
      | Some ds \<Rightarrow>
          sort_by (\<lambda>a b. vd_date a < vd_date b)
            (map (\<lambda>((date, dec), g).
                \<lparr>vd_date = date, vd_decision = dec, vd_count = length g, vd_avg_score = ag_avg ag (map dr_fraud_score g),
                 vd_avg_latency = ag_avg ag (map dr_latency_ms g)\<rparr>)
              (group_by (\<lambda>d. (day_of (dr_time_us d), dr_decision d)) (filter (\<lambda>d. dr_model_version d = version) ds)))))"

section \<open>Rule triggers\<close>

text \<open>\<open>UNNEST(rule_triggers)\<close> of the decisions that have some: one row per trigger.\<close>

definition expanded :: "stored_decision list \<Rightarrow> (string \<times> stored_decision) list" where
  "expanded ds = concat (map (\<lambda>d. case dr_triggers d of None \<Rightarrow> [] | Some rs \<Rightarrow> map (\<lambda>r. (r, d)) rs) ds)"

record rule_row =
  lb_rule :: string
  lb_triggers :: nat
  lb_avg_score :: pyfloat
  lb_p95_score :: pyfloat

definition rule_row_of :: "aggregates \<Rightarrow> string \<times> (string \<times> stored_decision) list \<Rightarrow> rule_row" where
  "rule_row_of ag g =
     (let scores = map (\<lambda>x. dr_fraud_score (snd x)) (snd g) in
        \<lparr>lb_rule = fst g, lb_triggers = length (snd g), lb_avg_score = ag_avg ag scores,
         lb_p95_score = ag_percentile ag (95/100) scores\<rparr>)"

definition rule_rows :: "aggregates \<Rightarrow> stored_decision list \<Rightarrow> rule_row list" where
  "rule_rows ag ds =
     sort_desc lb_triggers (map (rule_row_of ag) (group_by fst (expanded ds)))"

definition rule_leaderboard :: "aggregates \<Rightarrow> (int \<Rightarrow> int) \<Rightarrow> store \<Rightarrow> int \<Rightarrow> nat \<Rightarrow> rule_row list result" where
  "rule_leaderboard ag start_ms st hours top_n =
     rbind (load_decisions_conn start_ms st (capped hours)) (\<lambda>r. Inr (case r of
        None \<Rightarrow> []
      | Some ds \<Rightarrow> take top_n (rule_rows ag ds)))"

record rule_day =
  rd_date :: int
  rd_decision :: string
  rd_count :: nat
  rd_avg_score :: pyfloat

definition rule_trigger_daily :: "aggregates \<Rightarrow> (int \<Rightarrow> int) \<Rightarrow> store \<Rightarrow> string \<Rightarrow> int \<Rightarrow> rule_day list result" where
  "rule_trigger_daily ag start_ms st rule hours =
     rbind (load_decisions_conn start_ms st (capped hours)) (\<lambda>r. Inr (case r of
        None \<Rightarrow> []
      | Some ds \<Rightarrow>
          sort_by (\<lambda>a b. rd_date a < rd_date b)
            (map (\<lambda>((date, dec), g).
                \<lparr>rd_date = date, rd_decision = dec, rd_count = length g, rd_avg_score = ag_avg ag (map dr_fraud_score g)\<rparr>)
              (group_by (\<lambda>d. (day_of (dr_time_us d), dr_decision d))
                 (map snd (filter (\<lambda>x. fst x = rule) (expanded ds)))))))"

section \<open>Lemmas\<close>

text \<open>With at most one enriched row per transaction the join has one row per decision.\<close>

lemma left_join_decisions:
  assumes "distinct (map er_transaction_id es)"
  shows "map fst (left_join ds es) = ds"
proof -
  have one: "length (filter (\<lambda>e. er_transaction_id e = i) es) \<le> 1" for i
    using assms
  proof (induction es)
    case (Cons e es)
    then have "er_transaction_id e \<notin> er_transaction_id ` set es" by simp
    then have "er_transaction_id e = i \<Longrightarrow> filter (\<lambda>e. er_transaction_id e = i) es = []"
      unfolding filter_empty_conv by (metis image_eqI)
    with Cons show ?case by auto
  qed simp
  show ?thesis
  proof (induction ds)
    case (Cons d ds)
    then show ?case using one [of "dr_transaction_id d"]
      by (auto simp: left_join_def split: list.splits)
  qed (simp add: left_join_def)
qed

text \<open>Longer windows than the cap are the cap, whatever the pages announce.\<close>

lemma window_capped:
  assumes "MAX_HOURS \<le> hours"
  shows "fraud_rate_daily ag start_ms st hours = fraud_rate_daily ag start_ms st MAX_HOURS"
  using assms by (simp add: fraud_rate_daily_def capped_def)

text \<open>
  The columns hold timestamps, the literals milliseconds. A catalog that reads an integer literal as
  microseconds takes the start of every window for a day in January 1970: nothing is filtered out.
\<close>

lemma window_not_applied:
  assumes "qs_literal_us st = (\<lambda>i. i)" "start_ms hours \<le> 10 ^ 14" "qs_decisions st = Inr rows"
    and "\<forall>r \<in> set rows. 10 ^ 14 \<le> dr_time_us r"
  shows "scan_decisions st (start_ms hours) = Inr rows"
  using assms by (auto simp: scan_decisions_def filter_id_conv intro: order_trans)

lemma expanded_count: "length (filter (\<lambda>x. fst x = rule) (expanded ds)) =
    sum_list (map (\<lambda>d. case dr_triggers d of None \<Rightarrow> 0 | Some rs \<Rightarrow> count_list rs rule) ds)"
proof -
  have "length (filter (\<lambda>x. fst x = rule) (map (\<lambda>r. (r, d)) rs)) = count_list rs rule" for rs and d :: stored_decision
    by (induction rs) auto
  then show ?thesis by (induction ds) (auto simp: expanded_def split: option.split)
qed

lemma daily_counts: "map (dy_count \<circ> daily_row_of ag) gs = map (\<lambda>g. length (snd g)) gs"
  by (auto simp: daily_row_of_def split: prod.split)

text \<open>The rows of the leaderboard: one per rule that triggered, with the number of its triggers.\<close>

lemma rule_rows_count: "row \<in> set (rule_rows ag ds) \<Longrightarrow>
    lb_triggers row = length (filter (\<lambda>x. fst x = lb_rule row) (expanded ds))"
  by (auto simp: rule_rows_def rule_row_of_def Let_def dest!: group_by_member)

lemma rule_rows_names: "mset (map lb_rule (rule_rows ag ds)) = mset (remdups (map fst (expanded ds)))"
proof -
  have "map lb_rule (map (rule_row_of ag) gs) = map fst gs" for gs
    by (simp add: rule_row_of_def Let_def)
  then show ?thesis
    by (simp only: rule_rows_def mset_map sort_desc_mset flip: group_by_keys)
      (metis group_by_keys mset_map)
qed

lemma rule_rows_distinct: "distinct (map lb_rule (rule_rows ag ds))"
  using rule_rows_names [of ag ds] by (metis distinct_remdups mset_eq_imp_distinct_iff)

lemma rule_rows_complete: "rule \<in> fst ` set (expanded ds) \<Longrightarrow> \<exists>row \<in> set (rule_rows ag ds). lb_rule row = rule"
  using rule_rows_names [of ag ds] by (metis imageE mset_eq_setD set_map set_remdups)

section \<open>Properties\<close>

text \<open>The daily fraud rate accounts for every decision: when no transaction is in the enriched table
  twice, the counts of its rows sum up to the number of decisions in the window.\<close>

theorem fraud_rate_counts_every_decision:
  assumes "qs_catalog st = None" "scan_decisions st (start_ms (capped hours)) = Inr ds"
    and "scan_enriched st (start_ms (capped hours)) = Inr es" "distinct (map er_transaction_id es)"
  shows "\<exists>rows. fraud_rate_daily ag start_ms st hours = Inr rows \<and> sum_list (map dy_count rows) = length ds"
proof -
  let ?rows = "map (daily_row_of ag) (group_by (\<lambda>x. (day_of (dr_time_us (fst x)), channel_of x, dr_decision (fst x)))
     (left_join ds es))"
  have "sum_list (map dy_count (sort_by daily_before ?rows)) = length (left_join ds es)"
    by (simp only: sort_by_sum map_map daily_counts group_by_total)
  also have "\<dots> = length ds"
    using left_join_decisions [OF assms(4), of ds] by (metis length_map)
  finally show ?thesis
    using assms by (simp add: fraud_rate_daily_def load_decisions_def with_catalog_def left_join_def group_by_def)
qed

text \<open>The leaderboard is right: its rules are in descending order of their triggers, each total is the
  number of times the rule is in the triggers of a decision, and no rule left out triggered more often
  than one that is listed.\<close>

theorem leaderboard_top:
  assumes "qs_catalog st = None" "scan_decisions st (start_ms (capped hours)) = Inr ds"
    and "rule_leaderboard ag start_ms st hours top_n = Inr board"
  shows "sorted_wrt (\<lambda>a b. lb_triggers b \<le> lb_triggers a) board \<and> distinct (map lb_rule board) \<and>
    (\<forall>row \<in> set board. lb_triggers row = length (filter (\<lambda>x. fst x = lb_rule row) (expanded ds))) \<and>
    (\<forall>rule. rule \<notin> lb_rule ` set board \<longrightarrow> (\<forall>row \<in> set board.
       length (filter (\<lambda>x. fst x = rule) (expanded ds)) \<le> lb_triggers row))"
proof (cases "ds = []")
  case True
  then show ?thesis using assms by (auto simp: rule_leaderboard_def load_decisions_conn_def with_catalog_def)
next
  case False
  then have board: "board = take top_n (rule_rows ag ds)"
    using assms by (simp add: rule_leaderboard_def load_decisions_conn_def with_catalog_def)
  let ?n = "\<lambda>rule. length (filter (\<lambda>x. fst x = rule) (expanded ds))"
  have sorted: "sorted_wrt (\<lambda>a b. lb_triggers b \<le> lb_triggers a) (rule_rows ag ds)"
    unfolding rule_rows_def by (rule sort_desc_sorted)
  have all: "rule_rows ag ds = board @ drop top_n (rule_rows ag ds)" using board by simp
  show ?thesis
  proof (intro conjI allI impI ballI)
    show "sorted_wrt (\<lambda>a b. lb_triggers b \<le> lb_triggers a) board"
      using sorted all by (metis sorted_wrt_append)
    show "distinct (map lb_rule board)"
      using rule_rows_distinct [of ag ds] all by (metis distinct_append map_append)
    show "lb_triggers row = ?n (lb_rule row)" if "row \<in> set board" for row
      using that rule_rows_count [of row ag ds] board by (metis in_set_takeD)
    show "?n rule \<le> lb_triggers row" if out: "rule \<notin> lb_rule ` set board" and row: "row \<in> set board" for rule row
    proof (cases "?n rule = 0")
      case False
      then have "rule \<in> fst ` set (expanded ds)" by (auto simp: filter_empty_conv)
      then obtain other where other: "other \<in> set (rule_rows ag ds)" "lb_rule other = rule"
        using rule_rows_complete by blast
      then have "other \<in> set (drop top_n (rule_rows ag ds))"
        using out all by (metis Un_iff image_eqI set_append)
      then have "lb_triggers other \<le> lb_triggers row"
        using sorted all row by (metis sorted_wrt_append)
      then show ?thesis using rule_rows_count [OF other(1)] other(2) by simp
    qed simp
  qed
qed

text \<open>Two decisions of one day; the enriched row of the second is missing.\<close>

definition sample_decision :: "string \<Rightarrow> string list \<Rightarrow> stored_decision" where
  "sample_decision i rules = \<lparr>dr_transaction_id = i, dr_decision = ''BLOCK'', dr_fraud_score = Fin 1, dr_latency_ms = Fin 1,
     dr_model_version = ''v1'', dr_time_us = 10 ^ 15, dr_triggers = Some rules\<rparr>"

definition sample_store :: store where
  "sample_store = \<lparr>qs_catalog = None,
     qs_decisions = Inr [sample_decision ''t1'' [''VEL-001''], sample_decision ''t2'' [''VEL-001'', ''ND-001'']],
     qs_enriched = Inr [\<lparr>er_transaction_id = ''t1'', er_channel = Some ''POS'', er_amount = 10, er_event_us = 10 ^ 15\<rparr>],
     qs_literal_us = (\<lambda>i. i)\<rparr>"

definition sample_aggregates :: aggregates where
  "sample_aggregates = \<lparr>ag_sum = (\<lambda>xs. Fin (sum_list xs)), ag_avg = (\<lambda>xs. hd xs), ag_percentile = (\<lambda>q xs. hd xs)\<rparr>"

theorem fraud_rate_counts_every_decision_witness:
  "\<exists>rows. fraud_rate_daily sample_aggregates (\<lambda>h. 0) sample_store 24 = Inr rows \<and> sum_list (map dy_count rows) = 2"
  using fraud_rate_counts_every_decision [of sample_store "\<lambda>h. 0" 24
      "[sample_decision ''t1'' [''VEL-001''], sample_decision ''t2'' [''VEL-001'', ''ND-001'']]"
      "[\<lparr>er_transaction_id = ''t1'', er_channel = Some ''POS'', er_amount = 10, er_event_us = 10 ^ 15\<rparr>]" sample_aggregates]
  by (simp add: sample_store_def scan_decisions_def scan_enriched_def sample_decision_def numeral_2_eq_2)

theorem leaderboard_top_witness:
  "\<exists>board. rule_leaderboard sample_aggregates (\<lambda>h. 0) sample_store 24 1 = Inr board \<and>
     map lb_rule board = [''VEL-001''] \<and> map lb_triggers board = [2] \<and> distinct (map lb_rule board)"
proof -
  let ?ds = "[sample_decision ''t1'' [''VEL-001''], sample_decision ''t2'' [''VEL-001'', ''ND-001'']]"
  let ?board = "take 1 (rule_rows sample_aggregates ?ds)"
  have scan: "qs_catalog sample_store = None" "scan_decisions sample_store ((\<lambda>h. 0) (capped 24)) = Inr ?ds"
    by (simp_all add: sample_store_def scan_decisions_def sample_decision_def)
  then have board: "rule_leaderboard sample_aggregates (\<lambda>h. 0) sample_store 24 1 = Inr ?board"
    by (simp add: rule_leaderboard_def load_decisions_conn_def with_catalog_def)
  have "map lb_rule ?board = [''VEL-001'']" "map lb_triggers ?board = [2]"
    by (simp_all add: rule_rows_def expanded_def sample_decision_def group_by_def rule_row_of_def Let_def sort_desc_def sort_by_def)
  then show ?thesis
    using conjunct1 [OF conjunct2 [OF leaderboard_top [OF scan board]]]
    by (intro exI [of _ ?board] conjI board)
qed

end
