(* ===== verification/Dash_Feed.thy ===== *)
theory Dash_Feed
  imports Dash_Base Analytics
begin

text \<open>
  The live feed, \<open>analytics/app/pages/1_live_feed.py\<close>, and the home page \<open>Home.py\<close>: the queue of the
  consumer is drained into a buffer of the session that shows every transaction once. A set has no
  order: which element \<open>next(iter(seen))\<close> gives is the argument \<open>pick\<close>. Icons are texts by their code
  points, the time of an alert is formatted by an argument. Identifiers are texts by the alert schema,
  on which Python's equality is equality.
\<close>

section \<open>The buffer\<close>

definition DEQUE_MAX :: nat where
  "DEQUE_MAX = 500"

record feed =
  fe_buffer :: "alert_display list"
  fe_seen :: "pyval list"
  fe_new :: nat

definition feed_init :: feed where
  "feed_init = \<lparr>fe_buffer = [], fe_seen = [], fe_new = 0\<rparr>"

text \<open>\<open>appendleft\<close> on a deque of bounded length drops at the right end.\<close>

definition appendleft :: "alert_display \<Rightarrow> alert_display list \<Rightarrow> alert_display list" where
  "appendleft a buf = take DEQUE_MAX (a # buf)"

definition add_alert :: "alert_display \<Rightarrow> feed \<Rightarrow> feed" where
  "add_alert a f =
     (if ad_transaction_id a \<in> set (fe_seen f) then f
      else f\<lparr>fe_buffer := appendleft a (fe_buffer f), fe_seen := ad_transaction_id a # fe_seen f, fe_new := Suc (fe_new f)\<rparr>)"

definition evict :: "(pyval list \<Rightarrow> pyval) \<Rightarrow> feed \<Rightarrow> feed" where
  "evict pick f =
     (if DEQUE_MAX < length (fe_seen f) then f\<lparr>fe_seen := remove1 (pick (fe_seen f)) (fe_seen f)\<rparr> else f)"

definition feed_alert :: "(pyval list \<Rightarrow> pyval) \<Rightarrow> alert_display \<Rightarrow> feed \<Rightarrow> feed" where
  "feed_alert pick a f = evict pick (add_alert a f)"

text \<open>One run of the page: it stops when the consumer is not alive, else it empties the queue.\<close>

definition live_feed :: "(pyval list \<Rightarrow> pyval) \<Rightarrow> consumer \<times> feed \<Rightarrow> consumer \<times> feed" where
  "live_feed pick cf =
     (case cf of (c, f) \<Rightarrow>
        if \<not> ac_alive c then (c, f)
        else (c\<lparr>ac_queue := []\<rparr>, fold (feed_alert pick) (ac_queue c) (f\<lparr>fe_new := 0\<rparr>)))"

section \<open>What is shown\<close>

definition severity_icon :: "string \<Rightarrow> nat list" where
  "severity_icon sev =
     (case map_of [(''critical'', [0x1F534]), (''high'', [0x1F7E0]), (''medium'', [0x1F7E1]), (''low'', [0x1F7E2])] sev of
        Some i \<Rightarrow> i
      | None \<Rightarrow> [0x26AA])"

definition decision_icon :: "string \<Rightarrow> nat list" where
  "decision_icon dec =
     (case map_of [(''BLOCK'', [0x1F6D1]), (''FLAG'', [0x26A0, 0xFE0F]), (''ALLOW'', [0x2705]), (''UNKNOWN'', [0x2753])] dec of
        Some i \<Rightarrow> i
      | None \<Rightarrow> [0x2753])"

record feed_row =
  fr_time :: string
  fr_severity :: "nat list"
  fr_decision :: "nat list"
  fr_account :: pyval
  fr_rules :: "pyval list option"

text \<open>No rule is shown as a dash (\<open>None\<close>).\<close>

definition feed_row_of :: "(rat \<Rightarrow> string) \<Rightarrow> alert_display \<Rightarrow> feed_row" where
  "feed_row_of strftime a =
     \<lparr>fr_time = strftime (ad_evaluation_timestamp a),
      fr_severity = severity_icon (ad_severity a) @ [32] @ map code (ad_severity a),
      fr_decision = decision_icon (ad_decision a) @ [32] @ map code (ad_decision a),
      fr_account = ad_account_id a,
      fr_rules = (if ad_rule_triggers a = [] then None else Some (ad_rule_triggers a))\<rparr>"

definition feed_rows :: "(rat \<Rightarrow> string) \<Rightarrow> feed \<Rightarrow> feed_row list" where
  "feed_rows strftime f = map (feed_row_of strftime) (take 100 (fe_buffer f))"

text \<open>The home page.\<close>

record home_view =
  hv_connected :: bool
  hv_lag :: int
  hv_buffered :: nat

definition home :: "consumer \<Rightarrow> home_view" where
  "home c = \<lparr>hv_connected = ac_alive c, hv_lag = ac_lag c, hv_buffered = length (ac_queue c)\<rparr>"

section \<open>The invariant\<close>

definition feed_ok :: "feed \<Rightarrow> bool" where
  "feed_ok f \<longleftrightarrow> length (fe_buffer f) \<le> DEQUE_MAX \<and> length (fe_seen f) \<le> DEQUE_MAX \<and> distinct (fe_seen f)"

lemma feed_init_ok: "feed_ok feed_init"
  by (simp add: feed_ok_def feed_init_def)

lemma add_alert_ok:
  assumes "feed_ok f"
  shows "length (fe_buffer (add_alert a f)) \<le> DEQUE_MAX" "length (fe_seen (add_alert a f)) \<le> Suc DEQUE_MAX"
    "distinct (fe_seen (add_alert a f))"
  using assms by (auto simp: feed_ok_def add_alert_def appendleft_def)

lemma evict_length:
  assumes "length (fe_seen f) \<le> Suc DEQUE_MAX" "\<And>xs. xs \<noteq> [] \<Longrightarrow> pick xs \<in> set xs"
  shows "length (fe_seen (evict pick f)) \<le> DEQUE_MAX"
proof (cases "DEQUE_MAX < length (fe_seen f)")
  case True
  then have "fe_seen f \<noteq> []" by auto
  then have "pick (fe_seen f) \<in> set (fe_seen f)" by (rule assms(2))
  then show ?thesis using True assms(1) by (simp add: evict_def length_remove1)
qed (simp add: evict_def)

lemma feed_alert_ok:
  assumes "feed_ok f" "\<And>xs. xs \<noteq> [] \<Longrightarrow> pick xs \<in> set xs"
  shows "feed_ok (feed_alert pick a f)"
  using evict_length [OF add_alert_ok(2) [OF assms(1)] assms(2), of a] add_alert_ok(1,3) [OF assms(1), of a]
  by (auto simp: feed_ok_def feed_alert_def evict_def)

lemma live_feed_ok:
  assumes "feed_ok f" "\<And>xs. xs \<noteq> [] \<Longrightarrow> pick xs \<in> set xs"
  shows "feed_ok (snd (live_feed pick (c, f)))"
proof -
  have "feed_ok (fold (feed_alert pick) as g)" if "feed_ok g" for as g
    using that by (induction as arbitrary: g) (simp_all add: feed_alert_ok assms(2))
  moreover have "feed_ok (f\<lparr>fe_new := 0\<rparr>)" using assms(1) by (simp add: feed_ok_def)
  ultimately show ?thesis using assms(1) by (simp add: live_feed_def)
qed

text \<open>While no identifier has to be evicted the drain is the reference function on lists.\<close>

lemma drain_keep_first:
  assumes "length (fe_seen f) + length (keep_first ad_transaction_id (set (fe_seen f)) as) \<le> DEQUE_MAX"
    and "length (fe_buffer f) = length (fe_seen f)"
  shows "fe_buffer (fold (feed_alert pick) as f) = rev (keep_first ad_transaction_id (set (fe_seen f)) as) @ fe_buffer f \<and>
    fe_new (fold (feed_alert pick) as f) = fe_new f + length (keep_first ad_transaction_id (set (fe_seen f)) as) \<and>
    set (fe_seen (fold (feed_alert pick) as f)) = set (fe_seen f) \<union> ad_transaction_id ` set as \<and>
    length (fe_seen (fold (feed_alert pick) as f)) = length (fe_buffer (fold (feed_alert pick) as f))"
  using assms
proof (induction as arbitrary: f)
  case (Cons a as)
  show ?case
  proof (cases "ad_transaction_id a \<in> set (fe_seen f)")
    case True
    then have "length (fe_seen f) \<le> DEQUE_MAX" using Cons.prems(1) by simp
    with True have "feed_alert pick a f = f" by (simp add: feed_alert_def add_alert_def evict_def)
    then show ?thesis using Cons.IH [of f] Cons.prems True by (auto simp: insert_absorb)
  next
    case False
    let ?g = "f\<lparr>fe_buffer := a # fe_buffer f, fe_seen := ad_transaction_id a # fe_seen f, fe_new := Suc (fe_new f)\<rparr>"
    have bound: "Suc (length (fe_seen f)) \<le> DEQUE_MAX" using Cons.prems(1) False by simp
    have step: "feed_alert pick a f = ?g"
      using False bound Cons.prems(2) by (simp add: feed_alert_def add_alert_def evict_def appendleft_def)
    show ?thesis using Cons.IH [of ?g] Cons.prems False by (simp add: step)
  qed
qed simp

text \<open>
  An identifier that was evicted is unknown: the next delivery of its alert is shown a second time.
  Nothing makes the set give its oldest element.
\<close>

lemma evicted_alert_shown_again:
  assumes "ad_transaction_id a \<notin> set (fe_seen f)" "a \<in> set (take 499 (fe_buffer f))"
  shows "count_list (fe_buffer (add_alert a f)) a \<ge> 2"
proof -
  have "count_list (take 499 (fe_buffer f)) a \<ge> 1"
    using assms(2) by (metis count_list_0_iff leI less_one)
  then show ?thesis using assms(1) by (simp add: add_alert_def appendleft_def DEQUE_MAX_def)
qed

section \<open>Properties\<close>

text \<open>The feed keeps its bounds: however often the page runs and whatever arrives in between, the buffer
  has at most 500 alerts and the set of seen identifiers at most 500 elements.\<close>

theorem live_feed_bounded:
  assumes "\<And>xs. xs \<noteq> [] \<Longrightarrow> pick xs \<in> set xs"
  shows "feed_ok (fold (\<lambda>c f. snd (live_feed pick (c, f))) consumers feed_init)"
proof -
  have "feed_ok (fold (\<lambda>c f. snd (live_feed pick (c, f))) consumers f)" if "feed_ok f" for f
    using that by (induction consumers arbitrary: f) (simp_all add: live_feed_ok assms)
  then show ?thesis by (simp add: feed_init_ok)
qed

lemma live_feed_bounded_witness:
  "feed_ok (fold (\<lambda>c f. snd (live_feed hd (c, f))) [AnalyticsKafkaConsumer_init 500] feed_init)"
  by (rule live_feed_bounded) simp

text \<open>The feed shows every transaction once: as long as at most 500 transactions have arrived, the buffer
  after a run holds the first alert of each of them, the newest first, and the queue is empty.\<close>

theorem live_feed_shows_each_once:
  assumes "ac_alive c" "length (keep_first ad_transaction_id {} (ac_queue c)) \<le> DEQUE_MAX"
  shows "fe_buffer (snd (live_feed pick (c, feed_init))) = rev (keep_first ad_transaction_id {} (ac_queue c)) \<and>
    fe_new (snd (live_feed pick (c, feed_init))) = length (keep_first ad_transaction_id {} (ac_queue c)) \<and>
    distinct (map ad_transaction_id (fe_buffer (snd (live_feed pick (c, feed_init))))) \<and>
    ac_queue (fst (live_feed pick (c, feed_init))) = []"
proof -
  have "f\<lparr>fe_new := 0\<rparr> = f" if "f = feed_init" for f using that by (simp add: feed_init_def)
  then have run: "live_feed pick (c, feed_init) = (c\<lparr>ac_queue := []\<rparr>, fold (feed_alert pick) (ac_queue c) feed_init)"
    using assms(1) by (simp add: live_feed_def)
  have drained: "fe_buffer (fold (feed_alert pick) (ac_queue c) feed_init) = rev (keep_first ad_transaction_id {} (ac_queue c)) \<and>
    fe_new (fold (feed_alert pick) (ac_queue c) feed_init) = length (keep_first ad_transaction_id {} (ac_queue c))"
    using drain_keep_first [of feed_init "ac_queue c" pick] assms(2) by (simp add: feed_init_def)
  have "distinct (map ad_transaction_id (rev (keep_first ad_transaction_id {} (ac_queue c))))"
    unfolding rev_map [symmetric] distinct_rev by (rule keep_first_distinct)
  then show ?thesis using drained by (simp add: run)
qed

definition sample_feed_alert :: "string \<Rightarrow> alert_display" where
  "sample_feed_alert i = \<lparr>ad_transaction_id = PStr i, ad_account_id = PStr ''a'', ad_rule_triggers = [], ad_severity = ''high'',
     ad_decision = ''BLOCK'', ad_evaluation_timestamp = 0, ad_received_at = 0\<rparr>"

lemma live_feed_shows_each_once_witness:
  "fe_buffer (snd (live_feed hd ((AnalyticsKafkaConsumer_init 500)\<lparr>ac_alive := True,
     ac_queue := [sample_feed_alert ''t1'', sample_feed_alert ''t2'', sample_feed_alert ''t1'']\<rparr>, feed_init))) =
   [sample_feed_alert ''t2'', sample_feed_alert ''t1'']"
  using live_feed_shows_each_once [of "(AnalyticsKafkaConsumer_init 500)\<lparr>ac_alive := True,
     ac_queue := [sample_feed_alert ''t1'', sample_feed_alert ''t2'', sample_feed_alert ''t1'']\<rparr>" hd]
  by (simp add: sample_feed_alert_def DEQUE_MAX_def)

end
