(* ===== verification/Dash_Dlq.thy ===== *)
theory Dash_Dlq
  imports Dash_Base Producer "HOL-Library.Sublist"
begin

text \<open>
  The dead-letter inspector, \<open>analytics/app/pages/5_dlq_inspector.py\<close>: the loop that polls the topic
  until it has enough messages or five seconds are over, and the masking of the payloads it shows. The
  Kafka client, \<open>json.loads\<close>, the lenient decoding, the text of a value that is neither a text, a number
  nor None, and the texts of points in time are arguments.
\<close>

section \<open>Masking\<close>

definition pii_fields :: "string list" where
  "pii_fields = [''card_number'', ''pan'', ''ip_address'', ''ip'', ''email'']"

definition mask_text :: "string \<Rightarrow> string" where
  "mask_text val = (if 10 \<le> length val then take 6 val @ ''****'' @ drop (length val - 4) val else ''****'')"

text \<open>\<open>field in payload\<close>: a key, an element or a part of a text; other payloads cannot be asked.\<close>

definition payload_has :: "string \<Rightarrow> pyval \<Rightarrow> bool result" where
  "payload_has k payload =
     (case payload of
        PDict d \<Rightarrow> Inr (has_key d k)
      | PList xs \<Rightarrow> Inr (list_ex (\<lambda>x. py_eq x (PStr k)) xs)
      | PStr s \<Rightarrow> Inr (sublist k s)
      | _ \<Rightarrow> raise_exn TypeError ''argument is not iterable'')"

definition mask_field :: "(pyval \<Rightarrow> string) \<Rightarrow> string \<Rightarrow> pyval \<Rightarrow> pyval result" where
  "mask_field str_of k payload =
     rbind (payload_has k payload) (\<lambda>found.
       if \<not> found then Inr payload
       else (case payload of
               PDict d \<Rightarrow> Inr (PDict (dset d k (PStr (mask_text (py_str str_of (dget d k))))))
             | _ \<Rightarrow> raise_exn TypeError ''indices must be integers''))"

fun mask_fields :: "(pyval \<Rightarrow> string) \<Rightarrow> string list \<Rightarrow> pyval \<Rightarrow> pyval result" where
  "mask_fields str_of [] payload = Inr payload"
| "mask_fields str_of (k # ks) payload = rbind (mask_field str_of k payload) (mask_fields str_of ks)"

definition mask_payload :: "(pyval \<Rightarrow> string) \<Rightarrow> bool \<Rightarrow> pyval \<Rightarrow> pyval result" where
  "mask_payload str_of mask_pii payload = (if mask_pii then mask_fields str_of pii_fields payload else Inr payload)"

section \<open>Fetching\<close>

record dead_letter =
  dm_offset :: int
  dm_partition :: int
  dm_timestamp_ms :: int
  dm_value :: "8 word list option"

datatype dlq_poll = Idle | Consumer_error string | Got dead_letter | Client_raised exn

record inspector =
  in_json :: "8 word list option \<Rightarrow> pyval result"
  in_decode :: "8 word list \<Rightarrow> string"
  in_str :: "pyval \<Rightarrow> string"
  in_iso :: "rat \<Rightarrow> string"

text \<open>A payload that is not JSON is shown as text; a message without a value has no \<open>decode\<close>.\<close>

definition read_payload :: "inspector \<Rightarrow> 8 word list option \<Rightarrow> pyval result" where
  "read_payload ins raw =
     (case in_json ins raw of
        Inr v \<Rightarrow> Inr v
      | Inl e \<Rightarrow>
          (case raw of
             None \<Rightarrow> raise_exn AttributeError ''decode''
           | Some b \<Rightarrow> Inr (PDict [(''_raw'', PStr (in_decode ins b))])))"

record shown =
  sw_offset :: int
  sw_partition :: int
  sw_timestamp :: "string option"
  sw_payload :: pyval

text \<open>A point in time that is not positive is shown as a dash (\<open>None\<close>).\<close>

definition show_message :: "inspector \<Rightarrow> bool \<Rightarrow> dead_letter \<Rightarrow> shown result" where
  "show_message ins mask_pii msg =
     rbind (read_payload ins (dm_value msg)) (\<lambda>p.
     rbind (mask_payload (in_str ins) mask_pii p) (\<lambda>payload.
       Inr \<lparr>sw_offset = dm_offset msg, sw_partition = dm_partition msg,
            sw_timestamp = (if 0 < dm_timestamp_ms msg then Some (in_iso ins (fl (of_int (dm_timestamp_ms msg) / 1000))) else None),
            sw_payload = payload\<rparr>))"

datatype fetch_end =
    Fetched "shown list" "string list"
  | Kafka_failed exn
  | Page_failed exn

text \<open>
  The rounds of the loop: the seconds passed when the condition is checked, and what the poll gives.
  The deadline is five seconds. Nothing is shown when a poll raises or a message cannot be shown.
\<close>

fun fetch_loop ::
  "inspector \<Rightarrow> bool \<Rightarrow> nat \<Rightarrow> (rat \<times> dlq_poll) list \<Rightarrow> shown list \<Rightarrow> string list \<Rightarrow> fetch_end" where
  "fetch_loop ins mask_pii n [] msgs errs = Fetched msgs errs"
| "fetch_loop ins mask_pii n ((elapsed, p) # rounds) msgs errs =
     (if \<not> (length msgs < n \<and> elapsed < 5) then Fetched msgs errs
      else (case p of
              Idle \<Rightarrow> fetch_loop ins mask_pii n rounds msgs errs
            | Consumer_error e \<Rightarrow> fetch_loop ins mask_pii n rounds msgs (errs @ [e])
            | Client_raised e \<Rightarrow> Kafka_failed e
            | Got m \<Rightarrow>
                (case show_message ins mask_pii m of
                   Inl e \<Rightarrow> Page_failed e
                 | Inr s \<Rightarrow> fetch_loop ins mask_pii n rounds (msgs @ [s]) errs)))"

section \<open>Lemmas\<close>

text \<open>A value of ten characters is shown completely, just with stars in the middle.\<close>

lemma mask_text_ten:
  assumes "length val = 10"
  shows "take 6 (mask_text val) @ drop 10 (mask_text val) = val"
proof -
  have "take 6 (mask_text val) = take 6 val" "drop 10 (mask_text val) = drop 6 val"
    using assms by (simp_all add: mask_text_def)
  then show ?thesis by simp
qed

lemma mask_text_address: "mask_text ''192.168.1.1'' = ''192.16****.1.1''"
  by (simp add: mask_text_def)

lemma mask_field_dict:
  "mask_field str_of k (PDict d) =
     Inr (PDict (if has_key d k then dset d k (PStr (mask_text (py_str str_of (dget d k)))) else d))"
  by (simp add: mask_field_def payload_has_def)

lemma mask_fields_dict:
  assumes "distinct ks"
  shows "\<exists>d'. mask_fields str_of ks (PDict d) = Inr (PDict d') \<and> map fst d' = map fst d \<and>
    (\<forall>k. map_of d' k = (if k \<in> set ks then map_option (\<lambda>v. PStr (mask_text (py_str str_of v))) (map_of d k) else map_of d k))"
  using assms
proof (induction ks arbitrary: d)
  case (Cons k ks)
  let ?d = "if has_key d k then dset d k (PStr (mask_text (py_str str_of (dget d k)))) else d"
  obtain d' where d': "mask_fields str_of ks (PDict ?d) = Inr (PDict d')" "map fst d' = map fst ?d"
    "\<forall>i. map_of d' i = (if i \<in> set ks then map_option (\<lambda>v. PStr (mask_text (py_str str_of v))) (map_of ?d i) else map_of ?d i)"
    using Cons by fastforce
  have "map fst ?d = map fst d" by (simp add: keys_dset has_key_iff)
  moreover have "map_of ?d i = (if i = k then map_option (\<lambda>v. PStr (mask_text (py_str str_of v))) (map_of d k) else map_of d i)" for i
    by (auto simp: dict_simps has_key_def dget_def)
  then have "\<forall>i. map_of d' i =
      (if i \<in> set (k # ks) then map_option (\<lambda>v. PStr (mask_text (py_str str_of v))) (map_of d i) else map_of d i)"
    using d'(3) Cons.prems by (auto simp: has_key_def)
  ultimately show ?case using d'(1,2) by (intro exI [of _ d']) (simp add: mask_field_dict)
qed simp

lemma pii_fields_distinct: "distinct pii_fields"
  by (simp add: pii_fields_def)

text \<open>A payload that is a number stops the page when masking is on.\<close>

lemma number_payload_fails: "mask_payload str_of True (PInt i) = raise_exn TypeError ''argument is not iterable''"
  by (simp add: mask_payload_def pii_fields_def mask_field_def payload_has_def raise_exn_def)

definition got :: "dlq_poll \<Rightarrow> dead_letter list" where
  "got p = (case p of Got m \<Rightarrow> [m] | _ \<Rightarrow> [])"

lemma fetch_loop_reference:
  assumes "\<forall>(t, p) \<in> set rounds. (\<forall>e. p \<noteq> Client_raised e) \<and> (\<forall>m. p = Got m \<longrightarrow> show_message ins mask_pii m = Inr (view m))"
    and "length msgs \<le> n"
  shows "\<exists>errs'. fetch_loop ins mask_pii n rounds msgs errs =
    Fetched (msgs @ map view (take (n - length msgs) (concat (map (\<lambda>x. got (snd x)) (takeWhile (\<lambda>x. fst x < 5) rounds))))) errs'"
  using assms
proof (induction ins mask_pii n rounds msgs errs rule: fetch_loop.induct)
  case (2 ins mask_pii n elapsed p rounds msgs errs)
  show ?case
  proof (cases "length msgs < n \<and> elapsed < 5")
    case False
    then show ?thesis using 2(5) by (auto simp: not_less)
  next
    case True
    then show ?thesis
    proof (cases p)
      case (Got m)
      have "n - length msgs = Suc (n - Suc (length msgs))" using True by (simp add: Suc_diff_Suc)
      then show ?thesis using 2 True Got by (auto simp: got_def)
    qed (use 2 True in \<open>auto simp: got_def\<close>)
  qed
qed simp

section \<open>Properties\<close>

text \<open>The inspector fetches the first messages: when the client raises nothing and every message can be
  shown, the list is that of the first n messages that were polled before the deadline, in their
  order, whatever idle polls and consumer errors lie between them.\<close>

theorem inspector_fetches_first:
  assumes "\<forall>(t, p) \<in> set rounds. (\<forall>e. p \<noteq> Client_raised e) \<and> (\<forall>m. p = Got m \<longrightarrow> show_message ins mask_pii m = Inr (view m))"
  shows "\<exists>errs. fetch_loop ins mask_pii n rounds [] [] =
    Fetched (map view (take n (concat (map (\<lambda>x. got (snd x)) (takeWhile (\<lambda>x. fst x < 5) rounds))))) errs"
  using fetch_loop_reference [OF assms, of "[]" n "[]"] by simp

definition sample_inspector :: inspector where
  "sample_inspector = \<lparr>in_json = (\<lambda>raw. Inr (PDict [(''pan'', PStr ''4111111111111111''), (''id'', PInt 1)])),
     in_decode = (\<lambda>b. []), in_str = (\<lambda>v. []), in_iso = (\<lambda>t. [])\<rparr>"

definition sample_letter :: "int \<Rightarrow> dead_letter" where
  "sample_letter i = \<lparr>dm_offset = i, dm_partition = 0, dm_timestamp_ms = 0, dm_value = Some []\<rparr>"

definition sample_shown :: "dead_letter \<Rightarrow> shown" where
  "sample_shown m = \<lparr>sw_offset = dm_offset m, sw_partition = 0, sw_timestamp = None,
     sw_payload = PDict [(''pan'', PStr ''411111****1111''), (''id'', PInt 1)]\<rparr>"

lemma inspector_fetches_first_witness:
  "\<exists>errs. fetch_loop sample_inspector True 2
      [(0, Got (sample_letter 1)), (1, Idle), (2, Consumer_error ''e''), (3, Got (sample_letter 2)), (4, Got (sample_letter 3))] [] [] =
    Fetched [sample_shown (sample_letter 1), sample_shown (sample_letter 2)] errs"
proof -
  have "show_message sample_inspector True (sample_letter i) = Inr (sample_shown (sample_letter i))" for i
    by (simp add: show_message_def read_payload_def mask_payload_def pii_fields_def mask_field_def payload_has_def has_key_def
        sample_inspector_def sample_letter_def sample_shown_def mask_text_def dget_def dset_def)
  then show ?thesis
    using inspector_fetches_first [where ins = sample_inspector and mask_pii = True and n = 2 and view = sample_shown
        and rounds = "[(0, Got (sample_letter 1)), (1, Idle), (2, Consumer_error ''e''), (3, Got (sample_letter 2)), (4, Got (sample_letter 3))]"]
    by (simp add: got_def numeral_2_eq_2)
qed

text \<open>What masking does to an object: its keys stay, every listed field shows at most the first six and
  the last four characters of its text, and all other values are unchanged.\<close>

theorem mask_payload_spec:
  "\<exists>d'. mask_payload str_of True (PDict d) = Inr (PDict d') \<and> map fst d' = map fst d \<and>
    (\<forall>k. map_of d' k = (if k \<in> set pii_fields then map_option (\<lambda>v. PStr (mask_text (py_str str_of v))) (map_of d k) else map_of d k))"
  using mask_fields_dict [OF pii_fields_distinct] by (simp add: mask_payload_def)

text \<open>The inspector masks nothing of the dead letters that the producer writes: none of their keys is in
  its list, so the error message, which may quote a card number, and the payload are shown as they are.\<close>

theorem inspector_masks_no_dead_letter:
  "mask_payload str_of True (PDict (dlq_envelope env sent topic payload error_type msg masked)) =
     Inr (PDict (dlq_envelope env sent topic payload error_type msg masked))"
  by (simp add: mask_payload_def pii_fields_def mask_field_dict has_key_def dlq_envelope_def)

end
