(* ===== verification/Dash_Charts.thy ===== *)
theory Dash_Charts
  imports Queries
begin

text \<open>
  The charts on the queries: \<open>analytics/app/pages/2_fraud_rate.py\<close>, \<open>3_rule_triggers.py\<close> and
  \<open>4_model_compare.py\<close>, and the helper of \<open>widgets.py\<close>. The steps of pandas (group, sum, mean, merge,
  pivot, sort) are functions on lists of rows; a chart is the table it is drawn from. Counts are
  natural numbers, and a rate is their quotient rounded to a double.
\<close>

section \<open>Queries on a page\<close>

datatype notice = Query_failed string | Empty_result

definition run_query :: "'a list result \<Rightarrow> 'a list \<times> notice option" where
  "run_query r =
     (case r of
        Inl e \<Rightarrow> ([], Some (Query_failed (exn_msg e)))
      | Inr rows \<Rightarrow> if rows = [] then ([], Some Empty_result) else (rows, None))"

section \<open>The fraud rate\<close>

definition daily_totals :: "daily_row list \<Rightarrow> (int \<times> nat) list" where
  "daily_totals rows =
     map (\<lambda>d. (d, sum_list (map dy_count (filter (\<lambda>r. dy_date r = d) rows)))) (sort (remdups (map dy_date rows)))"

definition merge_inner :: "('k \<times> 'a) list \<Rightarrow> ('k \<times> 'b) list \<Rightarrow> ('k \<times> 'a \<times> 'b) list" where
  "merge_inner xs ys = concat (map (\<lambda>(k, a). case map_of ys k of None \<Rightarrow> [] | Some b \<Rightarrow> [(k, a, b)]) xs)"

definition fraud_trend :: "daily_row list \<Rightarrow> (int \<times> pyfloat) list" where
  "fraud_trend rows =
     map (\<lambda>(d, fraud, total). (d, to_double (of_nat fraud / of_nat total)))
       (merge_inner (daily_totals (filter (\<lambda>r. dy_decision r = ''BLOCK'') rows)) (daily_totals rows))"

definition trend_tab :: "daily_row list result \<Rightarrow> (int \<times> pyfloat) list \<times> notice option" where
  "trend_tab r = (case run_query r of (rows, n) \<Rightarrow> (if n = None then fraud_trend rows else [], n))"

text \<open>The pivot takes the mean of the rows of a cell, and zero for a cell without rows.\<close>

definition pivot_cell :: "channel_row list \<Rightarrow> string \<Rightarrow> string \<Rightarrow> pyfloat" where
  "pivot_cell rows ch dec =
     (let counts = map cr_count (filter (\<lambda>r. cr_channel r = ch \<and> cr_decision r = dec) rows) in
      if counts = [] then Fin 0 else to_double (of_nat (sum_list counts) / of_nat (length counts)))"

definition channel_pivot :: "channel_row list \<Rightarrow> (string \<times> (string \<times> pyfloat) list) list" where
  "channel_pivot rows =
     (let decs = sort_by str_less (remdups (map cr_decision rows)) in
      map (\<lambda>ch. (ch, map (\<lambda>dec. (dec, pivot_cell rows ch dec)) decs)) (sort_by str_less (remdups (map cr_channel rows))))"

section \<open>Rules\<close>

text \<open>The page stops when the leaderboard fails; the drill-down is for a rule chosen from it.\<close>

definition rule_page ::
  "aggregates \<Rightarrow> (int \<Rightarrow> int) \<Rightarrow> store \<Rightarrow> int \<Rightarrow> nat \<Rightarrow> (string list \<Rightarrow> string) \<Rightarrow>
     (rule_row list \<times> rule_day list result option) result" where
  "rule_page ag start_ms st days top_n pick =
     rbind (rule_leaderboard ag start_ms st (days * 24) top_n) (\<lambda>lb.
       let rule_options = map lb_rule lb in
       Inr (lb, if rule_options = [] then None
                else Some (rule_trigger_daily ag start_ms st (pick rule_options) (days * 24))))"

section \<open>Model versions\<close>

text \<open>The mean, per day, of the average scores of the decisions of that day.\<close>

definition version_series :: "aggregates \<Rightarrow> version_day list \<Rightarrow> (int \<times> pyfloat) list" where
  "version_series ag rows =
     map (\<lambda>d. (d, ag_avg ag (map vd_avg_score (filter (\<lambda>r. vd_date r = d) rows)))) (sort (remdups (map vd_date rows)))"

definition merge_outer :: "('k::linorder \<times> 'a) list \<Rightarrow> ('k \<times> 'b) list \<Rightarrow> ('k \<times> 'a option \<times> 'b option) list" where
  "merge_outer xs ys = map (\<lambda>k. (k, map_of xs k, map_of ys k)) (sort (remdups (map fst xs @ map fst ys)))"

text \<open>The page offers a comparison when there are two versions; the first two are preselected.\<close>

definition preselected :: "string list \<Rightarrow> (string \<times> string) option" where
  "preselected versions = (if 2 \<le> length versions then Some (versions ! 0, versions ! min 1 (length versions - 1)) else None)"

definition compare_versions ::
  "aggregates \<Rightarrow> (int \<Rightarrow> int) \<Rightarrow> store \<Rightarrow> int \<Rightarrow> string \<Rightarrow> string \<Rightarrow> (int \<times> pyfloat option \<times> pyfloat option) list result" where
  "compare_versions ag start_ms st days a b =
     rbind (model_version_daily ag start_ms st a (days * 24)) (\<lambda>da.
     rbind (model_version_daily ag start_ms st b (days * 24)) (\<lambda>db.
       Inr (merge_outer (version_series ag da) (version_series ag db))))"

section \<open>Lemmas\<close>

lemma map_of_tabulate: "map_of (map (\<lambda>d. (d, f d)) ds) d = (if d \<in> set ds then Some (f d) else None)"
  by (induction ds) auto

lemma daily_totals_lookup:
  "map_of (daily_totals rows) d =
     (if d \<in> dy_date ` set rows then Some (sum_list (map dy_count (filter (\<lambda>r. dy_date r = d) rows))) else None)"
  by (simp add: daily_totals_def map_of_tabulate)

text \<open>Groups whose key satisfies a predicate hold the rows whose key does.\<close>

lemma group_by_filter_total:
  "sum_list (map (\<lambda>g. length (snd g)) (filter (\<lambda>g. P (fst g)) (group_by key rows))) = length (filter (\<lambda>r. P (key r)) rows)"
proof -
  let ?ks = "filter P (remdups (map key rows))"
  have "map (\<lambda>g. length (snd g)) (filter (\<lambda>g. P (fst g)) (group_by key rows)) = map (\<lambda>k. length (filter (\<lambda>r. key r = k) rows)) ?ks"
    by (simp add: group_by_def filter_map o_def)
  then have "sum_list (map (\<lambda>g. length (snd g)) (filter (\<lambda>g. P (fst g)) (group_by key rows))) = length (filter (\<lambda>r. key r \<in> set ?ks) rows)"
    using group_sizes [of ?ks key rows] by simp
  also have "filter (\<lambda>r. key r \<in> set ?ks) rows = filter (\<lambda>r. P (key r)) rows"
    by (rule filter_cong) auto
  finally show ?thesis .
qed

lemma sort_by_filter_sum:
  fixes f :: "'a \<Rightarrow> nat"
  shows "sum_list (map f (filter P (sort_by before xs))) = sum_list (map f (filter P xs))"
proof -
  have "mset (filter P (sort_by before xs)) = mset (filter P xs)" by (simp add: sort_by_mset)
  then show ?thesis by (metis mset_map sum_mset_sum_list)
qed

lemma left_join_pairs:
  assumes "distinct (map er_transaction_id es)"
  shows "length (filter (\<lambda>x. P (fst x)) (left_join ds es)) = length (filter P ds)"
proof -
  have "length (filter (\<lambda>x. P (fst x)) (left_join ds es)) = length (filter P (map fst (left_join ds es)))"
    by (simp add: filter_map o_def)
  then show ?thesis by (simp add: left_join_decisions [OF assms])
qed

text \<open>What the rows of the daily query add up to, for any condition on day and decision.\<close>

lemma daily_rows_sum:
  assumes "qs_catalog st = None" "scan_decisions st (start_ms (capped hours)) = Inr ds"
    and "scan_enriched st (start_ms (capped hours)) = Inr es" "distinct (map er_transaction_id es)"
    and "fraud_rate_daily ag start_ms st hours = Inr rows"
  shows "sum_list (map dy_count (filter (\<lambda>r. P (dy_date r) (dy_decision r)) rows)) =
      length (filter (\<lambda>x. P (day_of (dr_time_us x)) (dr_decision x)) ds)"
    "(\<exists>r \<in> set rows. dy_date r = d \<and> dy_decision r = dec) \<longleftrightarrow> (\<exists>x \<in> set ds. day_of (dr_time_us x) = d \<and> dr_decision x = dec)"
proof -
  let ?key = "\<lambda>x. (day_of (dr_time_us (fst x)), channel_of x, dr_decision (fst x))"
  let ?groups = "group_by ?key (left_join ds es)"
  have rows: "rows = sort_by daily_before (map (daily_row_of ag) ?groups)"
    using assms(1-3,5) by (auto simp: fraud_rate_daily_def load_decisions_def with_catalog_def left_join_def group_by_def)
  have cell: "dy_date (daily_row_of ag g) = fst (fst g)" "dy_decision (daily_row_of ag g) = snd (snd (fst g))"
    "dy_count (daily_row_of ag g) = length (snd g)" for g
    by (simp_all add: daily_row_of_def split: prod.split)
  have "sum_list (map dy_count (filter (\<lambda>r. P (dy_date r) (dy_decision r)) rows)) =
      sum_list (map (\<lambda>g. length (snd g)) (filter (\<lambda>g. P (fst (fst g)) (snd (snd (fst g)))) ?groups))"
    unfolding rows sort_by_filter_sum by (simp add: filter_map o_def cell)
  also have "\<dots> = length (filter (\<lambda>x. P (day_of (dr_time_us (fst x))) (dr_decision (fst x))) (left_join ds es))"
    by (subst group_by_filter_total) simp
  also have "\<dots> = length (filter (\<lambda>x. P (day_of (dr_time_us x)) (dr_decision x)) ds)"
    by (rule left_join_pairs [OF assms(4)])
  finally show "sum_list (map dy_count (filter (\<lambda>r. P (dy_date r) (dy_decision r)) rows)) =
      length (filter (\<lambda>x. P (day_of (dr_time_us x)) (dr_decision x)) ds)" .
  have keys: "fst ` set ?groups = ?key ` set (left_join ds es)"
    using group_by_keys [of ?key "left_join ds es"] by (metis set_map set_remdups)
  have "(\<exists>r \<in> set rows. dy_date r = d \<and> dy_decision r = dec) \<longleftrightarrow> (\<exists>k \<in> fst ` set ?groups. fst k = d \<and> snd (snd k) = dec)"
    by (simp add: rows cell)
  also have "\<dots> \<longleftrightarrow> (\<exists>x \<in> set (map fst (left_join ds es)). day_of (dr_time_us x) = d \<and> dr_decision x = dec)"
    unfolding keys by simp
  finally show "(\<exists>r \<in> set rows. dy_date r = d \<and> dy_decision r = dec) \<longleftrightarrow> (\<exists>x \<in> set ds. day_of (dr_time_us x) = d \<and> dr_decision x = dec)"
    by (simp add: left_join_decisions [OF assms(4)])
qed

text \<open>An inner merge with the totals of all rows keeps every day of the selected ones.\<close>

lemma merge_inner_all:
  assumes "\<And>k. k \<in> fst ` set xs \<Longrightarrow> map_of ys k = Some (f k)"
  shows "merge_inner xs ys = map (\<lambda>(k, a). (k, a, f k)) xs"
  using assms by (induction xs) (auto simp: merge_inner_def)

text \<open>The comparison of an unweighted mean: one blocked decision weighs as much as all others of the day.\<close>

lemma version_series_unweighted:
  assumes "vd_date x = d" "vd_date y = d"
  shows "version_series ag [x, y] = [(d, ag_avg ag [vd_avg_score x, vd_avg_score y])]"
  using assms by (simp add: version_series_def)

section \<open>Properties\<close>

text \<open>The trend shows the fraud rate: on every day with a blocked decision the chart has the number of
  blocked decisions divided by the number of all decisions of that day, when no transaction is in the
  enriched table twice. Days without a blocked decision, where the rate is zero, are not in the chart.\<close>

theorem trend_is_block_rate:
  assumes "qs_catalog st = None" "scan_decisions st (start_ms (capped hours)) = Inr ds"
    and "scan_enriched st (start_ms (capped hours)) = Inr es" "distinct (map er_transaction_id es)"
    and "fraud_rate_daily ag start_ms st hours = Inr rows"
  shows "fraud_trend rows =
    (let blocked = filter (\<lambda>x. dr_decision x = ''BLOCK'') ds;
         on = (\<lambda>d xs. length (filter (\<lambda>x. day_of (dr_time_us x) = d) xs))
     in map (\<lambda>d. (d, to_double (of_nat (on d blocked) / of_nat (on d ds))))
          (sort (remdups (map (\<lambda>x. day_of (dr_time_us x)) blocked))))"
proof -
  note q = daily_rows_sum [OF assms]
  let ?brows = "filter (\<lambda>r. dy_decision r = ''BLOCK'') rows"
  let ?blocked = "filter (\<lambda>x. dr_decision x = ''BLOCK'') ds"
  let ?on = "\<lambda>d xs. length (filter (\<lambda>x. day_of (dr_time_us x) = d) xs)"
  have fraud: "sum_list (map dy_count (filter (\<lambda>r. dy_date r = d) ?brows)) = ?on d ?blocked" for d
    using q(1) [of "\<lambda>date dec. date = d \<and> dec = ''BLOCK''"] by (simp add: conj_commute)
  have total: "sum_list (map dy_count (filter (\<lambda>r. dy_date r = d) rows)) = ?on d ds" for d
    using q(1) [of "\<lambda>date dec. date = d"] by simp
  have days: "dy_date ` set ?brows = (\<lambda>x. day_of (dr_time_us x)) ` set ?blocked"
  proof (rule set_eqI)
    fix d
    have "d \<in> dy_date ` set ?brows \<longleftrightarrow> (\<exists>r \<in> set rows. dy_date r = d \<and> dy_decision r = ''BLOCK'')" by auto
    also have "\<dots> \<longleftrightarrow> (\<exists>x \<in> set ds. day_of (dr_time_us x) = d \<and> dr_decision x = ''BLOCK'')" by (rule q(2))
    also have "\<dots> \<longleftrightarrow> d \<in> (\<lambda>x. day_of (dr_time_us x)) ` set ?blocked" by auto
    finally show "d \<in> dy_date ` set ?brows \<longleftrightarrow> d \<in> (\<lambda>x. day_of (dr_time_us x)) ` set ?blocked" .
  qed
  then have sorted: "sort (remdups (map dy_date ?brows)) = sort (remdups (map (\<lambda>x. day_of (dr_time_us x)) ?blocked))"
    by (intro sorted_distinct_set_unique) simp_all
  have merged: "merge_inner (daily_totals ?brows) (daily_totals rows) = map (\<lambda>(d, a). (d, a, ?on d ds)) (daily_totals ?brows)"
    by (rule merge_inner_all) (auto simp: daily_totals_lookup total, auto simp: daily_totals_def)
  have "daily_totals ?brows = map (\<lambda>d. (d, ?on d ?blocked)) (sort (remdups (map (\<lambda>x. day_of (dr_time_us x)) ?blocked)))"
    unfolding daily_totals_def fraud sorted ..
  then show ?thesis unfolding fraud_trend_def merged by (simp add: Let_def del: filter_filter)
qed

lemma trend_is_block_rate_witness:
  "\<exists>rows. fraud_rate_daily sample_aggregates (\<lambda>h. 0) sample_store 24 = Inr rows \<and>
     fraud_trend rows = [(11574, to_double 1)]"
proof -
  let ?ds = "[sample_decision ''t1'' [''VEL-001''], sample_decision ''t2'' [''VEL-001'', ''ND-001'']]"
  let ?es = "[\<lparr>er_transaction_id = ''t1'', er_channel = Some ''POS'', er_amount = 10, er_event_us = 10 ^ 15\<rparr>]"
  have scan: "qs_catalog sample_store = None" "scan_decisions sample_store ((\<lambda>h. 0) (capped 24)) = Inr ?ds"
    "scan_enriched sample_store ((\<lambda>h. 0) (capped 24)) = Inr ?es" "distinct (map er_transaction_id ?es)"
    by (simp_all add: sample_store_def scan_decisions_def scan_enriched_def sample_decision_def)
  obtain rows where rows: "fraud_rate_daily sample_aggregates (\<lambda>h. 0) sample_store 24 = Inr rows"
    using scan by (simp add: fraud_rate_daily_def load_decisions_def with_catalog_def)
  then show ?thesis
    using trend_is_block_rate [OF scan rows] by (simp add: sample_decision_def day_of_def)
qed

text \<open>The comparison of two versions loses no day: it lists, in order and once, every day on which one of
  them decided, each with the value of its series, or without a value.\<close>

theorem comparison_keeps_days:
  assumes "model_version_daily ag start_ms st a (days * 24) = Inr da" "model_version_daily ag start_ms st b (days * 24) = Inr db"
  shows "\<exists>table. compare_versions ag start_ms st days a b = Inr table \<and> sorted (map fst table) \<and> distinct (map fst table) \<and>
    set (map fst table) = vd_date ` set da \<union> vd_date ` set db \<and>
    (\<forall>(d, x, y) \<in> set table. x = map_of (version_series ag da) d \<and> y = map_of (version_series ag db) d)"
proof -
  let ?table = "merge_outer (version_series ag da) (version_series ag db)"
  have keys: "map fst ?table = sort (remdups (map fst (version_series ag da) @ map fst (version_series ag db)))"
    by (simp add: merge_outer_def o_def)
  have series: "set (map fst (version_series ag rows)) = vd_date ` set rows" for rows
    by (simp add: version_series_def o_def image_image)
  have "set (map fst ?table) = vd_date ` set da \<union> vd_date ` set db"
    unfolding keys using series by simp
  moreover have "sorted (map fst ?table)" "distinct (map fst ?table)" unfolding keys by simp_all
  moreover have "compare_versions ag start_ms st days a b = Inr ?table" using assms by (simp add: compare_versions_def)
  moreover have "\<forall>(d, x, y) \<in> set ?table. x = map_of (version_series ag da) d \<and> y = map_of (version_series ag db) d"
    by (auto simp: merge_outer_def)
  ultimately show ?thesis by blast
qed

lemma comparison_keeps_days_witness:
  "\<exists>da table. model_version_daily sample_aggregates (\<lambda>h. 0) sample_store ''v1'' (30 * 24) = Inr da \<and>
     compare_versions sample_aggregates (\<lambda>h. 0) sample_store 30 ''v1'' ''v2'' = Inr table \<and>
     set (map fst table) = vd_date ` set da"
proof -
  have scan: "qs_catalog sample_store = None" "qs_decisions sample_store =
      Inr [sample_decision ''t1'' [''VEL-001''], sample_decision ''t2'' [''VEL-001'', ''ND-001'']]"
    by (simp_all add: sample_store_def)
  obtain da where da: "model_version_daily sample_aggregates (\<lambda>h. 0) sample_store ''v1'' (30 * 24) = Inr da"
    using scan by (simp add: model_version_daily_def load_decisions_conn_def with_catalog_def scan_decisions_def)
  have db: "model_version_daily sample_aggregates (\<lambda>h. 0) sample_store ''v2'' (30 * 24) = Inr []"
    using scan by (simp add: model_version_daily_def load_decisions_conn_def with_catalog_def scan_decisions_def
        sample_decision_def group_by_def split: if_splits)
  show ?thesis using comparison_keeps_days [OF da db] da by auto
qed

end
