(* ===== verification/Dash_Shadow.thy ===== *)
theory Dash_Shadow
  imports Dash_Base Management
begin

text \<open>
  The shadow rule monitor, \<open>analytics/app/pages/6_shadow_rules.py\<close>: the counts it reads from
  Prometheus, the gate of the promotion button, and its calls to the management service, which are
  composed here with the endpoints of Management. Replies of Prometheus are JSON of unknown shape.
  The texts of the messages are given by constructors; the requests carry no API key.
\<close>

section \<open>Prometheus\<close>

definition query_prometheus :: "http_reply \<Rightarrow> pyval result" where
  "query_prometheus r =
     (case reply_json r of
        None \<Rightarrow> raise_exn RuntimeError ''Failed to query Prometheus''
      | Some v \<Rightarrow> Inr v)"

text \<open>One item of a result: nothing without a rule, else its rule and value.\<close>

definition metric_item :: "pyval \<Rightarrow> (pyval \<times> pyfloat) option result" where
  "metric_item item =
     rbind (pget item ''labels'' (PDict [])) (\<lambda>labels.
     rbind (pget labels ''rule_id'' PNone) (\<lambda>rule_id.
       if truthy rule_id
       then rbind (pget item ''value'' (PList [PNone, PInt 0])) (\<lambda>v.
            rbind (pindex v 1) (\<lambda>x.
            rbind (py_float (py_or x (PInt 0))) (\<lambda>f.
              if hashable rule_id then Inr (Some (rule_id, f)) else raise_exn TypeError ''unhashable type'')))
       else Inr None))"

fun collect_metrics :: "pyval list \<Rightarrow> (pyval \<times> pyfloat) list \<Rightarrow> (pyval \<times> pyfloat) list result" where
  "collect_metrics [] m = Inr m"
| "collect_metrics (item # items) m =
     rbind (metric_item item) (\<lambda>r. case r of None \<Rightarrow> collect_metrics items m
                                   | Some (k, f) \<Rightarrow> collect_metrics items (dset m k f))"

definition extract_metrics :: "pyval \<Rightarrow> (pyval \<times> pyfloat) list result" where
  "extract_metrics res =
     rbind (pget res ''status'' PNone) (\<lambda>status.
       if \<not> py_eq status (PStr ''success'') then Inr []
       else rbind (pget res ''data'' (PDict [])) (\<lambda>d.
            rbind (pget d ''result'' (PList [])) (\<lambda>items.
            rbind (py_iter items) (\<lambda>xs. collect_metrics xs []))))"

section \<open>The table\<close>

record shadow_row =
  sh_rule_id :: pyval
  sh_triggers :: int
  sh_fp_count :: int
  sh_fp_rate :: pyfloat

definition shadow_row_of :: "(pyval \<times> pyfloat) list \<Rightarrow> pyval \<times> pyfloat \<Rightarrow> shadow_row result" where
  "shadow_row_of fps kv =
     (let triggers = snd kv;
          fp = (case map_of fps (fst kv) of None \<Rightarrow> Fin 0 | Some f \<Rightarrow> f);
          rate = (if fl_less (Fin 0) triggers then fl_div_pos fp triggers else Fin 0)
      in rbind (py_int (PFloat triggers)) (\<lambda>t. rbind (py_int (PFloat fp)) (\<lambda>n.
           Inr \<lparr>sh_rule_id = fst kv, sh_triggers = t, sh_fp_count = n, sh_fp_rate = rate\<rparr>)))"

text \<open>Any exception empties the table and is shown as an error (second component).\<close>

definition load_shadow_rule_metrics :: "http_reply \<Rightarrow> http_reply \<Rightarrow> shadow_row list \<times> bool" where
  "load_shadow_rule_metrics triggers_reply fp_reply =
     (case rbind (query_prometheus triggers_reply) (\<lambda>t.
           rbind (extract_metrics t) (\<lambda>triggers.
           rbind (query_prometheus fp_reply) (\<lambda>f.
           rbind (extract_metrics f) (\<lambda>fps. rmap (shadow_row_of fps) triggers)))) of
        Inr rows \<Rightarrow> (sort_desc sh_triggers rows, False)
      | Inl e \<Rightarrow> ([], True))"

section \<open>The promotion gate\<close>

definition MIN_TRIGGERS_FOR_PROMOTION :: int where
  "MIN_TRIGGERS_FOR_PROMOTION = 100"

definition FP_RATE_PROMOTION_GATE :: pyfloat where
  "FP_RATE_PROMOTION_GATE = to_double (2 / 100)"

datatype promote_button = Enabled | Insufficient_data int | Fp_rate_too_high pyfloat

definition button_of :: "shadow_row \<Rightarrow> promote_button" where
  "button_of row =
     (let meets_trigger_threshold = MIN_TRIGGERS_FOR_PROMOTION \<le> sh_triggers row;
          meets_fp_threshold = fl_less (sh_fp_rate row) FP_RATE_PROMOTION_GATE
      in if meets_trigger_threshold \<and> meets_fp_threshold then Enabled
         else if \<not> meets_trigger_threshold then Insufficient_data (sh_triggers row)
         else Fp_rate_too_high (sh_fp_rate row))"

section \<open>Calls to the management service\<close>

datatype post_reply = Post_failed exn | Posted int "pyval result" string

datatype promote_message =
    Promoted pyval
  | Already_active
  | Not_found
  | Promotion_failed int string
  | Connection_error string

definition promote_outcome :: "post_reply \<Rightarrow> (bool \<times> promote_message) result" where
  "promote_outcome r =
     (case r of
        Post_failed e \<Rightarrow> Inr (False, Connection_error (exn_msg e))
      | Posted status body txt \<Rightarrow>
          (if status = 200
           then (case body of
                   Inl e \<Rightarrow> Inr (False, Connection_error (exn_msg e))
                 | Inr v \<Rightarrow> rbind (pget v ''reload_timestamp'' PNone) (\<lambda>t. Inr (True, Promoted t)))
           else if status = 409 then Inr (False, Already_active)
           else if status = 404 then Inr (False, Not_found)
           else Inr (False, Promotion_failed status (if txt = [] then ''Unknown error'' else txt))))"

definition breaker_state_reply :: "http_reply \<Rightarrow> pyval" where
  "breaker_state_reply r = (case reply_json r of None \<Rightarrow> PNone | Some v \<Rightarrow> v)"

datatype breaker_panel =
    Unavailable_panel
  | Open_panel pyval "pyfloat"
  | Healthy_panel pyval

definition upper_ok :: "pyval \<Rightarrow> unit result" where
  "upper_ok v = (case v of PStr s \<Rightarrow> Inr () | _ \<Rightarrow> raise_exn AttributeError ''upper'')"

text \<open>The panel of an open breaker: the count of failures and the time of the next probe in seconds.\<close>

definition breaker_panel_of :: "pyval \<Rightarrow> breaker_panel result" where
  "breaker_panel_of v =
     (if \<not> truthy v then Inr Unavailable_panel
      else rbind (pget v ''state'' PNone) (\<lambda>state.
           rbind (pget v ''state'' (PStr ''unknown'')) (\<lambda>shown.
           rbind (upper_ok shown) (\<lambda>_.
             if py_eq state (PStr ''open'')
             then rbind (pget v ''next_probe_at'' (PInt 0)) (\<lambda>t.
                  rbind (py_float t) (\<lambda>ms.
                  rbind (pget v ''failure_count'' (PInt 0)) (\<lambda>n.
                    Inr (Open_panel n (case ms of Fin x \<Rightarrow> to_double (x / 1000) | _ \<Rightarrow> ms)))))
             else Inr (Healthy_panel shown)))))"

text \<open>What the panel of automatic demotions shows.\<close>

datatype demotion_panel = No_rules | Rules_monitored nat | No_demotions | Status_unavailable

definition demotion_panel_of :: "shadow_row list \<Rightarrow> http_reply \<Rightarrow> demotion_panel" where
  "demotion_panel_of rows r =
     (if rows = [] then No_rules
      else case rbind (query_prometheus r) (\<lambda>v. rbind (pget v ''data'' (PDict [])) (\<lambda>d. pget d ''result'' (PList []))) of
             Inl e \<Rightarrow> Status_unavailable
           | Inr c \<Rightarrow> (if truthy c then Rules_monitored (length rows) else No_demotions))"

section \<open>Against the service\<close>

text \<open>How the framework answers: the response as JSON, or the status and text of an HTTP error.\<close>

definition mode_json :: "mode_response \<Rightarrow> pyval" where
  "mode_json m = PDict [(''rule_id'', PStr (mr_rule_id m)), (''previous_mode'', PStr (mr_previous_mode m)),
     (''new_mode'', PStr (mr_new_mode m)), (''config_event_published'', PBool (mr_config_event_published m))]"

definition post_reply_of :: "mode_response result \<Rightarrow> post_reply" where
  "post_reply_of r =
     (case r of
        Inr m \<Rightarrow> Posted 200 (Inr (mode_json m)) []
      | Inl e \<Rightarrow> Posted (case exn_cls e of HTTPException n \<Rightarrow> n | _ \<Rightarrow> 500) (raise_exn JSONDecodeError []) (exn_msg e))"

text \<open>The button: the request has a valid path, is not over the limit, and has no key.\<close>

definition press_promote ::
  "string option \<Rightarrow> (pydict \<Rightarrow> pydict result) \<Rightarrow> (pyval \<Rightarrow> string) \<Rightarrow> write_outcome \<Rightarrow> string \<Rightarrow> api_state \<Rightarrow>
     api_state \<times> (bool \<times> promote_message) result" where
  "press_promote expected_key jc yaml_dump outcome rid st =
     (let (st', r) = guarded expected_key None True False (Management.promote_rule jc yaml_dump outcome rid) st
      in (st', promote_outcome (post_reply_of r)))"

definition breaker_json :: "breaker_response \<Rightarrow> pyval" where
  "breaker_json b =
     (let opt = (\<lambda>x. case x of None \<Rightarrow> PNone | Some s \<Rightarrow> PStr s)
      in PDict [(''state'', PStr (br_state b)), (''failure_count'', PInt (br_failure_count b)),
                (''last_failure_time'', opt (br_last_failure_time b)), (''next_probe_time'', opt (br_next_probe_time b))])"

section \<open>Lemmas\<close>

lemma collect_without_labels:
  assumes "\<forall>item \<in> set items. \<exists>d. item = PDict d \<and> \<not> has_key d ''labels''"
  shows "collect_metrics items m = Inr m"
  using assms by (induction items) (auto simp: metric_item_def pget_def dget_or_def has_key_def)

text \<open>The documented format of an instant vector: each item has its labels under \<open>metric\<close>.\<close>

definition prometheus_vector :: "(pydict \<times> pyval) list \<Rightarrow> pyval" where
  "prometheus_vector items =
     PDict [(''status'', PStr ''success''),
            (''data'', PDict [(''resultType'', PStr ''vector''),
               (''result'', PList (map (\<lambda>(metric, v). PDict [(''metric'', PDict metric), (''value'', v)]) items))])]"

lemma extract_prometheus_vector: "extract_metrics (prometheus_vector items) = Inr []"
proof -
  have "collect_metrics (map (\<lambda>(metric, v). PDict [(''metric'', PDict metric), (''value'', v)]) items) [] = Inr []"
    by (rule collect_without_labels) (auto simp: has_key_def)
  then show ?thesis
    by (simp add: extract_metrics_def prometheus_vector_def pget_def dget_or_def py_iter_def)
qed

text \<open>The panel of an open breaker always shows the epoch: the service names the field otherwise.\<close>

lemma open_panel_shows_epoch:
  "breaker_panel_of (breaker_json b) = Inr (Open_panel n t) \<Longrightarrow> t = Fin 0"
  by (auto simp: breaker_panel_of_def breaker_json_def pget_def dget_or_def upper_ok_def to_double_def
      double_limit_def Let_def split: if_splits)

lemma fl_div_below:
  assumes "fl_less (to_double (n / t)) (to_double (2 / 100))" "0 \<le> n" "0 < t"
  shows "n / t < 2 / 100"
proof (rule ccontr)
  assume "\<not> n / t < 2 / 100"
  then have ge: "2 / 100 \<le> n / t" by simp
  then have mono: "fl (2 / 100) \<le> fl (n / t)" by (intro fl_mono) simp_all
  have "to_double (2 / 100) = Fin (fl (2 / 100))" by code_simp
  with assms(1) mono show False
    using fl_mono_sign [of "n / t"] assms(2,3)
    by (auto simp: to_double_def Let_def double_limit_def split: if_splits)
qed

lemma set_rule_mode_lookup:
  "map_of (ap_rules (set_rule_mode rid m st)) rid = map_option (\<lambda>r. r\<lparr>mode := m\<rparr>) (map_of (ap_rules st) rid)"
proof -
  have "map_of (map (\<lambda>(k, r). (k, if k = rid then r\<lparr>mode := m\<rparr> else r)) rs) rid =
      map_option (\<lambda>r. r\<lparr>mode := m\<rparr>) (map_of rs rid)" for rs :: "(string \<times> rule_definition) list"
    by (induction rs) auto
  then show ?thesis by (simp add: set_rule_mode_def)
qed

section \<open>Properties\<close>

text \<open>The monitor never lists a rule: it reads the labels of an item under the key labels, Prometheus
  sends them under metric, so whatever the counters are, the table is empty and no rule can be
  promoted from the page.\<close>

theorem shadow_monitor_lists_nothing:
  assumes "reply_json triggers_reply = Some (prometheus_vector items)"
    and "reply_json fp_reply = Some (prometheus_vector fp_items)"
  shows "load_shadow_rule_metrics triggers_reply fp_reply = ([], False)"
  using assms by (simp add: load_shadow_rule_metrics_def query_prometheus_def extract_prometheus_vector)

lemma shadow_monitor_lists_nothing_witness:
  "load_shadow_rule_metrics
     (Reply 200 (Inr (prometheus_vector [([(''rule_id'', PStr ''VEL-001'')], PList [PInt 1, PStr ''250''])])))
     (Reply 200 (Inr (prometheus_vector []))) = ([], False)"
  by (rule shadow_monitor_lists_nothing) (simp_all add: reply_json_def failed_status_def)

text \<open>The promotion gate holds for the exact rate, rounding included: a rule whose button is enabled
  triggered at least 100 times, and less than two percent of its triggers were on clean
  transactions.\<close>

theorem promotion_gate_sound:
  assumes "shadow_row_of fps (rid, Fin t) = Inr row" "map_of fps rid = Some (Fin n)" "0 \<le> n"
    and "button_of row = Enabled"
  shows "100 \<le> t \<and> n / t < 2 / 100"
proof -
  have row: "sh_triggers row = truncate_rat t"
    "sh_fp_rate row = (if 0 < t then to_double (n / t) else Fin 0)"
    using assms(1,2) by (auto simp: shadow_row_of_def Let_def result_simps)
  have gate: "100 \<le> truncate_rat t" "fl_less (sh_fp_rate row) (to_double (2 / 100))"
    using assms(4) by (auto simp: button_of_def Let_def row(1) MIN_TRIGGERS_FOR_PROMOTION_def
        FP_RATE_PROMOTION_GATE_def split: if_splits)
  then have t: "100 \<le> t" by (auto simp: truncate_rat_def le_floor_iff split: if_splits)
  with gate(2) row(2) fl_div_below [of n t] assms(3) show ?thesis by simp
qed

lemma promotion_gate_sound_witness:
  "(100 :: rat) \<le> 250 \<and> 4 / 250 < (2 / 100 :: rat)"
proof (rule promotion_gate_sound [where rid = "PStr ''VEL-001''" and fps = "[(PStr ''VEL-001'', Fin 4)]"])
  let ?row = "\<lparr>sh_rule_id = PStr ''VEL-001'', sh_triggers = 250, sh_fp_count = 4, sh_fp_rate = to_double (4 / 250)\<rparr>"
  show "shadow_row_of [(PStr ''VEL-001'', Fin 4)] (PStr ''VEL-001'', Fin 250) = Inr ?row"
    by (simp add: shadow_row_of_def truncate_rat_def)
  have "fl_less (to_double (4 / 250)) (to_double (2 / 100))" by code_simp
  then show "button_of ?row = Enabled"
    by (simp add: button_of_def MIN_TRIGGERS_FOR_PROMOTION_def FP_RATE_PROMOTION_GATE_def)
qed simp_all

text \<open>C35: What the page reports as a promotion is one: the service demanded no key, the rule was in shadow
  mode and is active now. With a key configured no promotion from the page succeeds, and the time
  of the reload that it announces is never there.\<close>

theorem reported_promotion_happened:
  assumes "press_promote expected_key jc yaml_dump outcome rid st = (st', Inr (True, msg))"
  shows "(expected_key = None \<or> expected_key = Some []) \<and> msg = Promoted PNone \<and>
    (\<exists>r. map_of (ap_rules st) rid = Some r \<and> mode r = Shadow) \<and>
    (\<exists>r. map_of (ap_rules st') rid = Some r \<and> mode r = Active)"
proof -
  let ?ep = "Management.promote_rule jc yaml_dump outcome rid"
  obtain r where g: "guarded expected_key None True False ?ep st = (st', r)"
    and r: "promote_outcome (post_reply_of r) = Inr (True, msg)"
    using assms by (auto simp: press_promote_def Let_def split: prod.splits)
  from r obtain m where m: "r = Inr m" "msg = Promoted PNone"
    by (auto simp: promote_outcome_def post_reply_of_def mode_json_def pget_def dget_or_def raise_exn_def split: sum.splits if_splits)
  have key: "expected_key = None \<or> expected_key = Some []"
  proof (rule ccontr)
    assume "\<not> (expected_key = None \<or> expected_key = Some [])"
    then obtain c cs where "expected_key = Some (c # cs)" by (metis neq_Nil_conv option.exhaust)
    with g m(1) show False by (simp add: guarded_def require_api_key_def raise_exn_def)
  qed
  then have ep: "change_mode Active jc yaml_dump outcome rid st = (st', Inr m)"
    using g m(1) by (auto simp: guarded_def require_api_key_def promote_rule_def)
  then obtain rule where rule: "map_of (ap_rules st) rid = Some rule" "mode rule \<noteq> Active"
    and st': "ap_rules st' = ap_rules (set_rule_mode rid Active st)"
    using change_mode_ok [OF ep] by auto
  have "map_of (ap_rules st') rid = Some (rule\<lparr>mode := Active\<rparr>)"
    using rule(1) by (simp add: st' set_rule_mode_lookup)
  moreover have "mode rule = Shadow" using rule(2) by (cases "mode rule") simp_all
  ultimately show ?thesis using key m(2) rule(1) by auto
qed

lemma reported_promotion_happened_witness:
  "\<exists>st'. press_promote None Inr (\<lambda>_. ''yaml'') Written ''VEL-001'' (set_rule_mode ''VEL-001'' Shadow sample_api) =
      (st', Inr (True, Promoted PNone)) \<and>
    (\<exists>r. map_of (ap_rules st') ''VEL-001'' = Some r \<and> mode r = Active)"
proof -
  let ?st = "set_rule_mode ''VEL-001'' Shadow sample_api"
  obtain st' m where "press_promote None Inr (\<lambda>_. ''yaml'') Written ''VEL-001'' ?st = (st', Inr (True, m))"
    by (simp add: press_promote_def guarded_def require_api_key_def promote_rule_def change_mode_def sample_api_def
        sample_rule_def write_rules_to_yaml_def set_rule_mode_def dump_rule_def promote_outcome_def post_reply_of_def
        mode_json_def pget_def)
  with reported_promotion_happened [OF this] show ?thesis by blast
qed

end
