(* ===== verification/Dash_Scoring.thy ===== *)
theory Dash_Scoring
  imports Dash_Base
begin

text \<open>
  The comparison of production and shadow decisions, \<open>analytics/app/pages/08_shadow_scoring.py\<close>: the
  load with its filters, the summary, the distribution of the score deltas, the table of mismatches, the
  pages of the detailed table and the rules that triggered most. The SQL texts run by DuckDB are
  functions on lists of rows, the catalog and its scans are arguments; averages of doubles are too.
\<close>

section \<open>Loading\<close>

record shadow_decision_row =
  xr_transaction_id :: string
  xr_account_id :: string
  xr_production :: string
  xr_production_score :: rat
  xr_production_rules :: "string list"
  xr_shadow :: string
  xr_shadow_score :: rat
  xr_shadow_rules :: "string list"
  xr_model_version :: string
  xr_rule_set :: string
  xr_shadow_rule_set :: string
  xr_time_us :: int
  xr_delta :: rat
  xr_mismatch :: bool

text \<open>
  The store answers with errors of the catalog, the table or the scan; \<open>xs_literal_us\<close> is the point in
  time that the catalog takes an integer literal for when it compares it with the column of timestamps.
\<close>

record shadow_store =
  xs_catalog :: "exn option"
  xs_table :: "exn option"
  xs_scan :: "exn option"
  xs_rows :: "shadow_decision_row list"
  xs_literal_us :: "int \<Rightarrow> int"

text \<open>A datetime by its seconds since the epoch; without one it is a day ago.\<close>

definition parse_datetime :: "rat \<Rightarrow> rat option \<Rightarrow> int" where
  "parse_datetime now dt =
     (case dt of None \<Rightarrow> truncate_rat ((now - 86400) * 1000) | Some t \<Rightarrow> truncate_rat (t * 1000))"

definition end_literal :: "rat \<Rightarrow> rat option \<Rightarrow> int" where
  "end_literal now dt = (case dt of None \<Rightarrow> truncate_rat (now * 1000) | Some t \<Rightarrow> parse_datetime now (Some t))"

text \<open>The choice \<open>All\<close>, an empty text or none is no filter.\<close>

definition matches :: "string option \<Rightarrow> string \<Rightarrow> bool" where
  "matches choice v \<longleftrightarrow> (case choice of None \<Rightarrow> True | Some c \<Rightarrow> c = [] \<or> c = ''All'' \<or> v = c)"

record shadow_filter =
  xf_start :: "rat option"
  xf_end :: "rat option"
  xf_model :: "string option"
  xf_rule_set :: "string option"
  xf_shadow_rule_set :: "string option"
  xf_only_mismatches :: bool

datatype load_notice = No_catalog exn | No_table exn | Scan_failed exn

definition inside_window :: "shadow_store \<Rightarrow> rat \<Rightarrow> shadow_filter \<Rightarrow> shadow_decision_row \<Rightarrow> bool" where
  "inside_window st now f r \<longleftrightarrow>
     xs_literal_us st (parse_datetime now (xf_start f)) \<le> xr_time_us r \<and>
     xr_time_us r \<le> xs_literal_us st (end_literal now (xf_end f))"

definition selected :: "shadow_filter \<Rightarrow> shadow_decision_row \<Rightarrow> bool" where
  "selected f r \<longleftrightarrow>
     matches (xf_model f) (xr_model_version r) \<and> matches (xf_rule_set f) (xr_rule_set r) \<and>
     matches (xf_shadow_rule_set f) (xr_shadow_rule_set r) \<and> (xf_only_mismatches f \<longrightarrow> xr_mismatch r)"

text \<open>No rows, and every failure, is \<open>None\<close>; a failure also shows a notice.\<close>

definition load_shadow_decisions ::
  "shadow_store \<Rightarrow> rat \<Rightarrow> shadow_filter \<Rightarrow> load_notice option \<times> shadow_decision_row list option" where
  "load_shadow_decisions st now f =
     (case xs_catalog st of
        Some e \<Rightarrow> (Some (No_catalog e), None)
      | None \<Rightarrow>
          (case xs_table st of
             Some e \<Rightarrow> (Some (No_table e), None)
           | None \<Rightarrow>
               (case xs_scan st of
                  Some e \<Rightarrow> (Some (Scan_failed e), None)
                | None \<Rightarrow>
                    (let scanned = filter (inside_window st now f) (xs_rows st) in
                     if scanned = [] then (None, None)
                     else let df = filter (selected f) scanned in
                          (None, if df = [] then None else Some df)))))"

definition no_filter :: "rat \<Rightarrow> rat \<Rightarrow> shadow_filter" where
  "no_filter s e = \<lparr>xf_start = Some s, xf_end = Some e, xf_model = None, xf_rule_set = None, xf_shadow_rule_set = None,
     xf_only_mismatches = False\<rparr>"

text \<open>The options of the three select boxes.\<close>

definition unique_values :: "(shadow_decision_row \<Rightarrow> string) \<Rightarrow> shadow_decision_row list \<Rightarrow> string list" where
  "unique_values col rows = filter (\<lambda>v. v \<noteq> []) (sort_by str_less (remdups (map col rows)))"

definition filter_options :: "(shadow_decision_row \<Rightarrow> string) \<Rightarrow> shadow_decision_row list option \<Rightarrow> string list" where
  "filter_options col rows = ''All'' # (case rows of None \<Rightarrow> [] | Some rs \<Rightarrow> unique_values col rs)"

section \<open>The summary\<close>

record scoring_summary =
  xm_total :: nat
  xm_mismatches :: nat
  xm_mismatch_rate :: rat
  xm_avg_delta :: pyfloat
  xm_max_abs_delta :: rat

definition max_abs :: "rat list \<Rightarrow> rat" where
  "max_abs xs = (case xs of [] \<Rightarrow> 0 | y # ys \<Rightarrow> fold max (map abs ys) \<bar>y\<bar>)"

definition scoring_summary_of :: "(rat list \<Rightarrow> pyfloat) \<Rightarrow> shadow_decision_row list \<Rightarrow> scoring_summary" where
  "scoring_summary_of avg rows =
     (let total = length rows; mism = length (filter xr_mismatch rows) in
      \<lparr>xm_total = total, xm_mismatches = mism,
       xm_mismatch_rate = (if 0 < total then fl (fl (of_nat mism / of_nat total) * 100) else 0),
       xm_avg_delta = (if rows = [] then Fin 0 else avg (map xr_delta rows)),
       xm_max_abs_delta = max_abs (map xr_delta rows)\<rparr>)"

section \<open>Distributions\<close>

definition decision_pairs :: "shadow_decision_row list \<Rightarrow> ((string \<times> string) \<times> nat) list" where
  "decision_pairs rows =
     sort_by (\<lambda>a b. str_less (fst (fst a)) (fst (fst b)) \<or> fst (fst a) = fst (fst b) \<and> str_less (snd (fst a)) (snd (fst b)))
       (map (\<lambda>(k, g). (k, length g)) (group_by (\<lambda>r. (xr_production r, xr_shadow r)) rows))"

text \<open>The stacked chart: a pair that does not occur is zero.\<close>

definition pivot_count :: "shadow_decision_row list \<Rightarrow> string \<Rightarrow> string \<Rightarrow> nat" where
  "pivot_count rows prodn shadow = (case map_of (decision_pairs rows) (prodn, shadow) of None \<Rightarrow> 0 | Some n \<Rightarrow> n)"

text \<open>The doubles \<open>0.2\<close> and \<open>0.5\<close> are the literals of the query.\<close>

definition delta_range :: "rat \<Rightarrow> string" where
  "delta_range d =
     (if d < - (1/2) then ''< -0.5''
      else if d < - fl (2/10) then ''-0.5 to -0.2''
      else if d < 0 then ''-0.2 to 0''
      else if d = 0 then ''0''
      else if d < fl (2/10) then ''0 to 0.2''
      else if d < 1/2 then ''0.2 to 0.5''
      else ''> 0.5'')"

definition range_rank :: "string \<Rightarrow> nat" where
  "range_rank r =
     (case map_of [(''< -0.5'', 1), (''-0.5 to -0.2'', 2), (''-0.2 to 0'', 3), (''0'', 4), (''0 to 0.2'', 5), (''0.2 to 0.5'', 6)] r of
        Some n \<Rightarrow> n
      | None \<Rightarrow> 7)"

definition delta_bins :: "shadow_decision_row list \<Rightarrow> (string \<times> nat) list" where
  "delta_bins rows =
     sort_by (\<lambda>a b. range_rank (fst a) < range_rank (fst b))
       (map (\<lambda>(k, g). (k, length g)) (group_by (\<lambda>r. delta_range (xr_delta r)) rows))"

record mismatch_row =
  mm_production :: string
  mm_shadow :: string
  mm_count :: nat
  mm_avg_abs_delta :: pyfloat

definition mismatch_breakdown :: "(rat list \<Rightarrow> pyfloat) \<Rightarrow> (pyfloat \<Rightarrow> pyfloat) \<Rightarrow> shadow_decision_row list \<Rightarrow> mismatch_row list" where
  "mismatch_breakdown avg round3 rows =
     sort_desc mm_count
       (map (\<lambda>((p, s), g). \<lparr>mm_production = p, mm_shadow = s, mm_count = length g,
                             mm_avg_abs_delta = round3 (avg (map (\<lambda>r. \<bar>xr_delta r\<bar>) g))\<rparr>)
         (group_by (\<lambda>r. (xr_production r, xr_shadow r)) (filter xr_mismatch rows)))"

section \<open>The detailed table\<close>

definition total_pages :: "nat \<Rightarrow> nat \<Rightarrow> nat" where
  "total_pages total_rows page_size = max 1 ((total_rows + page_size - 1) div page_size)"

text \<open>Page numbers start at one; \<open>ORDER BY ... LIMIT ... OFFSET\<close>.\<close>

definition detailed_page :: "nat \<Rightarrow> nat \<Rightarrow> shadow_decision_row list \<Rightarrow> shadow_decision_row list" where
  "detailed_page page_size page_number rows =
     take page_size (drop ((page_number - 1) * page_size) (sort_desc xr_time_us rows))"

section \<open>Rule triggers\<close>

definition top_rules :: "(shadow_decision_row \<Rightarrow> string list) \<Rightarrow> shadow_decision_row list \<Rightarrow> (string \<times> nat) list" where
  "top_rules triggers rows =
     take 10 (sort_desc snd (map (\<lambda>(k, g). (k, length g)) (group_by id (concat (map triggers rows)))))"

section \<open>Lemmas\<close>

text \<open>Every delta has a bar, and the bars add up.\<close>

lemma delta_bins_total: "sum_list (map snd (delta_bins rows)) = length rows"
proof -
  have "sum_list (map snd (delta_bins rows)) =
      sum_list (map snd (map (\<lambda>(k, g). (k, length g)) (group_by (\<lambda>r. delta_range (xr_delta r)) rows)))"
    unfolding delta_bins_def by (rule sort_by_sum)
  also have "\<dots> = sum_list (map (\<lambda>g. length (snd g)) (group_by (\<lambda>r. delta_range (xr_delta r)) rows))"
    by (simp add: o_def case_prod_unfold)
  finally show ?thesis by (simp add: group_by_total)
qed

text \<open>The pages in their order are the whole table.\<close>

lemma take_drop_blocks: "concat (map (\<lambda>i. take s (drop (i * s) xs)) [0..<n]) = take (n * s) xs"
proof (induction n)
  case (Suc n)
  then show ?case using take_add [of "n * s" s xs] by (simp add: add.commute)
qed simp

lemma enough_pages:
  assumes "0 < page_size"
  shows "total_rows \<le> total_pages total_rows page_size * page_size"
proof (cases "total_rows = 0")
  case False
  let ?n = "(total_rows + page_size - 1) div page_size"
  have "total_rows + page_size - 1 < Suc ?n * page_size"
    using assms by (simp add: dividend_less_div_times add.commute)
  then have "total_rows \<le> ?n * page_size" using assms by simp
  also have "\<dots> \<le> total_pages total_rows page_size * page_size"
    unfolding total_pages_def by (intro mult_right_mono) simp_all
  finally show ?thesis .
qed simp

lemma loaded_rows:
  assumes "load_shadow_decisions st now f = (n, Some df)"
  shows "df = filter (selected f) (filter (inside_window st now f) (xs_rows st)) \<and> df \<noteq> [] \<and> n = None"
  using assms by (auto simp: load_shadow_decisions_def Let_def split: option.splits if_splits)

text \<open>
  The literals are milliseconds, the column has microseconds. A catalog that takes an integer literal as
  microseconds compares every row with a day of January 1970: the upper bound excludes all of them.
\<close>

lemma window_excludes_everything:
  assumes "xs_literal_us st = (\<lambda>i. i)" "end_literal now (xf_end f) < 10 ^ 14"
    and "\<forall>r \<in> set (xs_rows st). 10 ^ 14 \<le> xr_time_us r"
  shows "snd (load_shadow_decisions st now f) = None"
  using assms by (auto simp: load_shadow_decisions_def inside_window_def filter_empty_conv Let_def split: option.split)

section \<open>Properties\<close>

text \<open>The pages of the detailed table show every loaded decision exactly once: put together in order, the
  pages from the first to the last offered one are the decisions, the latest first.\<close>

theorem pages_cover_table:
  assumes "0 < page_size"
  shows "concat (map (\<lambda>i. detailed_page page_size (Suc i) rows) [0..<total_pages (length rows) page_size]) =
      sort_desc xr_time_us rows \<and>
    mset (sort_desc xr_time_us rows) = mset rows \<and>
    sorted_wrt (\<lambda>a b. xr_time_us b \<le> xr_time_us a) (sort_desc xr_time_us rows)"
proof -
  have "concat (map (\<lambda>i. detailed_page page_size (Suc i) rows) [0..<total_pages (length rows) page_size]) =
      take (total_pages (length rows) page_size * page_size) (sort_desc xr_time_us rows)"
    by (simp add: detailed_page_def take_drop_blocks)
  also have "\<dots> = sort_desc xr_time_us rows"
    by (rule take_all) (use enough_pages [OF assms, of "length rows"] in simp)
  finally show ?thesis by (simp add: sort_desc_mset sort_desc_sorted)
qed

definition sample_shadow_row :: "string \<Rightarrow> int \<Rightarrow> shadow_decision_row" where
  "sample_shadow_row i t = \<lparr>xr_transaction_id = i, xr_account_id = ''a'', xr_production = ''ALLOW'', xr_production_score = 0,
     xr_production_rules = [], xr_shadow = ''BLOCK'', xr_shadow_score = 1, xr_shadow_rules = [''VEL-001''],
     xr_model_version = ''v1'', xr_rule_set = ''r1'', xr_shadow_rule_set = ''r2'', xr_time_us = t, xr_delta = 1, xr_mismatch = True\<rparr>"

lemma pages_cover_table_witness:
  "concat (map (\<lambda>i. detailed_page 1 (Suc i) [sample_shadow_row ''t1'' 1, sample_shadow_row ''t2'' 2]) [0..<2]) =
     [sample_shadow_row ''t2'' 2, sample_shadow_row ''t1'' 1]"
  using pages_cover_table [of 1 "[sample_shadow_row ''t1'' 1, sample_shadow_row ''t2'' 2]"]
  by (simp add: total_pages_def sort_desc_def sort_by_def sample_shadow_row_def numeral_2_eq_2)

text \<open>The page shows nothing: the filter compares milliseconds with a column of microseconds, so with a
  catalog that reads an integer as microseconds the end of every window lies in January 1970 and the
  page reports that there are no shadow decisions, whatever the table holds.\<close>

theorem shadow_scoring_shows_nothing:
  assumes "xs_catalog st = None" "xs_table st = None" "xs_scan st = None" "xs_literal_us st = (\<lambda>i. i)"
    and "end_literal now (xf_end f) < 10 ^ 14" "\<forall>r \<in> set (xs_rows st). 10 ^ 14 \<le> xr_time_us r"
  shows "load_shadow_decisions st now f = (None, None)"
proof -
  have "snd (load_shadow_decisions st now f) = None" using assms by (intro window_excludes_everything)
  then show ?thesis using assms(1-3) by (auto simp: load_shadow_decisions_def Let_def split: if_splits)
qed

lemma shadow_scoring_shows_nothing_witness:
  "load_shadow_decisions \<lparr>xs_catalog = None, xs_table = None, xs_scan = None,
      xs_rows = [sample_shadow_row ''t1'' 1700000000000000], xs_literal_us = (\<lambda>i. i)\<rparr> 1700000100 (no_filter 1699900000 1700000100) =
   (None, None)"
  by (rule shadow_scoring_shows_nothing)
    (simp_all add: no_filter_def end_literal_def parse_datetime_def truncate_rat_def sample_shadow_row_def)

end
