(* ===== verification/Dash_Replay.thy ===== *)
theory Dash_Replay
  imports Dash_Base Management
begin

text \<open>
  The replay results, \<open>analytics/app/pages/09_replay_results.py\<close>: the requests to the management
  service, composed here with its endpoints, the status of a job with its progress bar, the summary of
  the comparison and the table of results with its filters. JSON is read as it comes, by its unknown
  shape; plots are left out, the tables they are drawn from are modelled. The page sends no API key.
\<close>

section \<open>Requests\<close>

definition fetch_replay_jobs :: "http_reply \<Rightarrow> pyval" where
  "fetch_replay_jobs r = (case reply_json r of None \<Rightarrow> PList [] | Some v \<Rightarrow> v)"

definition fetch_replay_job :: "http_reply \<Rightarrow> pyval" where
  "fetch_replay_job r = (case reply_json r of None \<Rightarrow> PNone | Some v \<Rightarrow> v)"

definition fetch_replay_results :: "http_reply \<Rightarrow> pyval result" where
  "fetch_replay_results r =
     (case reply_json r of None \<Rightarrow> Inr (PList []) | Some v \<Rightarrow> pget v ''results'' (PList []))"

section \<open>The status of a job\<close>

definition status_icon :: "pyval \<Rightarrow> nat list" where
  "status_icon status =
     (case status of
        PStr s \<Rightarrow>
          (case map_of [(''completed'', [0x1F7E2]), (''running'', [0x1F7E1]), (''failed'', [0x1F534]),
                        (''pending'', [0x26AA]), (''cancelled'', [0x26AB])] s of
             Some i \<Rightarrow> i
           | None \<Rightarrow> [0x26AA])
      | _ \<Rightarrow> [0x26AA])"

text \<open>A number in a format such as \<open>.1f\<close>, which a text or \<open>None\<close> does not have.\<close>

definition number :: "pyval \<Rightarrow> pyfloat result" where
  "number v =
     (case num_of v of
        Some f \<Rightarrow> Inr f
      | None \<Rightarrow>
          (case v of
             PStr s \<Rightarrow> raise_exn ValueError (''Unknown format code for object of type '' @ repr_str ''str'')
           | _ \<Rightarrow> raise_exn TypeError ''unsupported format string''))"

text \<open>\<open>min(p / 100, 1.0)\<close>.\<close>

definition bar_value :: "pyfloat \<Rightarrow> pyfloat" where
  "bar_value p = (let q = fl_div_pos p (Fin 100) in if fl_less (Fin 1) q then Fin 1 else q)"

record status_view =
  vw_job_id :: pyval
  vw_status :: pyval
  vw_icon :: "nat list"
  vw_progress :: pyfloat
  vw_processed :: pyfloat
  vw_failed :: pyfloat
  vw_bar :: pyfloat
  vw_description :: "pyval option"
  vw_error :: "pyval option"

definition if_truthy :: "pyval \<Rightarrow> pyval option" where
  "if_truthy v = (if truthy v then Some v else None)"

text \<open>A status that cannot be hashed cannot be looked up among the icons.\<close>

definition render_job_status :: "pyval \<Rightarrow> status_view result" where
  "render_job_status job =
     rbind (pget job ''job_id'' (PStr ''Unknown'')) (\<lambda>jid.
     rbind (pget job ''status'' (PStr ''unknown'')) (\<lambda>status.
     rbind (if hashable status then Inr () else raise_exn TypeError ''unhashable type'') (\<lambda>_.
     rbind (rbind (pget job ''progress_percent'' (PInt 0)) number) (\<lambda>progress.
     rbind (rbind (pget job ''processed_events'' (PInt 0)) number) (\<lambda>processed.
     rbind (rbind (pget job ''failed_events'' (PInt 0)) number) (\<lambda>failed.
     rbind (pget job ''description'' PNone) (\<lambda>desc.
     rbind (pget job ''error_message'' PNone) (\<lambda>err.
       Inr \<lparr>vw_job_id = jid, vw_status = status, vw_icon = status_icon status, vw_progress = progress,
            vw_processed = processed, vw_failed = failed, vw_bar = bar_value progress,
            vw_description = if_truthy desc, vw_error = if_truthy err\<rparr>))))))))"

section \<open>The summary\<close>

record summary_view =
  su_total :: pyfloat
  su_changed :: pyfloat
  su_rate :: pyfloat
  su_avg_delta :: pyfloat
  su_direction :: "(string \<times> pyval) list option"

text \<open>\<open>None\<close> is the notice that there is no summary yet.\<close>

definition render_comparison_summary :: "pyval \<Rightarrow> summary_view option result" where
  "render_comparison_summary summary =
     (if \<not> truthy summary then Inr None
      else rbind (rbind (pget summary ''total_compared'' (PInt 0)) number) (\<lambda>total.
           rbind (rbind (pget summary ''decisions_changed'' (PInt 0)) number) (\<lambda>changed.
           rbind (rbind (pget summary ''decision_change_rate'' (PInt 0)) number) (\<lambda>rate.
           rbind (rbind (pget summary ''avg_score_delta'' (PInt 0)) number) (\<lambda>avg.
           rbind (pget summary ''direction_breakdown'' (PDict [])) (\<lambda>breakdown.
           rbind (if \<not> truthy breakdown then Inr None
                  else case breakdown of PDict d \<Rightarrow> Inr (Some d) | _ \<Rightarrow> raise_exn AttributeError ''items'') (\<lambda>dirs.
             Inr (Some \<lparr>su_total = total, su_changed = changed, su_rate = rate, su_avg_delta = avg, su_direction = dirs\<rparr>))))))))"

definition rule_change_row :: "pyval \<Rightarrow> (pyval \<times> pyval) result" where
  "rule_change_row v =
     (case v of PList [k, n] \<Rightarrow> Inr (k, n) | _ \<Rightarrow> raise_exn ValueError ''2 columns passed'')"

definition render_rules_changed :: "pyval \<Rightarrow> (pyval \<times> pyval) list result" where
  "render_rules_changed summary =
     rbind (pget summary ''rules_changed_most'' (PList [])) (\<lambda>rules_changed.
       if \<not> truthy rules_changed then Inr []
       else rbind (py_iter rules_changed) (rmap rule_change_row))"

section \<open>The results\<close>

text \<open>The columns of the data frame made of the results; a value that is missing is \<open>None\<close>.\<close>

definition has_column :: "pydict list \<Rightarrow> string \<Rightarrow> bool" where
  "has_column results c = list_ex (\<lambda>r. has_key r c) results"

definition frame_column :: "pydict list \<Rightarrow> string \<Rightarrow> pyval list" where
  "frame_column results c = map (\<lambda>r. dget r c) results"

text \<open>The distribution is shown when some result has a delta.\<close>

definition is_na :: "pyval \<Rightarrow> bool" where
  "is_na v \<longleftrightarrow> v = PNone \<or> v = PFloat NaN"

definition score_delta_chart :: "pydict list \<Rightarrow> pyval list option" where
  "score_delta_chart results =
     (if results = [] \<or> \<not> has_column results ''score_delta'' \<or> list_all is_na (frame_column results ''score_delta'') then None
      else Some (frame_column results ''score_delta''))"

definition display_columns :: "(string \<times> string) list" where
  "display_columns =
     [(''original_event_id'', ''Event ID''), (''original_decision'', ''Original Decision''),
      (''replay_decision'', ''Replay Decision''), (''original_score'', ''Original Score''),
      (''replay_score'', ''Replay Score''), (''score_delta'', ''Score Delta''),
      (''decision_changed'', ''Changed?''), (''processing_time_ms'', ''Processing Time (ms)'')]"

definition display_row :: "pydict list \<Rightarrow> pydict \<Rightarrow> pydict" where
  "display_row results r =
     map (\<lambda>(c, shown_as). (shown_as, dget r c)) (filter (\<lambda>(c, _). has_column results c) display_columns)"

text \<open>
  \<open>df["Score Delta"].abs() >= min_delta\<close>: a missing value among numbers is NaN, which no comparison
  holds of; a column of nothing but \<open>None\<close>, or with texts, has no \<open>abs\<close>.
\<close>

definition delta_mask :: "pyfloat \<Rightarrow> pyval list \<Rightarrow> bool list result" where
  "delta_mask min_delta vs =
     (if list_all (\<lambda>v. v = PNone) vs \<or> list_ex (\<lambda>v. v \<noteq> PNone \<and> num_of v = None) vs
      then raise_exn TypeError ''bad operand type for abs()''
      else Inr (map (\<lambda>v. case num_of v of Some f \<Rightarrow> fl_le min_delta (fl_abs f) | None \<Rightarrow> False) vs))"

text \<open>\<open>df["Changed?"] is True\<close> is False, and a frame has no column of that name.\<close>

definition render_detailed_results :: "bool \<Rightarrow> pyfloat \<Rightarrow> pydict list \<Rightarrow> pydict list option result" where
  "render_detailed_results show_changed_only min_delta results =
     (if results = [] then Inr None
      else if show_changed_only \<and> has_column results ''decision_changed'' then raise_exn KeyError ''False''
      else if fl_less (Fin 0) min_delta \<and> has_column results ''score_delta''
      then rbind (delta_mask min_delta (frame_column results ''score_delta'')) (\<lambda>mask.
             Inr (Some (map fst (filter snd (zip (map (display_row results) results) mask)))))
      else Inr (Some (map (display_row results) results)))"

section \<open>The page\<close>

datatype job_page =
    Welcome
  | Not_fetched
  | Job_page status_view job_detail
and job_detail =
    Still_running
  | Has_failed pyval
  | Was_cancelled
  | Nothing_more
  | Completed "summary_view option" "(pyval list option \<times> (pyval \<times> pyval) list \<times> pydict list option) option"

definition as_dicts :: "pyval \<Rightarrow> pydict list result" where
  "as_dicts v =
     rbind (py_iter v) (rmap (\<lambda>x. case x of PDict d \<Rightarrow> Inr d | _ \<Rightarrow> raise_exn ValueError ''not records''))"

definition completed_page :: "http_reply \<Rightarrow> bool \<Rightarrow> pyfloat \<Rightarrow> pyval \<Rightarrow> job_detail result" where
  "completed_page results_reply show_changed_only min_delta summary =
     rbind (render_comparison_summary summary) (\<lambda>sv.
     rbind (fetch_replay_results results_reply) (\<lambda>results.
       if \<not> truthy results then Inr (Completed sv None)
       else rbind (as_dicts results) (\<lambda>rows.
            rbind (render_rules_changed summary) (\<lambda>changes.
            rbind (render_detailed_results show_changed_only min_delta rows) (\<lambda>table.
              Inr (Completed sv (Some (score_delta_chart rows, changes, table))))))))"

definition replay_page :: "string \<Rightarrow> http_reply \<Rightarrow> http_reply \<Rightarrow> bool \<Rightarrow> pyfloat \<Rightarrow> job_page result" where
  "replay_page selected job_reply results_reply show_changed_only min_delta =
     (if selected = [] then Inr Welcome
      else let job = fetch_replay_job job_reply in
        if \<not> truthy job then Inr Not_fetched
        else rbind (render_job_status job) (\<lambda>sv.
             rbind (pget job ''status'' PNone) (\<lambda>status.
             rbind (if py_eq status (PStr ''completed'')
                    then rbind (pget job ''results_summary'' (PDict []))
                           (completed_page results_reply show_changed_only min_delta)
                    else if py_eq status (PStr ''running'') then Inr Still_running
                    else if py_eq status (PStr ''failed'')
                    then rbind (pget job ''error_message'' (PStr ''Unknown error'')) (\<lambda>e. Inr (Has_failed e))
                    else if py_eq status (PStr ''cancelled'') then Inr Was_cancelled
                    else Inr Nothing_more)
               (\<lambda>extra. Inr (Job_page sv extra)))))"

section \<open>The service behind the page\<close>

text \<open>The reply to an endpoint's outcome: an exception of the service has its status and a body of its own.\<close>

definition endpoint_reply :: "('a \<Rightarrow> pyval) \<Rightarrow> 'a result \<Rightarrow> http_reply" where
  "endpoint_reply json r =
     (case r of
        Inr x \<Rightarrow> Reply 200 (Inr (json x))
      | Inl e \<Rightarrow> Reply (case exn_cls e of HTTPException n \<Rightarrow> n | _ \<Rightarrow> 500) (Inr (PDict [(''detail'', PStr (exn_msg e))])))"

definition job_reply_of :: "string option \<Rightarrow> (int \<Rightarrow> string) \<Rightarrow> string \<Rightarrow> api_state \<Rightarrow> http_reply" where
  "job_reply_of expected_key isoformat jid st =
     endpoint_reply PDict (snd (guarded expected_key None True False (\<lambda>s. (s, get_replay_job isoformat jid s)) st))"

section \<open>Lemmas\<close>

lemma to_double_nonneg: "0 \<le> x \<Longrightarrow> to_double x = PosInf \<or> (\<exists>y \<ge> 0. to_double x = Fin y)"
  using fl_mono_sign [of x] by (auto simp: to_double_def Let_def double_limit_def)

lemma bar_value_bounds:
  assumes "p = PosInf \<or> (\<exists>x \<ge> 0. p = Fin x)"
  shows "\<exists>b. bar_value p = Fin b \<and> 0 \<le> b \<and> b \<le> 1"
proof -
  have "fl_div_pos p (Fin 100) = PosInf \<or> (\<exists>y \<ge> 0. fl_div_pos p (Fin 100) = Fin y)"
    using assms
  proof (elim disjE exE conjE)
    fix x assume "0 \<le> x" "p = Fin x"
    then show ?thesis using to_double_nonneg [of "x / 100"] by simp
  qed simp
  then show ?thesis by (auto simp: bar_value_def Let_def not_less)
qed

lemma progress_nonneg:
  assumes "0 \<le> js_processed_events s" "js_total_events s = PInt n" "0 \<le> n"
  shows "\<exists>p. progress_percent s = Inr p \<and> 0 \<le> p"
  using assms by (simp add: progress_percent_def fl_mono_sign)

lemma round2_nonneg: "0 \<le> x \<Longrightarrow> fl_round 2 (Fin x) = PosInf \<or> (\<exists>y \<ge> 0. fl_round 2 (Fin x) = Fin y)"
proof -
  assume "0 \<le> x"
  then have "round_half_even 0 \<le> round_half_even (x * 10 ^ 2)" by (intro round_half_even_mono) simp
  then have "0 \<le> round_half_even (x * 10 ^ 2)" using round_half_even_int [of 0] by simp
  then show ?thesis unfolding fl_round.simps by (intro to_double_nonneg) simp
qed

text \<open>The status of a job as the page reads it.\<close>

lemma render_status_dict:
  assumes "progress_percent s = Inr p"
  shows "\<exists>d. status_to_dict isoformat s = Inr d \<and> render_job_status (PDict d) = Inr
     \<lparr>vw_job_id = PStr (js_job_id s), vw_status = PStr (status_value (js_status s)),
      vw_icon = status_icon (PStr (status_value (js_status s))),
      vw_progress = fl_round 2 (Fin p),
      vw_processed = Fin (of_int (js_processed_events s)), vw_failed = Fin (of_int (js_failed_events s)),
      vw_bar = bar_value (fl_round 2 (Fin p)),
      vw_description = if_truthy (PStr (case js_config s of Some c \<Rightarrow> rc_description c | None \<Rightarrow> [])),
      vw_error = if_truthy (opt_val PStr (js_error_message s))\<rparr>"
  using assms by (simp add: render_job_status_def status_to_dict_def pget_def dget_or_def number_def)

text \<open>The checkbox for changed decisions breaks the table of any results the service sends.\<close>

lemma changed_filter_raises:
  assumes "rmap (result_to_dict isoformat) rs = Inr items" "rs \<noteq> []"
  shows "render_detailed_results True min_delta items = raise_exn KeyError ''False''"
proof -
  obtain r rest where rs: "rs = r # rest" using assms(2) by (cases rs) auto
  then obtain d ds where "items = d # ds" "result_to_dict isoformat r = Inr d"
    using assms(1) by (auto simp: result_simps)
  then show ?thesis
    by (auto simp: render_detailed_results_def has_column_def result_to_dict_def has_key_def raise_exn_def split: stamp.splits)
qed

lemma mean_delta_float: "mean_delta ds = Inr v \<Longrightarrow> \<exists>f. v = PFloat f"
proof (cases "ds = []")
  case False
  assume "mean_delta ds = Inr v"
  with False obtain w where w: "py_div_count w (length ds) = Inr v" by (auto simp: mean_delta_def result_simps)
  show ?thesis
  proof (cases "as_int w")
    case (Some i)
    then show ?thesis using w by (cases "to_double (of_int i / of_nat (length ds))") (auto simp: py_div_count_def raise_exn_def)
  qed (use w in \<open>auto simp: py_div_count_def result_simps\<close>)
qed (auto simp: mean_delta_def)

section \<open>Properties\<close>

text \<open>The page shows what the service knows of a job whose source counted its events: its status, the events
  processed and failed, the progress, and a progress bar that always lies between zero and one, as the
  widget demands.\<close>

theorem replay_page_shows_status:
  assumes "find_job jid st = Inr job" "0 \<le> js_processed_events (jb_status job)"
    and "js_total_events (jb_status job) = PInt n" "0 \<le> n"
  shows "\<exists>sv b p. render_job_status (fetch_replay_job (job_reply_of None isoformat jid st)) = Inr sv \<and>
    vw_status sv = PStr (status_value (js_status (jb_status job))) \<and>
    vw_processed sv = Fin (of_int (js_processed_events (jb_status job))) \<and>
    vw_failed sv = Fin (of_int (js_failed_events (jb_status job))) \<and>
    progress_percent (jb_status job) = Inr p \<and> vw_progress sv = fl_round 2 (Fin p) \<and>
    vw_bar sv = Fin b \<and> 0 \<le> b \<and> b \<le> 1"
proof -
  obtain p where p: "progress_percent (jb_status job) = Inr p" "0 \<le> p"
    using progress_nonneg [OF assms(2-4)] by blast
  obtain d where d: "status_to_dict isoformat (jb_status job) = Inr d"
    using render_status_dict [OF p(1)] by blast
  have "fetch_replay_job (job_reply_of None isoformat jid st) = PDict d"
    using assms(1) d by (simp add: fetch_replay_job_def job_reply_of_def guarded_def require_api_key_def
        endpoint_reply_def reply_json_def failed_status_def get_replay_job_def)
  moreover obtain b where "bar_value (fl_round 2 (Fin p)) = Fin b" "0 \<le> b" "b \<le> 1"
    using bar_value_bounds [OF round2_nonneg [OF p(2)]] by blast
  ultimately show ?thesis using render_status_dict [OF p(1), of isoformat] d p(1) by auto
qed

text \<open>Where the total is the text of a number, as PyIceberg gives it for a snapshot, the service cannot even say
  how the job is doing: the division by it raises a TypeError, which is the server's 500.\<close>

lemma text_total_breaks_status:
  assumes "find_job jid st = Inr job" "js_total_events (jb_status job) = PStr t"
  shows "\<exists>m. get_replay_job isoformat jid st = Inl (Exn TypeError m)"
  using assms by (simp add: get_replay_job_def status_to_dict_def progress_percent_def raise_exn_def)

text \<open>As soon as the service demands an API key the page shows no job: it sends none, so every request is
  refused and the page reports that the job could not be fetched.\<close>

theorem keyed_service_shows_no_job:
  assumes "key \<noteq> []" "jid \<noteq> []"
  shows "replay_page jid (job_reply_of (Some key) isoformat jid st) results_reply changed_only min_delta = Inr Not_fetched"
proof -
  obtain c cs where "key = c # cs" using assms(1) by (cases key) auto
  then show ?thesis
    using assms(2) by (simp add: replay_page_def fetch_replay_job_def job_reply_of_def guarded_def require_api_key_def
        endpoint_reply_def reply_json_def failed_status_def raise_exn_def)
qed

lemma keyed_service_shows_no_job_witness:
  "replay_page ''j1'' (job_reply_of (Some ''secret'') (\<lambda>_. []) ''j1'' sample_api) (No_reply (Exn OtherException [])) False (Fin 0) =
     Inr Not_fetched"
  by (rule keyed_service_shows_no_job) simp_all

text \<open>The summary of a finished comparison is shown with its counts; the breakdown by direction that the
  page asks for is never there.\<close>

theorem summary_is_shown:
  assumes "compute_summary set_order rs [] = Inr s" "rs \<noteq> []"
  shows "\<exists>v. render_comparison_summary (PDict s) = Inr (Some v) \<and> su_total v = Fin (of_nat (length rs)) \<and>
    su_changed v = Fin (of_nat (length (filter rr_decision_changed rs))) \<and> su_direction v = None"
proof -
  obtain avg mx changes where
    s: "mean_delta (score_deltas rs) = Inr avg" "max_delta (score_deltas rs) = Inr mx" "rule_changes set_order rs = Inr changes"
      "s = [(''total_compared'', PInt (int (length rs))),
           (''decisions_changed'', PInt (int (length (filter rr_decision_changed rs)))),
           (''decision_change_rate'', PFloat (fl_round 2 (Fin (change_rate (length (filter rr_decision_changed rs)) (length rs))))),
           (''avg_score_delta'', py_round 4 avg),
           (''max_score_delta'', py_round 4 mx),
           (''rules_changed_most'', PList (map (\<lambda>(k, n). PList [k, PInt (int n)]) (most_changed changes))),
           (''avg_processing_time_ms'', PFloat (fl_round 2 (Fin (mean_time rs))))]"
    using assms by (auto simp: compute_summary_def Let_def result_simps)
  obtain f where f: "avg = PFloat f" using mean_delta_float s(1) by blast
  show ?thesis
    by (simp add: s(4) f render_comparison_summary_def pget_def dget_or_def number_def of_nat_of_int_iff)
qed

definition sample_result :: replay_result where
  "sample_result = \<lparr>rr_job_id = ''j1'', rr_event_id = PStr ''e1'', rr_original_timestamp = Instant 1, rr_replay_timestamp = 2,
     rr_original_decision = PStr ''ALLOW'', rr_replay_decision = PStr ''BLOCK'', rr_original_score = PNone,
     rr_replay_score = PNone, rr_rules_original = [], rr_rules_replay = PList [], rr_score_delta = PNone,
     rr_decision_changed = True, rr_processing_time_ms = 1, rr_metadata = []\<rparr>"

lemma summary_is_shown_witness:
  "\<exists>s v. compute_summary id [sample_result] [] = Inr s \<and> render_comparison_summary (PDict s) = Inr (Some v) \<and>
     su_total v = Fin 1 \<and> su_changed v = Fin 1 \<and> su_direction v = None"
proof -
  obtain s where s: "compute_summary id [sample_result] [] = Inr s"
    by (simp add: compute_summary_def sample_result_def score_deltas_def mean_delta_def max_delta_def rule_changes_def
        changed_rules_def symmetric_difference_def Let_def)
  show ?thesis using summary_is_shown [OF s] s by (auto simp: sample_result_def)
qed

lemma replay_page_shows_status_witness:
  "\<exists>sv b. render_job_status (fetch_replay_job (job_reply_of None (\<lambda>_. []) ''j1'' (sample_api\<lparr>ap_jobs := [(''j1'', sample_job)]\<rparr>))) = Inr sv \<and>
     vw_status sv = PStr ''pending'' \<and> vw_bar sv = Fin b \<and> 0 \<le> b"
proof -
  have job: "find_job ''j1'' (sample_api\<lparr>ap_jobs := [(''j1'', sample_job)]\<rparr>) = Inr sample_job"
    by (simp add: find_job_def)
  have status: "js_processed_events (jb_status sample_job) = 0" "js_total_events (jb_status sample_job) = PInt 0"
    "js_status (jb_status sample_job) = Job_pending"
    by (simp_all add: sample_job_def ReplayJob_init_def)
  show ?thesis using replay_page_shows_status [OF job, of 0 "\<lambda>_. []"] by (auto simp: status)
qed

end
