(* ===== verification/Dash_Traces.thy ===== *)
theory Dash_Traces
  imports Dash_Base
begin

text \<open>
  The trace viewer, \<open>analytics/app/pages/10_distributed_traces.py\<close>: the queries to Jaeger, the
  flattening of the span hierarchy, the summary and table of one trace and the list of traces.
  The HTTP client and Streamlit's widgets are arguments (an outcome, a choice); a trace is the JSON of
  Jaeger by its documented types, with \<open>None\<close> for a key that is absent. The formatting of points in
  time is an argument; durations are formatted here.
\<close>

section \<open>Queries\<close>

definition check_jaeger_available :: "http_reply \<Rightarrow> bool" where
  "check_jaeger_available r = (case r of No_reply e \<Rightarrow> False | Reply status body \<Rightarrow> status = 200)"

text \<open>\<open>get_services\<close>, \<open>search_traces\<close> and \<open>get_operations\<close> share this reading of the reply.\<close>

definition jaeger_data :: "http_reply \<Rightarrow> pyval result" where
  "jaeger_data r = (case reply_json r of None \<Rightarrow> Inr (PList []) | Some v \<Rightarrow> pget v ''data'' (PList []))"

definition get_trace_by_id :: "http_reply \<Rightarrow> pyval result" where
  "get_trace_by_id r =
     (case reply_json r of
        None \<Rightarrow> Inr PNone
      | Some v \<Rightarrow>
          rbind (pget v ''data'' (PList [])) (\<lambda>traces. if truthy traces then pindex traces 0 else Inr PNone))"

text \<open>The query of a search; the window and the JSON text of the tags are given.\<close>

definition search_params ::
  "(pydict \<Rightarrow> string) \<Rightarrow> int \<Rightarrow> int \<Rightarrow> string option \<Rightarrow> string option \<Rightarrow> int \<Rightarrow> pydict \<Rightarrow> pydict" where
  "search_params dumps start_us end_us service operation limit tags =
     [(''start'', PInt start_us), (''end'', PInt end_us), (''limit'', PInt limit)] @
     (case service of Some s \<Rightarrow> (if s = [] then [] else [(''service'', PStr s)]) | None \<Rightarrow> []) @
     (case operation of Some s \<Rightarrow> (if s = [] then [] else [(''operation'', PStr s)]) | None \<Rightarrow> []) @
     (if tags = [] then [] else [(''tags'', PStr (dumps tags))])"

section \<open>Durations\<close>

text \<open>The text by its code points, since the micro sign is the Greek letter.\<close>

definition format_duration_us :: "int \<Rightarrow> nat list" where
  "format_duration_us d =
     (if d < 1000 then map code (show_int d) @ [0x3BC] @ map code ''s''
      else if d < 1000000 then map code (fixed2 (fl (of_int d / 1000)) @ ''ms'')
      else map code (fixed2 (fl (of_int d / 1000000)) @ ''s''))"

section \<open>Spans\<close>

record reference =
  rf_type :: "string option"
  rf_span_id :: "string option"

record tag =
  tg_key :: "string option"
  tg_value :: pyval

record jspan =
  js_span_id :: "string option"
  js_process_id :: "string option"
  js_operation :: "string option"
  js_start :: "int option"
  js_duration :: "int option"
  js_references :: "reference list option"
  js_tags :: "tag list option"

record trace =
  tr_id :: "string option"
  tr_spans :: "jspan list option"
  tr_processes :: "(string \<times> string option) list option"

definition or_default :: "'a \<Rightarrow> 'a option \<Rightarrow> 'a" where
  "or_default d x = (case x of None \<Rightarrow> d | Some v \<Rightarrow> v)"

section \<open>Flattening the hierarchy\<close>

definition child_of :: "jspan \<Rightarrow> jspan \<Rightarrow> bool" where
  "child_of s sp =
     list_ex (\<lambda>ref. rf_type ref = Some ''CHILD_OF'' \<and> rf_span_id ref = js_span_id sp)
       (or_default [] (js_references s))"

definition child_spans :: "jspan list \<Rightarrow> jspan \<Rightarrow> jspan list" where
  "child_spans spans sp = filter (\<lambda>s. child_of s sp) spans"

record row =
  rw_span :: jspan
  rw_depth :: nat
  rw_parent :: "string option"

text \<open>
  The loop over \<open>todo\<close> inside a call on \<open>spans\<close>; the recursive call is on the children found in
  \<open>spans\<close>. \<open>None\<close> is a recursion without end, which the interpreter breaks with RecursionError.
\<close>

partial_function (option) flatten_loop ::
  "jspan list \<Rightarrow> jspan list \<Rightarrow> string option \<Rightarrow> nat \<Rightarrow> row list option" where
  "flatten_loop spans todo parent_id depth =
     (case todo of
        [] \<Rightarrow> Some []
      | sp # rest \<Rightarrow>
          Option.bind
            (if child_spans spans sp = [] then Some []
             else flatten_loop (child_spans spans sp) (child_spans spans sp) (js_span_id sp) (depth + 1))
            (\<lambda>below. Option.bind (flatten_loop spans rest parent_id depth)
               (\<lambda>rows. Some (\<lparr>rw_span = sp, rw_depth = depth, rw_parent = parent_id\<rparr> # below @ rows))))"

definition flatten_spans :: "jspan list \<Rightarrow> string option \<Rightarrow> nat \<Rightarrow> row list option" where
  "flatten_spans spans parent_id depth = flatten_loop spans spans parent_id depth"

section \<open>One trace\<close>

definition span_start :: "jspan \<Rightarrow> int" where
  "span_start s = or_default 0 (js_start s)"

definition span_end :: "jspan \<Rightarrow> int" where
  "span_end s = or_default 0 (js_start s) + or_default 0 (js_duration s)"

definition max_default :: "int list \<Rightarrow> int" where
  "max_default xs = (case xs of [] \<Rightarrow> 0 | y # ys \<Rightarrow> fold max ys y)"

definition min_default :: "int list \<Rightarrow> int" where
  "min_default xs = (case xs of [] \<Rightarrow> 0 | y # ys \<Rightarrow> fold min ys y)"

definition total_duration :: "jspan list \<Rightarrow> int" where
  "total_duration spans = max_default (map span_end spans) - min_default (map span_start spans)"

text \<open>\<open>s.get("tags", [{}])[0].get("key") == "error"\<close>: the first tag only, an empty list raises.\<close>

definition first_tag_is_error :: "jspan \<Rightarrow> bool result" where
  "first_tag_is_error s =
     (case js_tags s of
        None \<Rightarrow> Inr False
      | Some [] \<Rightarrow> index_error
      | Some (t # ts) \<Rightarrow> Inr (tg_key t = Some ''error''))"

definition summary_error_count :: "jspan list \<Rightarrow> nat result" where
  "summary_error_count spans = rbind (rmap first_tag_is_error spans) (\<lambda>bs. Inr (length (filter id bs)))"

record trace_summary =
  su_spans :: nat
  su_services :: nat
  su_duration :: "nat list"
  su_errors :: nat

definition trace_metrics :: "trace \<Rightarrow> trace_summary result" where
  "trace_metrics t =
     (let spans = or_default [] (tr_spans t) in
      rbind (summary_error_count spans) (\<lambda>errors.
        Inr \<lparr>su_spans = length spans,
             su_services = length (remdups (map js_process_id spans)),
             su_duration = format_duration_us (total_duration spans),
             su_errors = errors\<rparr>))"

text \<open>The last tag with the key counts, as in the dict built from the tags.\<close>

definition tags_dict :: "jspan \<Rightarrow> (string option \<times> pyval) list" where
  "tags_dict s = fold (\<lambda>t d. dset d (tg_key t) (tg_value t)) (or_default [] (js_tags s)) []"

definition span_status :: "jspan \<Rightarrow> string" where
  "span_status s =
     (if truthy (or_default PNone (map_of (tags_dict s) (Some ''error''))) then ''error'' else ''ok'')"

text \<open>\<open>processes.get(process_id, {}).get("serviceName", "unknown")\<close>.\<close>

definition service_of :: "trace \<Rightarrow> jspan \<Rightarrow> string" where
  "service_of t s =
     (case js_process_id s of
        None \<Rightarrow> ''unknown''
      | Some p \<Rightarrow> or_default ''unknown'' (or_default None (map_of (or_default [] (tr_processes t)) p)))"

record span_row =
  sr_service :: string
  sr_operation :: string
  sr_duration :: "nat list"
  sr_duration_us :: int
  sr_status :: string
  sr_span_id :: "string option"
  sr_start :: string

definition span_data :: "(rat \<Rightarrow> string) \<Rightarrow> trace \<Rightarrow> span_row list" where
  "span_data clock_text t =
     map (\<lambda>s. \<lparr>sr_service = service_of t s,
               sr_operation = or_default ''unknown'' (js_operation s),
               sr_duration = format_duration_us (or_default 0 (js_duration s)),
               sr_duration_us = or_default 0 (js_duration s),
               sr_status = span_status s,
               sr_span_id = js_span_id s,
               sr_start = clock_text (fl (of_int (span_start s) / 1000000))\<rparr>)
         (or_default [] (tr_spans t))"

text \<open>An empty table has no column to filter by.\<close>

definition filter_spans :: "string list \<Rightarrow> span_row list \<Rightarrow> span_row list result" where
  "filter_spans status_filter rows =
     (if status_filter = [] then Inr rows
      else if rows = [] then raise_exn KeyError ''Status''
      else Inr (filter (\<lambda>r. sr_status r \<in> set status_filter) rows))"

definition select_span :: "trace \<Rightarrow> string option \<Rightarrow> jspan option" where
  "select_span t selected =
     (case selected of
        None \<Rightarrow> None
      | Some i \<Rightarrow> if i = [] then None else find (\<lambda>s. js_span_id s = Some i) (or_default [] (tr_spans t)))"

section \<open>The list of traces\<close>

text \<open>The operations offered, and the one that is searched for.\<close>

definition service_options :: "string list \<Rightarrow> string list" where
  "service_options available =
     ''All Services'' # (if available = [] then [''fraudstream-processing'', ''fraudstream-scoring'', ''fraudstream-ingestion'']
                         else available)"

definition selected_operation :: "string \<Rightarrow> string list \<Rightarrow> string \<Rightarrow> string option" where
  "selected_operation service operations choice =
     (if service = ''All Services'' \<or> operations = [] \<or> choice = ''All Operations'' then None else Some choice)"

definition wants_search :: "string \<Rightarrow> bool \<Rightarrow> bool" where
  "wants_search service clicked \<longleftrightarrow> \<not> (service = ''All Services'' \<and> \<not> clicked)"

record trace_row =
  tw_id :: "string option"
  tw_root :: string
  tw_services :: "string list"
  tw_spans :: nat
  tw_duration :: "nat list"
  tw_errors :: nat
  tw_start_us :: int

definition root_span :: "jspan list \<Rightarrow> jspan" where
  "root_span spans =
     (case filter (\<lambda>s. or_default [] (js_references s) = []) spans of r # rs \<Rightarrow> r | [] \<Rightarrow> hd spans)"

definition span_has_error :: "jspan \<Rightarrow> bool" where
  "span_has_error s = list_ex (\<lambda>t. tg_key t = Some ''error'' \<and> truthy (tg_value t)) (or_default [] (js_tags s))"

fun insert_str :: "string \<Rightarrow> string list \<Rightarrow> string list" where
  "insert_str s [] = [s]"
| "insert_str s (t # ts) = (if str_less t s then t # insert_str s ts else s # t # ts)"

definition sort_strs :: "string list \<Rightarrow> string list" where
  "sort_strs ss = fold insert_str ss []"

definition trace_row_of :: "trace \<Rightarrow> jspan list \<Rightarrow> trace_row" where
  "trace_row_of t spans =
     \<lparr>tw_id = tr_id t,
      tw_root = or_default ''unknown'' (js_operation (root_span spans)),
      tw_services = sort_strs (remdups (map (service_of t) spans)),
      tw_spans = length spans,
      tw_duration = format_duration_us (total_duration spans),
      tw_errors = length (filter span_has_error spans),
      tw_start_us = min_default (map span_start spans)\<rparr>"

definition trace_data :: "trace list \<Rightarrow> trace_row list" where
  "trace_data traces =
     concat (map (\<lambda>t. case or_default [] (tr_spans t) of [] \<Rightarrow> [] | s # ss \<Rightarrow> [trace_row_of t (s # ss)]) traces)"

definition filter_traces :: "string list \<Rightarrow> trace_row list \<Rightarrow> trace_row list result" where
  "filter_traces status_filter rows =
     (if ''error'' \<notin> set status_filter
      then (if rows = [] then raise_exn KeyError ''Errors'' else Inr (filter (\<lambda>r. tw_errors r = 0) rows))
      else if ''ok'' \<notin> set status_filter
      then (if rows = [] then raise_exn KeyError ''Errors'' else Inr (filter (\<lambda>r. 0 < tw_errors r) rows))
      else Inr rows)"

section \<open>Lemmas\<close>

definition self_child :: "jspan \<Rightarrow> bool" where
  "self_child s = child_of s s"

lemma child_spans_subset: "set (child_spans spans s) \<subseteq> set spans"
  by (auto simp: child_spans_def)

lemma child_spans_shorter:
  "s \<in> set spans \<Longrightarrow> \<not> self_child s \<Longrightarrow> length (child_spans spans s) < length spans"
  unfolding child_spans_def self_child_def by (rule length_filter_less)

text \<open>Without a span that names itself as its parent the recursion is on shorter lists.\<close>

lemma flatten_loop_returns:
  assumes "\<forall>s \<in> set spans. \<not> self_child s" "set todo \<subseteq> set spans"
  shows "\<exists>rows. flatten_loop spans todo parent_id depth = Some rows"
  using assms
proof (induction "length spans" arbitrary: spans todo parent_id depth rule: less_induct)
  case less
  from less.prems(2) show ?case
  proof (induction todo arbitrary: parent_id depth)
    case Nil
    show ?case by (subst flatten_loop.simps) simp
  next
    case (Cons s todo)
    let ?kids = "child_spans spans s"
    have "length ?kids < length spans" "\<forall>k \<in> set ?kids. \<not> self_child k"
      using Cons.prems less.prems(1) child_spans_shorter child_spans_subset [of spans s] by fastforce+
    then obtain below where "flatten_loop ?kids ?kids (js_span_id s) (depth + 1) = Some below"
      using less.hyps by blast
    moreover obtain rows where "flatten_loop spans todo parent_id depth = Some rows"
      using Cons.IH Cons.prems by fastforce
    ultimately show ?case by (subst flatten_loop.simps) simp
  qed
qed

text \<open>A span that names itself is its own child, and its children's child again, without end.\<close>

lemma flatten_loop_no_self:
  assumes "flatten_loop spans todo parent_id depth = Some rows"
  shows "\<forall>s \<in> set todo. s \<in> set spans \<longrightarrow> \<not> self_child s"
  using assms
proof (induction rule: flatten_loop.raw_induct [rotated, consumes 1])
  case (1 f spans todo parent_id depth rows)
  show ?case
  proof (cases todo)
    case (Cons s rest)
    have "\<not> self_child s" if "s \<in> set spans"
    proof
      assume "self_child s"
      with that have "s \<in> set (child_spans spans s)" by (simp add: child_spans_def self_child_def)
      with 1 Cons \<open>self_child s\<close> show False
        by (auto split: if_splits bind_splits)
    qed
    moreover have "\<forall>x \<in> set rest. x \<in> set spans \<longrightarrow> \<not> self_child x"
      using 1 Cons by (auto split: if_splits bind_splits)
    ultimately show ?thesis using Cons by simp
  qed simp
qed

text \<open>
  The spans of the call are the rows at its depth, the children of each of them rows one deeper, and
  nothing is higher up.
\<close>

lemma flatten_loop_rows:
  assumes "flatten_loop spans todo parent_id depth = Some rows"
  shows "map rw_span (filter (\<lambda>r. rw_depth r = depth) rows) = todo \<and>
     (\<forall>r \<in> set rows. depth \<le> rw_depth r \<and> (rw_depth r = depth \<longrightarrow> rw_parent r = parent_id)) \<and>
     (\<forall>s \<in> set todo. \<forall>c \<in> set (child_spans spans s).
        \<exists>r \<in> set rows. rw_span r = c \<and> rw_depth r = depth + 1 \<and> rw_parent r = js_span_id s)"
  using assms
proof (induction rule: flatten_loop.raw_induct [rotated, consumes 1])
  case (1 f spans todo parent_id depth rows)
  show ?case
  proof (cases todo)
    case Nil
    then show ?thesis using 1(2) by simp
  next
    case (Cons s rest)
    obtain below rest_rows where rows: "rows = \<lparr>rw_span = s, rw_depth = depth, rw_parent = parent_id\<rparr> # below @ rest_rows"
      and rest: "f spans rest parent_id depth = Some rest_rows"
      and below: "child_spans spans s = [] \<and> below = [] \<or>
        f (child_spans spans s) (child_spans spans s) (js_span_id s) (depth + 1) = Some below"
      using 1(2) Cons by (auto split: if_splits bind_splits)
    have deeper: "\<forall>r \<in> set below. depth < rw_depth r" using below 1(1) by fastforce
    then have "filter (\<lambda>r. rw_depth r = depth) below = []" by (auto simp: filter_empty_conv)
    then have "map rw_span (filter (\<lambda>r. rw_depth r = depth) rows) = todo"
      using 1(1) [OF rest] rows Cons by simp
    moreover have "\<forall>r \<in> set rows. depth \<le> rw_depth r \<and> (rw_depth r = depth \<longrightarrow> rw_parent r = parent_id)"
      using conjunct1 [OF conjunct2 [OF 1(1) [OF rest]]] rows deeper by auto
    moreover have kids: "\<exists>r \<in> set below. rw_span r = c \<and> rw_depth r = depth + 1 \<and> rw_parent r = js_span_id s"
      if c: "c \<in> set (child_spans spans s)" for c
    proof -
      from c below have b: "f (child_spans spans s) (child_spans spans s) (js_span_id s) (depth + 1) = Some below"
        by auto
      then have "c \<in> rw_span ` set (filter (\<lambda>r. rw_depth r = depth + 1) below)"
        using 1(1) [OF b] c by (metis set_map)
      with 1(1) [OF b] show ?thesis by auto
    qed
    moreover have "\<forall>x \<in> set todo. \<forall>c \<in> set (child_spans spans x).
        \<exists>r \<in> set rows. rw_span r = c \<and> rw_depth r = depth + 1 \<and> rw_parent r = js_span_id x"
    proof (intro ballI)
      fix x c assume "x \<in> set todo" "c \<in> set (child_spans spans x)"
      then show "\<exists>r \<in> set rows. rw_span r = c \<and> rw_depth r = depth + 1 \<and> rw_parent r = js_span_id x"
        using conjunct2 [OF conjunct2 [OF 1(1) [OF rest]]] kids unfolding rows Cons by fastforce
    qed
    ultimately show ?thesis by blast
  qed
qed

lemma fold_max: "fold max xs (y :: int) = Max (insert y (set xs))"
  by (simp flip: Max.set_eq_fold)

lemma fold_min: "fold min xs (y :: int) = Min (insert y (set xs))"
  by (simp flip: Min.set_eq_fold)

lemma max_default_ge: "x \<in> set xs \<Longrightarrow> x \<le> max_default xs"
  by (cases xs) (auto simp: max_default_def fold_max)

lemma min_default_le: "x \<in> set xs \<Longrightarrow> min_default xs \<le> x"
  by (cases xs) (auto simp: min_default_def fold_min)

text \<open>Every span fits into the total duration of its trace.\<close>

lemma span_within_total: "s \<in> set spans \<Longrightarrow> or_default 0 (js_duration s) \<le> total_duration spans"
  using max_default_ge [of "span_end s" "map span_end spans"] min_default_le [of "span_start s" "map span_start spans"]
  by (simp add: total_duration_def span_end_def span_start_def)

text \<open>
  The two views count errors differently: the summary looks at the first tag only, whatever its
  value, and raises for a span without tags; the list looks for a true error tag.
\<close>

definition error_span :: jspan where
  "error_span = \<lparr>js_span_id = Some ''a'', js_process_id = Some ''p1'', js_operation = Some ''op'', js_start = Some 0,
     js_duration = Some 5, js_references = Some [],
     js_tags = Some [\<lparr>tg_key = Some ''span.kind'', tg_value = PStr ''server''\<rparr>, \<lparr>tg_key = Some ''error'', tg_value = PBool True\<rparr>]\<rparr>"

lemma error_counts_differ:
  "summary_error_count [error_span] = Inr 0" "length (filter span_has_error [error_span]) = 1"
  "summary_error_count [error_span\<lparr>js_tags := Some []\<rparr>] = index_error"
  by (simp_all add: summary_error_count_def first_tag_is_error_def error_span_def span_has_error_def or_default_def
      index_error_def raise_exn_def)

lemma rounded_up_duration: "format_duration_us 999999 = map code ''1000.00ms''"
  by code_simp

section \<open>Properties\<close>

text \<open>C34: Flattening the spans of a trace ends exactly when no span names itself as its parent.\<close>

theorem flatten_spans_terminates:
  "(\<exists>rows. flatten_spans spans parent_id depth = Some rows) = (\<forall>s \<in> set spans. \<not> child_of s s)"
  using flatten_loop_returns [of spans spans] flatten_loop_no_self [of spans spans]
  unfolding flatten_spans_def self_child_def by blast

lemma flatten_spans_terminates_witness:
  "(\<exists>rows. flatten_spans [error_span] None 0 = Some rows) \<and>
   flatten_spans [error_span\<lparr>js_references := Some [\<lparr>rf_type = Some ''CHILD_OF'', rf_span_id = Some ''a''\<rparr>]\<rparr>] None 0 = None"
  using flatten_spans_terminates [of "[error_span]" None 0]
    flatten_spans_terminates [of "[error_span\<lparr>js_references := Some [\<lparr>rf_type = Some ''CHILD_OF'', rf_span_id = Some ''a''\<rparr>]\<rparr>]" None 0]
  by (simp add: child_of_def error_span_def or_default_def)

text \<open>The flattened list is not a tree walk: every span of the trace is a row at the top depth, in the
  order given, and every child is a row again below its parent, so a trace with a child has more rows
  than spans.\<close>

theorem flatten_spans_repeats_children:
  assumes "flatten_spans spans parent_id depth = Some rows"
  shows "map rw_span (filter (\<lambda>r. rw_depth r = depth) rows) = spans \<and>
    (\<forall>s \<in> set spans. \<forall>c \<in> set spans. child_of c s \<longrightarrow>
       (\<exists>r \<in> set rows. rw_span r = c \<and> rw_depth r = depth + 1 \<and> rw_parent r = js_span_id s) \<and> length spans < length rows)"
proof -
  note rows = flatten_loop_rows [OF assms [unfolded flatten_spans_def]]
  have len: "length (filter (\<lambda>r. rw_depth r = depth) rows) = length spans"
    using arg_cong [OF conjunct1 [OF rows], of length] by simp
  have more: "length spans < length rows" if "r \<in> set rows" "rw_depth r = depth + 1" for r
    using length_filter_less [OF that(1), of "\<lambda>r. rw_depth r = depth"] that(2) len by simp
  show ?thesis
  proof (intro conjI ballI impI)
    show "map rw_span (filter (\<lambda>r. rw_depth r = depth) rows) = spans" by (rule conjunct1 [OF rows])
    fix s c assume sc: "s \<in> set spans" "c \<in> set spans" "child_of c s"
    then have "c \<in> set (child_spans spans s)" by (simp add: child_spans_def)
    with sc(1) show r: "\<exists>r \<in> set rows. rw_span r = c \<and> rw_depth r = depth + 1 \<and> rw_parent r = js_span_id s"
      using conjunct2 [OF conjunct2 [OF rows]] by blast
    then show "length spans < length rows" using more by blast
  qed
qed

lemma flatten_spans_repeats_children_witness:
  "\<exists>rows. flatten_spans [error_span, error_span\<lparr>js_span_id := Some ''b'', js_references := Some
      [\<lparr>rf_type = Some ''CHILD_OF'', rf_span_id = Some ''a''\<rparr>]\<rparr>] None 0 = Some rows \<and> 2 < length rows"
proof -
  let ?b = "error_span\<lparr>js_span_id := Some ''b'', js_references := Some [\<lparr>rf_type = Some ''CHILD_OF'', rf_span_id = Some ''a''\<rparr>]\<rparr>"
  have c: "child_of ?b error_span" "\<not> child_of error_span error_span" "\<not> child_of ?b ?b"
    by (simp_all add: child_of_def error_span_def or_default_def)
  then obtain rows where "flatten_spans [error_span, ?b] None 0 = Some rows"
    using flatten_loop_returns [of "[error_span, ?b]" "[error_span, ?b]" None 0]
    by (auto simp: flatten_spans_def self_child_def)
  with flatten_spans_repeats_children [OF this] c(1) show ?thesis by auto
qed

end
