(* ===== verification/Schema_Tools.thy ===== *)
theory Schema_Tools
  imports Iceberg_Sinks
begin

text \<open>
  The tools around the tables and the feature views: \<open>scripts/iceberg_init.py\<close> creates the tables,
  \<open>scripts/evolve_iceberg_schema.py\<close> writes the DDL of an Avro schema,
  \<open>scripts/validate_feast_schemas.py\<close> looks for the features in the view files, and
  \<open>storage/feature_store/features\<close> declares the views. Files are texts with one-character line ends;
  the catalog, the file system and the JSON parser answer as arguments say. An Avro name is a text.
\<close>

section \<open>Texts\<close>

text \<open>\<open>s.split()\<close>.\<close>

fun words :: "string \<Rightarrow> string list" where
  "words [] = []"
| "words (c # cs) =
     (if whitespace c then words cs
      else (case cs of
              [] \<Rightarrow> [[c]]
            | d # ds \<Rightarrow> (if whitespace d then [c] # words cs
                         else (case words cs of [] \<Rightarrow> [[c]] | w # ws \<Rightarrow> (c # w) # ws))))"

definition upper_char :: "char \<Rightarrow> char" where
  "upper_char c = (if 97 \<le> code c \<and> code c \<le> 122 then char_of (code c - 32) else c)"

definition newline :: char where
  "newline = CHR 0x0A"

section \<open>Avro types as SQL types\<close>

lemma size_item: "map_of d k = Some v \<Longrightarrow> size v < size (PDict d)"
  by (induction d) (auto split: if_splits)

lemma size_element: "t \<in> set ts \<Longrightarrow> size t < size (PList ts)"
  by (induction ts) auto

function (sequential) parse_avro_type :: "(pyval \<Rightarrow> string) \<Rightarrow> pyval \<Rightarrow> string" where
  "parse_avro_type sf (PStr t) =
     (if t = ''string'' then ''STRING''
      else if t = ''int'' then ''INT''
      else if t = ''long'' then ''BIGINT''
      else if t = ''float'' then ''FLOAT''
      else if t = ''boolean'' then ''BOOLEAN''
      else if t = ''bytes'' then ''BINARY''
      else ''STRING'')"
| "parse_avro_type sf (PList ts) =
     (case filter (\<lambda>t. \<not> py_eq t (PStr ''null'')) ts of [t] \<Rightarrow> parse_avro_type sf t | _ \<Rightarrow> ''STRING'')"
| "parse_avro_type sf (PDict d) =
     (if py_eq (dget d ''logicalType'') (PStr ''timestamp-millis'') then ''TIMESTAMP(6)''
      else if py_eq (dget d ''logicalType'') (PStr ''decimal'')
      then ''DECIMAL('' @ py_str sf (dget_or d ''precision'' (PInt 18)) @ '','' @ py_str sf (dget_or d ''scale'' (PInt 4)) @ '')''
      else if py_eq (dget d ''type'') (PStr ''enum'') then ''STRING''
      else parse_avro_type sf (dget d ''type''))"
| "parse_avro_type sf _ = ''STRING''"
  by pat_completeness auto

termination
proof (relation "measure (\<lambda>(sf, v). size v)", simp_all)
  fix ts t and rest :: "pyval list"
  assume "filter (\<lambda>t. \<not> py_eq t (PStr ''null'')) ts = [t]"
  then have "t \<in> set ts" by (metis filter_eq_ConsD in_set_conv_decomp)
  then show "size t < Suc (size_list size ts)" using size_element by fastforce
next
  fix d
  show "size (dget d ''type'') < Suc (size_list (size_prod (\<lambda>x. 0) size) d)"
    using size_item [of d "''type''"] by (cases "map_of d ''type''") (auto simp: dget_def)
qed

definition is_nullable :: "pyval \<Rightarrow> bool" where
  "is_nullable t = (case t of PList ts \<Rightarrow> list_ex (\<lambda>x. py_eq x (PStr ''null'')) ts | _ \<Rightarrow> False)"

type_synonym sql_column = "string \<times> string \<times> bool"

definition extract_field :: "(pyval \<Rightarrow> string) \<Rightarrow> pyval \<Rightarrow> sql_column result" where
  "extract_field sf f =
     (case f of
        PDict d \<Rightarrow>
          rbind (dsub d ''name'') (\<lambda>name. rbind (dsub d ''type'') (\<lambda>t.
            Inr (py_str sf name, parse_avro_type sf t, is_nullable t)))
      | _ \<Rightarrow> raise_exn TypeError ''indices must be integers'')"

definition extract_fields :: "(pyval \<Rightarrow> string) \<Rightarrow> pyval \<Rightarrow> sql_column list result" where
  "extract_fields sf schema =
     (case schema of
        PDict d \<Rightarrow>
          (case dget_or d ''fields'' (PList []) of
             PList fs \<Rightarrow> rmap (extract_field sf) fs
           | PDict [] \<Rightarrow> Inr []
           | PStr [] \<Rightarrow> Inr []
           | _ \<Rightarrow> raise_exn TypeError ''string indices must be integers'')
      | _ \<Rightarrow> raise_exn AttributeError ''get'')"

section \<open>The DDL file\<close>

definition ddl_keywords :: "string list" where
  "ddl_keywords = [''create'', ''table'', ''alter'', ''add'', ''column'', ''using'', ''partitioned'', ''by'', ''tblproperties'',
     '')'', [CHR 0x27]]"

definition starts_with :: "string \<Rightarrow> string \<Rightarrow> bool" where
  "starts_with p s \<longleftrightarrow> take (length p) s = p"

definition line_field :: "string \<Rightarrow> string list" where
  "line_field raw =
     (let line = strip raw; parts = words line in
      if line \<noteq> [] \<and> \<not> starts_with ''--'' line \<and> \<not> starts_with ''('' line \<and> 2 \<le> length parts
      then (let maybe_field = lower_str (hd parts) in
            if list_ex (\<lambda>kw. starts_with kw maybe_field) ddl_keywords then [] else [maybe_field])
      else [])"

definition ddl_fields :: "string \<Rightarrow> string list" where
  "ddl_fields content = concat (map line_field (split_on newline content))"

definition load_existing_ddl :: "string option \<Rightarrow> string list \<times> bool" where
  "load_existing_ddl file =
     (case file of
        None \<Rightarrow> ([], False)
      | Some content \<Rightarrow>
          (if content = [] then ([], False)
           else (ddl_fields content, sublist ''CREATE TABLE'' (map upper_char content))))"

definition column_line :: "sql_column \<Rightarrow> string" where
  "column_line c = (case c of (name, sql_type, nullable) \<Rightarrow> ''  '' @ name @ '' '' @ sql_type @ (if nullable then [] else '' NOT NULL''))"

definition generate_create_table :: "sql_column list \<Rightarrow> string" where
  "generate_create_table cols =
     ''CREATE TABLE IF NOT EXISTS enriched_transactions ('' @ [newline]
     @ join_with ('','' @ [newline]) (map column_line cols) @ [newline]
     @ '')'' @ [newline] @ ''USING iceberg'' @ [newline] @ ''PARTITIONED BY (days(event_time));'' @ [newline]"

definition alter_line :: "sql_column \<Rightarrow> string" where
  "alter_line c = (case c of (name, sql_type, nullable) \<Rightarrow> ''ALTER TABLE enriched_transactions ADD COLUMN '' @ name @ '' '' @ sql_type @ '';'')"

definition generate_alter_statements :: "sql_column list \<Rightarrow> string list \<Rightarrow> string" where
  "generate_alter_statements new_fields existing =
     concat (map (\<lambda>c. alter_line c @ [newline]) (filter (\<lambda>c. fst c \<notin> set existing) new_fields))"

text \<open>The file after a run, and the exit code. \<open>schema\<close> is the parsed schema, or why it could not be read.\<close>

definition evolve :: "(pyval \<Rightarrow> string) \<Rightarrow> pyval result \<Rightarrow> string option \<Rightarrow> string option \<times> int" where
  "evolve sf schema file =
     (case rbind schema (extract_fields sf) of
        Inl e \<Rightarrow> (file, 1)
      | Inr cols \<Rightarrow>
          (case load_existing_ddl file of (existing, has_create) \<Rightarrow>
             if \<not> has_create then (Some (generate_create_table cols), 0)
             else (let alter = generate_alter_statements cols existing in
                   if alter = [] then (file, 0)
                   else (Some ((case file of None \<Rightarrow> [] | Some content \<Rightarrow> content) @ alter), 0))))"

section \<open>The Feast views\<close>

datatype feast_type = Feast_int64 | Feast_float64 | Feast_string | Feast_bool

record feature_view =
  fv_name :: string
  fv_entity :: string
  fv_ttl_hours :: nat
  fv_schema :: "(string \<times> feast_type) list"
  fv_source :: string

definition velocity_features :: feature_view where
  "velocity_features = \<lparr>fv_name = ''velocity_features'', fv_entity = ''account_id'', fv_ttl_hours = 48,
     fv_schema = [(''vel_count_1m'', Feast_int64), (''vel_amount_1m'', Feast_float64), (''vel_count_5m'', Feast_int64),
       (''vel_amount_5m'', Feast_float64), (''vel_count_1h'', Feast_int64), (''vel_amount_1h'', Feast_float64),
       (''vel_count_24h'', Feast_int64), (''vel_amount_24h'', Feast_float64)],
     fv_source = ''velocity_push_source''\<rparr>"

definition geo_features :: feature_view where
  "geo_features = \<lparr>fv_name = ''geo_features'', fv_entity = ''account_id'', fv_ttl_hours = 24,
     fv_schema = [(''geo_country'', Feast_string), (''geo_city'', Feast_string), (''geo_network_class'', Feast_string),
       (''geo_confidence'', Feast_float64)],
     fv_source = ''geo_push_source''\<rparr>"

definition device_features :: feature_view where
  "device_features = \<lparr>fv_name = ''device_features'', fv_entity = ''account_id'', fv_ttl_hours = 14 * 24,
     fv_schema = [(''device_first_seen'', Feast_int64), (''device_txn_count'', Feast_int64), (''device_known_fraud'', Feast_bool),
       (''prev_geo_country'', Feast_string), (''prev_txn_time_ms'', Feast_int64)],
     fv_source = ''device_push_source''\<rparr>"

definition feature_views :: "feature_view list" where
  "feature_views = [velocity_features, geo_features, device_features]"

section \<open>The validator of the views\<close>

definition FEATURE_FAMILIES :: "(string \<times> string list) list" where
  "FEATURE_FAMILIES =
     [(''velocity'', [''vel_count_1m'', ''vel_amount_1m'', ''vel_count_5m'', ''vel_amount_5m'',
                      ''vel_count_1h'', ''vel_amount_1h'', ''vel_count_24h'', ''vel_amount_24h'']),
      (''geo'', [''geo_country'', ''geo_city'', ''geo_network_class'', ''geo_confidence'']),
      (''device'', [''device_first_seen'', ''device_txn_count'', ''device_known_fraud'', ''prev_geo_country'', ''prev_txn_time_ms''])]"

text \<open>\<open>\w\<close> of a regular expression.\<close>

definition word_char :: "char \<Rightarrow> bool" where
  "word_char c \<longleftrightarrow> alnum_ascii c \<or> c = CHR ''_'' \<or> code c \<in> {170, 178, 179, 181, 185, 186, 188, 189, 190} \<or>
     (192 \<le> code c \<and> code c \<noteq> 215 \<and> code c \<noteq> 247)"

text \<open>
  The search for a word between boundaries, where the word consists of word characters. \<open>before\<close> says
  whether the character before the current position is one.
\<close>

fun word_search :: "string \<Rightarrow> bool \<Rightarrow> string \<Rightarrow> bool" where
  "word_search w before [] = False"
| "word_search w before (c # cs) =
     ((\<not> before \<and> starts_with w (c # cs) \<and>
        (case drop (length w) (c # cs) of [] \<Rightarrow> True | d # ds \<Rightarrow> \<not> word_char d))
      \<or> word_search w (word_char c) cs)"

definition check_feast_view :: "string option \<Rightarrow> string list \<Rightarrow> string list" where
  "check_feast_view file expected =
     (case file of None \<Rightarrow> expected | Some content \<Rightarrow> filter (\<lambda>f. \<not> word_search f False content) expected)"

text \<open>The schema is loaded, and otherwise not used.\<close>

definition validate_feast :: "pyval result \<Rightarrow> (string \<Rightarrow> string option) \<Rightarrow> int" where
  "validate_feast schema view_file =
     (case schema of
        Inl e \<Rightarrow> 1
      | Inr v \<Rightarrow>
          (if list_ex (\<lambda>(family, expected). check_feast_view (view_file family) expected \<noteq> []) FEATURE_FAMILIES then 1 else 0))"

section \<open>Creating the tables\<close>

datatype column_type = Text | Decimal_18_4 | Timestamp_us | Single | Double | Int_32 | Boolean_type | Text_list

type_synonym table_schema = "(string \<times> column_type \<times> bool) list"

definition enriched_transactions_schema :: table_schema where
  "enriched_transactions_schema =
     [(''transaction_id'', Text, False), (''account_id'', Text, False), (''merchant_id'', Text, False),
      (''amount'', Decimal_18_4, False), (''currency'', Text, False), (''event_time'', Timestamp_us, False),
      (''enrichment_time'', Timestamp_us, False), (''channel'', Text, False), (''card_bin'', Text, False),
      (''card_last4'', Text, False), (''caller_ip_subnet'', Text, False), (''api_key_id'', Text, False),
      (''oauth_scope'', Text, False), (''geo_lat'', Single, True), (''geo_lon'', Single, True),
      (''masking_lib_version'', Text, False), (''vel_count_1m'', Int_32, False), (''vel_amount_1m'', Decimal_18_4, False),
      (''vel_count_5m'', Int_32, False), (''vel_amount_5m'', Decimal_18_4, False), (''vel_count_1h'', Int_32, False),
      (''vel_amount_1h'', Decimal_18_4, False), (''vel_count_24h'', Int_32, False), (''vel_amount_24h'', Decimal_18_4, False),
      (''geo_country'', Text, True), (''geo_city'', Text, True), (''geo_network_class'', Text, True),
      (''geo_confidence'', Single, True), (''device_first_seen'', Timestamp_us, True), (''device_txn_count'', Int_32, True),
      (''device_known_fraud'', Boolean_type, True), (''prev_geo_country'', Text, True), (''prev_txn_time_ms'', Timestamp_us, True),
      (''enrichment_latency_ms'', Int_32, False), (''processor_version'', Text, False), (''schema_version'', Text, False)]"

definition fraud_decisions_schema :: table_schema where
  "fraud_decisions_schema =
     [(''transaction_id'', Text, False), (''decision'', Text, False), (''fraud_score'', Double, False),
      (''rule_triggers'', Text_list, False), (''model_version'', Text, False), (''decision_time_ms'', Timestamp_us, False),
      (''latency_ms'', Double, False), (''schema_version'', Text, False), (''shadow_determination'', Text, True),
      (''shadow_fraud_score'', Double, True), (''shadow_rule_triggers'', Text_list, True)]"

definition shadow_decisions_schema :: table_schema where
  "shadow_decisions_schema =
     [(''transaction_id'', Text, False), (''account_id'', Text, False), (''production_decision'', Text, False),
      (''production_fraud_score'', Double, False), (''production_rule_triggers'', Text_list, False),
      (''shadow_determination'', Text, False), (''shadow_fraud_score'', Double, False), (''shadow_rule_triggers'', Text_list, False),
      (''model_version'', Text, False), (''rule_set_version'', Text, False), (''shadow_rule_set_version'', Text, False),
      (''decision_time_ms'', Timestamp_us, False), (''score_delta'', Double, False), (''decision_mismatch'', Boolean_type, False),
      (''schema_version'', Text, False)]"

definition columns_of_type :: "column_type \<Rightarrow> table_schema \<Rightarrow> string list" where
  "columns_of_type t schema = map fst (filter (\<lambda>c. fst (snd c) = t) schema)"

text \<open>Defaults for what the environment lacks; an empty value counts as lacking.\<close>

definition catalog_defaults :: "(string \<times> string) list" where
  "catalog_defaults =
     [(''PYICEBERG_CATALOG__ICEBERG__URI'', ''http://localhost:8181''),
      (''PYICEBERG_CATALOG__ICEBERG__WAREHOUSE'', ''s3://fraudstream-lake/''),
      (''PYICEBERG_CATALOG__ICEBERG__S3__ENDPOINT'', ''http://localhost:9000''),
      (''PYICEBERG_CATALOG__ICEBERG__S3__PATH_STYLE_ACCESS'', ''true''),
      (''AWS_ACCESS_KEY_ID'', ''minioadmin''), (''AWS_SECRET_ACCESS_KEY'', ''minioadmin'')]"

definition set_default :: "string \<times> string \<Rightarrow> (string \<Rightarrow> string option) \<Rightarrow> string \<Rightarrow> string option" where
  "set_default kv env = (case env (fst kv) of Some (c # cs) \<Rightarrow> env | _ \<Rightarrow> env(fst kv \<mapsto> snd kv))"

definition catalog_env :: "(string \<Rightarrow> string option) \<Rightarrow> string \<Rightarrow> string option" where
  "catalog_env env = fold set_default catalog_defaults env"

text \<open>
  The catalog: its tables, what loading a table raises, and what creating one raises. A message that
  says the table does not exist leads to its creation.
\<close>

type_synonym catalog_tables = "(string \<times> table_schema) list"

record catalog_world =
  cw_connect :: "exn option"
  cw_load :: "catalog_tables \<Rightarrow> string \<Rightarrow> exn option"
  cw_create :: "catalog_tables \<Rightarrow> string \<Rightarrow> exn option"

definition says_missing :: "exn \<Rightarrow> bool" where
  "says_missing e \<longleftrightarrow> list_ex (\<lambda>m. sublist m (lower_str (exn_msg e))) [''does not exist'', ''not found'', ''nosuchtable'']"

definition create_table :: "catalog_world \<Rightarrow> string \<times> table_schema \<Rightarrow> catalog_tables \<Rightarrow> catalog_tables result" where
  "create_table w t tables =
     (case cw_load w tables (fst t) of
        None \<Rightarrow> Inr tables
      | Some e \<Rightarrow>
          (if says_missing e
           then (case cw_create w tables (fst t) of None \<Rightarrow> Inr (dset tables (fst t) (snd t)) | Some e' \<Rightarrow> Inl e')
           else Inl e))"

definition init_plan :: "(string \<times> table_schema) list" where
  "init_plan =
     [(''default.enriched_transactions'', enriched_transactions_schema), (''default.fraud_decisions'', fraud_decisions_schema),
      (''default.shadow_decisions'', shadow_decisions_schema)]"

text \<open>The tables are created in order; the first failure ends the run with exit code 1.\<close>

fun create_all :: "catalog_world \<Rightarrow> (string \<times> table_schema) list \<Rightarrow> catalog_tables \<Rightarrow> catalog_tables \<times> int" where
  "create_all w [] tables = (tables, 0)"
| "create_all w (t # ts) tables =
     (case create_table w t tables of Inl e \<Rightarrow> (tables, 1) | Inr tables' \<Rightarrow> create_all w ts tables')"

definition iceberg_init :: "catalog_world \<Rightarrow> catalog_tables \<Rightarrow> catalog_tables \<times> int" where
  "iceberg_init w tables = (case cw_connect w of Some e \<Rightarrow> (tables, 1) | None \<Rightarrow> create_all w init_plan tables)"

section \<open>Lines and words\<close>

lemma split_on_append: "split_on c (xs @ c # ys) = split_on c xs @ split_on c ys"
  by (induction xs) (auto split: list.splits)

lemma split_on_plain: "c \<notin> set xs \<Longrightarrow> split_on c xs = [xs]"
  by (induction xs) auto

lemma ddl_fields_append: "ddl_fields (xs @ newline # ys) = ddl_fields xs @ ddl_fields ys"
  by (simp add: ddl_fields_def split_on_append)

lemma ddl_fields_line: "newline \<notin> set xs \<Longrightarrow> ddl_fields xs = line_field xs"
  by (simp add: ddl_fields_def split_on_plain)

lemma ddl_fields_Nil: "ddl_fields [] = []"
  by (simp add: ddl_fields_def line_field_def strip_def)

lemma words_word: "w \<noteq> [] \<Longrightarrow> \<forall>x \<in> set w. \<not> whitespace x \<Longrightarrow> whitespace c \<Longrightarrow> words (w @ c # r) = w # words r"
proof (induction w)
  case (Cons x w)
  then show ?case by (cases w) auto
qed simp

lemma words_nonempty: "s \<noteq> [] \<Longrightarrow> \<not> whitespace (hd s) \<Longrightarrow> words s \<noteq> []"
  by (cases s) (auto split: list.splits)

lemma strip_id: "s \<noteq> [] \<Longrightarrow> \<not> whitespace (hd s) \<Longrightarrow> \<not> whitespace (last s) \<Longrightarrow> strip s = s"
proof -
  assume s: "s \<noteq> []" "\<not> whitespace (hd s)" "\<not> whitespace (last s)"
  have "dropWhile whitespace s = s" using s(1,2) by (cases s) auto
  moreover have "dropWhile whitespace (rev s) = rev s" using s(1,3) by (cases s rule: rev_cases) auto
  ultimately show ?thesis by (simp add: strip_def)
qed

lemma strip_indented: "strip (''  '' @ s) = strip s"
  by (simp add: strip_def whitespace_def code_def)

text \<open>A statement that adds a column defines no field for the next run.\<close>

lemma line_field_alter: "line_field (alter_line c) = []"
proof -
  obtain name sql_type nullable where c: "c = (name, sql_type, nullable)" by (cases c)
  let ?rest = "''TABLE enriched_transactions ADD COLUMN '' @ name @ '' '' @ sql_type @ '';''"
  have line: "alter_line c = ''ALTER'' @ CHR '' '' # ?rest" by (simp add: alter_line_def c)
  have "strip (alter_line c) = alter_line c"
    by (rule strip_id) (simp_all add: alter_line_def c whitespace_def code_def)
  moreover have "hd (words (alter_line c)) = ''ALTER''"
    unfolding line by (subst words_word) (simp_all add: whitespace_def code_def)
  moreover have "list_ex (\<lambda>kw. starts_with kw (lower_str ''ALTER'')) ddl_keywords" by code_simp
  ultimately show ?thesis by (simp add: line_field_def Let_def)
qed

lemma ddl_fields_alter:
  assumes "\<forall>c \<in> set cols. newline \<notin> set (alter_line c)"
  shows "ddl_fields (generate_alter_statements cols existing) = []"
proof -
  have "ddl_fields (concat (map (\<lambda>c. alter_line c @ [newline]) cs)) = []" if "\<forall>c \<in> set cs. newline \<notin> set (alter_line c)" for cs
    using that
  proof (induction cs)
    case (Cons c cs)
    then show ?case
      using ddl_fields_append [of "alter_line c" "concat (map (\<lambda>c. alter_line c @ [newline]) cs)"]
      by (simp add: ddl_fields_line line_field_alter)
  qed (simp add: ddl_fields_Nil)
  then show ?thesis using assms by (simp add: generate_alter_statements_def)
qed

text \<open>A column line of the generated table defines its field.\<close>

definition column_ok :: "sql_column \<Rightarrow> bool" where
  "column_ok c =
     (case c of (name, sql_type, nullable) \<Rightarrow>
        name \<noteq> [] \<and> list_all (\<lambda>x. \<not> whitespace x) name \<and> lower_str name = name \<and>
        \<not> starts_with ''--'' name \<and> \<not> starts_with ''('' name \<and> \<not> list_ex (\<lambda>kw. starts_with kw name) ddl_keywords \<and>
        sql_type \<noteq> [] \<and> list_all (\<lambda>x. \<not> whitespace x) sql_type)"

lemma newline_whitespace: "whitespace newline"
  by (simp add: whitespace_def newline_def code_def)

lemma starts_with_append: "w \<noteq> [] \<Longrightarrow> \<not> starts_with p w \<Longrightarrow> \<not> whitespace (last p) \<Longrightarrow> length p \<le> 2 \<Longrightarrow>
    whitespace c \<Longrightarrow> p \<noteq> [] \<Longrightarrow> \<not> starts_with p (w @ c # r)"
  by (cases p; cases "tl p"; cases w; cases "tl w") (auto simp: starts_with_def)

lemma line_field_column:
  assumes "column_ok c" "t = [] \<or> t = '',''"
  shows "line_field (column_line c @ t) = [fst c]" "newline \<notin> set (column_line c @ t)"
proof -
  obtain name sql_type nullable where c: "c = (name, sql_type, nullable)" by (cases c)
  have n: "name \<noteq> []" "\<forall>x \<in> set name. \<not> whitespace x" "lower_str name = name" "\<not> starts_with ''--'' name"
    "\<not> starts_with ''('' name" "\<not> list_ex (\<lambda>kw. starts_with kw name) ddl_keywords"
    and ty: "sql_type \<noteq> []" "\<forall>x \<in> set sql_type. \<not> whitespace x"
    using assms(1) by (auto simp: column_ok_def c list_all_iff)
  define body where "body = sql_type @ (if nullable then [] else '' NOT NULL'') @ t"
  have sp: "whitespace CHR '' ''" by (simp add: whitespace_def code_def)
  have body: "body \<noteq> []" "\<not> whitespace (hd body)" "\<not> whitespace (last body)"
    using ty assms(2) by (auto simp: body_def last_append whitespace_def code_def)
  let ?line = "name @ CHR '' '' # body"
  have "strip (column_line c @ t) = strip ?line"
    using strip_indented [of ?line] by (simp add: column_line_def c body_def)
  also have "\<dots> = ?line"
    by (rule strip_id) (use n body in auto)
  finally have line: "strip (column_line c @ t) = ?line" .
  have ws: "words ?line = name # words body" by (rule words_word) (use n sp in auto)
  have "words body \<noteq> []" using body(1,2) by (rule words_nonempty)
  then have "2 \<le> length (words ?line)" by (cases "words body") (auto simp: ws)
  moreover have "\<not> starts_with ''--'' ?line"
    by (rule starts_with_append) (use n sp in \<open>auto simp: whitespace_def code_def\<close>)
  moreover have "\<not> starts_with ''('' ?line"
    by (rule starts_with_append) (use n sp in \<open>auto simp: whitespace_def code_def\<close>)
  ultimately show "line_field (column_line c @ t) = [fst c]"
    unfolding line_field_def Let_def line ws using n by (simp add: c)
  have "newline \<notin> set name" "newline \<notin> set sql_type" using n(2) ty(2) newline_whitespace by auto
  then show "newline \<notin> set (column_line c @ t)"
    using assms(2) by (auto simp: column_line_def c newline_def split: if_splits)
qed

lemma created_fields:
  assumes "\<forall>c \<in> set cols. column_ok c" "cols \<noteq> []"
  shows "fst ` set cols \<subseteq> set (ddl_fields (join_with ('','' @ [newline]) (map column_line cols) @ newline # rest))"
  using assms
proof (induction cols)
  case (Cons c cols)
  show ?case
  proof (cases cols)
    case Nil
    then show ?thesis using Cons.prems line_field_column [of c "[]"] by (simp add: ddl_fields_append ddl_fields_line)
  next
    case (Cons d ds)
    have step: "join_with ('','' @ [newline]) (map column_line (c # cols)) @ newline # rest =
        (column_line c @ '','') @ newline # join_with ('','' @ [newline]) (map column_line cols) @ newline # rest"
      by (simp add: Cons)
    have "ddl_fields (join_with ('','' @ [newline]) (map column_line (c # cols)) @ newline # rest) =
        ddl_fields (column_line c @ '','') @ ddl_fields (join_with ('','' @ [newline]) (map column_line cols) @ newline # rest)"
      unfolding step by (rule ddl_fields_append)
    also have "ddl_fields (column_line c @ '','') = [fst c]"
      using Cons.prems line_field_column [of c "'',''"] ddl_fields_line [of "column_line c @ '',''"] by simp
    finally have "ddl_fields (join_with ('','' @ [newline]) (map column_line (c # cols)) @ newline # rest) =
        fst c # ddl_fields (join_with ('','' @ [newline]) (map column_line cols) @ newline # rest)" by simp
    then show ?thesis using Cons.IH Cons.prems Cons by auto
  qed
qed simp

text \<open>A table made with the catalog's agreement is there; no table that was there changes.\<close>

lemma create_all_spec:
  assumes "\<And>tables n. cw_load w tables n = (if has_key tables n then None else Some e)" "says_missing e"
    and "\<And>tables n. cw_create w tables n = None"
  shows "snd (create_all w ts tables) = 0 \<and>
    (\<forall>n. map_of (fst (create_all w ts tables)) n =
       (case map_of tables n of Some s \<Rightarrow> Some s | None \<Rightarrow> map_of ts n))"
proof (induction ts arbitrary: tables)
  case Nil
  then show ?case by (auto split: option.split)
next
  case (Cons t ts)
  let ?t = "if has_key tables (fst t) then tables else dset tables (fst t) (snd t)"
  have "create_table w t tables = Inr ?t" using assms by (simp add: create_table_def)
  moreover have "map_of ?t n = (case map_of tables n of Some s \<Rightarrow> Some s | None \<Rightarrow> if n = fst t then Some (snd t) else None)" for n
    by (auto simp: dict_simps has_key_def split: option.split)
  ultimately show ?case using Cons.IH [of ?t] by (auto split: option.split)
qed

text \<open>The search finds a word exactly where it stands between boundaries.\<close>

lemma starts_with_iff: "starts_with w s \<longleftrightarrow> (\<exists>post. s = w @ post)"
proof
  assume "starts_with w s"
  then have "s = w @ drop (length w) s" unfolding starts_with_def by (metis append_take_drop_id)
  then show "\<exists>post. s = w @ post" by blast
qed (auto simp: starts_with_def)

lemma ex_list_cases: "(\<exists>xs y. Q xs y) \<longleftrightarrow> (\<exists>y. Q [] y) \<or> (\<exists>x xs y. Q (x # xs) y)"
  by (metis neq_Nil_conv)

lemma word_search_iff:
  assumes "w \<noteq> []"
  shows "word_search w before s \<longleftrightarrow>
    (\<exists>pre post. s = pre @ w @ post \<and> (if pre = [] then \<not> before else \<not> word_char (last pre)) \<and>
       (post = [] \<or> \<not> word_char (hd post)))"
proof (induction s arbitrary: before)
  case Nil
  then show ?case using assms by simp
next
  case (Cons c cs)
  let ?found = "\<lambda>s before pre post. s = pre @ w @ post \<and> (if pre = [] then \<not> before else \<not> word_char (last pre)) \<and>
       (post = [] \<or> \<not> word_char (hd post))"
  have here: "(\<not> before \<and> starts_with w (c # cs) \<and>
        (case drop (length w) (c # cs) of [] \<Rightarrow> True | d # ds \<Rightarrow> \<not> word_char d)) \<longleftrightarrow> (\<exists>post. ?found (c # cs) before [] post)"
  proof -
    have cut: "(case drop (length w) s of [] \<Rightarrow> True | d # ds \<Rightarrow> \<not> word_char d) \<longleftrightarrow>
        drop (length w) s = [] \<or> \<not> word_char (hd (drop (length w) s))" for s
      by (cases "drop (length w) s") simp_all
    have "c # cs = w @ post \<Longrightarrow> drop (length w) (c # cs) = post" for post by (metis append_eq_conv_conj)
    then show ?thesis unfolding cut starts_with_iff by (metis append_Nil)
  qed
  have later: "word_search w (word_char c) cs \<longleftrightarrow> (\<exists>pre post. ?found (c # cs) before (c # pre) post)"
    unfolding Cons.IH by (intro ex_cong1) (auto split: if_splits)
  have "(\<exists>pre post. ?found (c # cs) before pre post) \<longleftrightarrow>
      (\<exists>post. ?found (c # cs) before [] post) \<or> (\<exists>x pre post. ?found (c # cs) before (x # pre) post)"
    by (rule ex_list_cases)
  also have "(\<exists>x pre post. ?found (c # cs) before (x # pre) post) \<longleftrightarrow> (\<exists>pre post. ?found (c # cs) before (c # pre) post)"
    by auto
  finally show ?case using here later by simp
qed

section \<open>Properties\<close>

text \<open>Adding a column is not idempotent: the statement that adds it is not recognised by the next run, so
  every run on a schema with a new field appends the same statements to the file again.\<close>

theorem evolution_repeats_columns:
  assumes "rbind schema (extract_fields sf) = Inr cols" "\<forall>c \<in> set cols. newline \<notin> set (alter_line c)"
    and "content = old @ [newline]" "sublist ''CREATE TABLE'' (map upper_char content)"
    and "alter = generate_alter_statements cols (ddl_fields content)" "alter \<noteq> []"
  shows "evolve sf schema (Some content) = (Some (content @ alter), 0) \<and>
    evolve sf schema (Some (content @ alter)) = (Some (content @ alter @ alter), 0)"
proof -
  have c: "content \<noteq> []" "ddl_fields (content @ alter) = ddl_fields content"
    using assms(2) ddl_fields_append [of old alter] ddl_fields_append [of old "[]"]
    by (simp_all add: assms(3,5) ddl_fields_alter ddl_fields_Nil)
  have "sublist ''CREATE TABLE'' (map upper_char (content @ alter))"
    using assms(4) by (simp add: sublist_append_leftI sublist_appendI sublist_append)
  then show ?thesis
    using assms(1,4,5,6) c by (simp add: evolve_def load_existing_ddl_def Let_def)
qed

text \<open>The DDL of a new file is stable: after the run that creates the table, further runs on the same
  schema leave the file as it is, as long as its fields have lower-case names that do not begin with one
  of the words the reader skips.\<close>

theorem created_table_stable:
  assumes "rbind schema (extract_fields sf) = Inr cols" "cols \<noteq> []" "\<forall>c \<in> set cols. column_ok c"
  shows "evolve sf schema None = (Some (generate_create_table cols), 0) \<and>
    evolve sf schema (Some (generate_create_table cols)) = (Some (generate_create_table cols), 0)"
proof -
  let ?ddl = "generate_create_table cols"
  let ?head = "''CREATE TABLE IF NOT EXISTS enriched_transactions (''"
  let ?tail = "'')'' @ [newline] @ ''USING iceberg'' @ [newline] @ ''PARTITIONED BY (days(event_time));'' @ [newline]"
  have ddl: "?ddl = ?head @ newline # join_with ('','' @ [newline]) (map column_line cols) @ newline # ?tail"
    by (simp add: generate_create_table_def)
  have "ddl_fields ?ddl = ddl_fields ?head @ ddl_fields (join_with ('','' @ [newline]) (map column_line cols) @ newline # ?tail)"
    unfolding ddl by (rule ddl_fields_append)
  then have "fst ` set cols \<subseteq> set (ddl_fields ?ddl)"
    using created_fields [OF assms(3,2), of ?tail] by (simp only: set_append) blast
  then have "generate_alter_statements cols (ddl_fields ?ddl) = []"
    by (auto simp: generate_alter_statements_def filter_empty_conv)
  moreover have "sublist ''CREATE TABLE'' (map upper_char ?ddl)"
  proof -
    have "map upper_char ''CREATE TABLE'' = ''CREATE TABLE''" by code_simp
    then have "map upper_char ?ddl = [] @ ''CREATE TABLE'' @ map upper_char (drop 12 ?ddl)"
      unfolding ddl by (simp add: upper_char_def code_def)
    then show ?thesis by (metis sublist_appendI)
  qed
  moreover have "?ddl \<noteq> []" by (simp add: generate_create_table_def)
  ultimately show ?thesis using assms(1) by (simp add: evolve_def load_existing_ddl_def Let_def)
qed

text \<open>The tables fit the sinks: the columns of the enriched table are the fields its sink writes, in their
  order, with timestamps, integers and floats where the sink makes them; the decisions table begins with
  the fields its sink writes, followed by three shadow columns that no sink fills.\<close>

theorem tables_fit_sinks:
  "map fst enriched_transactions_schema = enriched_fields \<and>
   columns_of_type Timestamp_us enriched_transactions_schema = timestamp_fields \<and>
   columns_of_type Int_32 enriched_transactions_schema = integer_fields \<and>
   columns_of_type Single enriched_transactions_schema = float_fields \<and>
   map fst fraud_decisions_schema =
     decision_fields @ [''shadow_determination'', ''shadow_fraud_score'', ''shadow_rule_triggers'']"
  by code_simp

text \<open>Initialisation can be repeated: on a catalog that answers for its tables and can create them it ends
  with exit code 0, all three tables exist, tables that were there keep their schema, and a second run
  changes nothing.\<close>

theorem init_repeatable:
  assumes "cw_connect w = None" "\<And>tables n. cw_load w tables n = (if has_key tables n then None else Some e)"
    and "says_missing e" "\<And>tables n. cw_create w tables n = None"
  shows "snd (iceberg_init w tables) = 0 \<and>
    (\<forall>n. map_of (fst (iceberg_init w tables)) n = (case map_of tables n of Some s \<Rightarrow> Some s | None \<Rightarrow> map_of init_plan n)) \<and>
    map_of (fst (iceberg_init w (fst (iceberg_init w tables)))) = map_of (fst (iceberg_init w tables))"
proof -
  have run: "iceberg_init w tables = create_all w init_plan tables" for tables
    using assms(1) by (simp add: iceberg_init_def)
  note spec = create_all_spec [of w e, OF assms(2,3,4), of init_plan]
  show ?thesis unfolding run using spec [of tables] spec [of "fst (create_all w init_plan tables)"]
    by (auto simp: fun_eq_iff split: option.split)
qed

text \<open>Every feature that the scoring service asks for is declared in the view it asks. The groups that are
  pushed are declared too, except for the two coordinates, which no view has.\<close>

theorem served_features_declared:
  "FEATURE_REFS = concat (map (\<lambda>v. map (\<lambda>f. (fv_name v, fst f)) (fv_schema v)) feature_views) \<and>
   map fst FEATURE_GROUPS = map fv_source feature_views \<and>
   map (\<lambda>g. map cs_field (snd g)) FEATURE_GROUPS =
     map2 (\<lambda>v extra. map fst (fv_schema v) @ extra) feature_views [[], [''geo_lat'', ''geo_lon''], []] \<and>
   map (\<lambda>v. map fst (fv_schema v)) feature_views = map snd FEATURE_FAMILIES"
  by code_simp

text \<open>A validation that passes vouches for the features that are served: each of them stands as a word in
  the file of the view it is asked from. What the Avro schema contains makes no difference.\<close>

theorem validated_views_name_features:
  assumes "validate_feast schema view_file = 0" "(v, f) \<in> set FEATURE_REFS"
  shows "\<exists>family pre post. v = family @ ''_features'' \<and> view_file family = Some (pre @ f @ post) \<and>
    (pre = [] \<or> \<not> word_char (last pre)) \<and> (post = [] \<or> \<not> word_char (hd post))"
proof -
  have refs: "FEATURE_REFS = concat (map (\<lambda>x. map (Pair (fst x @ ''_features'')) (snd x)) FEATURE_FAMILIES)"
    "list_all (\<lambda>x. list_all (\<lambda>f. f \<noteq> []) (snd x)) FEATURE_FAMILIES"
    by code_simp+
  obtain family expected where fam: "(family, expected) \<in> set FEATURE_FAMILIES" "v = family @ ''_features''" "f \<in> set expected"
    using assms(2) by (auto simp: refs(1))
  then have "f \<noteq> []" using refs(2) by (force simp: list_all_iff)
  have "check_feast_view (view_file family) expected = []"
    using assms(1) fam(1) by (force simp: validate_feast_def list_ex_iff split: sum.splits if_splits)
  then obtain content where "view_file family = Some content" "word_search f False content"
    using fam(3) by (auto simp: check_feast_view_def filter_empty_conv split: option.splits)
  then show ?thesis
    using fam(2) by (auto simp: word_search_iff [OF \<open>f \<noteq> []\<close>] split: if_splits)
qed

definition sample_view :: "string \<Rightarrow> string option" where
  "sample_view fam = map_option (\<lambda>fs. join_with '' '' fs) (map_of FEATURE_FAMILIES fam)"

lemma validated_views_name_features_witness:
  "\<exists>family pre post. ''geo_features'' = family @ ''_features'' \<and> sample_view family = Some (pre @ ''geo_city'' @ post) \<and>
    (pre = [] \<or> \<not> word_char (last pre)) \<and> (post = [] \<or> \<not> word_char (hd post))"
proof (rule validated_views_name_features [of "Inr PNone"])
  show "validate_feast (Inr PNone) sample_view = 0" by code_simp
  show "(''geo_features'', ''geo_city'') \<in> set FEATURE_REFS" by (simp add: FEATURE_REFS_def)
qed

definition sample_columns :: "sql_column list" where
  "sample_columns = [(''transaction_id'', ''STRING'', False), (''geo_lat'', ''FLOAT'', True)]"

definition sample_schema :: pyval where
  "sample_schema = PDict [(''fields'', PList
     [PDict [(''name'', PStr ''transaction_id''), (''type'', PStr ''string'')],
      PDict [(''name'', PStr ''geo_lat''), (''type'', PList [PStr ''null'', PStr ''float''])]])]"

lemma sample_schema_columns: "rbind (Inr sample_schema) (extract_fields (\<lambda>_. [])) = Inr sample_columns"
  by (simp add: sample_schema_def extract_fields_def extract_field_def sample_columns_def is_nullable_def dget_or_def dsub_def)

lemma created_table_stable_witness:
  "evolve (\<lambda>_. []) (Inr sample_schema) (Some (generate_create_table sample_columns)) = (Some (generate_create_table sample_columns), 0)"
  by (rule conjunct2 [OF created_table_stable [OF sample_schema_columns]], simp add: sample_columns_def, code_simp)

lemma evolution_repeats_columns_witness:
  "evolve (\<lambda>_. []) (Inr sample_schema)
     (Some (''CREATE TABLE t'' @ [newline] @ generate_alter_statements sample_columns (ddl_fields (''CREATE TABLE t'' @ [newline])))) =
   (Some (''CREATE TABLE t'' @ [newline] @ generate_alter_statements sample_columns (ddl_fields (''CREATE TABLE t'' @ [newline]))
      @ generate_alter_statements sample_columns (ddl_fields (''CREATE TABLE t'' @ [newline]))), 0)"
proof -
  have "\<forall>c \<in> set sample_columns. newline \<notin> set (alter_line c)"
    by (simp add: sample_columns_def alter_line_def newline_def)
  moreover have "sublist ''CREATE TABLE'' (map upper_char (''CREATE TABLE t'' @ [newline]))" by code_simp
  moreover have "generate_alter_statements sample_columns (ddl_fields (''CREATE TABLE t'' @ [newline])) \<noteq> []" by code_simp
  ultimately show ?thesis
    using evolution_repeats_columns [OF sample_schema_columns, of "''CREATE TABLE t'' @ [newline]" "''CREATE TABLE t''"] by simp
qed

definition plain_catalog :: catalog_world where
  "plain_catalog = \<lparr>cw_connect = None,
     cw_load = (\<lambda>tables n. if has_key tables n then None else Some (Exn OtherException ''Table does not exist'')),
     cw_create = (\<lambda>tables n. None)\<rparr>"

lemma init_repeatable_witness:
  "snd (iceberg_init plain_catalog [(''default.fraud_decisions'', [])]) = 0 \<and>
   map_of (fst (iceberg_init plain_catalog [(''default.fraud_decisions'', [])])) ''default.fraud_decisions'' = Some []"
proof -
  have "says_missing (Exn OtherException ''Table does not exist'')" by code_simp
  then show ?thesis
    using init_repeatable [of plain_catalog "Exn OtherException ''Table does not exist''" "[(''default.fraud_decisions'', [])]"]
    by (simp add: plain_catalog_def)
qed

end
