(* ===== verification/Generators.thy ===== *)
theory Generators
  imports Dash_Dlq
begin

text \<open>
  The generators of test traffic: \<open>scripts/generate_transactions.py\<close> (transactions for the ingestion
  service and the tail of the enriched topic) and \<open>scripts/generate_dlq.py\<close> (dead letters for the
  inspector). Every random draw is an argument: a choice is decided by a natural number, a uniform
  amount is a function of its bounds, and identifiers are texts. Printing is the list of the lines'
  contents; colours are left out.
\<close>

section \<open>Constant pools\<close>

definition PUBLIC_IPS :: "string list" where
  "PUBLIC_IPS =
     [''8.8.8.1'', ''1.1.1.1'', ''185.60.216.35'', ''151.101.1.1'', ''104.16.0.1'', ''13.32.0.1'',
      ''31.13.64.1'', ''142.250.80.1'', ''77.234.44.1'', ''5.9.0.1'']"

definition MERCHANTS :: "string list" where
  "MERCHANTS =
     [''merch-amazon'', ''merch-netflix'', ''merch-uber'', ''merch-airbnb'', ''merch-spotify'', ''merch-apple'',
      ''merch-google'', ''merch-steam'']"

definition CHANNELS :: "string list" where "CHANNELS = [''WEB'', ''MOBILE'', ''POS'', ''API'']"
definition CURRENCIES :: "string list" where "CURRENCIES = [''USD'', ''EUR'', ''GBP'', ''BRL'', ''MXN'']"
definition SCOPES :: "string list" where "SCOPES = [''read'', ''write'', ''read write'']"

text \<open>\<open>f"{i:04d}"\<close>.\<close>

definition pad4 :: "nat \<Rightarrow> string" where
  "pad4 n = (let t = show_nat n in replicate (4 - length t) CHR ''0'' @ t)"

definition ACCOUNTS :: "string list" where "ACCOUNTS = map (\<lambda>i. ''acc-'' @ pad4 i) [1..<11]"
definition API_KEYS :: "string list" where "API_KEYS = map (\<lambda>i. ''key-'' @ show_nat i) [1..<6]"
definition SUSPICIOUS_ACCOUNTS :: "string list" where "SUSPICIOUS_ACCOUNTS = [''acc-0001'', ''acc-0002'']"

definition HOSTING_IPS :: "string list" where
  "HOSTING_IPS = [''52.0.0.1'', ''13.64.0.1'', ''34.64.0.1'', ''45.33.0.1'', ''167.99.0.1'']"

definition SUSPICIOUS_PATTERNS :: "string list" where
  "SUSPICIOUS_PATTERNS = [''velocity_burst'', ''high_amount'', ''new_device_high_amount'', ''new_device_hosting'']"

text \<open>\<open>random.choice(xs)\<close>, decided by a natural number.\<close>

definition pick :: "'a list \<Rightarrow> nat \<Rightarrow> 'a" where
  "pick xs k = xs ! (k mod length xs)"

section \<open>Card numbers\<close>

text \<open>The loop of \<open>_luhn_complete\<close> over the reversed digits.\<close>

fun complete_total :: "nat \<Rightarrow> int list \<Rightarrow> int" where
  "complete_total i [] = 0"
| "complete_total i (d # ds) =
     (if i mod 2 = 0 then (let m = d * 2 in if m > 9 then m - 9 else m) else d) + complete_total (Suc i) ds"

definition luhn_complete :: "string \<Rightarrow> string result" where
  "luhn_complete partial =
     rbind (rmap (\<lambda>d. py_int (PStr [d])) partial) (\<lambda>digits.
       let total = complete_total 0 (rev digits);
           check = (10 - total mod 10) mod 10
       in Inr (partial @ show_int check))"

section \<open>Transactions\<close>

record draws =
  dr_uuid :: string
  dr_key_uuid :: string
  dr_now_ms :: int
  dr_choice :: "string \<Rightarrow> nat"
  dr_digit :: "nat \<Rightarrow> nat"
  dr_uniform :: "rat \<Rightarrow> rat \<Rightarrow> rat"

text \<open>\<open>dr_uniform d a b\<close> is the float \<open>round(random.uniform(a, b), 2)\<close>.\<close>

definition partial_number :: "draws \<Rightarrow> string" where
  "partial_number d =
     pick [''4'', ''5''] (dr_choice d ''prefix'') @ concat (map (\<lambda>k. show_nat (dr_digit d k mod 10)) [0..<14])"

definition make_payload :: "draws \<Rightarrow> pydict result" where
  "make_payload d =
     rbind (luhn_complete (partial_number d)) (\<lambda>card_number. Inr
       [(''transaction_id'', PStr (dr_uuid d)),
        (''account_id'', PStr (pick ACCOUNTS (dr_choice d ''account''))),
        (''merchant_id'', PStr (pick MERCHANTS (dr_choice d ''merchant''))),
        (''amount'', PFloat (Fin (dr_uniform d 5 300))),
        (''currency'', PStr (pick CURRENCIES (dr_choice d ''currency''))),
        (''event_time'', PInt (dr_now_ms d)),
        (''channel'', PStr (pick CHANNELS (dr_choice d ''channel''))),
        (''card_number'', PStr card_number),
        (''caller_ip'', PStr (pick PUBLIC_IPS (dr_choice d ''ip''))),
        (''api_key_id'', PStr (pick API_KEYS (dr_choice d ''key''))),
        (''oauth_scope'', PStr (pick SCOPES (dr_choice d ''scope''))),
        (''geo_lat'', PNone),
        (''geo_lon'', PNone)])"

definition make_suspicious_payload :: "draws \<Rightarrow> string \<Rightarrow> pydict result" where
  "make_suspicious_payload d pattern =
     rbind (make_payload d) (\<lambda>base. Inr
       (if pattern = ''velocity_burst''
        then dset base ''account_id'' (PStr (pick SUSPICIOUS_ACCOUNTS (dr_choice d ''suspicious account'')))
        else if pattern = ''high_amount''
        then dset base ''amount'' (PFloat (Fin (dr_uniform d 800 2000)))
        else if pattern = ''new_device_high_amount''
        then dset (dset base ''api_key_id'' (PStr (dr_key_uuid d))) ''amount'' (PFloat (Fin (dr_uniform d 501 1500)))
        else if pattern = ''new_device_hosting''
        then dset (dset base ''api_key_id'' (PStr (dr_key_uuid d))) ''caller_ip''
               (PStr (pick HOSTING_IPS (dr_choice d ''hosting ip'')))
        else base))"

section \<open>The loop of the producer\<close>

text \<open>
  One turn: \<open>None\<close> draws a plain transaction, \<open>Some k\<close> a suspicious one of the \<open>k\<close>-th pattern
  (\<open>random.random() < suspicious_rate\<close>). An exception while the payload is made ends the loop; one of
  \<open>publish\<close> is printed and counted as not produced.
\<close>

definition payload_of :: "draws \<times> nat option \<Rightarrow> pydict result" where
  "payload_of t = (case t of (d, None) \<Rightarrow> make_payload d
     | (d, Some k) \<Rightarrow> make_suspicious_payload d (pick SUSPICIOUS_PATTERNS k))"

fun produce_loop ::
  "ingest_env \<Rightarrow> masking_config \<Rightarrow> string \<Rightarrow> (draws \<times> nat option) list \<Rightarrow> producer_state \<Rightarrow> nat \<Rightarrow> nat \<Rightarrow>
     producer_state \<times> nat \<times> nat \<times> exn option" where
  "produce_loop env cfg ch [] s ok i = (s, ok, i, None)"
| "produce_loop env cfg ch (t # ts) s ok i =
     (case payload_of t of
        Inl e \<Rightarrow> (s, ok, i, Some e)
      | Inr payload \<Rightarrow>
          (case ProducerService_publish env cfg ch payload s of
             (s', Inr _) \<Rightarrow> produce_loop env cfg ch ts s' (ok + 1) (i + 1)
           | (s', Inl _) \<Rightarrow> produce_loop env cfg ch ts s' ok (i + 1)))"

section \<open>The tail of the enriched topic\<close>

datatype tail_poll = Nothing_polled | Poll_error string bool | Polled "8 word list"

datatype tail_line =
    Consumer_error_line string
  | Not_json_line "8 word list"
  | Enriched_line pyval pyval pyval "(pyval \<times> pyval) option" pyval pyval

definition enriched_line :: "pydict \<Rightarrow> tail_line" where
  "enriched_line r =
     Enriched_line (dget r ''transaction_id'') (dget r ''account_id'') (dget r ''vel_count_1m'')
       (if truthy (dget r ''geo_country'') then Some (dget r ''geo_country'', dget r ''geo_city'') else None)
       (dget r ''device_txn_count'') (dget r ''enrichment_latency_ms'')"

text \<open>A record that is JSON but no object ends the thread with an AttributeError (\<open>Some\<close>).\<close>

fun consume_enriched ::
  "(8 word list \<Rightarrow> pyval result) \<Rightarrow> tail_poll list \<Rightarrow> tail_line list \<times> exn option" where
  "consume_enriched json [] = ([], None)"
| "consume_enriched json (Nothing_polled # ps) = consume_enriched json ps"
| "consume_enriched json (Poll_error msg partition_eof # ps) =
     (let (ls, e) = consume_enriched json ps
      in (if partition_eof then ls else Consumer_error_line msg # ls, e))"
| "consume_enriched json (Polled b # ps) =
     (case json b of
        Inl _ \<Rightarrow> (let (ls, e) = consume_enriched json ps in (Not_json_line b # ls, e))
      | Inr (PDict r) \<Rightarrow> (let (ls, e) = consume_enriched json ps in (enriched_line r # ls, e))
      | Inr _ \<Rightarrow> ([], Some (Exn AttributeError ''get'')))"

section \<open>Dead letters\<close>

definition SOURCE_TOPICS :: "string list" where "SOURCE_TOPICS = [''txn.api'', ''txn.enriched'']"

definition ERRORS :: "(string \<times> string) list" where
  "ERRORS =
     [(''ValidationError'', ''Missing required field: amount''),
      (''SchemaError'', ''Avro deserialization failed: unexpected end of data''),
      (''BrokerError'', ''KafkaError{code=REQUEST_TIMED_OUT,val=7}''),
      (''ProcessingError'', ''NullPointerException in enrichment stage''),
      (''TimeoutError'', ''Consumer poll timeout after 30000ms'')]"

text \<open>\<open>random.randint(a, b)\<close>, decided by a natural number.\<close>

definition rand_between :: "nat \<Rightarrow> nat \<Rightarrow> nat \<Rightarrow> nat" where
  "rand_between a b k = a + k mod (b - a + 1)"

definition dlq_payload :: "draws \<Rightarrow> pydict" where
  "dlq_payload d =
     [(''transaction_id'', PStr (dr_uuid d)),
      (''amount'', PFloat (Fin (dr_uniform d 1 5000))),
      (''account_id'', PStr (''acc-'' @ pad4 (rand_between 1 999 (dr_choice d ''account'')))),
      (''card_number'', PStr (''4'' @ show_nat (rand_between 100000000000000 999999999999999 (dr_choice d ''card'')))),
      (''ip_address'', PStr (join_with ''.''
         [show_nat (rand_between 1 255 (dr_digit d 0)), show_nat (rand_between 0 255 (dr_digit d 1)),
          show_nat (rand_between 0 255 (dr_digit d 2)), show_nat (rand_between 1 254 (dr_digit d 3))]))]"

definition dlq_message :: "(pydict \<Rightarrow> string) \<Rightarrow> draws \<Rightarrow> pydict" where
  "dlq_message dumps d =
     (let (error_type, error_message) = pick ERRORS (dr_choice d ''error'')
      in [(''dlq_id'', PStr (dr_key_uuid d)),
          (''source_topic'', PStr (pick SOURCE_TOPICS (dr_choice d ''topic''))),
          (''original_payload'', PStr (dumps (dlq_payload d))),
          (''error_type'', PStr error_type),
          (''error_message'', PStr error_message),
          (''failed_at'', PInt (dr_now_ms d)),
          (''producer_host'', PStr (''producer-'' @ show_nat (rand_between 1 3 (dr_choice d ''host'')))),
          (''masking_applied'', PBool True)])"

definition produce_dead_letters :: "(pydict \<Rightarrow> string) \<Rightarrow> (draws \<times> string) list \<Rightarrow> message list" where
  "produce_dead_letters dumps ds =
     map (\<lambda>(d, key). \<lparr>msg_topic = ''txn.api.dlq'', msg_key = Some (utf8_encode key),
                       msg_value = utf8_encode (dumps (dlq_message dumps d))\<rparr>) ds"

section \<open>Lemmas\<close>

lemma pick_in [intro]: "xs \<noteq> [] \<Longrightarrow> pick xs k \<in> set xs"
  by (simp add: pick_def)

lemma pick_all: "list_all P xs \<Longrightarrow> xs \<noteq> [] \<Longrightarrow> P (pick xs k)"
  using pick_in [of xs k] by (simp add: list_all_iff)

lemma complete_total_eq: "complete_total i ds = luhn_sum (Suc i) ds"
  by (induction i ds rule: complete_total.induct) (simp_all add: luhn_digit_def Let_def mod_Suc)

lemma rmap_digits:
  "ascii_digits s \<Longrightarrow> rmap (\<lambda>d. py_int (PStr [d])) s = Inr (digit_values s)"
  by (induction s) (simp_all add: ascii_digits_def digit_values_def py_int_digit del: py_int.simps)

lemma show_one_digit: "n < 10 \<Longrightarrow> show_nat n = [char_of (48 + n)]"
  by (subst show_nat.simps) simp

lemma digit_char: "n < 10 \<Longrightarrow> dec_digit (char_of (48 + n)) \<and> digit_val (char_of (48 + n)) = n"
  by (simp add: dec_digit_def digit_val_def code_digit)

text \<open>Appending a digit puts it at position 0, where it counts once.\<close>

lemma luhn_sum_snoc:
  "luhn_sum 0 (digit_values (rev (p @ [c]))) = int (digit_val c) + complete_total 0 (rev (digit_values p))"
  by (simp add: digit_values_def complete_total_eq luhn_digit_def rev_map)

lemma luhn_complete_digit:
  assumes "ascii_digits p"
  shows "\<exists>c. dec_digit c \<and> luhn_complete p = Inr (p @ [c]) \<and>
    luhn_sum 0 (digit_values (rev (p @ [c]))) mod 10 = 0"
proof -
  define t where "t = complete_total 0 (rev (digit_values p))"
  define n where "n = nat ((10 - t mod 10) mod 10)"
  have n: "n < 10" "int n = (10 - t mod 10) mod 10" by (simp_all add: n_def nat_less_iff)
  have "luhn_complete p = Inr (p @ show_int (int n))"
    using assms by (simp add: luhn_complete_def rmap_digits Let_def n t_def del: py_int.simps)
  moreover have "show_int (int n) = [char_of (48 + n)]" using n by (simp add: show_int_def show_one_digit)
  moreover have "(int n + t) mod 10 = 0" unfolding n(2) by presburger
  ultimately show ?thesis
    using digit_char [OF n(1)] unfolding t_def
    by (intro exI [of _ "char_of (48 + n)"]) (simp add: luhn_sum_snoc del: rev_append)
qed

lemma same_residue:
  fixes a b t :: int
  assumes "(a + t) mod 10 = 0" "(b + t) mod 10 = 0" "0 \<le> a" "a \<le> 9" "0 \<le> b" "b \<le> 9"
  shows "a = b"
proof -
  have "10 dvd (a + t) - (b + t)" using assms by (intro dvd_diff mod_0_imp_dvd)
  then obtain k where "a - b = 10 * k" by (auto elim: dvdE)
  then show ?thesis using assms(3-6) by presburger
qed

lemma partial_number_ok: "ascii_digits (partial_number d) \<and> length (partial_number d) = 15"
proof -
  have "list_all (\<lambda>p. ascii_digits p \<and> length p = 1) [''4'', ''5'']" by code_simp
  then have "ascii_digits (pick [''4'', ''5''] k) \<and> length (pick [''4'', ''5''] k) = 1" for k
    by (rule pick_all) simp
  then show ?thesis
    by (simp add: partial_number_def ascii_digits_def show_one_digit digit_char upt_rec)
qed

text \<open>What the service needs of a payload.\<close>

definition plain_text :: "string \<Rightarrow> bool" where
  "plain_text s \<longleftrightarrow> s \<noteq> [] \<and> \<not> pii_pattern s"

definition text_field :: "(string \<Rightarrow> bool) \<Rightarrow> pydict \<Rightarrow> string \<Rightarrow> bool" where
  "text_field P raw k \<longleftrightarrow> (\<exists>s. map_of raw k = Some (PStr s) \<and> P s)"

definition sound_payload :: "pydict \<Rightarrow> bool" where
  "sound_payload raw \<longleftrightarrow>
     list_all (text_field plain_text raw)
       [''transaction_id'', ''account_id'', ''merchant_id'', ''currency'', ''api_key_id'', ''oauth_scope''] \<and>
     text_field valid_pan raw ''card_number'' \<and>
     text_field (\<lambda>ip. ip \<in> set (PUBLIC_IPS @ HOSTING_IPS)) raw ''caller_ip'' \<and>
     (\<exists>x. map_of raw ''amount'' = Some (PFloat (Fin x)) \<and> 0 < x \<and> x \<le> 2000) \<and>
     (\<exists>now. map_of raw ''event_time'' = Some (PInt now)) \<and>
     map_of raw ''geo_lat'' = Some PNone \<and> map_of raw ''geo_lon'' = Some PNone"

lemma text_field_dset [dict_simps]:
  "text_field P (dset raw k v) k' \<longleftrightarrow> (if k' = k then (\<exists>s. v = PStr s \<and> P s) else text_field P raw k')"
  by (simp add: text_field_def map_of_dset)

lemma text_field_Cons [simp]:
  "text_field P ((k, v) # raw) k' \<longleftrightarrow> (if k' = k then (\<exists>s. v = PStr s \<and> P s) else text_field P raw k')"
  by (auto simp: text_field_def)

lemma pools_plain:
  "list_all plain_text (ACCOUNTS @ SUSPICIOUS_ACCOUNTS @ MERCHANTS @ CURRENCIES @ API_KEYS @ SCOPES)"
  by code_simp

lemma pools_nonempty [simp]:
  "ACCOUNTS \<noteq> []" "API_KEYS \<noteq> []" "SUSPICIOUS_ACCOUNTS \<noteq> []" "MERCHANTS \<noteq> []" "CURRENCIES \<noteq> []" "SCOPES \<noteq> []"
  "PUBLIC_IPS \<noteq> []" "HOSTING_IPS \<noteq> []"
  by code_simp+

lemma pool_ips_truncate:
  "ip \<in> set (PUBLIC_IPS @ HOSTING_IPS) \<Longrightarrow>
     \<exists>net. truncate_ip MaskingConfig_default (PStr ip) = Inr net \<and> \<not> pii_pattern net"
proof -
  have "list_all (\<lambda>ip. case truncate_ip MaskingConfig_default (PStr ip) of Inl _ \<Rightarrow> False | Inr net \<Rightarrow> \<not> pii_pattern net)
      (PUBLIC_IPS @ HOSTING_IPS)" by code_simp
  moreover assume "ip \<in> set (PUBLIC_IPS @ HOSTING_IPS)"
  ultimately show ?thesis
    unfolding list_all_iff by (drule_tac bspec) (auto split: sum.splits)
qed

lemma strip_separators_digits: "ascii_digits s \<Longrightarrow> strip_separators s = s"
  unfolding strip_separators_def ascii_digits_def list_all_iff filter_id_conv
  using code_not_space by (simp add: isdigit_char_def)

lemma mask_valid_card:
  assumes "map_of raw ''card_number'' = Some (PStr pan)" "valid_pan pan"
  shows "\<exists>m. mask_card cfg raw = Inr m \<and> length (bin6 m) = 6 \<and> length (last4 m) = 4"
proof -
  have s: "strip_separators pan = pan" using assms by (simp add: valid_pan_def strip_separators_digits)
  then have "extract_pan_parts pan = Inr (take 6 pan, drop (length pan - 4) pan)"
    using assms by (simp add: extract_pan_parts_Inr)
  then show ?thesis using assms s
    by (auto simp: mask_card_def dsub_def RawPAN_init_def RawPAN_mask_def valid_pan_def)
qed

lemma encode_small_amount: "0 < x \<Longrightarrow> x \<le> 2000 \<Longrightarrow> \<exists>bs. encode_amount (PFloat (Fin x)) = Inr bs"
  using encode_amount_int [of "PFloat (Fin x)" "Fin x"] to_double_small [of "x * 10000"] by fastforce

lemma sound_payload_builds:
  assumes "sound_payload raw" "\<not> pii_pattern ch"
  shows "\<exists>event. TransactionEventBuilder_build env MaskingConfig_default ch raw = Inr event \<and>
    assert_no_pii_leak event = Inr ()"
proof -
  obtain tid acc mer x cur now pan ip key scope where raw:
    "map_of raw ''transaction_id'' = Some (PStr tid)" "map_of raw ''account_id'' = Some (PStr acc)"
    "map_of raw ''merchant_id'' = Some (PStr mer)" "map_of raw ''amount'' = Some (PFloat (Fin x))"
    "map_of raw ''currency'' = Some (PStr cur)" "map_of raw ''event_time'' = Some (PInt now)"
    "map_of raw ''card_number'' = Some (PStr pan)" "map_of raw ''caller_ip'' = Some (PStr ip)"
    "map_of raw ''api_key_id'' = Some (PStr key)" "map_of raw ''oauth_scope'' = Some (PStr scope)"
    "map_of raw ''geo_lat'' = Some PNone" "map_of raw ''geo_lon'' = Some PNone"
    and plain: "plain_text tid" "plain_text acc" "plain_text mer" "plain_text cur" "plain_text key" "plain_text scope"
    and card: "valid_pan pan" and ip: "ip \<in> set (PUBLIC_IPS @ HOSTING_IPS)" and x: "0 < x" "x \<le> 2000"
    using assms(1) unfolding sound_payload_def text_field_def list.pred_inject by (elim conjE exE) (rule that)
  obtain m where m: "mask_card MaskingConfig_default raw = Inr m" "length (bin6 m) = 6" "length (last4 m) = 4"
    using mask_valid_card [OF raw(7) card] by blast
  obtain net where net: "truncate_ip MaskingConfig_default (PStr ip) = Inr net" "\<not> pii_pattern net"
    using pool_ips_truncate [OF ip] by blast
  then have "mask_ip MaskingConfig_default raw = Inr net" by (simp add: mask_ip_def dsub_def raw)
  moreover obtain bs where "encode_amount (PFloat (Fin x)) = Inr bs" using encode_small_amount [OF x] by blast
  ultimately have b: "TransactionEventBuilder_build env MaskingConfig_default ch raw = Inr
    [(''transaction_id'', PStr tid), (''account_id'', PStr acc), (''merchant_id'', PStr mer), (''amount'', PBytes bs),
     (''currency'', PStr cur), (''event_time'', PInt now), (''processing_time'', PInt (now_ms env)),
     (''channel'', PStr ch), (''card_bin'', PStr (bin6 m)), (''card_last4'', PStr (last4 m)),
     (''caller_ip_subnet'', PStr net), (''api_key_id'', PStr key), (''oauth_scope'', PStr scope),
     (''geo_lat'', PNone), (''geo_lon'', PNone), (''masking_lib_version'', PStr ''1.0.0''),
     (''schema_version'', PStr ''1'')]"
    using m raw plain(1)
    by (simp add: TransactionEventBuilder_build_def dsub_def dget_def py_or_def Let_def has_key_def plain_text_def)
  have "\<not> pii_pattern (bin6 m)" "\<not> pii_pattern (last4 m)" using m by (simp_all add: pii_pattern_def)
  then show ?thesis
    unfolding b using plain net(2) assms(2)
    by (simp add: assert_no_pii_leak_def has_key_def plain_text_def pii_pattern_def)
qed

section \<open>Properties\<close>

text \<open>The documented behaviour of the draws: identifiers are UUID texts, a uniform draw stays in its bounds.\<close>

definition lawful_draws :: "draws \<Rightarrow> bool" where
  "lawful_draws d \<longleftrightarrow>
     CHR ''-'' \<in> set (dr_uuid d) \<and> CHR ''-'' \<in> set (dr_key_uuid d) \<and>
     (\<forall>a b. a < b \<longrightarrow> a \<le> dr_uniform d a b \<and> dr_uniform d a b \<le> b)"

lemma hyphen_plain: "CHR ''-'' \<in> set s \<Longrightarrow> plain_text s"
  by (auto simp: plain_text_def pii_pattern_def list_all_iff dec_digit_def code_def intro!: bexI [of _ "CHR ''-''"])

lemma lawful_amount:
  assumes "lawful_draws d" "0 < a" "a < b" "b \<le> 2000"
  shows "0 < dr_uniform d a b \<and> dr_uniform d a b \<le> 2000"
  using assms by (force simp: lawful_draws_def)

lemma made_payload_sound:
  assumes "lawful_draws d"
  shows "\<exists>raw. make_payload d = Inr raw \<and> sound_payload raw"
proof -
  obtain c where c: "dec_digit c" "luhn_complete (partial_number d) = Inr (partial_number d @ [c])"
    "luhn_sum 0 (digit_values (rev (partial_number d @ [c]))) mod 10 = 0"
    using luhn_complete_digit [OF conjunct1 [OF partial_number_ok [of d]]] by (elim conjE exE) (rule that)
  then have "valid_pan (partial_number d @ [c])"
    using partial_number_ok [of d] by (auto simp: valid_pan_def ascii_digits_def simp del: rev_append)
  moreover have "plain_text (dr_uuid d)" using assms by (simp add: lawful_draws_def hyphen_plain)
  moreover have "plain_text (pick ACCOUNTS k)" "plain_text (pick MERCHANTS k)" "plain_text (pick CURRENCIES k)"
    "plain_text (pick API_KEYS k)" "plain_text (pick SCOPES k)" for k
    using pools_plain by (auto intro: pick_all)
  moreover have "pick PUBLIC_IPS k \<in> set PUBLIC_IPS" for k by (rule pick_in) simp
  ultimately show ?thesis
    using c(2) lawful_amount [OF assms, of 5 300] by (simp add: make_payload_def sound_payload_def)
qed

lemma suspicious_payload_sound:
  assumes "lawful_draws d"
  shows "\<exists>raw. make_suspicious_payload d pat = Inr raw \<and> sound_payload raw"
proof -
  obtain base where base: "make_payload d = Inr base" "sound_payload base"
    using made_payload_sound [OF assms] by blast
  have key: "plain_text (dr_key_uuid d)" using assms by (simp add: lawful_draws_def hyphen_plain)
  have acc: "plain_text (pick SUSPICIOUS_ACCOUNTS k)" for k
    using pools_plain by (auto intro: pick_all)
  have ip: "pick HOSTING_IPS k \<in> set HOSTING_IPS" for k by (rule pick_in) simp
  note x = lawful_amount [OF assms, of 800 2000] lawful_amount [OF assms, of 501 1500]
  show ?thesis
    using base key acc ip x
    by (simp add: make_suspicious_payload_def sound_payload_def dict_simps)
qed

text \<open>The check digit the generator appends is the right one, and the only one: the completed number of
  14 or 15 digits passes the Luhn check of the masking library, which no other last digit does.\<close>

theorem luhn_complete_unique:
  assumes "ascii_digits p" "length p = 14 \<or> length p = 15"
  shows "\<exists>n. luhn_complete p = Inr n \<and> valid_pan n \<and> (\<forall>c. valid_pan (p @ [c]) \<longleftrightarrow> p @ [c] = n)"
proof -
  obtain c where c: "dec_digit c" "luhn_complete p = Inr (p @ [c])"
    "luhn_sum 0 (digit_values (rev (p @ [c]))) mod 10 = 0"
    using luhn_complete_digit [OF assms(1)] by (elim conjE exE) (rule that)
  have v: "valid_pan (p @ [c])" using assms c by (auto simp: valid_pan_def ascii_digits_def simp del: rev_append)
  have "e = c" if "valid_pan (p @ [e])" for e
  proof -
    have e: "dec_digit e" "luhn_sum 0 (digit_values (rev (p @ [e]))) mod 10 = 0"
      using that by (simp_all add: valid_pan_def ascii_digits_def)
    have "int (digit_val e) = int (digit_val c)"
      by (rule same_residue [OF e(2) [unfolded luhn_sum_snoc] c(3) [unfolded luhn_sum_snoc]])
        (use digit_val_bounds e(1) c(1) in auto)
    then have "digit_val e = digit_val c" by simp
    then show "e = c" using digit_val_eq e(1) c(1) by blast
  qed
  with c(2) v show ?thesis by blast
qed

lemma luhn_complete_unique_witness:
  "\<exists>n. luhn_complete ''411111111111111'' = Inr n \<and> valid_pan n"
  using luhn_complete_unique [of "''411111111111111''"] by (auto simp: ascii_digits_def dec_digit_def code_def)

lemma one_publish:
  assumes "sound_payload raw" "p_started s" "\<not> pii_pattern ch" "\<And>evs e. produce_event env evs e = None"
    "list_all (\<lambda>r. r = None) (poll_reports env)" "poll_error env = None"
  shows "\<exists>s' r. ProducerService_publish env MaskingConfig_default ch raw s = (s', Inr r) \<and> p_started s' \<and>
    length (p_events s') = Suc (length (p_events s)) \<and> p_dlq s' = p_dlq s"
proof -
  obtain event where ev: "TransactionEventBuilder_build env MaskingConfig_default ch raw = Inr event"
    "assert_no_pii_leak event = Inr ()"
    using sound_payload_builds [OF assms(1,3)] by blast
  have "filter (\<lambda>r. r \<noteq> None) (poll_reports env) = []" using assms(5) by (simp add: filter_empty_conv list_all_iff)
  then show ?thesis
    using assms ev reports_dlq [of env "poll_reports env" "s\<lparr>p_events := p_events s @ [event]\<rparr>"]
    by (auto simp: ProducerService_publish_def Let_def reports_frame)
qed

text \<open>C31: Every transaction of the generator reaches the topic: whatever is drawn, and for plain and
  suspicious transactions alike, the payload passes the masking and the leak guard of the ingestion
  service, so with a started service and a broker that accepts and delivers (no failed delivery is reported
  and no poll raises), all of them are counted as produced,
  each one adds one event, and nothing is dead-lettered.\<close>

theorem generated_transactions_accepted:
  assumes "list_all (\<lambda>t. lawful_draws (fst t)) ts" "p_started s" "\<not> pii_pattern ch"
    "\<And>evs e. produce_event env evs e = None" "list_all (\<lambda>r. r = None) (poll_reports env)" "poll_error env = None"
  shows "\<exists>s'. produce_loop env MaskingConfig_default ch ts s ok i = (s', ok + length ts, i + length ts, None) \<and>
    length (p_events s') = length (p_events s) + length ts \<and> p_dlq s' = p_dlq s"
  using assms(1,2)
proof (induction ts arbitrary: s ok i)
  case (Cons t ts)
  obtain d k where t: "t = (d, k)" by (cases t)
  have "\<exists>raw. payload_of t = Inr raw \<and> sound_payload raw"
    using Cons.prems made_payload_sound [of d] suspicious_payload_sound [of d]
    by (auto simp: t payload_of_def split: option.splits)
  then obtain raw where raw: "payload_of t = Inr raw" "sound_payload raw" by blast
  obtain s1 r where p: "ProducerService_publish env MaskingConfig_default ch raw s = (s1, Inr r)" "p_started s1"
    "length (p_events s1) = Suc (length (p_events s))" "p_dlq s1 = p_dlq s"
    using one_publish [OF raw(2) Cons.prems(2) assms(3-6)] by blast
  show ?case using Cons.IH [OF _ p(2), of "ok + 1" "i + 1"] Cons.prems raw p by auto
qed simp

definition sample_draws :: draws where
  "sample_draws = \<lparr>dr_uuid = ''u-1'', dr_key_uuid = ''u-2'', dr_now_ms = 1000, dr_choice = (\<lambda>_. 3), dr_digit = (\<lambda>k. k),
     dr_uniform = (\<lambda>a b. a)\<rparr>"

lemma generated_transactions_accepted_witness:
  "\<exists>s'. produce_loop quiet_env MaskingConfig_default ''API'' [(sample_draws, None), (sample_draws, Some 1)]
      fresh_producer 0 0 = (s', 2, 2, None) \<and> length (p_events s') = 2"
  using generated_transactions_accepted [of "[(sample_draws, None), (sample_draws, Some 1)]" fresh_producer "''API''"
    quiet_env 0 0]
  by (auto simp: lawful_draws_def sample_draws_def fresh_producer_def quiet_env_def pii_pattern_def)

text \<open>Over HTTP no generated transaction would be accepted: it names its channel, which the handler refuses.\<close>

lemma generated_payload_refused_by_http:
  assumes "make_payload d = Inr raw" "json (rd n) = Inr (PDict raw)" "py_int (PStr l) = Inr n"
  shows "snd (do_POST env cfg ch json ''/v1/transactions'' (Some l) rd s) =
    respond_with env (400, [(''error'', PStr ''ValidationError''),
               (''fields'', PList [PStr ''channel is not an accepted request field''])])"
proof -
  have "has_key raw ''channel''" using assms(1) by (auto simp: make_payload_def result_simps has_key_def)
  then show ?thesis using assms by (simp add: do_POST_def contains_channel_def validation_response_def del: py_int.simps)
qed

text \<open>A generated dead letter has the keys of the one the service writes, in the same order.\<close>

lemma generated_dead_letter_keys:
  "map fst (dlq_message dumps d) = map fst (dlq_envelope env sent src p t m b)"
  by (simp add: dlq_message_def dlq_envelope_def split: prod.splits)

text \<open>It says that masking was applied although its payload holds the whole card number.\<close>

lemma generated_dead_letter_unmasked:
  "dget (dlq_message dumps d) ''masking_applied'' = PBool True \<and>
   dget (dlq_message dumps d) ''original_payload'' = PStr (dumps (dlq_payload d)) \<and>
   (\<exists>n. dget (dlq_payload d) ''card_number'' = PStr (''4'' @ show_nat n) \<and> 100000000000000 \<le> n \<and> n \<le> 999999999999999)"
proof -
  have "100000000000000 \<le> rand_between 100000000000000 999999999999999 k \<and>
    rand_between 100000000000000 999999999999999 k \<le> 999999999999999" for k
    using mod_less_divisor [of 900000000000000 k] by (simp add: rand_between_def)
  then show ?thesis by (auto simp: dlq_message_def dlq_payload_def dget_def split: prod.splits)
qed

text \<open>The tail prints a line for each record and each error up to the first record that is no object.\<close>

lemma consume_enriched_prefix:
  "consume_enriched json (map Polled bs) = (ls, None) \<Longrightarrow> length ls = length bs"
  by (induction bs arbitrary: ls) (auto simp: Let_def split: sum.splits pyval.splits prod.splits)

end
