(* ===== verification/Simulation.thy ===== *)
theory Simulation
  imports Generators Schema_Tools
begin

text \<open>
  \<open>scripts/simulate_persistence.py\<close>: synthetic enriched transactions and decisions, the two sinks they
  are pushed through (the classes used where PyFlink is installed), the count asked of Trino and the exit
  code. The random draws, the clock of the sinks and the lines Trino prints are arguments.
\<close>

record sim_draws =
  sd_hex :: string
  sd_choice :: "string \<Rightarrow> nat"
  sd_uniform :: "string \<Rightarrow> rat \<Rightarrow> rat \<Rightarrow> rat"
  sd_fraud :: bool
  sd_sample :: "string list"

text \<open>
  \<open>sd_uniform d k a b\<close> is the float of the rounded uniform draw for the field \<open>k\<close>, \<open>sd_fraud\<close> is
  \<open>random.random() < 0.05\<close> and \<open>sd_sample\<close> the sample of the rules.
\<close>

definition SIM_CURRENCIES :: "string list" where "SIM_CURRENCIES = [''USD'', ''EUR'', ''GBP'', ''BRL'']"
definition SIM_CHANNELS :: "string list" where "SIM_CHANNELS = [''web'', ''mobile'', ''pos'', ''api'']"
definition GEO_COUNTRIES :: "string list" where "GEO_COUNTRIES = [''US'', ''BR'', ''DE'', ''GB'', ''FR'']"
definition GEO_CITIES :: "string list" where
  "GEO_CITIES = [''New York'', ''Sao Paulo'', ''Berlin'', ''London'', ''Paris'']"

definition DAY_MS :: nat where "DAY_MS = 86400000"

definition sim_between :: "sim_draws \<Rightarrow> string \<Rightarrow> nat \<Rightarrow> nat \<Rightarrow> nat" where
  "sim_between d k a b = rand_between a b (sd_choice d k)"

definition sim_event_time :: "int \<Rightarrow> sim_draws \<Rightarrow> int" where
  "sim_event_time now d = now - int (sim_between d ''event_time'' 0 DAY_MS)"

definition sim_enrichment_time :: "int \<Rightarrow> sim_draws \<Rightarrow> int" where
  "sim_enrichment_time now d = sim_event_time now d + int (sim_between d ''enrichment_time'' 10 200)"

definition sim_fields :: "int \<Rightarrow> sim_draws \<Rightarrow> nat \<Rightarrow> pyval \<Rightarrow> pyval \<Rightarrow> pyval \<Rightarrow> pyval \<Rightarrow> pyval \<Rightarrow> pydict" where
  "sim_fields now d i amount a1 a5 ah ad =
     [(''transaction_id'', PStr (''txn-sim-'' @ pad4 i @ ''-'' @ sd_hex d)),
      (''account_id'', PStr (''acct-'' @ pad4 (i mod 20))),
      (''merchant_id'', PStr (''merch-'' @ pad4 (i mod 10))),
      (''amount'', amount),
      (''currency'', PStr (pick SIM_CURRENCIES (sd_choice d ''currency''))),
      (''event_time'', PInt (sim_event_time now d)),
      (''processing_time'', PInt (sim_event_time now d + 5)),
      (''channel'', PStr (pick SIM_CHANNELS (sd_choice d ''channel''))),
      (''card_bin'', PStr (show_nat (sim_between d ''card_bin'' 400000 499999))),
      (''card_last4'', PStr (show_nat (sim_between d ''card_last4'' 1000 9999))),
      (''caller_ip_subnet'', PStr (''192.168.'' @ show_nat (sim_between d ''subnet'' 0 255) @ ''.0/24'')),
      (''api_key_id'', PStr (''key-'' @ pad4 (i mod 5))),
      (''oauth_scope'', PStr ''txn:write''),
      (''geo_lat'', PFloat (Fin (sd_uniform d ''geo_lat'' (-90) 90))),
      (''geo_lon'', PFloat (Fin (sd_uniform d ''geo_lon'' (-180) 180))),
      (''masking_lib_version'', PStr ''1.2.3''),
      (''vel_count_1m'', PInt (int (sim_between d ''vel_count_1m'' 0 5))),
      (''vel_amount_1m'', a1),
      (''vel_count_5m'', PInt (int (sim_between d ''vel_count_5m'' 0 15))),
      (''vel_amount_5m'', a5),
      (''vel_count_1h'', PInt (int (sim_between d ''vel_count_1h'' 0 60))),
      (''vel_amount_1h'', ah),
      (''vel_count_24h'', PInt (int (sim_between d ''vel_count_24h'' 0 200))),
      (''vel_amount_24h'', ad),
      (''geo_country'', PStr (pick GEO_COUNTRIES (sd_choice d ''geo_country''))),
      (''geo_city'', PStr (pick GEO_CITIES (sd_choice d ''geo_city''))),
      (''geo_network_class'', PStr (pick [''residential'', ''business'', ''vpn''] (sd_choice d ''network''))),
      (''geo_confidence'', PFloat (Fin (sd_uniform d ''geo_confidence'' (1/2) 1))),
      (''device_first_seen'', PInt (sim_event_time now d - int (sim_between d ''first_seen'' 0 (30 * DAY_MS)))),
      (''device_txn_count'', PInt (int (sim_between d ''device_txn_count'' 1 100))),
      (''device_known_fraud'', PBool (sd_fraud d)),
      (''prev_geo_country'', PStr (pick GEO_COUNTRIES (sd_choice d ''prev_geo_country''))),
      (''prev_txn_time_ms'', PInt (sim_event_time now d - int (sim_between d ''prev_txn_time_ms'' 60000 DAY_MS))),
      (''enrichment_time'', PInt (sim_enrichment_time now d)),
      (''enrichment_latency_ms'', PInt (sim_enrichment_time now d - sim_event_time now d)),
      (''processor_version'', PStr ''002-stream-processor@1.0.0''),
      (''schema_version'', PStr ''1'')]"

text \<open>\<open>Decimal(str(x))\<close> of the five amounts.\<close>

definition make_enriched_record :: "int \<Rightarrow> sim_draws \<Rightarrow> nat \<Rightarrow> pydict result" where
  "make_enriched_record now d i =
     (let dec = (\<lambda>k a b. decimal_of_str (PFloat (Fin (sd_uniform d k a b))))
      in rbind (dec ''amount'' 1 5000) (\<lambda>amount.
         rbind (dec ''vel_amount_1m'' 0 500) (\<lambda>a1.
         rbind (dec ''vel_amount_5m'' 0 1500) (\<lambda>a5.
         rbind (dec ''vel_amount_1h'' 0 10000) (\<lambda>ah.
         rbind (dec ''vel_amount_24h'' 0 50000) (\<lambda>ad. Inr (sim_fields now d i amount a1 a5 ah ad)))))))"

definition sim_decision :: "rat \<Rightarrow> string" where
  "sim_decision score = (if fl (8/10) \<le> score then ''BLOCK'' else if 1/2 \<le> score then ''REVIEW'' else ''ALLOW'')"

definition make_decision_record :: "sim_draws \<Rightarrow> pyval \<Rightarrow> pyval \<Rightarrow> pydict result" where
  "make_decision_record d txn_id event_time =
     (let score = sd_uniform d ''score'' 0 1
      in rbind (py_int event_time) (\<lambda>t. Inr
        [(''transaction_id'', txn_id),
         (''decision'', PStr (sim_decision score)),
         (''fraud_score'', PFloat (Fin score)),
         (''rule_triggers'', PList (map PStr (sd_sample d))),
         (''model_version'', PStr ''xgb-fraud-v2.1''),
         (''decision_time_ms'', PInt (t + int (rand_between 5 80 (sd_choice d ''decision_time'')))),
         (''latency_ms'', PFloat (Fin (of_nat (rand_between 5 120 (sd_choice d ''latency''))))),
         (''schema_version'', PStr ''1'')]))"

section \<open>The count and the exit code\<close>

text \<open>\<open>run\<close> answers a query with the lines Trino printed; the set at the end of the message is left out.\<close>

definition trino_count :: "(string \<Rightarrow> string list) \<Rightarrow> string \<Rightarrow> int result" where
  "trino_count run table =
     (if table \<notin> {''enriched_transactions'', ''fraud_decisions''}
      then raise_exn ValueError (''table '' @ [CHR 0x27] @ table @ [CHR 0x27] @ '' not in allowed list'')
      else (case filter isdigit (map strip (run (''SELECT COUNT(*) FROM iceberg.default.'' @ table))) of
              [] \<Rightarrow> Inr (-1)
            | l # _ \<Rightarrow> py_int (PStr l)))"

definition sim_exit_code :: "(string \<Rightarrow> string list) \<Rightarrow> nat \<Rightarrow> int result" where
  "sim_exit_code run n =
     rbind (trino_count run ''enriched_transactions'') (\<lambda>enriched_count.
     rbind (trino_count run ''fraud_decisions'') (\<lambda>decisions_count.
       let enriched_ok = int n \<le> enriched_count; decisions_ok = int n \<le> decisions_count
       in Inr (if \<not> enriched_ok \<or> \<not> decisions_ok then 1 else 0)))"

text \<open>The records, the decisions made from them, and the two sinks after the loop and the last flush.\<close>

definition sim_records :: "int \<Rightarrow> (nat \<Rightarrow> sim_draws) \<Rightarrow> nat \<Rightarrow> pydict list result" where
  "sim_records now ds n = rmap (\<lambda>i. make_enriched_record now (ds i) i) [0..<n]"

definition sim_decisions :: "(nat \<Rightarrow> sim_draws) \<Rightarrow> pydict list \<Rightarrow> pydict list result" where
  "sim_decisions ds records =
     rmap (\<lambda>(i, r). rbind (dsub r ''transaction_id'') (\<lambda>t. rbind (dsub r ''event_time'') (make_decision_record (ds i) t)))
       (enumerate 0 records)"

definition push_enriched ::
  "nat \<Rightarrow> (pyval \<Rightarrow> string) \<Rightarrow> 'e feast_env_scheme \<times> 'e feast_env_scheme \<Rightarrow> pydict list \<Rightarrow> enriched_sink \<Rightarrow>
     enriched_sink \<times> exn option" where
  "push_enriched buffer_max sf es records s =
     enriched_flush buffer_max sf (snd es) (foldl (enriched_invoke buffer_max sf es) s records)"

definition push_decisions ::
  "nat \<Rightarrow> (pyval \<Rightarrow> string) \<Rightarrow> flush_env \<times> flush_env \<Rightarrow> pydict list \<Rightarrow> catalog_sink \<Rightarrow> catalog_sink \<times> exn option" where
  "push_decisions buffer_max sf es decisions s =
     decisions_flush buffer_max sf (snd es) (foldl (decisions_invoke buffer_max sf es) s decisions)"

section \<open>Lemmas\<close>

lemma decimal_of_float: "\<exists>x'. decimal_of_str (PFloat (Fin x)) = Inr (PDec (Fin x'))"
  by simp

lemma digits_value_zeros: "digits_value (replicate k CHR ''0'' @ s) = digits_value s"
proof -
  have z: "digit_val CHR ''0'' = 0" by (simp add: digit_val_def code_def)
  have "foldl (\<lambda>a c. a * 10 + digit_val c) 0 (replicate k CHR ''0'') = 0"
    by (induction k) (simp_all add: z)
  then show ?thesis by (simp add: digits_value_def)
qed

lemma pad4_value [simp]: "digits_value (pad4 n) = n"
  by (simp add: pad4_def Let_def digits_value_zeros)

lemma pad4_digits: "list_all dec_digit (pad4 n)"
  using show_nat_digits [of n] by (auto simp: pad4_def Let_def list_all_iff dec_digit_def code_def)

lemma sim_id_inj:
  assumes "pad4 i @ ''-'' @ h = pad4 j @ ''-'' @ h'" shows "i = j"
proof -
  have h: "\<not> dec_digit CHR ''-''" by (simp add: dec_digit_def code_def)
  have "takeWhile dec_digit (pad4 k @ ''-'' @ x) = pad4 k" for k x
    using pad4_digits [of k] h by (simp add: takeWhile_append2 list_all_iff)
  then have "pad4 i = pad4 j" using assms by metis
  then show ?thesis using pad4_value by metis
qed

lemma made_record: "\<exists>amount a1 a5 ah ad. make_enriched_record now d i = Inr (sim_fields now d i amount a1 a5 ah ad)"
  unfolding make_enriched_record_def Let_def decimal_of_str.simps rbind_simps by blast

lemma sim_fields_id:
  "dget (sim_fields now d i amount a1 a5 ah ad) ''transaction_id'' = PStr (''txn-sim-'' @ pad4 i @ ''-'' @ sd_hex d)"
  by (simp add: sim_fields_def dget_def)

lemma sim_fields_ints:
  "\<forall>f\<in>set (timestamp_fields @ integer_fields). \<exists>t. dget (sim_fields now d i amount a1 a5 ah ad) f = PInt t"
  by (simp add: sim_fields_def dget_def timestamp_fields_def integer_fields_def)

lemma sim_fields_floats:
  "\<forall>f\<in>set float_fields. \<exists>x. dget (sim_fields now d i amount a1 a5 ah ad) f = PFloat (Fin x)"
  by (simp add: sim_fields_def dget_def float_fields_def)

text \<open>A row fails only on a number that is none.\<close>

lemma enriched_row_total:
  assumes "\<forall>f\<in>set (timestamp_fields @ integer_fields). \<exists>t. dget r f = PInt t"
    and "\<forall>f\<in>set float_fields. \<exists>x. dget r f = PFloat (Fin x)"
  shows "\<exists>row. enriched_row sf r = Inr row"
  unfolding enriched_row_def
proof (rule rmap_total)
  fix f
  show "\<exists>c. enriched_cell sf f (dget r f) = Inr c"
  proof (cases "f \<in> set (timestamp_fields @ integer_fields)")
    case True
    then obtain t where "dget r f = PInt t" using assms(1) by blast
    then show ?thesis using True by (auto simp: enriched_cell_def or_none_def)
  next
    case False
    note no = this
    show ?thesis
    proof (cases "f \<in> set float_fields")
      case True
      then obtain x where "dget r f = PFloat (Fin x)" using assms(2) by blast
      then show ?thesis using True no by (auto simp: enriched_cell_def or_none_def)
    next
      case False
      then show ?thesis using no by (auto simp: enriched_cell_def or_none_def)
    qed
  qed
qed

lemma sim_record:
  "\<exists>r row. make_enriched_record now d i = Inr r \<and> enriched_row sf r = Inr row \<and>
     dget r ''transaction_id'' = PStr (''txn-sim-'' @ pad4 i @ ''-'' @ sd_hex d)"
  using made_record [of now d i] enriched_row_total [OF sim_fields_ints sim_fields_floats] sim_fields_id by metis

lemma sim_records_ok:
  "\<exists>rs rows. sim_records now ds n = Inr rs \<and> enriched_table sf rs = Inr rows \<and> length rs = n \<and>
     (\<forall>i<n. dget (rs ! i) ''transaction_id'' = PStr (''txn-sim-'' @ pad4 i @ ''-'' @ sd_hex (ds i)))"
proof -
  have "\<forall>i. \<exists>r. make_enriched_record now (ds i) i = Inr r \<and> (\<exists>row. enriched_row sf r = Inr row) \<and>
      dget r ''transaction_id'' = PStr (''txn-sim-'' @ pad4 i @ ''-'' @ sd_hex (ds i))"
    using sim_record by metis
  then obtain r where r: "\<And>i. make_enriched_record now (ds i) i = Inr (r i)" "\<And>i. \<exists>row. enriched_row sf (r i) = Inr row"
    "\<And>i. dget (r i) ''transaction_id'' = PStr (''txn-sim-'' @ pad4 i @ ''-'' @ sd_hex (ds i))"
    by metis
  have "sim_records now ds n = Inr (map r [0..<n])"
    by (simp add: sim_records_def rmap_Inr_iff list_all2_conv_all_nth r(1))
  moreover have "\<exists>rows. enriched_table sf (map r [0..<n]) = Inr rows"
    unfolding enriched_table_def by (rule rmap_total) (use r(2) in auto)
  ultimately show ?thesis using r(3) by fastforce
qed

lemma rec_key_of: "dget r tid_key = PStr t \<Longrightarrow> rec_key r = PStr t \<and> string_id r"
  by (auto simp: dget_def dget_or_def string_id_def split: option.splits)

text \<open>Between two flushes the sink only collects.\<close>

lemma invoke_collects:
  assumes "\<not> second_elapsed (env_now (fst es)) s" "length (buffer s) + length rs < buffer_max"
  shows "foldl (flush_then_append buffer_max flush es) s rs = s\<lparr>buffer := buffer s @ rs\<rparr>"
  using assms
proof (induction rs arbitrary: s)
  case (Cons r rs)
  have "flush_then_append buffer_max flush es s r = s\<lparr>buffer := buffer s @ [r]\<rparr>"
    using Cons.prems by (simp add: flush_then_append_def)
  then show ?case using Cons.IH [of "s\<lparr>buffer := buffer s @ [r]\<rparr>"] Cons.prems
    by (simp add: second_elapsed_def)
qed simp

section \<open>Properties\<close>

text \<open>C32: The records the simulation generates all reach the table when the write succeeds. Assumed: at least one
  and fewer records than the buffer holds, pushed within a second into an opened sink with an empty buffer
  and a closed breaker, and then flushed by a write for which Arrow accepts the rows and the append returns.
  Then, whatever is drawn for them, every record is generated and has a row in the table of the enriched
  transactions, in order and one each (their identifiers never collide, so none is dropped as a duplicate and
  none is refused by the columns), and nothing is dead-lettered.\<close>

theorem simulation_writes_every_record:
  assumes "table_loaded s" "breaker_ready s" "buffer s = []" "0 < n" "n < buffer_max"
    and "\<not> second_elapsed (env_now (fst es)) s" "\<And>rows. env_arrow (snd es) rows = None" "env_append (snd es) = Appended"
  shows "\<exists>rs rows. sim_records now ds n = Inr rs \<and> enriched_table sf rs = Inr rows \<and> length rows = n \<and>
    written (fst (push_enriched buffer_max sf es rs s)) = written s @ rows \<and>
    dlq (fst (push_enriched buffer_max sf es rs s)) = dlq s"
proof -
  obtain rs rows where rs: "sim_records now ds n = Inr rs" "enriched_table sf rs = Inr rows" "length rs = n"
    "\<forall>i<n. dget (rs ! i) ''transaction_id'' = PStr (''txn-sim-'' @ pad4 i @ ''-'' @ sd_hex (ds i))"
    using sim_records_ok by blast
  let ?s = "s\<lparr>buffer := rs\<rparr>"
  have fold: "foldl (enriched_invoke buffer_max sf es) s rs = ?s"
    using invoke_collects [of es s rs buffer_max] assms rs(3) by (simp add: enriched_invoke_def)
  have ids: "list_all string_id rs" using rs(3,4) rec_key_of by (auto simp: list_all_length)
  have "distinct (map rec_key rs)"
    unfolding distinct_conv_nth
  proof (intro allI impI)
    fix i j
    assume "i < length (map rec_key rs)" "j < length (map rec_key rs)" "i \<noteq> j"
    moreover from this have "rec_key (rs ! k) = PStr (''txn-sim-'' @ pad4 k @ ''-'' @ sd_hex (ds k))" if "k \<in> {i, j}" for k
      using that rs(3,4) by (intro rec_key_of [THEN conjunct1]) auto
    moreover have "pad4 i @ ''-'' @ sd_hex (ds i) \<noteq> pad4 j @ ''-'' @ sd_hex (ds j)"
      using \<open>i \<noteq> j\<close> sim_id_inj by blast
    ultimately show "map rec_key rs ! i \<noteq> map rec_key rs ! j" by simp
  qed
  then have k: "keep_first rec_key {} rs = rs" by (simp add: keep_first_id)
  have "buffer ?s \<noteq> []" using assms rs(3) by auto
  moreover have "list_all string_id (buffer ?s)" "enriched_table sf (keep_first rec_key {} (buffer ?s)) = Inr rows"
    using ids k rs(2) by simp_all
  ultimately have flush: "enriched_flush buffer_max sf (snd es) ?s =
    (let ds = keep_first rec_key {} (buffer ?s);
         (s3, r) = (case append_rows (snd es) rows (?s\<lparr>last_flush_time_sec := env_now (snd es)\<rparr>) of
             (s1, None) \<Rightarrow> (after_append (push_to_feast (snd es)) ds s1, None)
           | (s1, Some x) \<Rightarrow>
               if isinstance x TimeoutError then emit_dlq ''timeout'' (first_txn_id ds) (length ds) s1
               else on_flush_error x ds s1);
         s4 = count_metric Flush_duration s3;
         s5 = (if buffer_max \<le> length (buffer s4) then count_metric Buffer_overflow s4 else s4)
     in (s5\<lparr>buffer := []\<rparr>, r))"
    using assms by (intro enriched_flush_unfold) simp_all
  have "written (fst (push_enriched buffer_max sf es rs s)) = written s @ rows \<and>
    dlq (fst (push_enriched buffer_max sf es rs s)) = dlq s"
    unfolding push_enriched_def fold flush append_rows_def assms(8)
    by (simp add: Let_def after_append_fields count_metric_def)
  moreover have "length rows = n" using rs(2,3) rmap_length by (fastforce simp: enriched_table_def)
  ultimately show ?thesis using rs by blast
qed

definition sample_sim :: sim_draws where
  "sample_sim = \<lparr>sd_hex = ''00000000'', sd_choice = (\<lambda>k. 1), sd_uniform = (\<lambda>k a b. b), sd_fraud = False, sd_sample = []\<rparr>"

lemma simulation_writes_every_record_witness:
  "\<exists>rs. sim_records 0 (\<lambda>i. sample_sim) 50 = Inr rs \<and>
     length (written (fst (push_enriched 100 (\<lambda>v. []) (sample_env Appended, sample_env Appended) rs
       (fst (enriched_open None None True (enriched_init 5)))))) = 50"
proof -
  have "\<not> second_elapsed 5 (fst (enriched_open None None True (enriched_init 5)))"
    by (simp add: enriched_open_def enriched_init_def second_elapsed_def)
  then show ?thesis
    using simulation_writes_every_record [of "fst (enriched_open None None True (enriched_init 5))" 50 100
      "(sample_env Appended, sample_env Appended)" 0 "\<lambda>i. sample_sim" "\<lambda>v. []"]
    by (auto simp: enriched_open_def enriched_init_def sample_env_def)
qed

text \<open>The simulated verdict REVIEW is none the scoring step can give.\<close>

lemma simulated_verdict_unknown:
  "1/2 \<le> x \<Longrightarrow> x < fl (8/10) \<Longrightarrow> sim_decision x \<notin> range verdict_name" for x
proof -
  assume "1/2 \<le> x" "x < fl (8/10)"
  then have "sim_decision x = ''REVIEW''" by (simp add: sim_decision_def)
  moreover have "verdict_name v \<noteq> ''REVIEW''" for v by (cases v) simp_all
  ultimately show ?thesis by (metis rangeE)
qed

text \<open>A count that cannot be read is -1, which fails the run.\<close>

lemma unreadable_count_fails: "0 < n \<Longrightarrow> (\<And>q. run q = []) \<Longrightarrow> sim_exit_code run n = Inr 1"
  by (simp add: sim_exit_code_def trino_count_def)

end
