(* ===== verification/Ingestion_Service.thy ===== *)
theory Ingestion_Service
  imports Producer Observability
begin

text \<open>
  The life of the ingestion service, \<open>pipelines/ingestion/api/producer.py\<close>: constructing and starting
  \<open>ProducerService\<close>, the server loop of \<open>run_server\<close> over a sequence of requests, and the flush when it is
  interrupted. The registry, librdkafka, the socket of the metrics and OpenTelemetry answer as the record
  \<open>start_host\<close> says; a request carries the environment (clock, identifiers, broker) it meets.
\<close>

section \<open>Constructing and starting\<close>

record service =
  sv_config :: producer_config
  sv_masking :: masking_config
  sv_channel :: string
  sv_schema :: "string option"
  sv_serializer :: "string option"
  sv_dlq_ready :: bool
  sv_state :: producer_state

definition ProducerService_init :: "producer_config \<Rightarrow> service" where
  "ProducerService_init c =
     \<lparr>sv_config = c,
      sv_masking = \<lparr>ipv4_prefix = pr_ipv4_prefix c, ipv6_prefix = pr_ipv6_prefix c, reject_invalid_pan = True\<rparr>,
      sv_channel = pr_channel c, sv_schema = None, sv_serializer = None, sv_dlq_ready = False,
      sv_state = \<lparr>p_started = False, p_events = [], p_dlq = [], p_metrics = []\<rparr>\<rparr>"

text \<open>
  \<open>sh_serializer\<close> is the constructor of the serialiser for a subject and a schema, \<open>sh_producer\<close> that of
  the producer, which is given the configuration of librdkafka; each may raise.
\<close>

record start_host =
  sh_schema :: "string result"
  sh_probe :: "nat \<Rightarrow> exn option"
  sh_serializer :: "string \<Rightarrow> string \<Rightarrow> exn option"
  sh_producer :: "pydict \<Rightarrow> exn option"
  sh_dlq_producer :: "string \<Rightarrow> exn option"
  sh_metrics_server :: "int \<Rightarrow> exn option"
  sh_tracer :: "exn option"

definition raising :: "exn option \<Rightarrow> unit result" where
  "raising e = (case e of None \<Rightarrow> Inr () | Some x \<Rightarrow> Inl x)"

text \<open>\<open>range(retries)\<close> of a negative number is empty: no attempt is made.\<close>

definition registry_connect :: "(nat \<Rightarrow> exn option) \<Rightarrow> int \<Rightarrow> unit result" where
  "registry_connect probe retries =
     (if retries < 0
      then raise_exn RuntimeError (''Schema Registry unreachable after '' @ show_int retries @ '' attempts: None'')
      else rbind (connect_with_retry probe (nat retries)) (\<lambda>_. Inr ()))"

text \<open>The attributes are set one after the other, so a step that raises leaves those before it.\<close>

definition ProducerService_start :: "start_host \<Rightarrow> environ \<Rightarrow> service \<Rightarrow> service \<times> environ result" where
  "ProducerService_start h env sv =
     (case sh_schema h of
        Inl e \<Rightarrow> (sv, Inl e)
      | Inr schema_str \<Rightarrow>
          (let sv1 = sv\<lparr>sv_schema := Some schema_str\<rparr> in
           case rbind (registry_connect (sh_probe h) (pr_schema_registry_retries (sv_config sv)))
                  (\<lambda>_. raising (sh_serializer h ''txn.api-value'' schema_str)) of
             Inl e \<Rightarrow> (sv1, Inl e)
           | Inr _ \<Rightarrow>
               (let sv2 = sv1\<lparr>sv_serializer := Some ''txn.api-value''\<rparr> in
                case raising (sh_producer h (librdkafka_config (sv_config sv))) of
                  Inl e \<Rightarrow> (sv2, Inl e)
                | Inr _ \<Rightarrow>
                    (let sv3 = sv2\<lparr>sv_state := (sv_state sv2)\<lparr>p_started := True\<rparr>\<rparr> in
                     case raising (sh_dlq_producer h (pr_bootstrap_servers (sv_config sv))) of
                       Inl e \<Rightarrow> (sv3, Inl e)
                     | Inr _ \<Rightarrow>
                         (let sv4 = sv3\<lparr>sv_dlq_ready := True\<rparr> in
                          case ingestion_start_metrics_server (sh_metrics_server h) (Some (pr_prometheus_port (sv_config sv))) env of
                            Inl e \<Rightarrow> (sv4, Inl e)
                          | Inr (env', port) \<Rightarrow> (sv4, rbind (raising (sh_tracer h)) (\<lambda>_. Inr env')))))))"

text \<open>\<open>flush\<close> waits for what is in flight: each outcome reaches the delivery callback.\<close>

definition ProducerService_flush :: "ingest_env \<Rightarrow> string option list \<Rightarrow> producer_state \<Rightarrow> producer_state" where
  "ProducerService_flush env outcomes s = (if p_started s then fold (delivery_callback env) outcomes s else s)"

section \<open>The server loop\<close>

record request =
  rq_env :: ingest_env
  rq_path :: string
  rq_length :: "string option"
  rq_read :: "int \<Rightarrow> string"

text \<open>The server answers one request after the other; an exception of the handler ends its request only.\<close>

fun serve_forever ::
  "masking_config \<Rightarrow> string \<Rightarrow> (string \<Rightarrow> pyval result) \<Rightarrow> request list \<Rightarrow> producer_state \<Rightarrow>
     producer_state \<times> response result list" where
  "serve_forever cfg ch json_loads [] s = (s, [])"
| "serve_forever cfg ch json_loads (rq # rqs) s =
     (let (s1, answer) = do_POST (rq_env rq) cfg ch json_loads (rq_path rq) (rq_length rq) (rq_read rq) s;
          (s2, answers) = serve_forever cfg ch json_loads rqs s1
      in (s2, answer # answers))"

text \<open>\<open>run_server\<close> until it is interrupted: \<open>outcomes\<close> are what the final flush reports.\<close>

definition run_server ::
  "start_host \<Rightarrow> environ \<Rightarrow> (string \<Rightarrow> pyval result) \<Rightarrow> request list \<Rightarrow> ingest_env \<Rightarrow> string option list \<Rightarrow>
     (service \<times> response result list) result" where
  "run_server h environ json_loads requests env outcomes =
     rbind (ProducerConfig_init environ) (\<lambda>c.
       (case ProducerService_start h environ (ProducerService_init c) of
          (sv, Inl e) \<Rightarrow> Inl e
        | (sv, Inr _) \<Rightarrow>
            (let (s, answers) = serve_forever (sv_masking sv) (sv_channel sv) json_loads requests (sv_state sv)
             in Inr (sv\<lparr>sv_state := ProducerService_flush env outcomes s\<rparr>, answers))))"

section \<open>Lemmas\<close>

text \<open>What the builder puts into an event.\<close>

lemma built_event:
  assumes "TransactionEventBuilder_build env cfg ch raw = Inr event"
  shows "\<exists>m subnet amt bs t.
    mask_card cfg raw = Inr m \<and> mask_ip cfg raw = Inr subnet \<and>
    dsub raw ''amount'' = Inr amt \<and> encode_amount amt = Inr bs \<and> rbind (dsub raw ''event_time'') py_int = Inr t \<and>
    dget event ''transaction_id'' = py_or (dget raw ''transaction_id'') (PStr (event_uuid env)) \<and>
    (\<forall>k \<in> {''account_id'', ''merchant_id'', ''currency'', ''api_key_id'', ''oauth_scope''}. dsub raw k = Inr (dget event k)) \<and>
    dget event ''channel'' = PStr ch \<and> dget event ''card_bin'' = PStr (bin6 m) \<and>
    dget event ''card_last4'' = PStr (last4 m) \<and> dget event ''caller_ip_subnet'' = PStr subnet \<and>
    dget event ''amount'' = PBytes bs \<and> dget event ''event_time'' = PInt t"
  using assms
  by (auto simp: TransactionEventBuilder_build_def result_simps Let_def dget_def simp del: py_int.simps split: if_splits)

lemma flush_events:
  "p_events (ProducerService_flush env outcomes s) = p_events s" "p_started (ProducerService_flush env outcomes s) = p_started s"
  by (simp_all add: ProducerService_flush_def reports_frame)

text \<open>The identifiers answered with status 200, and those of the events in the producer's queue.\<close>

definition answered_id :: "response result \<Rightarrow> pyval list" where
  "answered_id r = (case r of Inl e \<Rightarrow> [] | Inr (status, body) \<Rightarrow> if status = 200 then [dget body ''transaction_id''] else [])"

definition queued_ids :: "producer_state \<Rightarrow> pyval list" where
  "queued_ids s = map (\<lambda>ev. dget ev ''transaction_id'') (p_events s)"

text \<open>No polling of the producer and no writing to the client raises.\<close>

definition undisturbed :: "ingest_env \<Rightarrow> bool" where
  "undisturbed env \<longleftrightarrow> poll_error env = None \<and> (\<forall>r. respond env r = None)"

lemma publish_started: "p_started (fst (ProducerService_publish env cfg ch d s)) = p_started s"
proof -
  have f: "p_started (fst (publish_failure env e d b t)) = p_started t" for e b t
    by (auto simp: publish_failure_def handle_pre_serialise_error_def Let_def split: sum.split prod.split)
  show ?thesis
    by (cases rule: publish_cases [of s env cfg ch d]) (simp_all add: f reports_frame)
qed

text \<open>A request the handler takes to \<open>publish\<close> has passed the validation; nothing else reaches the queue.\<close>

lemma post_cases:
  assumes "do_POST env cfg ch json_loads path len read s = (s', r)"
  obtains (refused) "p_events s' = p_events s" "p_started s' = p_started s" "answered_id r = []"
  | (published) n raw r' where "json_loads (read n) = Inr (PDict raw)" "validate_required_fields raw = Inr []"
      "validate_field_values (now_ms env) raw = Inr []" "ProducerService_publish env cfg ch raw s = (s', r')"
      "r = publish_reply env r'"
proof -
  have re: "answered_id (respond_with env x) = []" if "fst x \<noteq> 200" for x
    using that by (cases x) (simp add: respond_with_def answered_id_def split: option.split)
  have v: "p_events t = p_events s \<and> p_started t = p_started s \<and> answered_id r' = []"
    if "validation_response env f s = (t, r')" for f t r'
    using that re by (auto simp: validation_response_def)
  have a: "answered_id (Inl e) = []" for e by (simp add: answered_id_def)
  have "(p_events s' = p_events s \<and> p_started s' = p_started s \<and> answered_id r = []) \<or>
    (\<exists>n raw x r'. json_loads (read n) = Inr (PDict raw) \<and>
       rbind (validate_required_fields raw) (\<lambda>_. validate_field_values (now_ms env) raw) = Inr x \<and>
       ProducerService_publish env cfg ch raw s = (s', r') \<and> r = publish_reply env r')"
    using assms unfolding do_POST_def
    by (auto simp: raise_exn_def re a dest: v split: if_splits sum.splits bool.splits pyval.splits prod.splits)
  then consider "p_events s' = p_events s \<and> p_started s' = p_started s \<and> answered_id r = []"
    | n raw x r' where "json_loads (read n) = Inr (PDict raw)"
      "rbind (validate_required_fields raw) (\<lambda>_. validate_field_values (now_ms env) raw) = Inr x"
      "ProducerService_publish env cfg ch raw s = (s', r')" "r = publish_reply env r'" by blast
  then show thesis
  proof cases
    case (2 n raw x r')
    have "validate_required_fields raw = Inr []" "validate_field_values (now_ms env) raw = Inr x"
      using 2(2) by (auto simp: validate_required_fields_def raise_exn_def Let_def split: if_splits)
    moreover from this have "x = []" by (auto simp: validate_field_values_def raise_exn_def Let_def result_simps split: if_splits)
    ultimately show ?thesis using published [OF 2(1) _ _ 2(3,4)] by simp
  qed (use refused in blast)
qed

text \<open>One request: at most one event, and an answer 200 only with the identifier of that event.\<close>

lemma post_ids:
  assumes "do_POST env cfg ch json_loads path len read s = (s', r)"
  shows "\<exists>new. queued_ids s' = queued_ids s @ new \<and> subseq (answered_id r) new \<and>
    (undisturbed env \<longrightarrow> new = answered_id r) \<and> length new \<le> 1 \<and> p_started s' = p_started s"
  using assms
proof (cases rule: post_cases)
  case (published n raw r')
  have st: "p_started s' = p_started s" using publish_started [of env cfg ch raw s] published(4) by simp
  have tid: "truthy (dget raw ''transaction_id'')"
    using published(2) by (auto simp: validate_required_fields_def required_fields_def raise_exn_def Let_def split: if_splits)
  show ?thesis using published(4)
  proof (cases rule: publish_events)
    case (rejected e)
    then have "answered_id r = []"
      using published(5) by (auto simp: answered_id_def publish_reply_200 split: sum.split)
    then show ?thesis using rejected(2) st by (simp add: queued_ids_def)
  next
    case (queued event)
    have id: "dget event ''transaction_id'' = dget raw ''transaction_id''"
      using built_event [OF queued(1)] tid by (auto simp: py_or_def)
    have "answered_id r = [] \<or> answered_id r = [dget raw ''transaction_id'']"
      using queued(5) tid published(5)
      by (auto simp: answered_id_def publish_reply_200 publish_response_def py_or_def dget_def split: sum.split)
    moreover have "answered_id r = [dget raw ''transaction_id'']" if "undisturbed env"
      using that queued(5) tid published(5)
      by (auto simp: undisturbed_def answered_id_def publish_reply_def publish_response_def py_or_def dget_def)
    ultimately show ?thesis using queued(4) id st by (auto simp: queued_ids_def)
  qed
qed (auto simp: queued_ids_def)

lemma serve_ids:
  "subseq (concat (map answered_id (snd (serve_forever cfg ch json_loads rqs s))))
      (drop (length (p_events s)) (queued_ids (fst (serve_forever cfg ch json_loads rqs s)))) \<and>
   prefix (queued_ids s) (queued_ids (fst (serve_forever cfg ch json_loads rqs s))) \<and>
   (list_all (\<lambda>rq. undisturbed (rq_env rq)) rqs \<longrightarrow>
     queued_ids (fst (serve_forever cfg ch json_loads rqs s)) =
       queued_ids s @ concat (map answered_id (snd (serve_forever cfg ch json_loads rqs s)))) \<and>
   length (snd (serve_forever cfg ch json_loads rqs s)) = length rqs \<and>
   p_started (fst (serve_forever cfg ch json_loads rqs s)) = p_started s"
proof (induction rqs arbitrary: s)
  case (Cons rq rqs)
  obtain s1 r where p: "do_POST (rq_env rq) cfg ch json_loads (rq_path rq) (rq_length rq) (rq_read rq) s = (s1, r)" by fastforce
  obtain s2 rs where q: "serve_forever cfg ch json_loads rqs s1 = (s2, rs)" by fastforce
  obtain new where n: "queued_ids s1 = queued_ids s @ new" "subseq (answered_id r) new"
    "undisturbed (rq_env rq) \<Longrightarrow> new = answered_id r" "p_started s1 = p_started s"
    using post_ids [OF p] by blast
  have len: "length (queued_ids t) = length (p_events t)" for t by (simp add: queued_ids_def)
  obtain more where m: "queued_ids s2 = queued_ids s1 @ more" "subseq (concat (map answered_id rs)) more"
    using Cons.IH [of s1] len [of s1] q by (auto simp: prefix_def)
  have "subseq (answered_id r @ concat (map answered_id rs)) (new @ more)"
    using n(2) m(2) by (rule list_emb_append_mono)
  moreover have "drop (length (p_events s)) (queued_ids s2) = new @ more"
    using m(1) n(1) len [of s] by simp
  ultimately show ?case using Cons.IH [of s1] p q n m by auto
qed (auto simp: queued_ids_def)

lemma started_service:
  assumes "ProducerService_start h env sv = (sv', Inr env')"
  shows "p_started (sv_state sv')" "sv_dlq_ready sv'" "sv_masking sv' = sv_masking sv" "sv_channel sv' = sv_channel sv"
    "p_events (sv_state sv') = p_events (sv_state sv)"
  using assms
  by (auto simp: ProducerService_start_def Let_def split: sum.splits)

section \<open>Properties\<close>

text \<open>C11: The server tells its clients the truth about what it accepted. Whatever requests arrive before
  it is interrupted, each is answered or left without an answer in its turn, and the transaction
  identifiers it answered with status 200 are, in order, among those of the events its Kafka producer has
  accepted; they are exactly these when no poll of the producer and no writing of an answer raised. The
  masking prefixes and the channel are those of the environment it was started with, and the final flush
  adds no event. (An accepted event may still fail to be delivered: undelivered_event_not_recoverable.)\<close>

theorem server_answers_match_queue:
  assumes "run_server h environ json_loads requests env outcomes = Inr (sv, answers)"
  shows "length answers = length requests \<and>
    subseq (concat (map answered_id answers)) (queued_ids (sv_state sv)) \<and>
    (list_all (\<lambda>rq. undisturbed (rq_env rq)) requests \<longrightarrow>
       queued_ids (sv_state sv) = concat (map answered_id answers)) \<and>
    (\<exists>c. ProducerConfig_init environ = Inr c \<and> sv_channel sv = pr_channel c \<and>
       ipv4_prefix (sv_masking sv) = pr_ipv4_prefix c \<and> ipv6_prefix (sv_masking sv) = pr_ipv6_prefix c)"
proof -
  obtain c where c: "ProducerConfig_init environ = Inr c"
    using assms by (cases "ProducerConfig_init environ") (simp_all add: run_server_def)
  obtain sv0 r where start: "ProducerService_start h environ (ProducerService_init c) = (sv0, r)" by force
  then obtain env' where r: "r = Inr env'" using assms c by (cases r) (simp_all add: run_server_def)
  note st = started_service [OF start [unfolded r]]
  let ?run = "serve_forever (sv_masking sv0) (sv_channel sv0) json_loads requests (sv_state sv0)"
  have eq: "sv = sv0\<lparr>sv_state := ProducerService_flush env outcomes (fst ?run)\<rparr>" "answers = snd ?run"
    using assms by (auto simp: run_server_def c start r case_prod_unfold Let_def)
  have "p_events (sv_state sv0) = []" using st(5) by (simp add: ProducerService_init_def)
  then show ?thesis
    using serve_ids [of "sv_masking sv0" "sv_channel sv0" json_loads requests "sv_state sv0"] st(3,4) c
    by (simp add: eq queued_ids_def flush_events ProducerService_init_def)
qed

text \<open>A start in which everything answers, and three requests: one good, one for another path, one with a
  body that is no JSON.\<close>

definition willing_host :: start_host where
  "willing_host = \<lparr>sh_schema = Inr ''{}'', sh_probe = (\<lambda>_. None), sh_serializer = (\<lambda>_ _. None), sh_producer = (\<lambda>_. None),
     sh_dlq_producer = (\<lambda>_. None), sh_metrics_server = (\<lambda>_. None), sh_tracer = None\<rparr>"

definition sample_requests :: "request list" where
  "sample_requests =
     [\<lparr>rq_env = quiet_env, rq_path = ''/v1/transactions'', rq_length = Some ''2'', rq_read = (\<lambda>_. ''{}'')\<rparr>,
      \<lparr>rq_env = quiet_env, rq_path = ''/health'', rq_length = None, rq_read = (\<lambda>_. [])\<rparr>,
      \<lparr>rq_env = quiet_env, rq_path = ''/v1/transactions'', rq_length = Some ''1'', rq_read = (\<lambda>_. ''x'')\<rparr>]"

definition sample_json :: "string \<Rightarrow> pyval result" where
  "sample_json s = (if s = ''x'' then raise_exn JSONDecodeError [] else Inr (PDict good_payload))"

definition sample_server :: "(service \<times> response result list) result" where
  "sample_server = run_server willing_host (Map.empty(''KAFKA_BOOTSTRAP_SERVERS'' \<mapsto> ''kafka'', ''SCHEMA_REGISTRY_URL'' \<mapsto> ''url''))
     sample_json sample_requests quiet_env [None, Some ''timed out'']"

lemma server_answers_match_queue_witness:
  "\<exists>sv answers. sample_server = Inr (sv, answers) \<and> length answers = 3 \<and> queued_ids (sv_state sv) = [PStr ''t1'']"
proof -
  have "case sample_server of Inl e \<Rightarrow> False | Inr (sv, answers) \<Rightarrow> concat (map answered_id answers) = [PStr ''t1'']" by code_simp
  then obtain sv answers where r: "sample_server = Inr (sv, answers)" "concat (map answered_id answers) = [PStr ''t1'']"
    by (auto split: sum.splits)
  from server_answers_match_queue [OF r(1) [unfolded sample_server_def]] r show ?thesis
    by (intro exI [of _ sv] exI [of _ answers]) (simp add: sample_requests_def undisturbed_def quiet_env_def)
qed

text \<open>Called directly, without a transaction_id, \<open>publish\<close> returns an identifier it draws itself, while the
  builder has drawn another for the event: the caller gets an identifier no event has.\<close>

lemma publish_returns_other_id:
  assumes "ProducerService_publish env cfg ch raw s = (s', Inr res)" "dget raw ''transaction_id'' = PNone"
  shows "pub_transaction_id res = PStr (fresh_uuid env) \<and>
    dget (last (p_events s')) ''transaction_id'' = PStr (event_uuid env)"
  using assms(1)
proof (cases rule: publish_events)
  case (queued event)
  then show ?thesis using built_event [OF queued(1)] assms(2) by (auto simp: py_or_def)
qed simp

text \<open>An event that was answered with 200 and is not delivered is lost: the delivery callback writes a dead
  letter whose payload is empty, whatever the event was.\<close>

lemma undelivered_event_not_recoverable:
  assumes "p_started s" "json_dumps env (dlq_envelope env (p_dlq s) ''txn.api'' ''{}'' ''BrokerError'' err True) = Inr text"
    and "dlq_broker env (p_dlq s) \<lparr>msg_topic = ''txn.api.dlq'', msg_key = None, msg_value = utf8_encode text\<rparr> = None"
  shows "p_dlq (delivery_callback env (Some err) s) =
    p_dlq s @ [\<lparr>msg_topic = ''txn.api.dlq'', msg_key = None, msg_value = utf8_encode text\<rparr>]"
  using assms by (simp add: delivery_callback_def send_to_dlq_def produce_def)

end
