(* ===== verification/Wire_Schemas.thy ===== *)
theory Wire_Schemas
  imports Wire
begin

text \<open>
  The two schemas of the topic between the services: the one the ingestion service writes with
  (\<open>ingestion/schemas/txn_api_v1.avsc\<close>) and the one the job reads with, which is written out in
  \<open>processing/shared/avro_serde.py\<close>. The binary format has no tags: a record is its fields one after the
  other, so reader and writer agree by position only. How one field is written and read is the codec's,
  an argument; what is relied on is \<open>avro_fields\<close>, and a codec with the documented layout satisfies it.
\<close>

section \<open>Schemas\<close>

datatype avro_type = Avro_string | Avro_decimal nat nat | Avro_timestamp_millis | Avro_null_or_float

type_synonym avro_schema = "(string \<times> avro_type) list"

definition TXN_API_V1_SCHEMA :: avro_schema where
  "TXN_API_V1_SCHEMA =
     [(''transaction_id'', Avro_string), (''account_id'', Avro_string), (''merchant_id'', Avro_string),
      (''amount'', Avro_decimal 18 4), (''currency'', Avro_string), (''event_time'', Avro_timestamp_millis),
      (''processing_time'', Avro_timestamp_millis), (''channel'', Avro_string), (''card_bin'', Avro_string),
      (''card_last4'', Avro_string), (''caller_ip_subnet'', Avro_string), (''api_key_id'', Avro_string),
      (''oauth_scope'', Avro_string), (''geo_lat'', Avro_null_or_float), (''geo_lon'', Avro_null_or_float),
      (''masking_lib_version'', Avro_string)]"

definition txn_api_v1_avsc :: avro_schema where
  "txn_api_v1_avsc =
     [(''transaction_id'', Avro_string), (''account_id'', Avro_string), (''merchant_id'', Avro_string),
      (''amount'', Avro_decimal 18 4), (''currency'', Avro_string), (''event_time'', Avro_timestamp_millis),
      (''processing_time'', Avro_timestamp_millis), (''channel'', Avro_string), (''card_bin'', Avro_string),
      (''card_last4'', Avro_string), (''caller_ip_subnet'', Avro_string), (''api_key_id'', Avro_string),
      (''oauth_scope'', Avro_string), (''geo_lat'', Avro_null_or_float), (''geo_lon'', Avro_null_or_float),
      (''masking_lib_version'', Avro_string), (''schema_version'', Avro_string)]"

section \<open>Records\<close>

text \<open>A decoded value, and \<open>RawTransaction(**record)\<close> for the record of the schema.\<close>

datatype avro_value = Text string | Number rat | Time int | Coordinate "pyfloat option"

definition text_of :: "(string \<times> avro_value) list \<Rightarrow> string \<Rightarrow> string" where
  "text_of d k = (case map_of d k of Some (Text s) \<Rightarrow> s | _ \<Rightarrow> [])"

definition number_of :: "(string \<times> avro_value) list \<Rightarrow> string \<Rightarrow> rat" where
  "number_of d k = (case map_of d k of Some (Number q) \<Rightarrow> q | _ \<Rightarrow> 0)"

definition time_of :: "(string \<times> avro_value) list \<Rightarrow> string \<Rightarrow> int" where
  "time_of d k = (case map_of d k of Some (Time t) \<Rightarrow> t | _ \<Rightarrow> 0)"

definition coordinate_of :: "(string \<times> avro_value) list \<Rightarrow> string \<Rightarrow> pyfloat option" where
  "coordinate_of d k = (case map_of d k of Some (Coordinate c) \<Rightarrow> c | _ \<Rightarrow> None)"

definition decoded_of :: "(string \<times> avro_value) list \<Rightarrow> decoded" where
  "decoded_of d =
     \<lparr>dec_txn = \<lparr>rt_transaction_id = text_of d ''transaction_id'', rt_account_id = text_of d ''account_id'',
        rt_merchant_id = text_of d ''merchant_id'', rt_amount = number_of d ''amount'', rt_currency = text_of d ''currency'',
        rt_event_time = time_of d ''event_time'', rt_processing_time = time_of d ''processing_time'',
        rt_channel = text_of d ''channel'', rt_card_bin = text_of d ''card_bin'', rt_card_last4 = text_of d ''card_last4'',
        rt_caller_ip_subnet = text_of d ''caller_ip_subnet'', rt_api_key_id = text_of d ''api_key_id'',
        rt_oauth_scope = text_of d ''oauth_scope'', rt_geo_lat = coordinate_of d ''geo_lat'',
        rt_geo_lon = coordinate_of d ''geo_lon'', rt_masking_lib_version = text_of d ''masking_lib_version''\<rparr>,
      dec_event_time = Datetime (time_of d ''event_time''), dec_processing_time = Datetime (time_of d ''processing_time'')\<rparr>"

text \<open>Writing and reading a record field by field.\<close>

type_synonym field_encoder = "avro_type \<Rightarrow> pyval \<Rightarrow> 8 word list result"

type_synonym field_decoder = "avro_type \<Rightarrow> 8 word list \<Rightarrow> (avro_value \<times> 8 word list) result"

fun write_record :: "field_encoder \<Rightarrow> avro_schema \<Rightarrow> pydict \<Rightarrow> 8 word list result" where
  "write_record enc [] event = Inr []"
| "write_record enc ((k, t) # fs) event =
     rbind (enc t (dget event k)) (\<lambda>b. rbind (write_record enc fs event) (\<lambda>bs. Inr (b @ bs)))"

fun read_record :: "field_decoder \<Rightarrow> avro_schema \<Rightarrow> 8 word list \<Rightarrow> ((string \<times> avro_value) list \<times> 8 word list) result" where
  "read_record dec [] bs = Inr ([], bs)"
| "read_record dec ((k, t) # fs) bs =
     rbind (dec t bs) (\<lambda>(w, rest). rbind (read_record dec fs rest) (\<lambda>(d, end). Inr ((k, w) # d, end)))"

definition txn_reader :: "field_decoder \<Rightarrow> avro_reader" where
  "txn_reader dec body = rbind (read_record dec TXN_API_V1_SCHEMA body) (\<lambda>(d, rest). Inr (decoded_of d))"

section \<open>What is relied on\<close>

text \<open>
  A decimal is kept up to the precision of its type, a timestamp within the years of a datetime; beyond them
  the reader may round, or raise. A field that was written is read back up to its end, whatever follows.
\<close>

definition datetime_range :: "int \<Rightarrow> bool" where
  "datetime_range t \<longleftrightarrow> -62135596800000 \<le> t \<and> t < 253402300800000"

fun readable :: "avro_type \<Rightarrow> pyval \<Rightarrow> bool" where
  "readable Avro_timestamp_millis v = (case v of PInt t \<Rightarrow> datetime_range t | _ \<Rightarrow> False)"
| "readable (Avro_decimal p sc) v = (case v of PBytes b \<Rightarrow> True | _ \<Rightarrow> False)"
| "readable _ v = True"

fun reads_back :: "avro_type \<Rightarrow> pyval \<Rightarrow> avro_value \<Rightarrow> bool" where
  "reads_back Avro_string v (Text s) = (v = PStr s)"
| "reads_back (Avro_decimal p sc) v (Number q) =
     (case v of PBytes b \<Rightarrow> \<bar>be_signed b\<bar> < 10 ^ p \<longrightarrow> q = of_int (be_signed b) / 10 ^ sc | _ \<Rightarrow> False)"
| "reads_back Avro_timestamp_millis v (Time t) = (v = PInt t)"
| "reads_back Avro_null_or_float v (Coordinate c) = True"
| "reads_back _ v _ = False"

definition avro_fields :: "field_encoder \<Rightarrow> field_decoder \<Rightarrow> bool" where
  "avro_fields enc dec \<longleftrightarrow>
     (\<forall>t v b rest. enc t v = Inr b \<longrightarrow> readable t v \<longrightarrow> (\<exists>w. dec t (b @ rest) = Inr (w, rest) \<and> reads_back t v w))"

section \<open>The documented layout\<close>

text \<open>
  A codec with the layout of the Avro specification, for the types of the schema: a long is zigzag-coded in
  groups of seven bits, strings and bytes have their length before them, a union the index of its branch.
  Of the union the null branch is written only.
\<close>

fun varint :: "nat \<Rightarrow> 8 word list" where
  "varint n = (if n < 128 then [of_nat n] else of_nat (128 + n mod 128) # varint (n div 128))"

declare varint.simps [simp del]

fun read_varint :: "8 word list \<Rightarrow> (nat \<times> 8 word list) option" where
  "read_varint [] = None"
| "read_varint (b # bs) =
     (if unat b < 128 then Some (unat b, bs)
      else map_option (\<lambda>(n, rest). (unat b - 128 + 128 * n, rest)) (read_varint bs))"

definition zigzag :: "int \<Rightarrow> nat" where
  "zigzag i = (if 0 \<le> i then nat (2 * i) else nat (- 2 * i - 1))"

definition unzigzag :: "nat \<Rightarrow> int" where
  "unzigzag n = (if even n then int (n div 2) else - int (n div 2) - 1)"

definition sized :: "8 word list \<Rightarrow> 8 word list" where
  "sized bs = varint (zigzag (int (length bs))) @ bs"

definition read_sized :: "8 word list \<Rightarrow> (8 word list \<times> 8 word list) result" where
  "read_sized bs =
     (case read_varint bs of
        None \<Rightarrow> raise_exn OtherException ''unexpected end''
      | Some (n, rest) \<Rightarrow>
          (let len = nat (unzigzag n) in
           if length rest < len then raise_exn OtherException ''unexpected end'' else Inr (take len rest, drop len rest)))"

definition binary_encoder :: field_encoder where
  "binary_encoder t v =
     (case (t, v) of
        (Avro_string, PStr s) \<Rightarrow> Inr (sized (utf8_encode s))
      | (Avro_decimal p sc, PBytes b) \<Rightarrow> Inr (sized b)
      | (Avro_timestamp_millis, PInt i) \<Rightarrow> Inr (varint (zigzag i))
      | (Avro_null_or_float, PNone) \<Rightarrow> Inr (varint 0)
      | _ \<Rightarrow> raise_exn TypeError ''not of the type'')"

definition binary_decoder :: field_decoder where
  "binary_decoder t bs =
     (case t of
        Avro_string \<Rightarrow> rbind (read_sized bs) (\<lambda>(b, rest). Inr (Text (utf8_decode b), rest))
      | Avro_decimal p sc \<Rightarrow> rbind (read_sized bs) (\<lambda>(b, rest). Inr (Number (of_int (be_signed b) / 10 ^ sc), rest))
      | Avro_timestamp_millis \<Rightarrow>
          (case read_varint bs of None \<Rightarrow> raise_exn OtherException ''unexpected end'' | Some (n, rest) \<Rightarrow> Inr (Time (unzigzag n), rest))
      | Avro_null_or_float \<Rightarrow>
          (case read_varint bs of
             Some (0, rest) \<Rightarrow> Inr (Coordinate None, rest)
           | _ \<Rightarrow> raise_exn OtherException ''not the null branch''))"

lemma read_varint_varint: "read_varint (varint n @ rest) = Some (n, rest)"
proof (induction n rule: varint.induct)
  case (1 n)
  show ?case
  proof (cases "n < 128")
    case True
    then show ?thesis by (simp add: varint.simps [of n] unat_of_nat)
  next
    case False
    have "unat (of_nat (128 + n mod 128) :: 8 word) = 128 + n mod 128"
      by (subst unat_of_nat) simp
    then show ?thesis using False 1 by (simp add: varint.simps [of n])
  qed
qed

lemma unzigzag_zigzag: "unzigzag (zigzag i) = i"
proof (cases "0 \<le> i")
  case False
  then have "nat (- 2 * i - 1) = 2 * nat (- i - 1) + 1" by simp
  then show ?thesis using False by (simp add: zigzag_def unzigzag_def)
qed (simp add: zigzag_def unzigzag_def even_nat_iff nat_div_distrib)

lemma read_sized_sized: "read_sized (sized bs @ rest) = Inr (bs, rest)"
  by (simp add: read_sized_def sized_def read_varint_varint unzigzag_zigzag Let_def)

lemma binary_fields: "avro_fields binary_encoder binary_decoder"
  unfolding avro_fields_def
proof (intro allI impI)
  fix t v b rest
  assume "binary_encoder t v = Inr b" "readable t v"
  then show "\<exists>w. binary_decoder t (b @ rest) = Inr (w, rest) \<and> reads_back t v w"
    by (auto simp: binary_encoder_def binary_decoder_def raise_exn_def read_sized_sized read_varint_varint unzigzag_zigzag
        utf8_decode_encode split: avro_type.splits pyval.splits)
qed

section \<open>Reading what was written\<close>

text \<open>The reader's schema is the writer's without its last field, so the job reads a prefix of each message.\<close>

theorem reader_schema_is_prefix: "txn_api_v1_avsc = TXN_API_V1_SCHEMA @ [(''schema_version'', Avro_string)]"
  by (simp add: TXN_API_V1_SCHEMA_def txn_api_v1_avsc_def)

lemma read_prefix:
  assumes "avro_fields enc dec"
  shows "write_record enc (fs @ extra) event = Inr body \<Longrightarrow> list_all (\<lambda>(k, t). readable t (dget event k)) fs \<Longrightarrow>
    \<exists>d rest. read_record dec fs body = Inr (d, rest) \<and> map fst d = map fst fs \<and>
      list_all2 (\<lambda>(k, t) (k', w). reads_back t (dget event k) w) fs d"
proof (induction fs arbitrary: body)
  case (Cons f fs)
  obtain k t where f: "f = (k, t)" by force
  then obtain b bs where b: "enc t (dget event k) = Inr b" "write_record enc (fs @ extra) event = Inr bs" "body = b @ bs"
    using Cons.prems(1) by (auto simp: result_simps)
  obtain w where "dec t (b @ bs) = Inr (w, bs)" "reads_back t (dget event k) w"
    using assms b(1) Cons.prems(2) f unfolding avro_fields_def by fastforce
  moreover obtain d rest where "read_record dec fs bs = Inr (d, rest)" "map fst d = map fst fs"
    "list_all2 (\<lambda>(k, t) (k', w). reads_back t (dget event k) w) fs d"
    using Cons.IH [OF b(2)] Cons.prems(2) f by auto
  ultimately show ?case using b(3) f by simp
qed simp

lemma reads_back_lookup:
  assumes "list_all2 (\<lambda>(k, t) (k', w). reads_back t (dget event k) w) fs d" "map fst d = map fst fs" "map_of fs k = Some t"
  shows "\<exists>w. map_of d k = Some w \<and> reads_back t (dget event k) w"
  using assms by (induction rule: list_all2_induct) (auto split: if_splits)

end
