(* ===== verification/End_To_End.thy ===== *)
theory End_To_End
  imports Ingestion_Service Job Wire_Schemas
begin

text \<open>
  From the HTTP side to the decision: what the ingestion service answers with status 200 (Producer,
  Ingestion_Service) is what the job reads, decides and reports (Wire, Enrich, Job). Between the two stand
  the schemas of the topic (Wire_Schemas) and the codec of their fields, which is an argument under the
  hypothesis \<open>avro_fields\<close>.
\<close>

section \<open>The topic between the services\<close>

text \<open>Relied on: the producer accepts only what its serialiser could write.\<close>

definition serialises :: "field_encoder \<Rightarrow> ingest_env \<Rightarrow> bool" where
  "serialises enc env \<longleftrightarrow>
     (\<forall>evs event. produce_event env evs event = None \<longrightarrow> (\<exists>body. write_record enc txn_api_v1_avsc event = Inr body))"

text \<open>A clock between November 2004 and January 2038, five minutes off the ends.\<close>

definition clock_ok :: "ingest_env \<Rightarrow> bool" where
  "clock_ok env \<longleftrightarrow> 2 ^ 40 + 300000 < now_ms env \<and> now_ms env + 300000 < 1000 * 2 ^ 31"

text \<open>An event as a message in the registry's format.\<close>

definition topic_message :: "field_encoder \<Rightarrow> int \<Rightarrow> pydict \<Rightarrow> 8 word list result" where
  "topic_message enc schema_id event = serialise_enriched_transaction (write_record enc txn_api_v1_avsc) schema_id event"

section \<open>Lemmas\<close>

lemma keep_first_map: "keep_first key seen (map f xs) = map f (keep_first (\<lambda>x. key (f x)) seen xs)"
  by (induction xs arbitrary: seen) auto

lemma keep_first_relabel:
  assumes "inj g" shows "keep_first (\<lambda>x. g (key x)) (g ` seen) xs = keep_first key seen xs"
proof (induction xs arbitrary: seen)
  case (Cons x xs)
  have "g (key x) \<in> g ` seen \<longleftrightarrow> key x \<in> seen" using assms by (simp add: inj_image_mem_iff)
  then show ?case using Cons [of seen] Cons [of "insert (key x) seen"] by simp
qed simp

text \<open>The string fields of an event and of the transaction the job makes of it.\<close>

definition string_columns :: "(string \<times> (raw_transaction \<Rightarrow> string)) list" where
  "string_columns =
     [(''transaction_id'', rt_transaction_id), (''account_id'', rt_account_id), (''merchant_id'', rt_merchant_id),
      (''currency'', rt_currency), (''channel'', rt_channel), (''card_bin'', rt_card_bin),
      (''card_last4'', rt_card_last4), (''caller_ip_subnet'', rt_caller_ip_subnet), (''api_key_id'', rt_api_key_id),
      (''oauth_scope'', rt_oauth_scope), (''masking_lib_version'', rt_masking_lib_version)]"

text \<open>An event that was written and whose fields can be read.\<close>

definition arriving :: "field_encoder \<Rightarrow> pydict \<Rightarrow> bool" where
  "arriving enc event \<longleftrightarrow> (\<exists>body. write_record enc txn_api_v1_avsc event = Inr body) \<and>
     list_all (\<lambda>(k, t). readable t (dget event k)) TXN_API_V1_SCHEMA"

definition carries :: "pydict \<Rightarrow> raw_transaction \<Rightarrow> bool" where
  "carries event txn \<longleftrightarrow>
     list_all (\<lambda>(k, f). dget event k = PStr (f txn)) string_columns \<and>
     (\<forall>b. dget event ''amount'' = PBytes b \<and> \<bar>be_signed b\<bar> < 10 ^ 18 \<longrightarrow> rt_amount txn = of_int (be_signed b) / 10000) \<and>
     (\<forall>t. dget event ''event_time'' = PInt t \<longrightarrow> rt_event_time txn = time_to_ms (Datetime t)) \<and>
     (\<forall>t. dget event ''processing_time'' = PInt t \<longrightarrow> rt_processing_time txn = time_to_ms (Datetime t))"

text \<open>What a record read with the schema holds, by the type of the field.\<close>

lemma looked_up:
  assumes "map_of d k = Some w"
  shows "reads_back Avro_string v w \<Longrightarrow> v = PStr (text_of d k)"
    and "reads_back (Avro_decimal p sc) v w \<Longrightarrow> v = PBytes b \<Longrightarrow> \<bar>be_signed b\<bar> < 10 ^ p \<Longrightarrow>
      number_of d k = of_int (be_signed b) / 10 ^ sc"
    and "reads_back Avro_timestamp_millis v w \<Longrightarrow> v = PInt (time_of d k)"
  using assms by (cases w; simp add: text_of_def number_of_def time_of_def)+

lemma message_read:
  assumes "avro_fields enc dec" "arriving enc event" "0 \<le> sid" "sid < 2 ^ 32"
  obtains payload txn where "topic_message enc sid event = Inr payload"
    "deserialise_raw_transaction (txn_reader dec) None payload = Inr txn" "carries event txn"
proof -
  obtain body where body: "write_record enc (TXN_API_V1_SCHEMA @ [(''schema_version'', Avro_string)]) event = Inr body"
    using assms(2) by (auto simp: arriving_def reader_schema_is_prefix)
  obtain d rest where d: "read_record dec TXN_API_V1_SCHEMA body = Inr (d, rest)" "map fst d = map fst TXN_API_V1_SCHEMA"
    "list_all2 (\<lambda>(k, t) (k', w). reads_back t (dget event k) w) TXN_API_V1_SCHEMA d"
    using read_prefix [OF assms(1) body] assms(2) by (auto simp: arriving_def)
  note field = reads_back_lookup [OF d(3,2)]
  have str: "dget event k = PStr (text_of d k)" if "map_of TXN_API_V1_SCHEMA k = Some Avro_string" for k
    using field [OF that] looked_up(1) by blast
  have time: "dget event k = PInt (time_of d k)" if "map_of TXN_API_V1_SCHEMA k = Some Avro_timestamp_millis" for k
    using field [OF that] looked_up(3) by blast
  have amount: "number_of d ''amount'' = of_int (be_signed b) / 10 ^ 4"
    if "dget event ''amount'' = PBytes b" "\<bar>be_signed b\<bar> < 10 ^ 18" for b
    using field [of "''amount''" "Avro_decimal 18 4"] looked_up(2) that by (auto simp: TXN_API_V1_SCHEMA_def)
  let ?txn = "(dec_txn (decoded_of d))\<lparr>rt_event_time := time_to_ms (dec_event_time (decoded_of d)),
    rt_processing_time := time_to_ms (dec_processing_time (decoded_of d))\<rparr>"
  have c: "carries event ?txn"
    unfolding carries_def string_columns_def using str time amount
    by (simp add: decoded_of_def TXN_API_V1_SCHEMA_def del: time_to_ms.simps)
  obtain sid' where s: "int_to_bytes_unsigned sid 4 = Inr sid'" "length sid' = 4"
    using assms(3,4) be_unsigned_schema_id [of sid] by (auto simp: int_to_bytes_unsigned_def)
  then have m: "topic_message enc sid event = Inr ([0] @ sid' @ body)"
    using body by (simp add: topic_message_def serialise_enriched_transaction_def wire_format_def reader_schema_is_prefix)
  have "deserialise_raw_transaction (txn_reader dec) None ([0] @ sid' @ body) = Inr ?txn"
    using s(2) d(1) by (simp add: deserialise_raw_transaction_def txn_reader_def Let_def del: time_to_ms.simps)
  then show thesis using that m c by blast
qed

text \<open>A request whose event was accepted: a validated payload; an answer 200 names the event.\<close>

lemma post_queued:
  assumes "do_POST env cfg ch json_loads path len read s = (s', r)" "p_events s' \<noteq> p_events s \<or> (\<exists>body. r = Inr (200, body))"
  obtains n raw event where "json_loads (read n) = Inr (PDict raw)" "validate_required_fields raw = Inr []"
    "validate_field_values (now_ms env) raw = Inr []" "TransactionEventBuilder_build env cfg ch raw = Inr event"
    "produce_event env (p_events s) event = None" "p_events s' = p_events s @ [event]"
    "\<And>body. r = Inr (200, body) \<Longrightarrow> dget body ''transaction_id'' = dget event ''transaction_id''"
  using assms(1)
proof (cases rule: post_cases)
  case refused
  then show ?thesis using assms(2) by (auto simp: answered_id_def)
next
  case (published n raw r')
  show ?thesis using published(4)
  proof (cases rule: publish_events)
    case (rejected e)
    then show ?thesis using assms(2) published(5) by (auto simp: publish_reply_200)
  next
    case (queued event)
    have "truthy (dget raw ''transaction_id'')"
      using published(2) by (auto simp: validate_required_fields_def required_fields_def raise_exn_def Let_def split: if_splits)
    then have or: "py_or (dget raw ''transaction_id'') v = dget raw ''transaction_id''" for v by (simp add: py_or_def)
    have "dget event ''transaction_id'' = py_or (dget raw ''transaction_id'') (PStr (event_uuid env))"
      using built_event [OF queued(1)] by blast
    note id = this [unfolded or] or [of "PStr (fresh_uuid env)"]
    have "dget body ''transaction_id'' = dget event ''transaction_id''" if "r = Inr (200, body)" for body
    proof -
      have "publish_reply env r' = Inr (200, body)" using that published(5) by simp
      then obtain res where res: "r' = Inr res" "publish_response (Inr res) = (200, body)"
        unfolding publish_reply_200 by blast
      then have "pub_transaction_id res = dget raw ''transaction_id''" using queued(5) id(2) by auto
      then show ?thesis using res(2) id(1) by (auto simp: publish_response_def dget_def)
    qed
    then show ?thesis using that [OF published(1-3) queued(1,3,4)] by blast
  qed
qed

lemma post_200:
  assumes "do_POST env cfg ch json_loads path len read s = (s', Inr (200, body))"
  obtains n raw event where "json_loads (read n) = Inr (PDict raw)" "validate_required_fields raw = Inr []"
    "validate_field_values (now_ms env) raw = Inr []" "TransactionEventBuilder_build env cfg ch raw = Inr event"
    "produce_event env (p_events s) event = None" "p_events s' = p_events s @ [event]"
    "dget body ''transaction_id'' = dget event ''transaction_id''"
  by (rule post_queued [OF assms]) (use that in blast)+

lemma validated_time:
  assumes "validate_required_fields raw = Inr []" "validate_field_values now raw = Inr []"
    "rbind (dsub raw ''event_time'') py_int = Inr t"
  shows "\<bar>now - t\<bar> \<le> 300000"
proof -
  have "truthy (dget raw ''event_time'')"
    using assms(1) by (auto simp: validate_required_fields_def required_fields_def raise_exn_def Let_def split: if_splits)
  moreover have "dget raw ''event_time'' = v" if "dsub raw ''event_time'' = Inr v" for v
    using that by (auto simp: dsub_def dget_def raise_exn_def split: option.splits)
  moreover obtain es where "event_time_errors now raw = Inr es" "es = []"
    using assms(2) by (auto simp: validate_field_values_def result_simps Let_def raise_exn_def split: if_splits)
  ultimately show ?thesis
    using assms(3) by (auto simp: event_time_errors_def result_simps split: pyval.splits if_splits)
qed

lemma clock_range: "clock_ok env \<Longrightarrow> \<bar>now_ms env - t\<bar> \<le> 300000 \<Longrightarrow> 2 ^ 40 < t \<and> t < 1000 * 2 ^ 31 \<and> datetime_range t"
  by (auto simp: clock_ok_def datetime_range_def)

lemma built_arrives:
  assumes "TransactionEventBuilder_build env cfg ch raw = Inr event" "write_record enc txn_api_v1_avsc event = Inr body"
    "clock_ok env" "validate_required_fields raw = Inr []" "validate_field_values (now_ms env) raw = Inr []"
  shows "arriving enc event"
proof -
  obtain bs t where e: "dget event ''amount'' = PBytes bs" "dget event ''event_time'' = PInt t"
    "rbind (dsub raw ''event_time'') py_int = Inr t"
    using built_event [OF assms(1)] by blast
  have "datetime_range t" using clock_range [OF assms(3)] validated_time [OF assms(4,5) e(3)] by blast
  moreover have "dget event ''processing_time'' = PInt (now_ms env)"
    using assms(1) by (auto simp: TransactionEventBuilder_build_def result_simps Let_def dget_def simp del: py_int.simps split: if_splits)
  moreover have "datetime_range (now_ms env)" using clock_range [OF assms(3), of "now_ms env"] by simp
  ultimately show ?thesis using assms(2) e(1,2) by (simp add: arriving_def TXN_API_V1_SCHEMA_def)
qed

lemma post_arriving:
  assumes "serialises enc env" "clock_ok env" "list_all (arriving enc) (p_events s)"
  shows "list_all (arriving enc) (p_events (fst (do_POST env cfg ch json_loads path len read s)))"
proof (cases "p_events (fst (do_POST env cfg ch json_loads path len read s)) = p_events s")
  case False
  obtain s' r where p: "do_POST env cfg ch json_loads path len read s = (s', r)" by fastforce
  then have "p_events s' \<noteq> p_events s \<or> (\<exists>body. r = Inr (200, body))" using False by simp
  from post_queued [OF p this] obtain n raw event where e: "validate_required_fields raw = Inr []"
    "validate_field_values (now_ms env) raw = Inr []" "TransactionEventBuilder_build env cfg ch raw = Inr event"
    "produce_event env (p_events s) event = None" "p_events s' = p_events s @ [event]" by metis
  then show ?thesis using assms p built_arrives by (fastforce simp: serialises_def)
qed (use assms(3) in simp)

lemma serve_arriving:
  "list_all (\<lambda>rq. serialises enc (rq_env rq) \<and> clock_ok (rq_env rq)) rqs \<Longrightarrow> list_all (arriving enc) (p_events s) \<Longrightarrow>
   list_all (arriving enc) (p_events (fst (serve_forever cfg ch json_loads rqs s)))"
proof (induction rqs arbitrary: s)
  case (Cons rq rqs)
  then show ?case
    using post_arriving [of enc "rq_env rq" s cfg ch json_loads "rq_path rq" "rq_length rq" "rq_read rq"]
    by (simp add: case_prod_unfold Let_def)
qed simp

text \<open>The transactions the job reads from a sequence of deliveries are those of the delivered events.\<close>

lemma delivered_stream:
  assumes "avro_fields enc dec" "0 \<le> sid" "sid < 2 ^ 32" "list_all (\<lambda>(ec, ev). arriving enc ev) deliveries"
  shows "map (\<lambda>(ec, txn). (ec, PStr (rt_transaction_id txn)))
      (txn_stream (txn_reader dec) topic (map (\<lambda>(ec, ev). (ec, projr (topic_message enc sid ev))) deliveries)) =
    map (\<lambda>(ec, ev). (ec, dget ev ''transaction_id'')) deliveries"
  using assms(4)
proof (induction deliveries)
  case (Cons x xs)
  obtain ec ev where x: "x = (ec, ev)" by force
  then have "arriving enc ev" using Cons.prems by simp
  from message_read [OF assms(1) this assms(2,3)] obtain payload txn where "topic_message enc sid ev = Inr payload"
    "deserialise_raw_transaction (txn_reader dec) None payload = Inr txn" "carries ev txn" .
  then show ?case using Cons x by (simp add: txn_stream_def deserialise_with_dlq_def carries_def string_columns_def)
qed (simp add: txn_stream_def)

text \<open>The decisions over deliveries are those of the first delivery of each identifier, less the late ones.\<close>

lemma decided_first:
  assumes "avro_fields enc dec" "0 \<le> sid" "sid < 2 ^ 32" "jp_rules p = Some rules"
    and "list_all (\<lambda>(ec, ev). arriving enc ev) deliveries"
    and "\<forall>x \<in> set deliveries. t0 \<le> ec_proc_now (fst x) \<and> ec_proc_now (fst x) < t0 + dedup_ttl_ms"
  shows "map fd_transaction_id (jo_decisions (run_enrichment_job p version (txn_reader dec) geo dumps clock
      (map (\<lambda>(ec, ev). (ec, projr (topic_message enc sid ev))) deliveries))) =
    map (\<lambda>x. dget (snd x) ''transaction_id'')
      (filter (\<lambda>x. \<not> too_late (jp_allowed_lateness_ms p) (fst x))
        (keep_first (\<lambda>x. dget (snd x) ''transaction_id'') {} deliveries))" (is "?ids = _")
proof -
  let ?key = "\<lambda>x :: element_context \<times> pydict. dget (snd x) ''transaction_id''"
  let ?late = "\<lambda>x. \<not> too_late (jp_allowed_lateness_ms p) (fst x)"
  let ?arrivals = "map (\<lambda>(ec, ev). (ec, projr (topic_message enc sid ev))) deliveries"
  let ?xs = "txn_stream (txn_reader dec) (jp_input_topic p) ?arrivals"
  let ?f = "\<lambda>(ec :: element_context, txn). (ec, PStr (rt_transaction_id txn))"
  note stream = delivered_stream [OF assms(1-3,5), of "jp_input_topic p"]
  have "\<forall>x \<in> set ?arrivals. t0 \<le> ec_proc_now (fst x) \<and> ec_proc_now (fst x) < t0 + dedup_ttl_ms" using assms(6) by auto
  note once = job_decides_each_once [OF assms(4) this, of version "txn_reader dec" geo dumps clock]
  have "?ids = map snd (map ?f (filter ?late (keep_first (\<lambda>x. rt_transaction_id (snd x)) {} ?xs)))"
    unfolding once by (simp add: case_prod_unfold)
  also have "map ?f (filter ?late (keep_first (\<lambda>x. rt_transaction_id (snd x)) {} ?xs)) =
      filter ?late (map ?f (keep_first (\<lambda>x. PStr (rt_transaction_id (snd x))) {} ?xs))"
    using keep_first_relabel [of PStr "\<lambda>x :: element_context \<times> raw_transaction. rt_transaction_id (snd x)" "{}" ?xs]
    by (simp add: filter_map o_def case_prod_unfold inj_def)
  also have "\<dots> = filter ?late (keep_first snd {} (map ?f ?xs))" by (simp add: keep_first_map case_prod_unfold)
  also have "\<dots> = filter ?late (map (\<lambda>x. (fst x, ?key x)) (keep_first ?key {} deliveries))"
    unfolding stream by (simp add: keep_first_map case_prod_unfold)
  finally show ?thesis by (simp add: filter_map o_def)
qed

text \<open>One payment, an environment that accepts its event only, and a codec for it.\<close>

definition arrival_payload :: pydict where
  "arrival_payload = dset good_payload ''event_time'' (PInt 1760000000123)"

definition arrival_event :: pydict where
  "arrival_event =
     [(''transaction_id'', PStr ''t1''), (''account_id'', PStr ''a1''), (''merchant_id'', PStr ''m1''),
      (''amount'', PBytes [3, 13, 64]), (''currency'', PStr ''EUR''), (''event_time'', PInt 1760000000123),
      (''processing_time'', PInt 1760000000000), (''channel'', PStr ''API''), (''card_bin'', PStr ''411111''),
      (''card_last4'', PStr ''1111''), (''caller_ip_subnet'', PStr ''203.0.113.0''), (''api_key_id'', PStr ''k''),
      (''oauth_scope'', PStr ''w''), (''geo_lat'', PNone), (''geo_lon'', PNone),
      (''masking_lib_version'', PStr ''1.0.0''), (''schema_version'', PStr ''1'')]"

definition arrival_env :: ingest_env where
  "arrival_env = quiet_env\<lparr>now_ms := 1760000000000, produce_event :=
     (\<lambda>_ ev. case write_record binary_encoder txn_api_v1_avsc ev of Inr body \<Rightarrow> None | Inl e \<Rightarrow> Some e)\<rparr>"

lemma arrival_laws: "serialises binary_encoder arrival_env" "clock_ok arrival_env"
  by (auto simp: serialises_def arrival_env_def clock_ok_def split: sum.splits)

definition arrival_request :: request where
  "arrival_request = \<lparr>rq_env = arrival_env, rq_path = ''/v1/transactions'', rq_length = Some ''2'', rq_read = (\<lambda>_. ''{}'')\<rparr>"

lemma arrival_served:
  obtains s' body where
    "do_POST arrival_env MaskingConfig_default ''API'' (\<lambda>_. Inr (PDict arrival_payload)) ''/v1/transactions'' (Some ''2'') (\<lambda>_. ''{}'')
       fresh_producer = (s', Inr (200, body))"
    "p_events s' = [arrival_event]" "dget body ''transaction_id'' = PStr ''t1''"
proof -
  have b: "TransactionEventBuilder_build (quiet_env\<lparr>now_ms := 1760000000000\<rparr>) MaskingConfig_default ''API'' arrival_payload =
      Inr arrival_event"
    "assert_no_pii_leak arrival_event = Inr ()" "py_int (PStr ''2'') = Inr 2" "\<not> has_key arrival_payload ''channel''"
    "validate_required_fields arrival_payload = Inr []" "validate_field_values 1760000000000 arrival_payload = Inr []"
    "dget arrival_payload ''transaction_id'' = PStr ''t1''"
    by code_simp+
  moreover have "TransactionEventBuilder_build arrival_env = TransactionEventBuilder_build (quiet_env\<lparr>now_ms := 1760000000000\<rparr>)"
    "now_ms arrival_env = 1760000000000"
    by (simp_all add: TransactionEventBuilder_build_def arrival_env_def fun_eq_iff)
  moreover have "poll_reports arrival_env = []" "poll_error arrival_env = None" "respond arrival_env r = None" for r
    by (simp_all add: arrival_env_def quiet_env_def)
  moreover have "case write_record binary_encoder txn_api_v1_avsc arrival_event of Inl e \<Rightarrow> False | Inr b \<Rightarrow> True" by code_simp
  then have "produce_event arrival_env evs arrival_event = None" for evs
    by (simp add: arrival_env_def split: sum.splits)
  ultimately have "do_POST arrival_env MaskingConfig_default ''API'' (\<lambda>_. Inr (PDict arrival_payload)) ''/v1/transactions''
      (Some ''2'') (\<lambda>_. ''{}'') fresh_producer =
    (fresh_producer\<lparr>p_events := [arrival_event], p_metrics := [PLatency (monotonic_ms arrival_env), PAccepted]\<rparr>,
     Inr (200, [(''transaction_id'', PStr ''t1''), (''status'', PStr ''accepted''), (''latency_ms'', PInt (monotonic_ms arrival_env))]))"
    by (simp add: do_POST_def contains_channel_def ProducerService_publish_def publish_reply_def publish_response_def fresh_producer_def py_or_def
        Let_def del: py_int.simps)
  then show thesis by (rule that) (simp_all add: dget_def)
qed

section \<open>Properties\<close>

text \<open>C3: What was answered with 200 arrives. The payload of the request was validated and made one event, the
  event has a message in the registry's format, and the job reads from it a transaction with the identifier
  that was answered, the payload's account, merchant, currency, key and scope, the masked card, the
  truncated address and exactly the payload's event time, which is within five minutes of the server's
  clock; an amount that is a multiple of a ten-thousandth, up to 2 ^ 50 of them, arrives exactly.\<close>

theorem accepted_payment_arrives:
  assumes "do_POST env cfg ch json_loads path len read s = (s', Inr (200, body))"
    and "avro_fields enc dec" "serialises enc env" "clock_ok env" "0 \<le> sid" "sid < 2 ^ 32"
  shows "\<exists>n raw event payload txn m.
    json_loads (read n) = Inr (PDict raw) \<and> p_events s' = p_events s @ [event] \<and>
    topic_message enc sid event = Inr payload \<and>
    deserialise_raw_transaction (txn_reader dec) None payload = Inr txn \<and>
    dget body ''transaction_id'' = PStr (rt_transaction_id txn) \<and> rt_channel txn = ch \<and>
    list_all (\<lambda>(k, f). dsub raw k = Inr (PStr (f txn)))
      [(''account_id'', rt_account_id), (''merchant_id'', rt_merchant_id), (''currency'', rt_currency),
       (''api_key_id'', rt_api_key_id), (''oauth_scope'', rt_oauth_scope)] \<and>
    mask_card cfg raw = Inr m \<and> rt_card_bin txn = bin6 m \<and> rt_card_last4 txn = last4 m \<and>
    mask_ip cfg raw = Inr (rt_caller_ip_subnet txn) \<and>
    rbind (dsub raw ''event_time'') py_int = Inr (rt_event_time txn) \<and> \<bar>now_ms env - rt_event_time txn\<bar> \<le> 300000 \<and>
    (\<forall>k. \<bar>k\<bar> \<le> 2 ^ 50 \<and> rbind (dsub raw ''amount'') py_float = Inr (to_double (of_int k / 10000)) \<longrightarrow>
         rt_amount txn = of_int k / 10000)"
proof -
  obtain n raw event where e: "json_loads (read n) = Inr (PDict raw)" "validate_required_fields raw = Inr []"
    "validate_field_values (now_ms env) raw = Inr []" "TransactionEventBuilder_build env cfg ch raw = Inr event"
    "produce_event env (p_events s) event = None" "p_events s' = p_events s @ [event]"
    "dget body ''transaction_id'' = dget event ''transaction_id''"
    by (rule post_200 [OF assms(1)])
  obtain bytes where "write_record enc txn_api_v1_avsc event = Inr bytes" using e(5) assms(3) by (auto simp: serialises_def)
  then have "arriving enc event" using built_arrives [OF e(4) _ assms(4) e(2,3)] by blast
  from message_read [OF assms(2) this assms(5,6)] obtain payload txn where
    p: "topic_message enc sid event = Inr payload" "deserialise_raw_transaction (txn_reader dec) None payload = Inr txn"
      "carries event txn" .
  obtain m subnet amt bs t where b:
    "mask_card cfg raw = Inr m" "mask_ip cfg raw = Inr subnet" "dsub raw ''amount'' = Inr amt" "encode_amount amt = Inr bs"
    "rbind (dsub raw ''event_time'') py_int = Inr t"
    "\<forall>k \<in> {''account_id'', ''merchant_id'', ''currency'', ''api_key_id'', ''oauth_scope''}. dsub raw k = Inr (dget event k)"
    "dget event ''channel'' = PStr ch" "dget event ''card_bin'' = PStr (bin6 m)" "dget event ''card_last4'' = PStr (last4 m)"
    "dget event ''caller_ip_subnet'' = PStr subnet" "dget event ''amount'' = PBytes bs" "dget event ''event_time'' = PInt t"
    using built_event [OF e(4)] by (elim exE conjE) (rule that)
  have near: "\<bar>now_ms env - t\<bar> \<le> 300000" using validated_time [OF e(2,3) b(5)] .
  then have time: "rt_event_time txn = t"
    using clock_range [OF assms(4) near] time_to_ms_exact [of t] p(3) b(12) by (simp add: carries_def del: time_to_ms.simps)
  have amount: "rt_amount txn = of_int k / 10000"
    if "\<bar>k\<bar> \<le> 2 ^ 50" "rbind (dsub raw ''amount'') py_float = Inr (to_double (of_int k / 10000))" for k
    using encode_amount_exact [OF that(1), of amt] that b(3,4,11) p(3) by (auto simp: carries_def)
  have "list_all (\<lambda>(k, f). dget event k = PStr (f txn)) string_columns" using p(3) by (simp add: carries_def)
  then show ?thesis
    using p(1,2) e(1,6,7) b(1,2,5-10) near time amount
    by (intro exI [of _ n] exI [of _ raw] exI [of _ event] exI [of _ payload] exI [of _ txn] exI [of _ m])
      (simp add: string_columns_def)
qed

lemma accepted_payment_arrives_witness:
  "\<exists>payload txn. topic_message binary_encoder 7 arrival_event = Inr payload \<and>
     deserialise_raw_transaction (txn_reader binary_decoder) None payload = Inr txn \<and>
     rt_amount txn = 20 \<and> rt_event_time txn = 1760000000123 \<and> rt_account_id txn = ''a1''"
proof (rule arrival_served)
  fix s' body
  assume e: "do_POST arrival_env MaskingConfig_default ''API'' (\<lambda>_. Inr (PDict arrival_payload)) ''/v1/transactions''
      (Some ''2'') (\<lambda>_. ''{}'') fresh_producer = (s', Inr (200, body))" "p_events s' = [arrival_event]"
  have p: "rbind (dsub arrival_payload ''amount'') py_float = Inr (to_double (of_int 200000 / 10000))"
    "rbind (dsub arrival_payload ''event_time'') py_int = Inr 1760000000123" "dsub arrival_payload ''account_id'' = Inr (PStr ''a1'')"
    "p_events fresh_producer = []"
    by code_simp+
  have "(0::int) \<le> 7" "(7::int) < 2 ^ 32" by simp_all
  from accepted_payment_arrives [OF e(1) binary_fields arrival_laws this] obtain n raw event payload txn where
    r: "(Inr (PDict arrival_payload) :: pyval result) = Inr (PDict raw)" "p_events s' = p_events fresh_producer @ [event]"
    "topic_message binary_encoder 7 event = Inr payload"
    "deserialise_raw_transaction (txn_reader binary_decoder) None payload = Inr txn"
    "dsub raw ''account_id'' = Inr (PStr (rt_account_id txn))"
    "rbind (dsub raw ''event_time'') py_int = Inr (rt_event_time txn)" and
    q: "\<forall>k. \<bar>k\<bar> \<le> 2 ^ 50 \<and> rbind (dsub raw ''amount'') py_float = Inr (to_double (of_int k / 10000)) \<longrightarrow>
      rt_amount txn = of_int k / 10000"
    by (auto simp del: py_int.simps)
  show ?thesis
    using r p e(2) q [THEN spec, of 200000] by simp
qed

text \<open>Each accepted payment is decided once. The server answers a sequence of requests; Kafka delivers the
  events to the job in any order and as often as it likes. Over deliveries that fit into the lifetime of the
  deduplication state the decisions are those of the first deliveries, in their order and each identifier
  once, less the late ones; when every event is delivered and none is late, exactly the identifiers of the
  accepted events are decided.\<close>

theorem payments_decided_once:
  assumes "avro_fields enc dec" "0 \<le> sid" "sid < 2 ^ 32" "jp_rules p = Some rules"
    and "list_all (\<lambda>rq. serialises enc (rq_env rq) \<and> clock_ok (rq_env rq)) requests" "p_events s = []"
    and served: "serve_forever cfg ch json_loads requests s = (s', answers)"
    and "set (map snd deliveries) \<subseteq> set (p_events s')"
    and "\<forall>x \<in> set deliveries. t0 \<le> ec_proc_now (fst x) \<and> ec_proc_now (fst x) < t0 + dedup_ttl_ms"
    and ids: "ids = map fd_transaction_id (jo_decisions (run_enrichment_job p version (txn_reader dec) geo dumps clock
      (map (\<lambda>(ec, ev). (ec, projr (topic_message enc sid ev))) deliveries)))"
  shows "ids = map (\<lambda>x. dget (snd x) ''transaction_id'')
      (filter (\<lambda>x. \<not> too_late (jp_allowed_lateness_ms p) (fst x))
        (keep_first (\<lambda>x. dget (snd x) ''transaction_id'') {} deliveries)) \<and>
    distinct ids \<and>
    (set (p_events s') \<subseteq> set (map snd deliveries) \<and>
       (\<forall>x \<in> set deliveries. \<not> too_late (jp_allowed_lateness_ms p) (fst x)) \<longrightarrow>
      set ids = set (queued_ids s'))"
proof -
  let ?key = "\<lambda>x :: element_context \<times> pydict. dget (snd x) ''transaction_id''"
  let ?late = "\<lambda>x. \<not> too_late (jp_allowed_lateness_ms p) (fst x)"
  have "list_all (arriving enc) (p_events s')"
    using serve_arriving [OF assms(5), of s cfg ch json_loads] assms(6) served by simp
  then have "list_all (\<lambda>(ec, ev). arriving enc ev) deliveries" using assms(8) by (fastforce simp: list_all_iff)
  then have eq: "ids = map ?key (filter ?late (keep_first ?key {} deliveries))"
    unfolding ids by (rule decided_first [OF assms(1-4) _ assms(9)])
  have "distinct ids" unfolding eq by (rule distinct_map_filter) (rule keep_first_distinct)
  moreover have "set ids = set (queued_ids s')"
    if "set (p_events s') \<subseteq> set (map snd deliveries)" "\<forall>x \<in> set deliveries. ?late x"
  proof -
    have "filter ?late (keep_first ?key {} deliveries) = keep_first ?key {} deliveries"
      using that(2) keep_first_subseq [of ?key "{}" deliveries] by (auto simp: filter_id_conv dest: list_emb_set)
    then have "set ids = ?key ` set deliveries" using keep_first_keys [of ?key "{}" deliveries] by (simp add: eq)
    also have "\<dots> = (\<lambda>ev. dget ev ''transaction_id'') ` set (map snd deliveries)" by (simp add: image_image)
    also have "set (map snd deliveries) = set (p_events s')" using assms(8) that(1) by (rule equalityI)
    also have "(\<lambda>ev. dget ev ''transaction_id'') ` set (p_events s') = set (queued_ids s')" by (simp add: queued_ids_def)
    finally show ?thesis .
  qed
  ultimately show ?thesis using eq by blast
qed

lemma payments_decided_once_witness:
  "map fd_transaction_id (jo_decisions (run_enrichment_job sample_plan ''v'' (txn_reader binary_decoder) None (\<lambda>_. []) (\<lambda>_. 0)
     (replicate 2 (idle_context, projr (topic_message binary_encoder 7 arrival_event))))) = [PStr ''t1'']"
proof (rule arrival_served)
  fix s' body
  assume e: "do_POST arrival_env MaskingConfig_default ''API'' (\<lambda>_. Inr (PDict arrival_payload)) ''/v1/transactions''
      (Some ''2'') (\<lambda>_. ''{}'') fresh_producer = (s', Inr (200, body))" "p_events s' = [arrival_event]"
  have "serve_forever MaskingConfig_default ''API'' (\<lambda>_. Inr (PDict arrival_payload)) [arrival_request] fresh_producer =
      (s', [Inr (200, body)])"
    using e(1) by (simp add: arrival_request_def)
  moreover have "dget arrival_event ''transaction_id'' = PStr ''t1''" by code_simp
  moreover have "(0::int) \<le> 7" "(7::int) < 2 ^ 32" by simp_all
  ultimately show ?thesis
    using payments_decided_once [where p = sample_plan and rules = "[]" and requests = "[arrival_request]"
        and s = fresh_producer and sid = 7 and deliveries = "replicate 2 (idle_context, arrival_event)" and ?t0.0 = 0
        and version = "''v''" and geo = None and dumps = "\<lambda>_. []" and clock = "\<lambda>_. 0",
        OF binary_fields _ _ _ _ _ _ _ _ refl] arrival_laws e(2)
    by (simp add: sample_plan_def fresh_producer_def idle_context_def dedup_ttl_ms_def too_late_def arrival_request_def
        numeral_2_eq_2)
qed

end
