(* ===== verification/Decision_Table.thy ===== *)
theory Decision_Table
  imports End_To_End Iceberg_Sinks
begin

text \<open>
  The last step of a payment: the stream of decisions through \<open>IcebergSinkFunction\<close> (\<open>scoring/job_extension.py\<close>)
  into the table of the decisions. The sink flushes when a second has passed or its buffer is full; the
  theorems hold for any such timing, as long as Arrow builds and the appends land.
\<close>

section \<open>The stream into the sink\<close>

text \<open>Each decision comes with the two environments its flushes may meet; at the end the sink is closed.\<close>

fun sink_stream ::
  "nat \<Rightarrow> (pyval \<Rightarrow> string) \<Rightarrow> ((flush_env \<times> flush_env) \<times> fraud_decision) list \<Rightarrow> catalog_sink option \<Rightarrow> catalog_sink option" where
  "sink_stream n sf [] k = k"
| "sink_stream n sf ((es, d) # xs) k = sink_stream n sf xs (fst (IcebergSinkFunction_map n sf es (Some d) k))"

definition calm :: "flush_env \<Rightarrow> bool" where
  "calm e \<longleftrightarrow> (\<forall>rows. env_arrow e rows = None) \<and> env_append e = Appended"

text \<open>The row of a decision.\<close>

definition decision_values :: "fraud_decision \<Rightarrow> pyval list" where
  "decision_values d =
     [fd_transaction_id d, PStr (verdict_name (fd_decision d)), PFloat (fd_fraud_score d),
      PList (map PStr (fd_rule_triggers d)), PStr (fd_model_version d), PInt (fd_decision_time_ms d * 1000),
      PFloat (fd_latency_ms d), PStr (fd_schema_version d)]"

definition named :: "fraud_decision \<Rightarrow> bool" where
  "named d \<longleftrightarrow> (\<exists>t. fd_transaction_id d = PStr t)"

section \<open>Lemmas\<close>

lemma decision_key [simp]: "rec_key (decision_record d) = fd_transaction_id d"
  by (simp add: decision_record_def dget_or_def)

lemma named_string_id: "named d \<Longrightarrow> string_id (decision_record d)"
  by (simp add: named_def string_id_def)

lemma decision_table_values: "list_all named ds \<Longrightarrow> decision_table sf (map decision_record ds) = Inr (map decision_values ds)"
proof (induction ds)
  case (Cons d ds)
  then obtain t where "fd_transaction_id d = PStr t" by (auto simp: named_def)
  then show ?case using Cons by (simp add: decision_table_def decision_row_exact decision_values_def)
qed (simp add: decision_table_def)

text \<open>Some of the decisions are in the table, the rest in the buffer, and the sink is open.\<close>

definition holding :: "pyval list list \<Rightarrow> dlq_event list \<Rightarrow> fraud_decision list \<Rightarrow> catalog_sink \<Rightarrow> bool" where
  "holding w0 q0 ds s \<longleftrightarrow> table_loaded s \<and> breaker_ready s \<and> dlq s = q0 \<and>
     (\<exists>ds1 ds2. ds = ds1 @ ds2 \<and> written s = w0 @ map decision_values ds1 \<and> buffer s = map decision_record ds2)"

lemma flush_holding:
  assumes "holding w0 q0 ds s" "list_all named ds" "distinct (map fd_transaction_id ds)" "calm e"
  obtains s' where "decisions_flush n sf e s = (s', None)" "holding w0 q0 ds s'" "buffer s' = []"
    "written s' = w0 @ map decision_values ds"
proof -
  obtain ds1 ds2 where h: "ds = ds1 @ ds2" "written s = w0 @ map decision_values ds1" "buffer s = map decision_record ds2"
      "table_loaded s" "breaker_ready s" "dlq s = q0"
    using assms(1) by (auto simp: holding_def)
  show thesis
  proof (cases "ds2 = []")
    case True
    then show ?thesis using h that [of s] assms(1) by (simp add: decisions_flush_def flush_frame_def)
  next
    case False
    have ids: "list_all string_id (map decision_record ds2)"
      using assms(2) h(1) by (auto simp: list_all_iff named_string_id)
    have "keep_first rec_key {} (map decision_record ds2) = map decision_record ds2"
      using assms(3) h(1) by (intro keep_first_id) (simp_all add: o_def)
    then have dd: "deduplicate (map decision_record ds2) = Inr (map decision_record ds2)"
      using deduplicate_eq [OF ids] by simp
    have t: "decision_table sf (map decision_record ds2) = Inr (map decision_values ds2)"
      using assms(2) h(1) by (intro decision_table_values) simp
    let ?s' = "fst (decisions_flush n sf e s)"
    have f: "snd (decisions_flush n sf e s) = None" "buffer ?s' = []" "written ?s' = written s @ map decision_values ds2"
      "table_loaded ?s'" "breaker_ready ?s'" "dlq ?s' = dlq s"
      using False h(3-5) assms(4)
      by (auto simp: decisions_flush_def flush_frame_def decisions_write_def submit_append_def append_rows_def dd t calm_def
          count_metric_def Let_def)
    then have "written ?s' = w0 @ map decision_values ds" using h(1,2) by simp
    moreover from this have "holding w0 q0 ds ?s'"
      unfolding holding_def using f h(6) by (intro conjI exI [of _ ds] exI [of _ "[]"]) simp_all
    ultimately show ?thesis using f that [of ?s'] by (metis prod.collapse)
  qed
qed

lemma invoke_holding:
  assumes "holding w0 q0 ds s" "list_all named (ds @ [d])" "distinct (map fd_transaction_id (ds @ [d]))"
    "calm (fst es)" "calm (snd es)"
  shows "holding w0 q0 (ds @ [d]) (decisions_invoke n sf es s (decision_record d))"
proof -
  have ok: "list_all named ds" "distinct (map fd_transaction_id ds)" using assms(2,3) by simp_all
  obtain s1 where s1: "(if second_elapsed (env_now (fst es)) s then decisions_flush n sf (fst es) s else (s, None)) = (s1, None)"
    "holding w0 q0 ds s1"
    using flush_holding [OF assms(1) ok assms(4), of n sf] assms(1) by (metis (full_types))
  let ?s2 = "s1\<lparr>buffer := buffer s1 @ [decision_record d]\<rparr>"
  obtain ds1 ds2 where "ds = ds1 @ ds2" "written s1 = w0 @ map decision_values ds1" "buffer s1 = map decision_record ds2"
    using s1(2) by (auto simp: holding_def)
  then have h2: "holding w0 q0 (ds @ [d]) ?s2"
    using s1(2) unfolding holding_def by (intro conjI exI [of _ ds1] exI [of _ "ds2 @ [d]"]) simp_all
  obtain s3 where "decisions_flush n sf (snd es) ?s2 = (s3, None)" "holding w0 q0 (ds @ [d]) s3"
    using flush_holding [OF h2 assms(2,3,5), of n sf] by blast
  then show ?thesis using s1(1) h2 by (simp add: decisions_invoke_def flush_then_append_def Let_def)
qed

lemma stream_holding:
  "holding w0 q0 ds s \<Longrightarrow> list_all named (ds @ map snd xs) \<Longrightarrow> distinct (map fd_transaction_id (ds @ map snd xs)) \<Longrightarrow>
   list_all (\<lambda>(es, d). calm (fst es) \<and> calm (snd es)) xs \<Longrightarrow>
   \<exists>s'. sink_stream n sf xs (Some s) = Some s' \<and> holding w0 q0 (ds @ map snd xs) s'"
proof (induction xs arbitrary: ds s)
  case (Cons x xs)
  obtain es d where x: "x = (es, d)" by (metis surj_pair)
  have "holding w0 q0 (ds @ [d]) (decisions_invoke n sf es s (decision_record d))"
    using Cons.prems x by (intro invoke_holding) auto
  from Cons.IH [OF this] show ?case using Cons.prems x by (simp add: IcebergSinkFunction_map_def)
qed simp

section \<open>Properties\<close>

text \<open>The sink loses and repeats nothing. Decisions with distinct identifiers, streamed into an opened sink
  whose buffer is empty and then closed, are all in the table, one row each, in their order and with their
  values, however the flushes by time and by size cut them into batches; nothing is dead-lettered.\<close>

theorem decisions_table_exact:
  assumes "table_loaded s" "breaker_ready s" "buffer s = []"
    and "list_all named (map snd xs)" "distinct (map (fd_transaction_id \<circ> snd) xs)"
    and "list_all (\<lambda>(es, d). calm (fst es) \<and> calm (snd es)) xs" "calm e"
  shows "\<exists>s1 s2. sink_stream n sf xs (Some s) = Some s1 \<and> decisions_close n sf e s1 = (s2, None) \<and>
    written s2 = written s @ map (decision_values \<circ> snd) xs \<and> dlq s2 = dlq s \<and> buffer s2 = []"
proof -
  have "holding (written s) (dlq s) [] s" using assms(1-3) by (simp add: holding_def)
  then obtain s1 where s1: "sink_stream n sf xs (Some s) = Some s1" "holding (written s) (dlq s) (map snd xs) s1"
    using stream_holding [of "written s" "dlq s" "[]" s xs n sf] assms(4-6) by (auto simp: o_def)
  have "distinct (map fd_transaction_id (map snd xs))" using assms(5) by simp
  then obtain s2 where "decisions_flush n sf e s1 = (s2, None)" "holding (written s) (dlq s) (map snd xs) s2"
    "buffer s2 = []" "written s2 = written s @ map decision_values (map snd xs)"
    using flush_holding [OF s1(2) assms(4) _ assms(7), of n sf] by blast
  then show ?thesis using s1(1) by (auto simp: decisions_close_def holding_def)
qed

lemma distinct_count: "distinct xs \<Longrightarrow> count_list xs i = (if i \<in> set xs then 1 else 0)"
  by (induction xs) auto

text \<open>C2: Every accepted payment has one row. The server answers requests, Kafka delivers accepted events to
  the job in any order and number, the job decides, and the decisions go through the open sink into an
  empty table. Assumed: the codec and schema laws of the topic, a clock of the ingestion hosts between 2004
  and 2038, all deliveries within one lifetime (48 hours) of the deduplication state, and a sink for which
  Arrow builds every batch and every append lands. Then the identifiers in the table are those of the first
  deliveries, in their order and less the late ones, and the sink dead-letters nothing; when every
  accepted event is delivered and none is late, an identifier has exactly one row if the producer accepted
  an event with it, so in particular if it was answered with 200, and none otherwise. (A request whose
  answer could not be written, or whose poll raised, may have its row without the 200.)\<close>

theorem accepted_payments_have_one_row:
  assumes "avro_fields enc dec" "0 \<le> sid" "sid < 2 ^ 32" "jp_rules p = Some rules"
    and "list_all (\<lambda>rq. serialises enc (rq_env rq) \<and> clock_ok (rq_env rq)) requests" "p_events s = []"
    and "serve_forever cfg ch json_loads requests s = (s', answers)"
    and "set (map snd deliveries) \<subseteq> set (p_events s')"
    and "\<forall>x \<in> set deliveries. t0 \<le> ec_proc_now (fst x) \<and> ec_proc_now (fst x) < t0 + dedup_ttl_ms"
    and stream: "map snd xs = jo_decisions (run_enrichment_job p version (txn_reader dec) geo dumps clock
      (map (\<lambda>(ec, ev). (ec, projr (topic_message enc sid ev))) deliveries))"
    and "table_loaded k" "breaker_ready k" "buffer k = []" "written k = []" "dlq k = []"
    and "list_all (\<lambda>(es, d). calm (fst es) \<and> calm (snd es)) xs" "calm e"
  shows "\<exists>k1 k2. sink_stream n sf xs (Some k) = Some k1 \<and> decisions_close n sf e k1 = (k2, None) \<and> dlq k2 = [] \<and>
    map hd (written k2) = map (\<lambda>x. dget (snd x) ''transaction_id'')
      (filter (\<lambda>x. \<not> too_late (jp_allowed_lateness_ms p) (fst x))
        (keep_first (\<lambda>x. dget (snd x) ''transaction_id'') {} deliveries)) \<and>
    (set (p_events s') \<subseteq> set (map snd deliveries) \<and>
       (\<forall>x \<in> set deliveries. \<not> too_late (jp_allowed_lateness_ms p) (fst x)) \<longrightarrow>
      (\<forall>i. count_list (map hd (written k2)) i = (if i \<in> set (queued_ids s') then 1 else 0)) \<and>
      (\<forall>i \<in> set (concat (map answered_id answers)). count_list (map hd (written k2)) i = 1))"
proof -
  let ?ids = "map fd_transaction_id (map snd xs)"
  note once = payments_decided_once [OF assms(1-9) refl, of version geo dumps clock, folded stream]
  have arrivals: "\<forall>x \<in> set (map (\<lambda>(ec, ev). (ec, projr (topic_message enc sid ev))) deliveries).
      t0 \<le> ec_proc_now (fst x) \<and> ec_proc_now (fst x) < t0 + dedup_ttl_ms"
    using assms(9) by auto
  have "set ?ids \<subseteq> range PStr"
    unfolding stream job_decides_each_once [OF assms(4) arrivals] by auto
  then have "list_all named (map snd xs)" by (auto simp: list_all_iff named_def)
  moreover have d: "distinct ?ids" by (rule once [THEN conjunct2, THEN conjunct1])
  then have "distinct (map (fd_transaction_id \<circ> snd) xs)" by simp
  ultimately obtain k1 k2 where k: "sink_stream n sf xs (Some k) = Some k1" "decisions_close n sf e k1 = (k2, None)"
    "written k2 = map (decision_values \<circ> snd) xs" "dlq k2 = []"
    using decisions_table_exact [OF assms(11-13) _ _ assms(16,17), of n sf] assms(14,15) by auto
  have "subseq (concat (map answered_id answers)) (queued_ids s')"
    using serve_ids [of cfg ch json_loads requests s] assms(6,7) by simp
  from list_emb_set [OF this] have answered: "set (concat (map answered_id answers)) \<subseteq> set (queued_ids s')" by blast
  have hd: "map hd (written k2) = ?ids" by (simp add: k(3) decision_values_def)
  then have order: "map hd (written k2) = map (\<lambda>x. dget (snd x) ''transaction_id'')
      (filter (\<lambda>x. \<not> too_late (jp_allowed_lateness_ms p) (fst x))
        (keep_first (\<lambda>x. dget (snd x) ''transaction_id'') {} deliveries))"
    using once [THEN conjunct1] by (rule trans)
  have "set (p_events s') \<subseteq> set (map snd deliveries) \<and>
      (\<forall>x \<in> set deliveries. \<not> too_late (jp_allowed_lateness_ms p) (fst x)) \<longrightarrow>
      (\<forall>i. count_list (map hd (written k2)) i = (if i \<in> set (queued_ids s') then 1 else 0)) \<and>
      (\<forall>i \<in> set (concat (map answered_id answers)). count_list (map hd (written k2)) i = 1)"
    using once [THEN conjunct2, THEN conjunct2] answered unfolding hd distinct_count [OF d] by (metis subsetD)
  with order show ?thesis using k(1,2,4) by blast
qed

text \<open>An open sink, and the payment of End_To_End delivered twice.\<close>

definition calm_env :: flush_env where
  "calm_env = \<lparr>env_now = 5, env_arrow = (\<lambda>rows. None), env_append = Appended\<rparr>"

definition open_table :: catalog_sink where
  "open_table = fst (decisions_open None None (decisions_init 0))"

definition arrival_decisions :: "fraud_decision list" where
  "arrival_decisions = jo_decisions (run_enrichment_job sample_plan ''v'' (txn_reader binary_decoder) None (\<lambda>_. []) (\<lambda>_. 0)
     (map (\<lambda>(ec, ev). (ec, projr (topic_message binary_encoder 7 ev))) (replicate 2 (idle_context, arrival_event))))"

lemma accepted_payments_have_one_row_witness:
  "\<exists>k1 k2. sink_stream 100 (\<lambda>v. []) (map (Pair (calm_env, calm_env)) arrival_decisions) (Some open_table) = Some k1 \<and>
     decisions_close 100 (\<lambda>v. []) calm_env k1 = (k2, None) \<and> count_list (map hd (written k2)) (PStr ''t1'') = 1"
proof (rule arrival_served)
  fix s' body
  assume e: "do_POST arrival_env MaskingConfig_default ''API'' (\<lambda>_. Inr (PDict arrival_payload)) ''/v1/transactions''
      (Some ''2'') (\<lambda>_. ''{}'') fresh_producer = (s', Inr (200, body))" "p_events s' = [arrival_event]"
    "dget body ''transaction_id'' = PStr ''t1''"
  let ?xs = "map (Pair (calm_env, calm_env)) arrival_decisions"
  have served: "serve_forever MaskingConfig_default ''API'' (\<lambda>_. Inr (PDict arrival_payload)) [arrival_request] fresh_producer =
      (s', [Inr (200, body)])"
    using e(1) by (simp add: arrival_request_def)
  have sink: "table_loaded open_table" "breaker_ready open_table" "buffer open_table = []" "written open_table = []" "dlq open_table = []"
    by (simp_all add: open_table_def decisions_open_def decisions_init_def)
  have calm: "calm calm_env" by (simp add: calm_def calm_env_def)
  have n: "(0::int) \<le> 7" "(7::int) < 2 ^ 32" "jp_rules sample_plan = Some []" "p_events fresh_producer = []"
    by (simp_all add: sample_plan_def fresh_producer_def)
  have stream: "map snd ?xs = jo_decisions (run_enrichment_job sample_plan ''v'' (txn_reader binary_decoder) None (\<lambda>_. []) (\<lambda>_. 0)
     (map (\<lambda>(ec, ev). (ec, projr (topic_message binary_encoder 7 ev))) (replicate 2 (idle_context, arrival_event))))"
    by (simp add: arrival_decisions_def o_def)
  have reqs: "list_all (\<lambda>rq. serialises binary_encoder (rq_env rq) \<and> clock_ok (rq_env rq)) [arrival_request]"
    using arrival_laws by (simp add: arrival_request_def)
  have del: "set (map snd (replicate 2 (idle_context, arrival_event))) \<subseteq> set (p_events s')"
    "\<forall>x \<in> set (replicate 2 (idle_context, arrival_event)). 0 \<le> ec_proc_now (fst x) \<and> ec_proc_now (fst x) < 0 + dedup_ttl_ms"
    using e(2) by (simp_all add: idle_context_def dedup_ttl_ms_def)
  have cs: "list_all (\<lambda>(es, d). calm (fst es) \<and> calm (snd es)) ?xs" using calm by (simp add: list_all_iff)
  from accepted_payments_have_one_row [OF binary_fields n(1-3) reqs n(4) served del stream sink cs calm, of 100 "\<lambda>v. []"]
  show ?thesis using e(2,3) by (fastforce simp: answered_id_def too_late_def idle_context_def)
qed

end
