(* ===== verification/Metric_Updates.thy ===== *)
theory Metric_Updates
  imports Metrics_Bridge Velocity_Op Iceberg_Sinks Producer Ml_Client Tracing
begin

text \<open>
  What the components report to Prometheus: the update that each recorded metric event stands for, as the
  call in the code writes it, checked against the declarations of Metric_Decls; and what the counters of
  the rules add up to over a run, which the alert rules and the page on shadow rules read.
\<close>

section \<open>The updates of each component\<close>

text \<open>\<open>record_evaluation\<close>, \<open>record_flag\<close>, \<open>record_trigger\<close>, \<open>record_shadow_trigger\<close>,
  \<open>record_shadow_fp\<close>; \<open>record_active_fp\<close> is below, since no metric event calls it.\<close>

fun evaluator_update :: "metric \<Rightarrow> metric_update" where
  "evaluator_update (MEvaluation i f) = update Inc ''rule_evaluations_total'' [(''rule_id'', i), (''rule_family'', f)]"
| "evaluator_update (MFlag i f sev) =
     update Inc ''rule_flags_total'' [(''rule_id'', i), (''rule_family'', f), (''severity'', sev)]"
| "evaluator_update (MTrigger i) = update Inc ''rule_triggers_total'' [(''rule_id'', i)]"
| "evaluator_update (MShadowTrigger i) =
     update Inc ''rule_shadow_triggers_total'' [(''rule_id'', i), (''mode'', ''shadow'')]"
| "evaluator_update (MShadowFp i) = update Inc ''rule_shadow_fp_total'' [(''rule_id'', i)]"

definition record_active_fp :: "string \<Rightarrow> metric_update" where
  "record_active_fp i = update Inc ''rule_active_fp_total'' [(''rule_id'', i)]"

definition evaluation_error_update :: metric_update where
  "evaluation_error_update = update Inc ''evaluation_errors_total'' []"

fun producer_update :: "pmetric \<Rightarrow> metric_update" where
  "producer_update (PErrors t) = update Inc ''ERRORS_TOTAL'' [(''topic'', ''txn.api''), (''error_type'', t)]"
| "producer_update PDlqDepth = update Inc ''DLQ_DEPTH'' [(''topic'', ''txn.api.dlq'')]"
| "producer_update (PSchemaError t) =
     update Inc ''SCHEMA_VALIDATION_ERRORS'' [(''topic'', ''txn.api''), (''error_type'', t)]"
| "producer_update PAccepted = update Inc ''EVENTS_TOTAL'' [(''topic'', ''txn.api''), (''status'', ''accepted'')]"
| "producer_update (PLatency ms) = update Observe ''PUBLISH_LATENCY'' [(''topic'', ''txn.api'')]"

text \<open>A late element that is still accepted makes two updates.\<close>

fun velocity_updates :: "vmetric \<Rightarrow> metric_update list" where
  "velocity_updates VDlq = [update Inc ''dlq_events_total'' [(''error_type'', ''LATE_EVENT_BEYOND_ALLOWED_LATENESS'')]]"
| "velocity_updates VLateBeyond =
     [update Inc ''late_events_beyond_window_total'' [(''stage'', ''velocity''), (''topic'', ''txn.api'')]]"
| "velocity_updates (VLateWithin d) =
     [update Inc ''late_events_within_window_total'' [(''stage'', ''velocity'')],
      update Observe ''corrected_record_latency_ms'' [(''stage'', ''velocity'')]]"

text \<open>What is observed for it: the milliseconds behind the watermark, divided by 1000.\<close>

definition corrected_latency :: "int \<Rightarrow> pyfloat" where
  "corrected_latency behind_ms = to_double (of_int behind_ms / 1000)"

definition watermark_update :: metric_update where
  "watermark_update = update Set_value ''last_watermark_advance_epoch'' []"

definition dedup_skipped_update :: metric_update where
  "dedup_skipped_update = update Inc ''dedup_skipped_total'' []"

definition enrichment_latency_update :: metric_update where
  "enrichment_latency_update = update Observe ''enrichment_latency_ms'' []"

definition checkpoint_aborted_update :: metric_update where
  "checkpoint_aborted_update = update Inc ''checkpoint_failures_total'' []"

fun enriched_sink_update :: "sink_metric \<Rightarrow> metric_update" where
  "enriched_sink_update Buffer_overflow = update Inc ''iceberg_buffer_overflow_total'' []"
| "enriched_sink_update Catalog_unavailable = update Inc ''iceberg_catalog_unavailable_total'' []"
| "enriched_sink_update Flush_duration = update Observe ''iceberg_flush_duration_seconds'' []"
| "enriched_sink_update Feast_push_failure = update Inc ''feast_push_failures_total'' []"
| "enriched_sink_update (Materialization_lag d) = update Set_value ''feature_materialization_lag_ms'' []"

text \<open>The sink of the decisions counts two of them, under names of its own.\<close>

fun decisions_sink_update :: "sink_metric \<Rightarrow> metric_update option" where
  "decisions_sink_update Buffer_overflow = Some (update Inc ''iceberg_decisions_buffer_overflow_total'' [])"
| "decisions_sink_update Catalog_unavailable = Some (update Inc ''iceberg_decisions_catalog_unavailable_total'' [])"
| "decisions_sink_update m = None"

fun serving_update :: "serving_metric \<Rightarrow> metric_update" where
  "serving_update Retrieval_seconds = update Observe ''feature_store_retrieval_seconds'' []"
| "serving_update (Store_fallback Timeout) = update Inc ''feature_store_fallback_total'' [(''reason'', ''timeout'')]"
| "serving_update (Store_fallback Unavailable) = update Inc ''feature_store_fallback_total'' [(''reason'', ''unavailable'')]"
| "serving_update Store_miss = update Inc ''feature_store_miss_total'' []"

text \<open>A change of state sets the gauge of every state; so does the module when it is imported.\<close>

definition ml_listener_updates :: "metric_update list" where
  "ml_listener_updates = map (\<lambda>s. update Set_value ''ml_circuit_breaker_state'' [(''state'', s)]) gauge_states"

definition open_call_update :: metric_update where
  "open_call_update = update Inc ''ml_circuit_open_calls_total'' []"

definition iceberg_listener_updates :: "cb_state \<Rightarrow> metric_update list" where
  "iceberg_listener_updates new =
     map (\<lambda>s. update Set_value ''iceberg_circuit_breaker_state'' [(''state'', s)]) gauge_states @
     (if str_of_state new = ''open'' then [update Inc ''iceberg_circuit_breaker_open_total'' []] else [])"

definition tracer_updates :: "metric_update list" where
  "tracer_updates =
     map (\<lambda>t. update Set_value ''trace_sampling_rate'' [(''decision_type'', t)]) [''ALLOW'', ''BLOCK'', ''error'']"

definition thread_died_update :: "string \<Rightarrow> metric_update" where
  "thread_died_update name = update Inc ''bridge_thread_died_total'' [(''thread_name'', name)]"

definition lag_update :: metric_update where
  "lag_update = update Set_value ''analytics_consumer_lag''
     [(''consumer_group'', ''analytics.dashboard''), (''topic'', ''txn.fraud.alerts'')]"

definition consumed_update :: metric_update where
  "consumed_update = update Inc ''analytics_events_consumed_total'' [(''topic'', ''txn.fraud.alerts'')]"

definition restart_update :: metric_update where
  "restart_update = update Inc ''analytics_consumer_restarts_total'' []"

section \<open>The counters of the rules\<close>

text \<open>All updates of an evaluator over a run of transactions, each with the time of its evaluation.\<close>

definition evaluator_log :: "rule_definition list \<Rightarrow> (int \<times> pydict) list \<Rightarrow> metric_update list" where
  "evaluator_log rules run =
     concat (map (\<lambda>(at_ms, txn). map evaluator_update (fst (RuleEvaluator_dispatch rules at_ms txn))) run)"

definition shadow_log :: "rule_definition list \<Rightarrow> (int \<times> pydict) list \<Rightarrow> metric_update list" where
  "shadow_log rules run =
     concat (map (\<lambda>(at_ms, txn). map evaluator_update (fst (ShadowRuleEvaluator_dispatch rules at_ms txn))) run)"

abbreviation triggers_of :: "string \<Rightarrow> metric_update list \<Rightarrow> nat" where
  "triggers_of i \<equiv> series_count ''rule_triggers_total'' [(''rule_id'', i)]"

abbreviation shadow_triggers_of :: "string \<Rightarrow> metric_update list \<Rightarrow> nat" where
  "shadow_triggers_of i \<equiv> series_count ''rule_shadow_triggers_total'' [(''rule_id'', i), (''mode'', ''shadow'')]"

abbreviation shadow_fps_of :: "string \<Rightarrow> metric_update list \<Rightarrow> nat" where
  "shadow_fps_of i \<equiv> series_count ''rule_shadow_fp_total'' [(''rule_id'', i)]"

text \<open>One evaluation: the rules of an id that match, counted per series.\<close>

definition hits_of :: "string \<Rightarrow> rule_mode \<Rightarrow> pydict \<Rightarrow> rule_definition list \<Rightarrow> nat" where
  "hits_of i md txn rules = length (filter (\<lambda>r. rule_id r = i \<and> mode r = md \<and> rule_hit txn r) rules)"

lemma fp_updates:
  "triggers_of i (map (evaluator_update \<circ> (MShadowFp \<circ> f)) xs) = 0"
  "shadow_triggers_of i (map (evaluator_update \<circ> (MShadowFp \<circ> f)) xs) = 0"
  "shadow_fps_of i (map (evaluator_update \<circ> (MShadowFp \<circ> f)) xs) = count_list (map f xs) i"
  by (induction xs) auto

definition balanced :: "string \<Rightarrow> loop_state \<Rightarrow> bool" where
  "balanced i s \<longleftrightarrow>
     triggers_of i (map evaluator_update (Evaluator.metrics s)) = count_list (active_matched s) i \<and>
     shadow_triggers_of i (map evaluator_update (Evaluator.metrics s)) = count_list (shadow_matched s) i \<and>
     shadow_fps_of i (map evaluator_update (Evaluator.metrics s)) = 0"

lemma balanced_steps:
  "balanced i loop_init" "balanced i s \<Longrightarrow> balanced i (evaluated r s)" "balanced i s \<Longrightarrow> balanced i (record_match r s)"
  by (simp_all add: balanced_def loop_init_def evaluated_def record_match_def)

lemma balanced_loop: "balanced i s \<Longrightarrow> balanced i (fst (eval_loop txn rs s))"
proof (induction rs arbitrary: s)
  case (Cons r rs)
  then show ?case
    by (cases "family_dispatch (family r) txn (conditions r)") (auto simp: eval_loop_step balanced_steps)
qed simp

lemma hits_count: "count_list (map rule_id (filter P rules)) i = length (filter (\<lambda>r. rule_id r = i \<and> P r) rules)"
  by (induction rules) auto

text \<open>One evaluation in which no rule raises.\<close>

lemma dispatch_counts:
  fixes at_ms :: int
  assumes "first_error txn rules = None"
  defines "us \<equiv> map evaluator_update (fst (RuleEvaluator_dispatch rules at_ms txn))"
  shows "triggers_of i us = hits_of i Active txn rules" "shadow_triggers_of i us = hits_of i Shadow txn rules"
    "shadow_fps_of i us = (if active_hits txn rules = [] then hits_of i Shadow txn rules else 0)"
proof -
  obtain t where t: "eval_loop txn rules loop_init = (t, None)"
    using assms(1) eval_loop_raises [of txn rules loop_init] by (metis first_error_None prod.collapse)
  have b: "balanced i t" using balanced_loop [OF balanced_steps(1), of i txn rules] t by simp
  have m: "active_matched t = map rule_id (active_hits txn rules)" "shadow_matched t = map rule_id (shadow_hits txn rules)"
    using eval_loop_result [OF t] by (simp_all add: loop_init_def)
  show "triggers_of i us = hits_of i Active txn rules" "shadow_triggers_of i us = hits_of i Shadow txn rules"
    "shadow_fps_of i us = (if active_hits txn rules = [] then hits_of i Shadow txn rules else 0)"
    using b by (simp_all add: us_def RuleEvaluator_dispatch_def t Let_def balanced_def m fp_updates hits_count hits_of_def)
qed

section \<open>Properties\<close>

text \<open>C37: The counters of the rules are exact. Over a run in which no rule raises, the trigger counter of a
  rule identifier is the number of its active matches, the shadow trigger counter the number of its
  shadow matches, and the shadow false-positive counter the number of those shadow matches on
  transactions that no active rule flags; so the rate that gates a promotion is at most one.\<close>

theorem rule_counters_exact:
  assumes "list_all (\<lambda>(at_ms, txn). first_error txn rules = None) run"
  shows "triggers_of i (evaluator_log rules run) = (\<Sum>(at_ms, txn)\<leftarrow>run. hits_of i Active txn rules) \<and>
    shadow_triggers_of i (evaluator_log rules run) = (\<Sum>(at_ms, txn)\<leftarrow>run. hits_of i Shadow txn rules) \<and>
    shadow_fps_of i (evaluator_log rules run) =
      (\<Sum>(at_ms, txn)\<leftarrow>filter (\<lambda>(at_ms, txn). active_hits txn rules = []) run. hits_of i Shadow txn rules) \<and>
    shadow_fps_of i (evaluator_log rules run) \<le> shadow_triggers_of i (evaluator_log rules run)"
  using assms by (induction run) (force simp: evaluator_log_def dispatch_counts)+

lemma rule_counters_exact_witness:
  "shadow_fps_of ''VEL-001'' (evaluator_log [high_velocity_rule\<lparr>mode := Shadow\<rparr>] [(0, busy_txn), (1, busy_txn)]) = 2"
proof -
  let ?rules = "[high_velocity_rule\<lparr>mode := Shadow\<rparr>]"
  have n: "first_error busy_txn ?rules = None" "hits_of ''VEL-001'' Shadow busy_txn ?rules = 1" "active_hits busy_txn ?rules = []"
    by code_simp+
  then have "list_all (\<lambda>(at_ms, txn). first_error txn ?rules = None) [(0, busy_txn), (1, busy_txn)]" by (simp del: first_error.simps)
  from rule_counters_exact [OF this, where i = "''VEL-001''"] n show ?thesis by simp
qed

text \<open>The false positives of active rules are never counted: no update of an evaluator, nor of a shadow
  evaluator, is one of \<open>record_active_fp\<close>, so the alert on their rate cannot fire.\<close>

theorem active_fps_never_counted:
  "record_active_fp i \<notin> set (evaluator_log rules run)" "record_active_fp i \<notin> set (shadow_log rules run)"
proof -
  have "record_active_fp i \<noteq> evaluator_update m" for m
    by (cases m) (simp_all add: record_active_fp_def)
  then show "record_active_fp i \<notin> set (evaluator_log rules run)" "record_active_fp i \<notin> set (shadow_log rules run)"
    by (auto simp: evaluator_log_def shadow_log_def)
qed

text \<open>The shadow evaluator counts a false positive for a rule that did not trigger: on a transaction that no
  shadow rule matches, one for each rule and no trigger.\<close>

theorem shadow_evaluator_counts_untriggered:
  assumes "first_error txn rules = None" "filter (rule_hit txn) rules = []"
  shows "shadow_fps_of i (shadow_log rules [(at_ms, txn)]) = length (filter (\<lambda>r. rule_id r = i) rules) \<and>
    shadow_triggers_of i (shadow_log rules [(at_ms, txn)]) = 0"
proof -
  have "snd (shadow_loop txn rules s) = None \<and> shadow_matched (fst (shadow_loop txn rules s)) = shadow_matched s \<and>
      shadow_triggers_of i (map evaluator_update (Evaluator.metrics (fst (shadow_loop txn rules s)))) =
        shadow_triggers_of i (map evaluator_update (Evaluator.metrics s)) \<and>
      shadow_fps_of i (map evaluator_update (Evaluator.metrics (fst (shadow_loop txn rules s)))) =
        shadow_fps_of i (map evaluator_update (Evaluator.metrics s))" for s
    using assms unfolding first_error_None
  proof (induction rules arbitrary: s)
    case (Cons r rules)
    then have "family_dispatch (family r) txn (conditions r) = Inr False"
      by (cases "family_dispatch (family r) txn (conditions r)") (auto simp: rule_raises_def rule_hit_def)
    with Cons show ?case by (auto simp: shadow_loop.simps(2) Let_def split: if_splits)
  qed simp
  from this [of loop_init] show ?thesis
    using fp_updates [of i rule_id rules]
    by (cases "shadow_loop txn rules loop_init")
      (simp add: shadow_log_def ShadowRuleEvaluator_dispatch_def Let_def loop_init_def o_def hits_count [of "\<lambda>_. True", simplified])
qed

text \<open>Every update fits its declaration: the metric is one the module declares, the label names are the
  declared ones and the method is one of its kind. The events are all those the models of the components
  record, with the fixed updates beside them.\<close>

theorem metric_updates_fit:
  "fits scoring_metrics (evaluator_update m) \<and> fits scoring_metrics (record_active_fp i) \<and>
   fits scoring_metrics evaluation_error_update \<and> fits scoring_metrics (serving_update sm) \<and>
   fits ingestion_metrics (producer_update pm) \<and> list_all (fits processing_metrics) (velocity_updates vm) \<and>
   list_all (fits processing_metrics)
     [watermark_update, dedup_skipped_update, enrichment_latency_update, checkpoint_aborted_update] \<and>
   fits (processing_metrics @ scoring_metrics) (enriched_sink_update k) \<and>
   pred_option (fits scoring_metrics) (decisions_sink_update k) \<and>
   list_all (fits ml_breaker_metrics) (open_call_update # ml_listener_updates) \<and>
   list_all (fits iceberg_breaker_metrics) (iceberg_listener_updates new) \<and>
   list_all (fits telemetry_metrics) tracer_updates \<and> fits bridge_metrics (thread_died_update name) \<and>
   list_all (fits analytics_metrics) [lag_update, consumed_update, restart_update]"
proof (intro conjI)
  note d = fits_def update_def module_defs
  show "fits scoring_metrics (evaluator_update m)" by (cases m) (auto simp: d)
  show "fits scoring_metrics (serving_update sm)" by (cases sm rule: serving_update.cases) (auto simp: d)
  show "fits ingestion_metrics (producer_update pm)" by (cases pm) (auto simp: d)
  show "list_all (fits processing_metrics) (velocity_updates vm)" by (cases vm) (auto simp: d)
  show "fits (processing_metrics @ scoring_metrics) (enriched_sink_update k)" by (cases k) (simp_all add: d)
  show "pred_option (fits scoring_metrics) (decisions_sink_update k)" by (cases k) (simp_all add: d)
  show "list_all (fits iceberg_breaker_metrics) (iceberg_listener_updates new)"
    by (simp add: d iceberg_listener_updates_def gauge_states_def)
qed (auto simp: fits_def update_def module_defs record_active_fp_def evaluation_error_update_def watermark_update_def
    dedup_skipped_update_def enrichment_latency_update_def checkpoint_aborted_update_def open_call_update_def
    ml_listener_updates_def gauge_states_def tracer_updates_def thread_died_update_def lag_update_def
    consumed_update_def restart_update_def)

text \<open>The latency of a late element is observed in seconds by a histogram of milliseconds: everything up to a
  second behind the watermark falls into its first bucket, and with the default lateness of 30 seconds no
  element reaches the bucket above 50.\<close>

lemma corrected_latency_in_seconds:
  "corrected_latency 1000 = Fin 1" "corrected_latency 30000 = Fin 30"
  by code_simp+

end
