(* ===== verification/Spec2Isabelle.thy ===== *)
theory Spec2Isabelle
  imports Rules Evaluator Decision Alert_Sinks Masking Producer Wire Velocity_Op Device_Op Enrich
    Sink_Base Features Feature_Client Iceberg_Sinks Iceberg_Dlq Replay_Models Replay_Sources Replay Replay_Store Management Management_App
    Ml_Client Analytics Metrics_Bridge Job Tracing Observability Queries Dash_Base Dash_Feed Dash_Dlq Dash_Charts
    Dash_Shadow Dash_Scoring Dash_Replay Dash_Traces Schema_Tools Generators Simulation
    Ingestion_Service Wire_Schemas End_To_End Decision_Table
    Metric_Decls Metric_Updates
begin

text \<open>
  A verification library for \<^bold>\<open>fraudstream\<close>, a streaming fraud-detection pipeline in Python.
  Paths are relative to \<open>src/\<close>.

  \<^bold>\<open>The program.\<close> A payment event enters over HTTP (\<open>pipelines/ingestion\<close>), is validated, its card
  and address masked, and published to Kafka. A Flink job (\<open>pipelines/processing\<close>) reads it back,
  drops duplicates, adds velocity, geolocation and device fields, assembles the enriched record, and
  writes it to an Iceberg table and the online feature store. The scoring stage
  (\<open>pipelines/scoring\<close>) evaluates the fraud rules on the enriched record, raises alerts to Kafka and
  Postgres, and writes one decision per transaction to Iceberg. Beside it stand a management service, the
  replay of recorded events, Streamlit pages over Iceberg, Kafka and Prometheus (\<open>analytics\<close>), and
  operational scripts (\<open>scripts\<close>).

  \<^bold>\<open>How Python is read.\<close> Dynamic values are the datatype \<open>pyval\<close> (Pyval), dicts association lists in
  insertion order, doubles exact rationals with explicit rounding (Py_Float), \<open>int(x)\<close>, \<open>float(x)\<close>
  and \<open>Decimal(str(x))\<close> functions on them (Py_Parse). A function that may raise returns
  \<open>'a result\<close>; an object with state is a record that its methods return updated. Code that is not
  under \<open>src/\<close> is an argument: Kafka, Postgres, the Avro codec, the schema registry, the GeoIP
  database, \<open>pyarrow\<close>, the Iceberg catalog, \<open>pybreaker\<close>, Feast, the clock. No theorem restricts what
  they do beyond what it states.

  \<^bold>\<open>Theories.\<close>
  \<^item> Prelude, Pyval, Py_Float, Py_Parse: exceptions, values, dicts, floating point, number parsing.
  \<^item> Rules (\<open>scoring/rules/models.py\<close>, \<open>loader.py\<close>): severities, validation of a rule, loading.
  \<^item> Evaluator (\<open>scoring/rules/families\<close>, \<open>evaluator.py\<close>): rule families, dispatch, shadow mode. The
    specification of a dispatch is \<open>first_error\<close> and \<open>expected_result\<close>.
  \<^item> Config: the configuration classes and the parsing of the environment.
  \<^item> Decision (\<open>scoring/types.py\<close>, \<open>job_extension.py\<close>): the decision and the alert of a transaction.
  \<^item> Broker, Alert_Sinks (\<open>scoring/sinks/alert_*.py\<close>, \<open>shadow_decisions_kafka.py\<close>): the sinks of alerts,
    behind the interface \<open>alert_sink\<close>.
  \<^item> Masking (\<open>ingestion/shared/pii_masker\<close>), Producer (\<open>ingestion/api/producer.py\<close>,
    \<open>dlq_producer.py\<close>, \<open>schema_registry.py\<close>): masking, validation, publication, the HTTP handler.
    Ingestion_Service: its start, the server loop over a sequence of requests, the final flush.
  \<^item> Wire (\<open>processing/shared\<close>): the wire format and the dead letters of the processor. Wire_Schemas: the
    schema the ingestion service writes with and the one the job reads with, and reading by position.
  \<^item> Velocity_Op, Device_Op, Enrich (\<open>processing/operators\<close>, \<open>job.py\<close>): the keyed operators and the
    chain of one element through them.
  \<^item> Sink_Base, Iceberg_Sinks (\<open>shared/iceberg_sink_base.py\<close>, \<open>iceberg_sink.py\<close>,
    \<open>iceberg_decisions.py\<close>): the buffered sinks, behind the interfaces \<open>flushable\<close> and
    \<open>buffered_sink\<close>; Features (\<open>feature_schema.py\<close>, \<open>feature_materializer.py\<close>,
    \<open>feature_serving.py\<close>): the online features. Iceberg_Dlq: the events of lost batches. Feature_Client: the
    life of the serving client and the backlog of its executor.
  \<^item> Replay_Models, Replay_Sources, Replay (\<open>pipelines/replay\<close>): the replay of recorded events, its
    three sources, the sink of the results, the job. Replay_Store: the Iceberg write of the results and its
    flushes, as interleaved steps.
  \<^item> Management (\<open>scoring/management_api.py\<close>): demoting and promoting rules on disk, the endpoints of
    the replay jobs, as the transition relation \<open>api_step\<close>. Management_App: its start, the middleware
    around the endpoints, the log of the mode changes.
  \<^item> Ml_Client (\<open>scoring/ml_client.py\<close>, the two \<open>circuit_breaker.py\<close>), Metrics_Bridge
    (\<open>processing/kafka_metrics_bridge.py\<close>), Analytics (\<open>analytics/consumers\<close>): scoring with a fallback,
    counting from the topics, the queue behind the dashboard.
  \<^item> Job (\<open>processing/job.py\<close>): the command line, the plan \<open>build_job\<close> makes, \<open>main\<close> with its bridge, and
    the run of a plan over a stream of payloads, up to the decisions.
  \<^item> Tracing (\<open>shared/tracing.py\<close>, the \<open>telemetry.py\<close> of each service), Observability (safe metrics, metric
    servers, logging, Arrow tables): trace contexts in Kafka headers, spans around a function, wrappers
    that must not change a result.
  \<^item> Queries (\<open>analytics/queries\<close>): the SQL of the dashboards as list functions.
  \<^item> Dash_Base (what the pages share), Dash_Feed (pages 1 and Home), Dash_Charts (pages 2 to 4,
    \<open>widgets.py\<close>), Dash_Dlq (page 5), Dash_Shadow (page 6), Dash_Scoring (page 08), Dash_Replay (page 09),
    Dash_Traces (page 10): what each page asks for and what it shows of the answers.
  \<^item> Schema_Tools (\<open>evolve_iceberg_schema.py\<close>, \<open>iceberg_init.py\<close>, \<open>validate_feast_schemas.py\<close>,
    \<open>storage/feature_store\<close>): table schemas, their evolution, feature views. Generators
    (\<open>generate_transactions.py\<close>, \<open>generate_dlq.py\<close>) and Simulation (\<open>simulate_persistence.py\<close>): synthetic
    traffic, run into the ingestion service and the sinks.
  \<^item> Metric_Decls (the metrics each module declares) and Metric_Updates (the update behind every metric event
    of the other theories, and what the counters of the rules add up to).
  \<^item> End_To_End: what the ingestion service answers with 200 is what the job reads and decides, over a topic
    that delivers at least once and in any order. Decision_Table: the decisions through their sink into the
    table, one row for each accepted payment.
  \<^item> This theory: what a demotion means for the decisions of the scoring engine.

  \<^bold>\<open>Bounds.\<close> Strings are sequences of code points below 256. The geolocation cache holds 10000
  entries as in the code. The exactness of amounts is stated up to 2 ^ 50 units of 0.0001, where a
  double still tells them apart. The search for the shortest decimal of a double tries 1 to 17
  digits, which always suffice. Flattening the spans of a trace may run forever, so it is a partial
  function and its property states when it returns; the type of an Avro field is a recursion on the
  size of the value. All other loops are structural recursions, so no fuel is used elsewhere.

  \<^bold>\<open>Not modelled.\<close> What Prometheus does with metrics, log lines and the layout of the pages; the
  engines behind a query (DuckDB, PyIceberg, Prometheus, Jaeger), which answer as an argument says;
  the execution of the Flink plan by the cluster, which is taken as one operator chain over the
  stream; HTTP routing and rate limiting of the management service; the protocol classes, which
  declare signatures without code.
\<close>

section \<open>From the management service to the decision\<close>

lemma loaded_without_rule:
  assumes "\<And>r. r \<in> set rules \<Longrightarrow> rule_id r = rid \<Longrightarrow> mode r = Shadow \<and> \<not> rule_raises txn r"
  shows "active_hits txn (filter (\<lambda>r. rule_id r \<noteq> rid) rules) = active_hits txn rules"
    "(first_error txn (filter (\<lambda>r. rule_id r \<noteq> rid) rules) = None) = (first_error txn rules = None)"
  using assms by (auto simp: first_error_None intro: filter_cong)

text \<open>C6: A rule demoted through the service stops deciding once the scoring engine reads the file: every
  transaction it does not make fail is decided as if the rule were absent. A transaction on which
  the demoted rule raises is allowed, whatever the other rules say.\<close>

theorem demoted_rule_decides_nothing:
  assumes "pydantic_accepts P" "\<And>c. plain (PDict c) \<Longrightarrow> jc c = Inr c"
    and "rules_wf (ap_rules st)" "demote_rule jc yaml_dump out rid st = (st', Inr resp)"
    and "safe_load (yaml_dump (PList (map (rule_doc \<circ> snd) (ap_rules st')))) =
      Inr (PList (canon_list (map (rule_doc \<circ> snd) (ap_rules st'))))"
  shows "\<exists>rules. RuleLoader_load P (\<lambda>_. Inr (ap_file st')) safe_load path = Inr rules \<and>
    fd_decision (decision_of rules eval_ms txn) =
      (if list_ex (\<lambda>r. rule_id r = rid \<and> rule_raises txn r) rules then ALLOW
       else fd_decision (decision_of (filter (\<lambda>r. rule_id r \<noteq> rid) rules) eval_ms txn))"
proof -
  let ?rules = "filter enabled (map (reloaded \<circ> snd) (ap_rules st'))"
  have load: "RuleLoader_load P (\<lambda>_. Inr (ap_file st')) safe_load path = Inr ?rules"
    and rules: "ap_rules st' = map (\<lambda>(k, r). (k, if k = rid then r\<lparr>mode := Shadow\<rparr> else r)) (ap_rules st)"
    using demotion_reload [where safe_load = safe_load and P = P, OF assms] by blast+
  have shadow: "mode r = Shadow" if "r \<in> set ?rules" "rule_id r = rid" for r
  proof -
    from that(1) obtain k r0 where x: "(k, r0) \<in> set (ap_rules st)"
        "r = reloaded (if k = rid then r0\<lparr>mode := Shadow\<rparr> else r0)"
      unfolding rules by (auto simp del: if_split)
    have "k = rule_id r0" using assms(3) x(1) by (auto simp: rules_wf_def list_all_iff)
    with x(2) that(2) show ?thesis by (cases "k = rid") (simp_all add: reloaded_def)
  qed
  show ?thesis
  proof (cases "list_ex (\<lambda>r. rule_id r = rid \<and> rule_raises txn r) ?rules")
    case True
    then have "first_error txn ?rules \<noteq> None" by (auto simp: first_error_None list_ex_iff)
    with True load show ?thesis by (intro exI [of _ ?rules]) (simp add: decision_formula)
  next
    case False
    then have "r \<in> set ?rules \<Longrightarrow> rule_id r = rid \<Longrightarrow> mode r = Shadow \<and> \<not> rule_raises txn r" for r
      using shadow by (auto simp: list_ex_iff)
    note same = loaded_without_rule [OF this]
    show ?thesis using False load by (intro exI [of _ ?rules]) (simp only: decision_formula same if_False simp_thms)
  qed
qed

lemma demoted_rule_decides_nothing_witness:
  "\<exists>rules. RuleLoader_load pydantic_exact (\<lambda>_. Inr ''yaml'') (\<lambda>_. Inr (PList (canon_list sample_docs))) ''rules.yaml'' = Inr rules
     \<and> fd_decision (decision_of rules 0 busy_txn) =
        (if list_ex (\<lambda>r. rule_id r = ''VEL-001'' \<and> rule_raises busy_txn r) rules then ALLOW
         else fd_decision (decision_of (filter (\<lambda>r. rule_id r \<noteq> ''VEL-001'') rules) 0 busy_txn))"
proof -
  let ?st' = "(set_rule_mode ''VEL-001'' Shadow sample_api)\<lparr>ap_file := ''yaml''\<rparr>"
  have docs: "map (rule_doc \<circ> snd) (ap_rules ?st') = sample_docs"
    by (simp add: sample_docs_def set_rule_mode_def sample_api_def sample_rule_def)
  show ?thesis
    using demoted_rule_decides_nothing [OF pydantic_exact_accepts _ sample_rules_wf sample_demote,
        of "\<lambda>_. Inr (PList (canon_list sample_docs))" "''rules.yaml''" 0 busy_txn]
    unfolding docs by simp
qed

end
